(* ===== verification/Prelude.thy ===== *)
theory Prelude
  imports Main "HOL-Library.Word" "HOL-Library.Sublist"
begin

text \<open>
  Vocabulary shared by the component theories: the machine integers and byte strings of the Rust
  sources, the result type of fallible code, the parts of the Rust standard library for strings
  and integer text that the sources use, and the generic lemmas on them.

  A Rust \<open>String\<close> is the list of its UTF-8 bytes, so it is a \<open>string\<close> whose characters are bytes and
  byte offsets are list positions.  Two standard-library functions look at Unicode classes: \<open>trim\<close>
  strips ASCII white space only and \<open>to_lowercase\<close> maps ASCII letters only; node identities, JSON
  lines and kernel text files, on which the sources call them, are ASCII, and so are the blanks around
  what an operator types.
\<close>

section \<open>Integers, bytes, results\<close>

type_synonym u8 = "8 word"
type_synonym u16 = "16 word"
type_synonym u32 = "32 word"
type_synonym u64 = "64 word"
type_synonym bytes = "8 word list"

text \<open>
  \<open>Err\<close> is an \<open>anyhow\<close> error with the text its \<open>Display\<close> prints, \<open>Panic\<close> a Rust panic (an index out
  of bounds, an \<open>unwrap\<close> of nothing), which no \<open>?\<close> or \<open>match\<close> of the sources catches.
\<close>

datatype error = Err string | Panic string

type_synonym 'a res = "error + 'a"

text \<open>The \<open>?\<close> operator, \<open>.context(..)\<close> and the indexing operations that may panic.\<close>

definition res_bind :: "'a res \<Rightarrow> ('a \<Rightarrow> 'b res) \<Rightarrow> 'b res" where
  "res_bind r f = (case r of Inl e \<Rightarrow> Inl e | Inr x \<Rightarrow> f x)"

definition with_context :: "string \<Rightarrow> 'a res \<Rightarrow> 'a res" where
  "with_context msg r = (case r of Inl (Err _) \<Rightarrow> Inl (Err msg) | _ \<Rightarrow> r)"

definition ok_or_else :: "string \<Rightarrow> 'a option \<Rightarrow> 'a res" where
  "ok_or_else msg v = (case v of None \<Rightarrow> Inl (Err msg) | Some x \<Rightarrow> Inr x)"

definition index_at :: "'a list \<Rightarrow> nat \<Rightarrow> 'a res" where
  "index_at xs i = (if i < length xs then Inr (xs ! i) else Inl (Panic ''index out of bounds''))"

definition slice_to :: "'a list \<Rightarrow> nat \<Rightarrow> 'a list res" where
  "slice_to xs n = (if n \<le> length xs then Inr (take n xs) else Inl (Panic ''range end out of bounds''))"

definition unwrap_or :: "'a \<Rightarrow> 'a option \<Rightarrow> 'a" where
  "unwrap_or d v = (case v of None \<Rightarrow> d | Some x \<Rightarrow> x)"

definition saturating_sub :: "'a::len word \<Rightarrow> 'a word \<Rightarrow> 'a word" where
  "saturating_sub a b = (if b \<le> a then a - b else 0)"

definition is_inr :: "'a + 'b \<Rightarrow> bool" where
  "is_inr r = (case r of Inl _ \<Rightarrow> False | Inr _ \<Rightarrow> True)"

text \<open>The text an \<open>anyhow\<close> error shows with \<open>{}\<close>.\<close>

fun error_text :: "error \<Rightarrow> string" where
  "error_text (Err m) = m"
| "error_text (Panic m) = m"

text \<open>
  Code that reads or changes a state \<open>'s\<close> (a connection, a shared session cell) and may fail: the
  state after the step comes back on both paths, so that a caller that recovers from an error goes
  on from the state the failed step left.
\<close>

type_synonym ('s, 'a) io = "'s \<Rightarrow> 'a res \<times> 's"

definition io_return :: "'a \<Rightarrow> ('s, 'a) io" where
  "io_return x s = (Inr x, s)"

definition io_bind :: "('s, 'a) io \<Rightarrow> ('a \<Rightarrow> ('s, 'b) io) \<Rightarrow> ('s, 'b) io" where
  "io_bind m f s = (case m s of (Inl e, s') \<Rightarrow> (Inl e, s') | (Inr x, s') \<Rightarrow> f x s')"

definition io_res :: "'a res \<Rightarrow> ('s, 'a) io" where
  "io_res r s = (r, s)"

definition io_context :: "string \<Rightarrow> ('s, 'a) io \<Rightarrow> ('s, 'a) io" where
  "io_context msg m s = (with_context msg (fst (m s)), snd (m s))"

section \<open>Byte order\<close>

text \<open>\<open>to_le_bytes\<close>, \<open>to_be_bytes\<close> and their inverses, for an integer of \<open>k\<close> bytes.\<close>

fun le_of_nat :: "nat \<Rightarrow> nat \<Rightarrow> bytes" where
  "le_of_nat 0 n = []"
| "le_of_nat (Suc k) n = word_of_nat n # le_of_nat k (n div 256)"

fun nat_of_le :: "bytes \<Rightarrow> nat" where
  "nat_of_le [] = 0"
| "nat_of_le (b # bs) = unat b + 256 * nat_of_le bs"

definition be_of_nat :: "nat \<Rightarrow> nat \<Rightarrow> bytes" where
  "be_of_nat k n = rev (le_of_nat k n)"

definition nat_of_be :: "bytes \<Rightarrow> nat" where
  "nat_of_be bs = nat_of_le (rev bs)"

definition u64_le :: "u64 \<Rightarrow> bytes" where
  "u64_le w = le_of_nat 8 (unat w)"

section \<open>Strings\<close>

definition as_bytes :: "string \<Rightarrow> bytes" where
  "as_bytes s = map (\<lambda>c. word_of_nat (of_char c)) s"

definition is_digit :: "char \<Rightarrow> bool" where
  "is_digit c = (48 \<le> (of_char c :: nat) \<and> (of_char c :: nat) \<le> 57)"

definition is_space :: "char \<Rightarrow> bool" where
  "is_space c = (c = CHR '' '' \<or> c = CHR 0x09 \<or> c = CHR 0x0A \<or> c = CHR 0x0B \<or> c = CHR 0x0C \<or> c = CHR 0x0D)"

definition str_trim :: "string \<Rightarrow> string" where
  "str_trim s = rev (dropWhile is_space (rev (dropWhile is_space s)))"

definition lower_char :: "char \<Rightarrow> char" where
  "lower_char c = (let n = of_char c :: nat in if 65 \<le> n \<and> n \<le> 90 then char_of (n + 32) else c)"

definition to_lowercase :: "string \<Rightarrow> string" where
  "to_lowercase s = map lower_char s"

text \<open>\<open>hay.find(needle)\<close>: the offset of the first occurrence.\<close>

fun str_find :: "string \<Rightarrow> string \<Rightarrow> nat option" where
  "str_find p [] = (if p = [] then Some 0 else None)"
| "str_find p (c # cs) = (if prefix p (c # cs) then Some 0 else map_option Suc (str_find p cs))"

definition str_contains :: "string \<Rightarrow> string \<Rightarrow> bool" where
  "str_contains p s = (str_find p s \<noteq> None)"

text \<open>What follows the first occurrence of a pattern: \<open>&s[s.find(p)? + p.len()..]\<close>.\<close>

definition str_after :: "string \<Rightarrow> string \<Rightarrow> string option" where
  "str_after p s = map_option (\<lambda>i. drop (i + length p) s) (str_find p s)"

text \<open>\<open>s.matches(p).count()\<close>: disjoint occurrences from the left, for a non-empty pattern.\<close>

function str_count :: "string \<Rightarrow> string \<Rightarrow> nat" where
  "str_count p s =
     (if p = [] \<or> s = [] then 0
      else if prefix p s then Suc (str_count p (drop (length p) s))
      else str_count p (tl s))"
  by pat_completeness auto
termination
  by (relation "measure (\<lambda>(p, s). length s)") (auto simp: neq_Nil_conv)

declare str_count.simps [simp del]

fun str_join :: "string \<Rightarrow> string list \<Rightarrow> string" where
  "str_join sep [] = []"
| "str_join sep [x] = x"
| "str_join sep (x # y # ys) = x @ sep @ str_join sep (y # ys)"

text \<open>\<open>s.split(c)\<close> always yields at least one piece.\<close>

fun str_split :: "char \<Rightarrow> string \<Rightarrow> string list" where
  "str_split c [] = [[]]"
| "str_split c (x # xs) =
     (if x = c then [] # str_split c xs
      else (case str_split c xs of [] \<Rightarrow> [[x]] | y # ys \<Rightarrow> (x # y) # ys))"

text \<open>\<open>s.lines()\<close>: split at newlines, no empty last line, a trailing carriage return dropped.\<close>

definition strip_cr :: "string \<Rightarrow> string" where
  "strip_cr l = (if l \<noteq> [] \<and> last l = CHR 0x0D then butlast l else l)"

definition str_lines :: "string \<Rightarrow> string list" where
  "str_lines s = (let ps = str_split (CHR 0x0A) s in
     map strip_cr (butlast ps) @ (if last ps = [] then [] else [strip_cr (last ps)]))"

text \<open>A text file made of whole lines.\<close>

definition file_of :: "string list \<Rightarrow> string" where
  "file_of ls = concat (map (\<lambda>l. l @ [CHR 0x0A]) ls)"

definition one_line :: "string \<Rightarrow> bool" where
  "one_line l \<longleftrightarrow> CHR 0x0A \<notin> set l \<and> CHR 0x0D \<notin> set l"

section \<open>Numbers as text\<close>

definition digit_char :: "nat \<Rightarrow> char" where
  "digit_char d = char_of (48 + d)"

fun show_nat :: "nat \<Rightarrow> string" where
  "show_nat n = (if n < 10 then [digit_char n] else show_nat (n div 10) @ [digit_char (n mod 10)])"

declare show_nat.simps [simp del]

definition show_int :: "int \<Rightarrow> string" where
  "show_int i = (if i < 0 then CHR ''-'' # show_nat (nat (- i)) else show_nat (nat i))"

definition show_word :: "'a::len word \<Rightarrow> string" where
  "show_word w = show_nat (unat w)"

definition digits_value :: "string \<Rightarrow> nat" where
  "digits_value s = foldl (\<lambda>v c. 10 * v + (of_char c - 48)) 0 s"

definition parse_digits :: "string \<Rightarrow> nat option" where
  "parse_digits s = (if s \<noteq> [] \<and> list_all is_digit s then Some (digits_value s) else None)"

text \<open>
  \<open>str::parse\<close> for an unsigned integer below \<open>2 ^ w\<close> (an optional \<open>+\<close>, then digits, an error on
  overflow) and for \<open>i64\<close> (an optional sign).
\<close>

definition parse_unsigned :: "nat \<Rightarrow> string \<Rightarrow> nat option" where
  "parse_unsigned w s =
     (case parse_digits (case s of c # cs \<Rightarrow> (if c = CHR ''+'' then cs else s) | [] \<Rightarrow> []) of
        None \<Rightarrow> None | Some n \<Rightarrow> (if n < 2 ^ w then Some n else None))"

definition parse_i64 :: "string \<Rightarrow> int option" where
  "parse_i64 s =
     (case s of
        [] \<Rightarrow> None
      | c # cs \<Rightarrow>
          (if c = CHR ''-'' then
             (case parse_digits cs of None \<Rightarrow> None
              | Some n \<Rightarrow> (if n \<le> 2 ^ 63 then Some (- int n) else None))
           else
             (case parse_digits (if c = CHR ''+'' then cs else s) of None \<Rightarrow> None
              | Some n \<Rightarrow> (if n < 2 ^ 63 then Some (int n) else None))))"

definition hex_digit :: "nat \<Rightarrow> char" where
  "hex_digit d = (if d < 10 then char_of (48 + d) else char_of (87 + d))"

definition hex_encode :: "bytes \<Rightarrow> string" where
  "hex_encode bs = concat (map (\<lambda>b. [hex_digit (unat b div 16), hex_digit (unat b mod 16)]) bs)"

text \<open>\<open>{:?}\<close> of a vector of numbers.\<close>

definition debug_list :: "string list \<Rightarrow> string" where
  "debug_list xs = ''['' @ str_join '', '' xs @ '']''"

section \<open>Lemmas on results\<close>

named_theorems res_simps \<open>unfolding of the result combinators\<close>

lemma res_bind_simps [simp]:
  "res_bind (Inl e) f = Inl e" "res_bind (Inr x) f = f x"
  by (simp_all add: res_bind_def)

lemma res_bind_eq_Inr: "res_bind r f = Inr y \<longleftrightarrow> (\<exists>x. r = Inr x \<and> f x = Inr y)"
  by (cases r) simp_all

lemma with_context_Inr [simp]: "with_context m r = Inr x \<longleftrightarrow> r = Inr x"
  by (auto simp: with_context_def split: sum.splits error.splits)

lemma with_context_simps [simp]:
  "with_context m (Inr x) = Inr x" "with_context m (Inl (Err e)) = Inl (Err m)"
  "with_context m (Inl (Panic e)) = Inl (Panic e)"
  by (simp_all add: with_context_def)

lemma ok_or_else_simps [simp]:
  "ok_or_else m None = Inl (Err m)" "ok_or_else m (Some x) = Inr x"
  by (simp_all add: ok_or_else_def)

lemma ok_or_else_Inr: "ok_or_else m v = Inr x \<longleftrightarrow> v = Some x"
  by (cases v) simp_all

lemma index_at_Inr: "index_at xs i = Inr x \<longleftrightarrow> i < length xs \<and> x = xs ! i"
  by (auto simp: index_at_def)

lemma slice_to_Inr: "slice_to xs n = Inr ys \<longleftrightarrow> n \<le> length xs \<and> ys = take n xs"
  by (auto simp: slice_to_def)

lemma unwrap_or_simps [simp]: "unwrap_or d None = d" "unwrap_or d (Some x) = x"
  by (simp_all add: unwrap_or_def)

lemma is_inr_simps [simp]: "is_inr (Inl e) = False" "is_inr (Inr x) = True"
  by (simp_all add: is_inr_def)

lemma unat_saturating_sub [simp]: "unat (saturating_sub a b) = unat a - unat b"
  by (auto simp: saturating_sub_def unat_sub word_le_nat_alt)

lemma io_bind_Inr: "m s = (Inr x, s') \<Longrightarrow> io_bind m f s = f x s'"
  by (simp add: io_bind_def)

lemma io_bind_Inl: "m s = (Inl e, s') \<Longrightarrow> io_bind m f s = (Inl e, s')"
  by (simp add: io_bind_def)

lemma io_bind_eq_Inr:
  "io_bind m f s = (Inr y, t) \<longleftrightarrow> (\<exists>x s'. m s = (Inr x, s') \<and> f x s' = (Inr y, t))"
  by (auto simp: io_bind_def split: prod.splits sum.splits)

lemma io_return_simp [simp]: "io_return x s = (Inr x, s)"
  by (simp add: io_return_def)

lemma io_res_simp [simp]: "io_res r s = (r, s)"
  by (simp add: io_res_def)

lemma io_context_Inr: "io_context msg m s = (Inr x, s') \<longleftrightarrow> m s = (Inr x, s')"
  by (cases "m s") (auto simp: io_context_def)

lemmas res_cases [res_simps] =
  res_bind_eq_Inr io_bind_eq_Inr io_context_Inr ok_or_else_Inr index_at_Inr slice_to_Inr

section \<open>Lemmas on byte order\<close>

lemma length_le_of_nat [simp]: "length (le_of_nat k n) = k"
  by (induction k arbitrary: n) auto

lemma length_be_of_nat [simp]: "length (be_of_nat k n) = k"
  by (simp add: be_of_nat_def)

lemma nat_of_le_of_nat: "nat_of_le (le_of_nat k n) = n mod 256 ^ k"
proof (induction k arbitrary: n)
  case 0
  show ?case by simp
next
  case (Suc k)
  have "n mod 256 ^ Suc k = n mod (256 * 256 ^ k)" by simp
  also have "\<dots> = 256 * (n div 256 mod 256 ^ k) + n mod 256" by (rule mod_mult2_eq)
  finally show ?case by (simp add: Suc unat_of_nat)
qed

lemma nat_of_be_of_nat: "nat_of_be (be_of_nat k n) = n mod 256 ^ k"
  by (simp add: nat_of_be_def be_of_nat_def nat_of_le_of_nat)

section \<open>Lemmas on strings\<close>

lemma length_as_bytes [simp]: "length (as_bytes s) = length s"
  by (simp add: as_bytes_def)

lemma as_bytes_append [simp]: "as_bytes (s @ t) = as_bytes s @ as_bytes t"
  by (simp add: as_bytes_def)

lemma as_bytes_inject: "as_bytes a = as_bytes b \<longleftrightarrow> a = b"
proof -
  have "inj (\<lambda>c. word_of_nat (of_char c) :: u8)"
  proof (rule injI)
    fix c d :: char
    assume "word_of_nat (of_char c) = (word_of_nat (of_char d) :: u8)"
    then have "unat (word_of_nat (of_char c) :: u8) = unat (word_of_nat (of_char d) :: u8)" by simp
    then show "c = d"
      using nat_of_char_less_256 [of c] nat_of_char_less_256 [of d] by (simp add: unat_of_nat)
  qed
  then show ?thesis by (simp add: as_bytes_def inj_map_eq_map)
qed

lemma str_contains_sublist: "str_contains p s \<longleftrightarrow> sublist p s"
proof (induction s)
  case Nil
  then show ?case by (simp add: str_contains_def)
next
  case (Cons c cs)
  then show ?case
    by (auto simp: str_contains_def sublist_Cons_right simp del: prefix_Cons)
qed

lemma str_contains_append:
  "str_contains p s \<Longrightarrow> str_contains p (s @ t)" "str_contains p t \<Longrightarrow> str_contains p (s @ t)"
  by (auto simp: str_contains_sublist sublist_append)

lemma str_contains_self [simp]: "str_contains p (s @ p @ t)"
  by (auto simp: str_contains_sublist sublist_appendI)

text \<open>The first occurrence is where the pattern starts when nothing before it could match.\<close>

lemma str_find_skip:
  assumes "\<And>i. i < length s \<Longrightarrow> \<not> prefix p (drop i (s @ p @ t))"
  shows "str_find p (s @ p @ t) = Some (length s)"
  using assms
proof (induction s)
  case Nil
  have "prefix p (p @ t)" by simp
  then show ?case by (cases "p @ t") (auto simp del: prefix_Cons)
next
  case (Cons c cs)
  have "\<not> prefix p (c # cs @ p @ t)" using Cons.prems [of 0] by simp
  moreover have "str_find p (cs @ p @ t) = Some (length cs)"
  proof (rule Cons.IH)
    fix i assume "i < length cs"
    then show "\<not> prefix p (drop i (cs @ p @ t))" using Cons.prems [of "Suc i"] by simp
  qed
  ultimately show ?case by simp
qed

lemma str_after_skip:
  assumes "\<And>i. i < length s \<Longrightarrow> \<not> prefix p (drop i (s @ p @ t))"
  shows "str_after p (s @ p @ t) = Some t"
  by (simp add: str_after_def str_find_skip [OF assms])

text \<open>It is enough that the first character of the pattern does not occur before.\<close>

lemma not_prefix_at:
  assumes "p \<noteq> []" and "hd p \<notin> set s" and "i < length s"
  shows "\<not> prefix p (drop i (s @ t))"
proof
  assume "prefix p (drop i (s @ t))"
  then obtain r where "drop i (s @ t) = p @ r" by (auto simp: prefix_def)
  moreover have "drop i (s @ t) = s ! i # drop (Suc i) s @ t"
    using assms(3) by (simp add: Cons_nth_drop_Suc [symmetric])
  ultimately have "hd p = s ! i" using assms(1) by (cases p) auto
  with assms(2,3) show False by (simp add: nth_mem)
qed

lemma str_find_first:
  "p \<noteq> [] \<Longrightarrow> hd p \<notin> set s \<Longrightarrow> str_find p (s @ p @ t) = Some (length s)"
  by (rule str_find_skip) (rule not_prefix_at)

lemma str_after_first:
  "p \<noteq> [] \<Longrightarrow> hd p \<notin> set s \<Longrightarrow> str_after p (s @ p @ t) = Some t"
  by (rule str_after_skip) (rule not_prefix_at)

lemma str_join_contains:
  assumes "x \<in> set xs" and "str_contains p x" shows "str_contains p (str_join sep xs)"
  using assms
proof (induction sep xs rule: str_join.induct)
  case (3 sep x1 y ys)
  then show ?case by (auto intro: str_contains_append)
qed auto

lemma str_join_append:
  "xs \<noteq> [] \<Longrightarrow> ys \<noteq> [] \<Longrightarrow> str_join sep (xs @ ys) = str_join sep xs @ sep @ str_join sep ys"
proof (induction sep xs rule: str_join.induct)
  case (2 sep x)
  then show ?case by (cases ys) auto
qed auto

lemma str_join_Cons: "ys \<noteq> [] \<Longrightarrow> str_join sep (x # ys) = x @ sep @ str_join sep ys"
  by (cases ys) auto

lemma str_split_run: "c \<notin> set l \<Longrightarrow> str_split c (l @ c # s) = l # str_split c s"
  by (induction l) auto

lemma str_split_whole: "c \<notin> set l \<Longrightarrow> str_split c l = [l]"
  by (induction l) auto

lemma str_split_nonempty: "str_split c s \<noteq> []"
  by (induction s) (auto split: list.splits)

lemma file_of_append: "file_of (xs @ ys) = file_of xs @ file_of ys"
  by (simp add: file_of_def)

lemma str_trim_newline: "str_trim (s @ [CHR 0x0A]) = str_trim s"
proof -
  have nl: "is_space (CHR 0x0A)" by (simp add: is_space_def)
  show ?thesis
  proof (cases "dropWhile is_space s = []")
    case True
    then have "dropWhile is_space (s @ [CHR 0x0A]) = []" using nl by (simp add: dropWhile_eq_Nil_conv)
    then show ?thesis unfolding str_trim_def True by simp
  next
    case False
    then show ?thesis using nl by (auto simp: str_trim_def dropWhile_append dropWhile_eq_Nil_conv)
  qed
qed

lemma strip_cr_id: "CHR 0x0D \<notin> set l \<Longrightarrow> strip_cr l = l"
  by (metis last_in_set strip_cr_def)

lemma str_lines_whole: "list_all one_line ls \<Longrightarrow> str_lines (file_of ls) = ls"
proof -
  assume ls: "list_all one_line ls"
  then have "str_split (CHR 0x0A) (file_of ls) = ls @ [[]]"
    by (induction ls) (auto simp: file_of_def one_line_def str_split_run)
  with ls show ?thesis
    by (auto simp: str_lines_def Let_def list_all_iff one_line_def strip_cr_id intro!: map_idI)
qed

section \<open>Lemmas on numbers as text\<close>

lemma is_digit_digit_char [simp]: "d < 10 \<Longrightarrow> is_digit (digit_char d)"
  by (simp add: is_digit_def digit_char_def)

lemma of_char_digit_char [simp]: "d < 10 \<Longrightarrow> of_char (digit_char d) = 48 + d"
  by (simp add: digit_char_def)

lemma show_nat_digits: "list_all is_digit (show_nat n)"
proof (induction n rule: show_nat.induct)
  case (1 n)
  then show ?case by (subst show_nat.simps) simp
qed

lemma show_nat_nonempty [simp]: "show_nat n \<noteq> []"
  by (subst show_nat.simps) simp

lemma digits_value_snoc: "digits_value (s @ [c]) = 10 * digits_value s + (of_char c - 48)"
  by (simp add: digits_value_def)

lemma digits_value_show: "digits_value (show_nat n) = n"
proof (induction n rule: show_nat.induct)
  case (1 n)
  show ?case
  proof (cases "n < 10")
    case True
    then show ?thesis by (subst show_nat.simps) (simp add: digits_value_def)
  next
    case False
    with "1.IH" have "digits_value (show_nat (n div 10)) = n div 10" by simp
    with False show ?thesis by (subst show_nat.simps) (simp add: digits_value_snoc)
  qed
qed

lemma parse_digits_show [simp]: "parse_digits (show_nat n) = Some n"
  by (simp add: parse_digits_def show_nat_digits digits_value_show)

lemma hd_show_nat: "is_digit (hd (show_nat n))"
  using show_nat_digits [of n] by (cases "show_nat n") auto

lemma show_nat_no_sign: "show_nat n = c # cs \<Longrightarrow> c \<noteq> CHR ''+'' \<and> c \<noteq> CHR ''-''"
  using hd_show_nat [of n] by (auto simp: is_digit_def)

lemma parse_unsigned_show: "parse_unsigned w (show_nat n) = (if n < 2 ^ w then Some n else None)"
proof (cases "show_nat n")
  case Nil
  then show ?thesis by simp
next
  case (Cons c cs)
  with show_nat_no_sign [OF Cons] have
    "(case show_nat n of c # cs \<Rightarrow> (if c = CHR ''+'' then cs else show_nat n) | [] \<Rightarrow> []) = show_nat n"
    by simp
  then show ?thesis by (simp add: parse_unsigned_def)
qed

lemma show_nat_set: "c \<in> set (show_nat n) \<Longrightarrow> is_digit c"
  using show_nat_digits [of n] by (simp add: list_all_iff)

lemma not_digit_show: "\<not> is_digit c \<Longrightarrow> c \<notin> set (show_nat n)"
  using show_nat_set by blast

lemma parse_i64_show: "n < 2 ^ 63 \<Longrightarrow> parse_i64 (show_nat n) = Some (int n)"
  using show_nat_no_sign [of n] parse_digits_show [of n]
  by (cases "show_nat n") (auto simp: parse_i64_def)

lemma takeWhile_digits_show:
  assumes "t = [] \<or> \<not> is_digit (hd t)"
  shows "takeWhile is_digit (show_nat n @ t) = show_nat n"
proof -
  have "\<forall>c \<in> set (show_nat n). is_digit c"
    using show_nat_digits [of n] by (simp add: list_all_iff)
  with assms show ?thesis
    by (cases t) (auto simp: takeWhile_append)
qed

end
