(* ===== verification/Crypto.thy ===== *)
theory Crypto
  imports Prelude
begin

unbundle bit_operations_syntax

text \<open>
  Key exchange, key derivation and message encryption (\<open>mfa-agent/src/crypto/mod.rs\<close>).

  The primitives of the crates (SHA-256, Kyber-1024, X25519, AES-256-GCM) are the fields of the
  record \<open>crypto_ext\<close>, an argument of every definition that calls them; the random bytes a call
  draws are arguments too.  What the code relies on is stated by the predicates \<open>kem_correct\<close>,
  \<open>dh_correct\<close> and \<open>aead_correct\<close>, which are the documented correctness of the crates.  HMAC and the
  key derivation are the repository's own code and are written out.  Lemmas: HMAC is the RFC 2104
  construction, both ends of a key exchange derive the same key, decryption inverts encryption.
\<close>

section \<open>The crates\<close>

record crypto_ext =
  sha256 :: "bytes \<Rightarrow> bytes"
  kyber_keypair :: "bytes \<Rightarrow> bytes \<times> bytes"
  kyber_pk_valid :: "bytes \<Rightarrow> bool"
  kyber_encapsulate :: "bytes \<Rightarrow> bytes \<Rightarrow> bytes \<times> bytes"
  kyber_ct_valid :: "bytes \<Rightarrow> bool"
  kyber_sk_valid :: "bytes \<Rightarrow> bool"
  kyber_decapsulate :: "bytes \<Rightarrow> bytes \<Rightarrow> bytes"
  x25519_public :: "bytes \<Rightarrow> bytes"
  x25519_dh :: "bytes \<Rightarrow> bytes \<Rightarrow> bytes"
  aead_encrypt :: "bytes \<Rightarrow> bytes \<Rightarrow> bytes \<Rightarrow> bytes option"
  aead_decrypt :: "bytes \<Rightarrow> bytes \<Rightarrow> bytes \<Rightarrow> bytes option"

text \<open>
  Kyber: decapsulating an encapsulation under a generated key pair gives the encapsulated secret,
  the generated values parse, and a ciphertext has the 1568 bytes of Kyber-1024.
\<close>

definition kem_correct :: "crypto_ext \<Rightarrow> bool" where
  "kem_correct X \<longleftrightarrow>
     (\<forall>seed coins. let (pk, sk) = kyber_keypair X seed; (ss, ct) = kyber_encapsulate X pk coins in
        kyber_pk_valid X pk \<and> kyber_sk_valid X sk \<and> kyber_ct_valid X ct \<and>
        length ct = 1568 \<and> kyber_decapsulate X ct sk = ss)"

definition dh_correct :: "crypto_ext \<Rightarrow> bool" where
  "dh_correct X \<longleftrightarrow> (\<forall>a b. x25519_dh X a (x25519_public X b) = x25519_dh X b (x25519_public X a))"

definition aead_correct :: "crypto_ext \<Rightarrow> bool" where
  "aead_correct X \<longleftrightarrow>
     (\<forall>k n p c. aead_encrypt X k n p = Some c \<longrightarrow> aead_decrypt X k n c = Some p)"

section \<open>Data\<close>

record KeyExchangeInit =
  kxi_sender_id :: string
  kxi_kyber_pk :: bytes
  kxi_x25519_pk :: bytes
  kxi_nonce :: bytes

record KeyExchangeResponse =
  kxr_responder_id :: string
  kxr_kyber_ct :: bytes
  kxr_x25519_pk :: bytes

record SessionKeys =
  session_key :: bytes

section \<open>HMAC and key derivation\<close>

text \<open>The loop \<open>for i in 0..BLOCK_SIZE\<close> over the two pads, updated in place.\<close>

fun pad_loop :: "nat \<Rightarrow> bytes \<Rightarrow> bytes \<times> bytes \<Rightarrow> bytes \<times> bytes" where
  "pad_loop 0 key_block pads = pads"
| "pad_loop (Suc i) key_block pads =
     (case pad_loop i key_block pads of (ipad, opad) \<Rightarrow>
        (ipad[i := ipad ! i XOR key_block ! i], opad[i := opad ! i XOR key_block ! i]))"

definition hmac_key_block :: "crypto_ext \<Rightarrow> bytes \<Rightarrow> bytes" where
  "hmac_key_block X key =
     (if 64 < length key then (let h = sha256 X key in h @ replicate (64 - length h) 0)
      else key @ replicate (64 - length key) 0)"

definition hmac_sha256 :: "crypto_ext \<Rightarrow> bytes \<Rightarrow> bytes \<Rightarrow> bytes" where
  "hmac_sha256 X key message =
     (case pad_loop 64 (hmac_key_block X key) (replicate 64 0x36, replicate 64 0x5c) of (ipad, opad) \<Rightarrow>
        (let inner_hash = sha256 X (ipad @ message) in sha256 X (opad @ inner_hash)))"

definition derive_session_key :: "crypto_ext \<Rightarrow> bytes \<Rightarrow> bytes \<Rightarrow> bytes \<Rightarrow> bytes \<Rightarrow> bytes" where
  "derive_session_key X kyber_shared x25519_shared nonce transcript =
     (let ikm = kyber_shared @ x25519_shared;
          prk = hmac_sha256 X nonce ikm;
          info = as_bytes ''MFA-ZeroTrust-Session-v1'' @ transcript @ [0x01]
      in hmac_sha256 X prk info)"

section \<open>Key exchange\<close>

definition generate_key_exchange_init ::
  "crypto_ext \<Rightarrow> bytes \<Rightarrow> bytes \<Rightarrow> bytes \<Rightarrow> string \<Rightarrow> (KeyExchangeInit \<times> bytes \<times> bytes \<times> bytes) res" where
  "generate_key_exchange_init X kyber_seed x25519_secret nonce sender_id =
     (let (kyber_pk, kyber_sk) = kyber_keypair X kyber_seed;
          x25519_pk = x25519_public X x25519_secret;
          init = \<lparr>kxi_sender_id = sender_id, kxi_kyber_pk = kyber_pk,
                  kxi_x25519_pk = x25519_pk, kxi_nonce = nonce\<rparr>
      in Inr (init, kyber_sk, x25519_secret, nonce))"

definition response_transcript :: "crypto_ext \<Rightarrow> KeyExchangeInit \<Rightarrow> string \<Rightarrow> bytes \<Rightarrow> bytes \<Rightarrow> bytes" where
  "response_transcript X init responder_id ct x25519_pk =
     sha256 X (as_bytes (kxi_sender_id init) @ kxi_kyber_pk init @ kxi_x25519_pk init @ kxi_nonce init
               @ as_bytes responder_id @ ct @ x25519_pk)"

definition generate_key_exchange_response ::
  "crypto_ext \<Rightarrow> bytes \<Rightarrow> bytes \<Rightarrow> string \<Rightarrow> KeyExchangeInit \<Rightarrow> (KeyExchangeResponse \<times> SessionKeys) res" where
  "generate_key_exchange_response X coins x25519_secret responder_id init =
     (if \<not> kyber_pk_valid X (kxi_kyber_pk init) then Inl (Err ''Invalid Kyber public key'')
      else
        (let (ss, ct) = kyber_encapsulate X (kxi_kyber_pk init) coins;
             x25519_pk = x25519_public X x25519_secret;
             x25519_shared = x25519_dh X x25519_secret (kxi_x25519_pk init);
             transcript = response_transcript X init responder_id ct x25519_pk;
             key = derive_session_key X ss x25519_shared (kxi_nonce init) transcript
         in Inr (\<lparr>kxr_responder_id = responder_id, kxr_kyber_ct = ct, kxr_x25519_pk = x25519_pk\<rparr>,
                 \<lparr>session_key = key\<rparr>)))"

definition complete_key_exchange ::
  "crypto_ext \<Rightarrow> KeyExchangeInit \<Rightarrow> KeyExchangeResponse \<Rightarrow> bytes \<Rightarrow> bytes \<Rightarrow> bytes \<Rightarrow> SessionKeys res" where
  "complete_key_exchange X init response kyber_sk x25519_secret nonce =
     (if length (kxr_kyber_ct response) \<noteq> 1568
        then Inl (Err (''Expected 1568 bytes, got '' @ show_nat (length (kxr_kyber_ct response))))
      else if \<not> kyber_ct_valid X (kxr_kyber_ct response) then Inl (Err ''Failed to parse ciphertext'')
      else if \<not> kyber_sk_valid X kyber_sk then Inl (Err ''Invalid Kyber secret key'')
      else
        (let kyber_shared = kyber_decapsulate X (kxr_kyber_ct response) kyber_sk;
             x25519_shared = x25519_dh X x25519_secret (kxr_x25519_pk response);
             transcript = response_transcript X init (kxr_responder_id response)
                            (kxr_kyber_ct response) (kxr_x25519_pk response)
         in Inr \<lparr>session_key = derive_session_key X kyber_shared x25519_shared nonce transcript\<rparr>))"

section \<open>Message encryption\<close>

definition encrypt :: "crypto_ext \<Rightarrow> bytes \<Rightarrow> bytes \<Rightarrow> bytes \<Rightarrow> bytes res" where
  "encrypt X nonce key plaintext =
     (case aead_encrypt X key nonce plaintext of
        None \<Rightarrow> Inl (Err ''Encryption failed'')
      | Some ct \<Rightarrow> Inr (nonce @ ct))"

definition decrypt :: "crypto_ext \<Rightarrow> bytes \<Rightarrow> bytes \<Rightarrow> bytes res" where
  "decrypt X key ciphertext =
     (if length ciphertext < 12 then Inl (Err ''Ciphertext too short'')
      else case aead_decrypt X key (take 12 ciphertext) (drop 12 ciphertext) of
        None \<Rightarrow> Inl (Err ''Decryption failed'')
      | Some p \<Rightarrow> Inr p)"

section \<open>HMAC is the RFC 2104 construction\<close>

definition xor_bytes :: "bytes \<Rightarrow> bytes \<Rightarrow> bytes" where
  "xor_bytes a b = map2 (XOR) a b"

definition rfc2104 :: "(bytes \<Rightarrow> bytes) \<Rightarrow> bytes \<Rightarrow> bytes \<Rightarrow> bytes" where
  "rfc2104 H key text =
     (let k = (if 64 < length key then H key else key);
          k0 = k @ replicate (64 - length k) 0
      in H (xor_bytes k0 (replicate 64 0x5c) @ H (xor_bytes k0 (replicate 64 0x36) @ text)))"

lemma pad_loop_spec:
  assumes "n \<le> length kb" and "length kb \<le> length ip" and "length ip = length op"
  shows "pad_loop n kb (ip, op) =
     (xor_bytes (take n ip) (take n kb) @ drop n ip, xor_bytes (take n op) (take n kb) @ drop n op)"
  using assms
proof (induction n)
  case 0
  then show ?case by (simp add: xor_bytes_def)
next
  case (Suc n)
  have upd: "(xor_bytes (take n xs) (take n kb) @ drop n xs)[n := (xor_bytes (take n xs) (take n kb) @ drop n xs) ! n XOR kb ! n]
      = xor_bytes (take (Suc n) xs) (take (Suc n) kb) @ drop (Suc n) xs"
    if "length xs = length ip" for xs
  proof -
    have len: "length (xor_bytes (take n xs) (take n kb)) = n"
      using Suc.prems that by (simp add: xor_bytes_def)
    have "drop n xs = xs ! n # drop (Suc n) xs"
      using Suc.prems that by (simp add: Cons_nth_drop_Suc)
    then show ?thesis
      using Suc.prems that len
      by (simp add: take_Suc_conv_app_nth nth_append list_update_append xor_bytes_def)
  qed
  show ?case
    using Suc upd [of ip] upd [of op] by simp
qed

lemma xor_bytes_commute: "xor_bytes a b = xor_bytes b a"
proof -
  have "map (\<lambda>(x, y). x XOR y) (zip a b) = map (\<lambda>(x, y). x XOR y) (zip b a)"
    by (subst zip_commute) (simp add: split_beta xor.commute)
  then show ?thesis by (simp add: xor_bytes_def)
qed

lemma hmac_is_rfc2104:
  assumes "\<And>m. length (sha256 X m) = 32"
  shows "hmac_sha256 X key msg = rfc2104 (sha256 X) key msg"
proof -
  define kb where "kb = hmac_key_block X key"
  have len: "length kb = 64"
    using assms by (simp add: kb_def hmac_key_block_def Let_def)
  have pads: "pad_loop 64 kb (replicate 64 0x36, replicate 64 0x5c)
      = (xor_bytes kb (replicate 64 0x36), xor_bytes kb (replicate 64 0x5c))"
    using pad_loop_spec [of 64 kb "replicate 64 0x36" "replicate 64 0x5c"] len
    by (simp only: length_replicate take_replicate drop_replicate take_all drop_all append_Nil2
        order.refl min.idem diff_self_eq_0 replicate_0 xor_bytes_commute [of "replicate 64 _"])
  have k0: "kb = (let k = (if 64 < length key then sha256 X key else key)
                  in k @ replicate (64 - length k) 0)"
    unfolding kb_def hmac_key_block_def Let_def by (cases "64 < length key") (simp_all only: if_True if_False)
  show ?thesis
    unfolding hmac_sha256_def rfc2104_def kb_def [symmetric] pads
    unfolding k0 by (simp only: Let_def prod.case)
qed

section \<open>Agreement and round trips\<close>

lemma key_agreement:
  assumes "kem_correct X" and "dh_correct X"
    and init: "generate_key_exchange_init X seed a nonce sender = Inr (i, sk, a', n)"
    and resp: "generate_key_exchange_response X coins b responder i = Inr (r, keys)"
  shows "complete_key_exchange X i r sk a' n = Inr keys"
proof -
  obtain pk sk0 where "kyber_keypair X seed = (pk, sk0)" by fastforce
  with init have kp: "kyber_keypair X seed = (pk, sk)"
    and i: "i = \<lparr>kxi_sender_id = sender, kxi_kyber_pk = pk, kxi_x25519_pk = x25519_public X a, kxi_nonce = nonce\<rparr>"
    and ids: "a' = a" "n = nonce"
    by (auto simp: generate_key_exchange_init_def)
  obtain ss ct where enc: "kyber_encapsulate X pk coins = (ss, ct)" by fastforce
  have kem: "kyber_pk_valid X pk \<and> kyber_sk_valid X sk \<and> kyber_ct_valid X ct \<and> length ct = 1568
      \<and> kyber_decapsulate X ct sk = ss"
    using \<open>kem_correct X\<close> [unfolded kem_correct_def, rule_format, of seed coins] kp enc by simp
  have dh: "x25519_dh X a (x25519_public X b) = x25519_dh X b (x25519_public X a)"
    using \<open>dh_correct X\<close> by (simp add: dh_correct_def)
  show ?thesis
    using resp kem unfolding i ids
    by (clarsimp simp: enc dh generate_key_exchange_response_def complete_key_exchange_def Let_def
        response_transcript_def)
qed

lemma response_exists:
  assumes "kem_correct X" and "generate_key_exchange_init X seed a nonce sender = Inr (i, sk, a', n)"
  shows "\<exists>r keys. generate_key_exchange_response X coins b responder i = Inr (r, keys)"
proof -
  obtain pk sk0 where "kyber_keypair X seed = (pk, sk0)" by fastforce
  with assms(2) have kp: "kyber_keypair X seed = (pk, sk)" and "kxi_kyber_pk i = pk"
    by (auto simp: generate_key_exchange_init_def)
  moreover have "kyber_pk_valid X pk"
    using assms(1) [unfolded kem_correct_def, rule_format, of seed coins] kp
    by (simp split: prod.splits)
  ultimately show ?thesis
    by (simp add: generate_key_exchange_response_def Let_def split: prod.splits)
qed

lemma decrypt_encrypt:
  assumes "aead_correct X" and "length nonce = 12" and "encrypt X nonce key p = Inr c"
  shows "decrypt X key c = Inr p"
  using assms by (auto simp: encrypt_def decrypt_def aead_correct_def split: option.splits)

lemma decrypt_short: "length c < 12 \<Longrightarrow> decrypt X key c = Inl (Err ''Ciphertext too short'')"
  by (simp add: decrypt_def)

lemma length_encrypt:
  "encrypt X nonce key p = Inr c \<Longrightarrow> length nonce \<le> length c"
  by (auto simp: encrypt_def split: option.splits)

section \<open>A concrete instance\<close>

text \<open>
  A set of functions that meets the three contracts, so that statements relying on them can be
  evaluated: it has the algebra of the primitives and none of their secrecy.
\<close>

definition pad_to :: "nat \<Rightarrow> bytes \<Rightarrow> bytes" where
  "pad_to n bs = take n bs @ replicate (n - length bs) 0"

definition sum_bytes :: "bytes \<Rightarrow> u8" where
  "sum_bytes bs = foldl (+) 0 bs"

definition demo_ext :: crypto_ext where
  "demo_ext = \<lparr>sha256 = (\<lambda>m. pad_to 32 (sum_bytes m # m)),
     kyber_keypair = (\<lambda>seed. (seed, seed)),
     kyber_pk_valid = (\<lambda>_. True),
     kyber_encapsulate = (\<lambda>pk coins. (pad_to 1568 coins, pad_to 1568 coins)),
     kyber_ct_valid = (\<lambda>_. True),
     kyber_sk_valid = (\<lambda>_. True),
     kyber_decapsulate = (\<lambda>ct sk. ct),
     x25519_public = (\<lambda>s. [sum_bytes s]),
     x25519_dh = (\<lambda>s p. [sum_bytes s * sum_bytes p]),
     aead_encrypt = (\<lambda>k n p. Some (sum_bytes k # p)),
     aead_decrypt = (\<lambda>k n c. case c of [] \<Rightarrow> None | b # p \<Rightarrow> (if b = sum_bytes k then Some p else None))\<rparr>"

lemma length_pad_to [simp]: "length (pad_to n bs) = n"
  by (simp add: pad_to_def)

lemma demo_kem: "kem_correct demo_ext"
  by (simp add: kem_correct_def demo_ext_def)

lemma demo_dh: "dh_correct demo_ext"
  by (simp add: dh_correct_def demo_ext_def sum_bytes_def mult.commute)

lemma demo_aead: "aead_correct demo_ext"
  by (auto simp: aead_correct_def demo_ext_def)

lemma demo_sha_length [simp]: "length (sha256 demo_ext m) = 32"
  by (simp add: demo_ext_def)

section \<open>Properties\<close>

text \<open>
  Hybrid key agreement: when the responder answers the initiator's \<open>KeyExchangeInit\<close>, the
  initiator completes the exchange and both ends hold the same session key, for every choice of
  the random values; and the responder does answer.
\<close>

theorem key_exchange_agrees:
  assumes "kem_correct X" and "dh_correct X"
    and "generate_key_exchange_init X seed a nonce sender = Inr (init, sk, a', n)"
  shows "\<exists>response keys.
     generate_key_exchange_response X coins b responder init = Inr (response, keys) \<and>
     complete_key_exchange X init response sk a' n = Inr keys"
  using response_exists [OF assms(1,3)] key_agreement [OF assms] by blast

theorem key_exchange_agrees_witness:
  "\<exists>response keys.
     generate_key_exchange_response demo_ext [7] [8] ''vm2''
       \<lparr>kxi_sender_id = ''vm1'', kxi_kyber_pk = [1, 2], kxi_x25519_pk = [7], kxi_nonce = [5]\<rparr>
       = Inr (response, keys) \<and>
     complete_key_exchange demo_ext
       \<lparr>kxi_sender_id = ''vm1'', kxi_kyber_pk = [1, 2], kxi_x25519_pk = [7], kxi_nonce = [5]\<rparr>
       response [1, 2] [3, 4] [5] = Inr keys"
proof -
  have "generate_key_exchange_init demo_ext [1, 2] [3, 4] [5] ''vm1'' =
      Inr (\<lparr>kxi_sender_id = ''vm1'', kxi_kyber_pk = [1, 2], kxi_x25519_pk = [7], kxi_nonce = [5]\<rparr>,
           [1, 2], [3, 4], [5])"
    by (simp add: generate_key_exchange_init_def demo_ext_def sum_bytes_def)
  from key_exchange_agrees [OF demo_kem demo_dh this] show ?thesis by blast
qed

text \<open>
  C39.  The hand-written \<open>hmac_sha256\<close>, with its loop over the two pads, is HMAC as RFC 2104 defines
  it, for any hash function with 32-byte digests.
\<close>

theorem hmac_sha256_rfc2104:
  assumes "\<And>m. length (sha256 X m) = 32"
  shows "hmac_sha256 X key message = rfc2104 (sha256 X) key message"
  by (rule hmac_is_rfc2104 [OF assms])

theorem hmac_sha256_rfc2104_witness:
  "hmac_sha256 demo_ext [1, 2, 3] [4] = rfc2104 (sha256 demo_ext) [1, 2, 3] [4]"
  by (rule hmac_sha256_rfc2104) (rule demo_sha_length)

text \<open>
  \<open>decrypt\<close> inverts \<open>encrypt\<close> under the same key, and refuses a text too short to hold the
  nonce without touching the cipher.
\<close>

theorem decrypt_inverts_encrypt:
  assumes "aead_correct X" and "length nonce = 12"
  shows "(\<forall>key p c. encrypt X nonce key p = Inr c \<longrightarrow> decrypt X key c = Inr p) \<and>
         (\<forall>key c. length c < 12 \<longrightarrow> decrypt X key c = Inl (Err ''Ciphertext too short''))"
  using decrypt_encrypt [OF assms] decrypt_short by blast

theorem decrypt_inverts_encrypt_witness:
  "encrypt demo_ext (replicate 12 0) [1] [5, 6] = Inr (replicate 12 0 @ [1, 5, 6]) \<and>
   decrypt demo_ext [1] (replicate 12 0 @ [1, 5, 6]) = Inr [5, 6]"
proof -
  have e: "encrypt demo_ext (replicate 12 0) [1] [5, 6] = Inr (replicate 12 0 @ [1, 5, 6])"
    by (simp add: encrypt_def demo_ext_def sum_bytes_def)
  have "length (replicate 12 (0 :: u8)) = 12" by simp
  from decrypt_inverts_encrypt [OF demo_aead this] e show ?thesis by blast
qed

end
