(* ===== verification/Attest_Types.thy ===== *)
theory Attest_Types
  imports Crypto
begin

text \<open>
  The data an attestation carries: the measured state of a node (\<open>mfa-agent/src/ebpf/mod.rs\<close>,
  \<open>mfa-agent/src/sysmon/mod.rs\<close>) and the TPM quote and baseline records of
  \<open>mfa-agent/src/tpm/mod.rs\<close>.  Field names carry a prefix per record; \<open>usize\<close> is a 64-bit word; a
  \<open>BTreeMap\<close> is the list of its entries in key order.
\<close>

section \<open>Behavioural monitoring\<close>

record SysmonEvent =
  ev_timestamp_ns :: u64
  ev_pid :: u32
  ev_tgid :: u32
  ev_event_type :: string
  ev_comm :: string
  ev_arg :: string

record SysmonState =
  sm_active :: bool
  sm_execve_count :: u64
  sm_ptrace_count :: u64
  sm_mount_count :: u64
  sm_socket_count :: u64
  sm_sensitive_open_count :: u64
  sm_connect_count :: u64
  sm_connect_unauthorized_count :: u64
  sm_socket_exotic_count :: u64
  sm_total_hooks :: u64
  sm_anomalies_detected :: bool
  sm_recent_events :: "SysmonEvent list"
  sm_execve_agent_count :: u64

section \<open>Measured state of a node\<close>

record ProcessIdentity =
  pi_comm :: string
  pi_exe_path :: string

record MasqueradeAlert =
  ma_pid :: u32
  ma_comm :: string
  ma_exe_path :: string
  ma_ppid :: u32

record BpfProgramInfo =
  bpi_id :: u32
  bpi_prog_type :: string
  bpi_name :: string

record BpfProgInfo =
  bp_id :: u32
  bp_prog_type :: u32
  bp_name :: string

record KernelIntegrity =
  ki_bpf_programs :: "BpfProgInfo list"
  ki_bpf_program_count :: u64
  ki_unexpected_bpf :: "BpfProgInfo list"
  ki_kprobes :: "string list"
  ki_kprobe_count :: u64
  ki_modules :: "string list"
  ki_module_count :: u64
  ki_anomalies :: "string list"
  ki_clean :: bool

record XdpStats =
  xs_active :: bool
  xs_passed :: u64
  xs_drop_entropy :: u64
  xs_drop_protocol :: u64
  xs_drop_port :: u64
  xs_total :: u64
  xs_exempt :: u64
  xs_entropy_histogram :: "u64 list"
  xs_size_histogram :: "u64 list"

record ProcessFdAudit =
  pfa_pid :: u32
  pfa_comm :: string
  pfa_fd_count :: u64
  pfa_socket_count :: u64
  pfa_pipe_count :: u64
  pfa_file_count :: u64
  pfa_suspicious :: "string list"

record FdAuditSummary =
  fda_processes_audited :: u64
  fda_total_fds :: u64
  fda_total_sockets :: u64
  fda_total_pipes :: u64
  fda_total_files :: u64
  fda_anomalies :: "string list"
  fda_process_details :: "ProcessFdAudit list"

record InitIntegrity =
  ii_init_scripts_hash :: "bytes option"
  ii_active_script_count :: u64
  ii_active_scripts :: "string list"
  ii_runlevel_hash :: "bytes option"
  ii_runlevel_map :: "(string \<times> string) list"
  ii_local_d_hash :: "bytes option"
  ii_local_d_scripts :: "string list"
  ii_conf_d_hash :: "bytes option"
  ii_total_initd_count :: u64
  ii_inactive_scripts :: "string list"

record EbpfState =
  es_loaded_programs :: "BpfProgramInfo list"
  es_process_count :: u64
  es_process_list_hash :: bytes
  es_network_connections :: u64
  es_state_hash :: bytes
  es_iptables_hash :: "bytes option"
  es_binary_hashes :: "(string \<times> bytes) list option"
  es_binary_dir_listing_hash :: "bytes option"
  es_listening_ports :: "u16 list option"
  es_mount_hash :: "bytes option"
  es_config_hash :: "bytes option"
  es_sysctl_hash :: "bytes option"
  es_userspace_processes :: "ProcessIdentity list option"
  es_userspace_hash :: "bytes option"
  es_kernel_thread_types :: "string list option"
  es_kernel_thread_types_hash :: "bytes option"
  es_masquerade_alerts :: "MasqueradeAlert list option"
  es_kernel_modules :: "string list option"
  es_connection_tuples :: "string list option"
  es_connection_tuples_hash :: "bytes option"
  es_xdp_attached :: "bool option"
  es_xdp_stats :: "XdpStats option"
  es_passwd_hash :: "bytes option"
  es_ssh_config_hash :: "bytes option"
  es_ld_preload_safe :: "bool option"
  es_entropy_available :: "u32 option"
  es_sysmon :: "SysmonState option"
  es_boot_params_hash :: "bytes option"
  es_dev_inventory_hash :: "bytes option"
  es_passwd_content :: "string option"
  es_shadow_content :: "string option"
  es_sshd_config_content :: "string option"
  es_authorized_keys_content :: "string option"
  es_ld_preload_content :: "string option"
  es_boot_params_content :: "string option"
  es_dev_inventory_list :: "string list option"
  es_iptables_content :: "string option"
  es_mount_content :: "string option"
  es_sysctl_content :: "string option"
  es_fd_audit :: "FdAuditSummary option"
  es_kernel_integrity :: "KernelIntegrity option"
  es_init_integrity :: "InitIntegrity option"

section \<open>Forensic evidence\<close>

record ProcessDetail =
  pd_pid :: u32
  pd_ppid :: u32
  pd_comm :: string
  pd_exe_path :: string
  pd_cmdline :: string
  pd_uid :: u32
  pd_start_time :: string

record ProcessVolatileEvidence =
  pv_pid :: u32
  pv_comm :: string
  pv_memory_maps :: "string list"
  pv_open_fds :: "string list"
  pv_environment :: "string list"

record NodeForensicData =
  nf_timestamp :: u64
  nf_process_tree :: "ProcessDetail list"
  nf_process_volatile :: "ProcessVolatileEvidence list"
  nf_tcp_connections :: "string list"
  nf_arp_table :: "string list"
  nf_dmesg_tail :: "string list"
  nf_ima_tail :: "string list"
  nf_uptime_seconds :: u64
  nf_load_average :: string

section \<open>Quotes and baselines\<close>

record PcrValue =
  pcr_index :: u8
  pcr_value :: bytes

record ImaMeasurements =
  ima_count :: u64
  ima_aggregate_hash :: bytes
  ima_pcr10_value :: bytes
  ima_measurements_text :: string

record TpmQuote =
  tq_pcr_values :: "PcrValue list"
  tq_quote_data :: bytes
  tq_signature :: bytes
  tq_ak_public :: bytes
  tq_nonce :: bytes
  tq_ima_measurements :: ImaMeasurements
  tq_ebpf_state :: EbpfState

record PcrBaseline =
  bl_vm_identity :: string
  bl_pcr_values :: "PcrValue list"
  bl_ima_baseline :: "ImaMeasurements option"
  bl_ebpf_baseline :: "EbpfState option"
  bl_ak_public :: "bytes option"
  bl_timestamp :: u64
  bl_description :: string

end
