(* ===== verification/Protocol.thy ===== *)
theory Protocol
  imports Tpm
begin

text \<open>
  The messages of the circuits and chains, the chain packet and the baseline database
  (\<open>mfa-agent/src/protocol/mod.rs\<close>).  The interface \<open>baseline_store\<close> states what a verifier relies on
  when it looks a node up; the database is an instance of it.
\<close>

section \<open>Messages\<close>

record ExtendCircuit =
  ec_target_id :: string
  ec_kyber_pk :: bytes
  ec_x25519_pk :: bytes
  ec_nonce :: bytes

record ExtendedCircuit =
  ed_responder_id :: string
  ed_kyber_ct :: bytes
  ed_x25519_pk :: bytes

record RelayCell =
  rc_encrypted_payload :: bytes

record Attestation =
  att_vm_identity :: string
  att_tpm_quote :: TpmQuote
  att_timestamp :: u64

record ChainPacket =
  cp_attestations :: "Attestation list"
  cp_chain_id :: bytes
  cp_timestamp :: u64
  cp_is_response :: bool
  cp_session_token :: "bytes option"

datatype SessionStatus = Provisional | Authorized | Denied | Revoked

fun status_name :: "SessionStatus \<Rightarrow> string" where
  "status_name Provisional = ''PROVISIONAL''"
| "status_name Authorized = ''AUTHORIZED''"
| "status_name Denied = ''DENIED''"
| "status_name Revoked = ''REVOKED''"

record NodeVerificationResult =
  nvr_vm_identity :: string
  nvr_pcr_match :: bool
  nvr_ima_valid :: bool
  nvr_ebpf_valid :: bool
  nvr_signature_valid :: bool
  nvr_ak_match :: bool
  nvr_details :: string

record VerificationResponse =
  vr_verified :: bool
  vr_session_status :: SessionStatus
  vr_session_token :: "bytes option"
  vr_node_results :: "NodeVerificationResult list"
  vr_chain_id :: bytes
  vr_timestamp :: u64

record Chain2Packet =
  c2_chain1_results :: VerificationResponse
  c2_chain2_attestations :: "Attestation list"
  c2_chain2_id :: bytes
  c2_timestamp :: u64

record FullAuthorizationResponse =
  far_authorized :: bool
  far_session_status :: SessionStatus
  far_session_token :: "bytes option"
  far_chain1_node_results :: "NodeVerificationResult list"
  far_chain2_node_results :: "NodeVerificationResult list"
  far_chain1_id :: bytes
  far_chain2_id :: bytes
  far_timestamp :: u64

datatype RelayCommand =
    Extend ExtendCircuit
  | Extended ExtendedCircuit
  | AttestationRequest
  | AttestationResponse Attestation
  | ChainSubmission ChainPacket
  | VerificationResult VerificationResponse
  | Chain2Submission Chain2Packet
  | FullAuthorizationResult FullAuthorizationResponse
  | Data bytes

record RelayCellPayload =
  rp_command :: RelayCommand
  rp_next_hop :: "string option"
  rp_inner_cell :: "bytes option"

datatype ProtocolMessage =
    PmExtendCircuit ExtendCircuit
  | PmExtendedCircuit ExtendedCircuit
  | PmRelayCell RelayCell
  | PmAttestationChain ChainPacket

section \<open>Chain packets\<close>

text \<open>\<open>now_nanos\<close> and \<open>now\<close> are the readings of the clock the two constructors take.\<close>

definition chain_packet_new :: "crypto_ext \<Rightarrow> nat \<Rightarrow> u64 \<Rightarrow> u64 \<Rightarrow> string \<Rightarrow> TpmQuote \<Rightarrow> ChainPacket" where
  "chain_packet_new X now_nanos att_now now vm_identity tpm_quote =
     \<lparr>cp_attestations = [\<lparr>att_vm_identity = vm_identity, att_tpm_quote = tpm_quote, att_timestamp = att_now\<rparr>],
      cp_chain_id = sha256 X (as_bytes (vm_identity @ ''-'' @ show_nat now_nanos)),
      cp_timestamp = now, cp_is_response = False, cp_session_token = None\<rparr>"

definition add_attestation :: "u64 \<Rightarrow> string \<Rightarrow> TpmQuote \<Rightarrow> ChainPacket \<Rightarrow> ChainPacket" where
  "add_attestation now vm_identity tpm_quote p =
     p\<lparr>cp_attestations := cp_attestations p @
        [\<lparr>att_vm_identity = vm_identity, att_tpm_quote = tpm_quote, att_timestamp = now\<rparr>]\<rparr>"

section \<open>Baseline database\<close>

record BaselineDatabase =
  db_baselines :: "string \<rightharpoonup> PcrBaseline"
  db_updated :: u64

definition database_new :: "u64 \<Rightarrow> BaselineDatabase" where
  "database_new now = \<lparr>db_baselines = Map.empty, db_updated = now\<rparr>"

definition add_baseline :: "u64 \<Rightarrow> PcrBaseline \<Rightarrow> BaselineDatabase \<Rightarrow> BaselineDatabase" where
  "add_baseline now baseline db =
     \<lparr>db_baselines = (db_baselines db)(bl_vm_identity baseline \<mapsto> baseline), db_updated = now\<rparr>"

definition get_baseline :: "BaselineDatabase \<Rightarrow> string \<Rightarrow> PcrBaseline option" where
  "get_baseline db vm_identity = db_baselines db vm_identity"

text \<open>Saving and loading: the JSON printer and parser are arguments, the file system a map.\<close>

definition save_to_file ::
  "(BaselineDatabase \<Rightarrow> string res) \<Rightarrow> BaselineDatabase \<Rightarrow> string \<Rightarrow> (string \<rightharpoonup> string, unit) io" where
  "save_to_file to_json db path =
     io_bind (io_res (to_json db)) (\<lambda>json files. (Inr (), files(path \<mapsto> json)))"

definition load_from_file ::
  "(string \<Rightarrow> BaselineDatabase res) \<Rightarrow> string \<Rightarrow> (string \<rightharpoonup> string, BaselineDatabase) io" where
  "load_from_file from_json path files =
     (case files path of
        None \<Rightarrow> (Inl (Err ''No such file or directory''), files)
      | Some json \<Rightarrow> (from_json json, files))"

section \<open>The database as a store\<close>

locale baseline_store =
  fixes get :: "'db \<Rightarrow> string \<Rightarrow> PcrBaseline option"
    and add :: "u64 \<Rightarrow> PcrBaseline \<Rightarrow> 'db \<Rightarrow> 'db"
    and fresh :: "u64 \<Rightarrow> 'db"
  assumes get_fresh: "get (fresh t) v = None"
    and get_add: "get (add t b db) v = (if v = bl_vm_identity b then Some b else get db v)"
begin

text \<open>After any number of additions a node has the baseline added last under its identity.\<close>

lemma get_fold_add:
  "get (fold (\<lambda>(t, b). add t b) bs db) v =
     (case find (\<lambda>(t, b). bl_vm_identity b = v) (rev bs) of
        None \<Rightarrow> get db v | Some (t, b) \<Rightarrow> Some b)"
proof (induction bs rule: rev_induct)
  case Nil
  show ?case by simp
next
  case (snoc x xs)
  then show ?case by (cases x) (auto simp: get_add)
qed

end

interpretation bdb: baseline_store get_baseline add_baseline database_new
  by unfold_locales (simp_all add: get_baseline_def add_baseline_def database_new_def)

lemma add_attestation_length:
  "length (cp_attestations (add_attestation t v q p)) = Suc (length (cp_attestations p))"
  by (simp add: add_attestation_def)

end
