(* ===== verification/Samples.thy ===== *)
theory Samples
  imports Protocol
begin

text \<open>
  Concrete platforms, quotes, baselines and attestations, used to evaluate the definitions and to show
  that the hypotheses of the properties can hold.
\<close>

text \<open>The \<open>Default\<close> of the measured state, and a platform that measures it.\<close>

definition default_state :: EbpfState where
  "default_state = \<lparr>es_loaded_programs = [], es_process_count = 0, es_process_list_hash = [],
     es_network_connections = 0, es_state_hash = [], es_iptables_hash = None, es_binary_hashes = None,
     es_binary_dir_listing_hash = None, es_listening_ports = None, es_mount_hash = None,
     es_config_hash = None, es_sysctl_hash = None, es_userspace_processes = None,
     es_userspace_hash = None, es_kernel_thread_types = None, es_kernel_thread_types_hash = None,
     es_masquerade_alerts = None, es_kernel_modules = None, es_connection_tuples = None,
     es_connection_tuples_hash = None, es_xdp_attached = None, es_xdp_stats = None,
     es_passwd_hash = None, es_ssh_config_hash = None, es_ld_preload_safe = None,
     es_entropy_available = None, es_sysmon = None, es_boot_params_hash = None,
     es_dev_inventory_hash = None, es_passwd_content = None, es_shadow_content = None,
     es_sshd_config_content = None, es_authorized_keys_content = None, es_ld_preload_content = None,
     es_boot_params_content = None, es_dev_inventory_list = None, es_iptables_content = None,
     es_mount_content = None, es_sysctl_content = None, es_fd_audit = None,
     es_kernel_integrity = None, es_init_integrity = None\<rparr>"

definition demo_env :: "nat \<Rightarrow> tpm_env" where
  "demo_env n = \<lparr>te_context = (\<lambda>_. Inr ()), te_pcr_read = (\<lambda>_. Inr [[1], [2]]), te_random = [9],
     te_sign_quote = (\<lambda>_ _. Inr ([4], [5], [6])),
     te_read_file = (\<lambda>f. Inr (if f = ''/sys/kernel/security/ima/runtime_measurements_count''
                             then show_nat n else replicate n (CHR 0x0A))),
     te_collect_state = Inr default_state\<rparr>"

definition demo_tss :: tss_verify where
  "demo_tss = \<lparr>tv_context = Inr (), tv_unmarshall_public = Inr, tv_load_external = (\<lambda>_. Inr ()),
     tv_unmarshall_signature = Inr, tv_verify = (\<lambda>key digest sig. key = [6] \<and> sig = [5])\<rparr>"

definition demo_quote :: "nat \<Rightarrow> TpmQuote" where
  "demo_quote n = \<lparr>tq_pcr_values = [\<lparr>pcr_index = 0, pcr_value = [1]\<rparr>, \<lparr>pcr_index = 1, pcr_value = [2]\<rparr>],
     tq_quote_data = [4], tq_signature = [5], tq_ak_public = [6], tq_nonce = [9],
     tq_ima_measurements = \<lparr>ima_count = word_of_nat n,
        ima_aggregate_hash = sha256 demo_ext (as_bytes (replicate n (CHR 0x0A))),
        ima_pcr10_value = [1], ima_measurements_text = replicate n (CHR 0x0A)\<rparr>,
     tq_ebpf_state = default_state\<rparr>"

definition demo_baseline :: "string \<Rightarrow> PcrBaseline" where
  "demo_baseline vm = \<lparr>bl_vm_identity = vm, bl_pcr_values = tq_pcr_values (demo_quote 200),
     bl_ima_baseline = Some (tq_ima_measurements (demo_quote 200)), bl_ebpf_baseline = Some default_state,
     bl_ak_public = Some [6], bl_timestamp = 7, bl_description = ''golden''\<rparr>"

definition demo_attestation :: "string \<Rightarrow> nat \<Rightarrow> Attestation" where
  "demo_attestation vm n = \<lparr>att_vm_identity = vm, att_tpm_quote = demo_quote n, att_timestamp = 8\<rparr>"

lemma dropWhile_space_digits:
  assumes "list_all is_digit s" shows "dropWhile is_space s = s"
  using assms by (cases s) (auto simp: is_digit_def is_space_def)

lemma str_trim_show: "str_trim (show_nat n) = show_nat n"
proof -
  have "list_all is_digit (rev (show_nat n))" using show_nat_digits [of n] by (simp add: list_all_iff)
  then show ?thesis
    by (simp add: str_trim_def dropWhile_space_digits show_nat_digits)
qed

lemma demo_generate: "n < 2 ^ 64 \<Longrightarrow> generate_quote demo_ext (demo_env n) = Inr (demo_quote n)"
  by (simp add: generate_quote_def read_pcrs_def create_ak_and_sign_quote_def read_ima_measurements_def
      read_pcr10_def demo_env_def demo_quote_def str_trim_show parse_unsigned_show Let_def
      del: of_nat_numeral)

lemma demo_log:
  "n = a + b \<Longrightarrow> ima_measurements_text (tq_ima_measurements (demo_quote n))
     = replicate a (CHR 0x0A) @ replicate b (CHR 0x0A)"
  by (simp add: demo_quote_def replicate_add)

lemma demo_capture: "capture_baseline demo_ext (demo_env 200) (Inr 7) vm ''golden'' = Inr (demo_baseline vm)"
  by (simp add: capture_baseline_def demo_generate demo_baseline_def Let_def)
     (simp add: demo_quote_def)

end
