(* ===== verification/Attest_Verify.thy ===== *)
theory Attest_Verify
  imports Samples
begin

text \<open>
  Attestation verification: \<open>BaselineDatabase::verify_attestation\<close> of
  \<open>mfa-agent/src/protocol/mod.rs\<close>, one long function in the source.  Here every check of it is a
  definition of its own that returns the texts it pushes to \<open>details\<close> (and the flag it may clear), and
  \<open>verify_attestation\<close> composes them in the order of the source.  The order in which a \<open>HashSet\<close>
  yields its elements is the argument \<open>ve_order\<close>.  Lemmas: what each flag of the result means, that an
  honest node passes, that a rewritten IMA log does not.
\<close>

section \<open>Texts of differences\<close>

text \<open>
  \<open>ve_order\<close> and \<open>ve_order_str\<close> give the order in which the hash sets of processes and of strings are
  iterated: any permutation of the elements.
\<close>

record verify_env =
  ve_x :: crypto_ext
  ve_tss :: tss_verify
  ve_order :: "ProcessIdentity list \<Rightarrow> ProcessIdentity list"
  ve_order_str :: "string list \<Rightarrow> string list"

definition transient_console :: "string list" where
  "transient_console = [''bash'', ''agetty'']"

definition diff_userspace_processes ::
  "verify_env \<Rightarrow> ProcessIdentity list option \<Rightarrow> ProcessIdentity list option \<Rightarrow> string" where
  "diff_userspace_processes V current baseline =
     (let cur = filter (\<lambda>p. pi_comm p \<notin> set transient_console) (unwrap_or [] current);
          bl = filter (\<lambda>p. pi_comm p \<notin> set transient_console) (unwrap_or [] baseline);
          new_procs = ve_order V (remdups (filter (\<lambda>p. p \<notin> set bl) cur));
          missing_procs = ve_order V (remdups (filter (\<lambda>p. p \<notin> set cur) bl));
          parts = map (\<lambda>p. ''+('' @ pi_comm p @ '','' @ pi_exe_path p @ '')'') new_procs
                @ map (\<lambda>p. ''-('' @ pi_comm p @ '','' @ pi_exe_path p @ '')'') missing_procs
      in if parts = [] then ''hash differs but sets match (ordering?)'' else str_join ''; '' parts)"

definition diff_string_sets ::
  "verify_env \<Rightarrow> string list option \<Rightarrow> string list option \<Rightarrow> string \<Rightarrow> string" where
  "diff_string_sets V current baseline label =
     (let cur = unwrap_or [] current; bl = unwrap_or [] baseline;
          new_items = ve_order_str V (remdups (filter (\<lambda>p. p \<notin> set bl) cur));
          missing_items = ve_order_str V (remdups (filter (\<lambda>p. p \<notin> set cur) bl));
          parts = map (\<lambda>s. ''+'' @ s) new_items @ map (\<lambda>s. ''-'' @ s) missing_items
      in if parts = [] then label @ '' hash differs but sets match'' else str_join ''; '' parts)"

text \<open>
  \<open>{:?}\<close> of a string: quotes, backslashes and control characters are escaped; non-ASCII characters
  are taken as printable.
\<close>

definition debug_char :: "char \<Rightarrow> string" where
  "debug_char c =
     (let n = of_char c :: nat in
      if c = CHR 0x22 then [CHR 0x5C, CHR 0x22]
      else if c = CHR 0x5C then [CHR 0x5C, CHR 0x5C]
      else if n = 9 then [CHR 0x5C, CHR ''t'']
      else if n = 10 then [CHR 0x5C, CHR ''n'']
      else if n = 13 then [CHR 0x5C, CHR ''r'']
      else if n = 0 then [CHR 0x5C, CHR ''0'']
      else if n < 16 then CHR 0x5C # ''u{'' @ [hex_digit n] @ ''}''
      else if n < 32 \<or> n = 127 then CHR 0x5C # ''u{'' @ [hex_digit (n div 16), hex_digit (n mod 16)] @ ''}''
      else [c])"

definition debug_string :: "string \<Rightarrow> string" where
  "debug_string s = CHR 0x22 # concat (map debug_char s) @ [CHR 0x22]"

section \<open>Boot and IMA checks\<close>

definition check_pcr :: "PcrValue list \<Rightarrow> PcrValue \<Rightarrow> string list" where
  "check_pcr expected actual =
     (case find (\<lambda>p. pcr_index p = pcr_index actual) expected of
        None \<Rightarrow> []
      | Some e \<Rightarrow>
          (if pcr_value actual \<noteq> pcr_value e
           then [''PCR'' @ show_word (pcr_index actual) @ '' MISMATCH: expected='' @ hex_encode (pcr_value e)
                 @ '' got='' @ hex_encode (pcr_value actual)]
           else []))"

definition check_pcrs :: "PcrBaseline \<Rightarrow> TpmQuote \<Rightarrow> bool \<times> string list" where
  "check_pcrs bl q =
     (let mismatches = concat (map (check_pcr (bl_pcr_values bl)) (tq_pcr_values q)) in
      (mismatches = [],
       mismatches @ (if mismatches = [] then [show_nat (length (tq_pcr_values q)) @ '' PCRs match''] else [])))"

text \<open>The difference of the two \<open>usize\<close> counters, cast to \<open>i64\<close>, wraps at 64 bits.\<close>

definition check_ima_count :: "u64 option \<Rightarrow> u64 \<Rightarrow> bool \<times> string list" where
  "check_ima_count prev_ima_count count =
     (if count < 200 then (False, [''IMA LOW: '' @ show_word count @ '' (expected >=200)''])
      else case prev_ima_count of
        None \<Rightarrow> (True, [''IMA:'' @ show_word count @ ''/first''])
      | Some prev \<Rightarrow>
          (let delta = sint (count - prev) in
           if delta < 0 then (False, [''IMA TAMPER: prev='' @ show_word prev @ '' cur='' @ show_word count
                                      @ '' delta='' @ show_int delta])
           else if 20 < delta then (False, [''IMA SPIKE: prev='' @ show_word prev @ '' cur='' @ show_word count
                                      @ '' delta=+'' @ show_int delta])
           else (True, [''IMA:'' @ show_word count @ ''/d+'' @ show_int delta])))"

text \<open>
  \<open>&text[..=idx]\<close> for the position of the \<open>n\<close>-th newline (from 0): the first \<open>n + 1\<close> lines.
\<close>

fun prefix_lines :: "nat \<Rightarrow> string \<Rightarrow> string option" where
  "prefix_lines n [] = None"
| "prefix_lines n (c # cs) =
     (if c = CHR 0x0A then (case n of 0 \<Rightarrow> Some [c] | Suc k \<Rightarrow> map_option ((#) c) (prefix_lines k cs))
      else map_option ((#) c) (prefix_lines n cs))"

definition check_ima_aggregate ::
  "crypto_ext \<Rightarrow> u64 option \<Rightarrow> bytes option \<Rightarrow> ImaMeasurements \<Rightarrow> bool \<times> string list" where
  "check_ima_aggregate X prev_ima_count prev_ima_aggregate ima =
     (case (prev_ima_count, prev_ima_aggregate) of
        (Some prev_count, Some prev_agg) \<Rightarrow>
          (let cur_text = ima_measurements_text ima in
           if cur_text = [] then (False, [''IMA AGG: attestation_incomplete''])
           else if ima_count ima < prev_count then
             (False, [''IMA AGG: count_below_prev cur='' @ show_word (ima_count ima)
                      @ '' prev='' @ show_word prev_count])
           else
             (let found = prefix_lines (unat (saturating_sub prev_count 1)) cur_text;
                  truncated = (found = None);
                  prefix_bytes = as_bytes (unwrap_or cur_text found);
                  note = (if truncated then [''IMA AGG: log_truncated cur_lines<'' @ show_word prev_count] else [])
              in if prefix_bytes = [] then (\<not> truncated, note)
                 else if sha256 X prefix_bytes = prev_agg then (\<not> truncated, note @ [''IMA AGG:OK''])
                 else (False, note @ [''IMA AGG TAMPERED: prev_count='' @ show_word prev_count
                                      @ '' hash mismatch''])))
      | _ \<Rightarrow> (True, [''IMA AGG:first'']))"

section \<open>Checks of the measured state\<close>

text \<open>
  None of these clears a flag: the source assigns \<open>ebpf_valid\<close> once, at its declaration, and the
  later assignments are commented out.  \<open>cur\<close> is the state in the attestation, \<open>bl\<close> the baseline.
\<close>

definition i64_abs :: "int \<Rightarrow> int" where
  "i64_abs d = (if d = - (2 ^ 63) then d else \<bar>d\<bar>)"

definition check_userspace :: "verify_env \<Rightarrow> EbpfState \<Rightarrow> EbpfState \<Rightarrow> string list" where
  "check_userspace V cur bl =
     (case (es_userspace_hash cur, es_userspace_hash bl) of
        (Some cur_hash, Some bl_hash) \<Rightarrow>
          (if cur_hash \<noteq> bl_hash
           then [''USERSPACE CHANGED: '' @
                 diff_userspace_processes V (es_userspace_processes cur) (es_userspace_processes bl)]
           else [''USR:OK('' @ show_nat (length (unwrap_or [] (es_userspace_processes cur))) @ '')''])
      | (Some _, None) \<Rightarrow> [''USR:no_baseline'']
      | (None, Some _) \<Rightarrow> [''USR:not_reported'']
      | (None, None) \<Rightarrow>
          (let proc_diff = i64_abs (sint (es_process_count cur - es_process_count bl)) in
           if 10 < proc_diff
           then [''PROC ANOMALY: bl='' @ show_word (es_process_count bl) @ '' cur='' @ show_word (es_process_count cur)
                 @ '' diff='' @ show_int proc_diff]
           else [''PROC:'' @ show_word (es_process_count cur) @ ''/bl:'' @ show_word (es_process_count bl)]))"

definition check_kernel_threads :: "verify_env \<Rightarrow> EbpfState \<Rightarrow> EbpfState \<Rightarrow> string list" where
  "check_kernel_threads V cur bl =
     (case (es_kernel_thread_types_hash cur, es_kernel_thread_types_hash bl) of
        (Some cur_hash, Some bl_hash) \<Rightarrow>
          (if cur_hash \<noteq> bl_hash
           then [''KTHREAD CHANGED: '' @
                 diff_string_sets V (es_kernel_thread_types cur) (es_kernel_thread_types bl) ''KTHREAD'']
           else [''KTH:OK('' @ show_nat (length (unwrap_or [] (es_kernel_thread_types cur))) @ '')''])
      | (Some _, None) \<Rightarrow> [''KTH:no_baseline'']
      | (None, Some _) \<Rightarrow> [''KTH:not_reported'']
      | (None, None) \<Rightarrow> [])"

definition check_masquerade :: "EbpfState \<Rightarrow> string list" where
  "check_masquerade cur =
     (case es_masquerade_alerts cur of
        None \<Rightarrow> []
      | Some alerts \<Rightarrow>
          (if alerts \<noteq> []
           then [''MASQUERADE: '' @ str_join '', ''
                   (map (\<lambda>a. ''PID'' @ show_word (ma_pid a) @ '':'' @ ma_comm a @ ''('' @ ma_exe_path a @ '')'') alerts)]
           else []))"

definition check_modules :: "EbpfState \<Rightarrow> string list" where
  "check_modules cur =
     (case es_kernel_modules cur of
        None \<Rightarrow> []
      | Some modules \<Rightarrow>
          (if modules \<noteq> [] then [''KERNEL MODULES LOADED: '' @ debug_list (map debug_string modules)]
           else [''MOD:empty'']))"

text \<open>\<open>if let (Some(cur), Some(bl)) = ...\<close>: a hash absent on either side is not compared.\<close>

definition hash_changed :: "bytes option \<Rightarrow> bytes option \<Rightarrow> bool" where
  "hash_changed cur bl = (case (cur, bl) of (Some c, Some b) \<Rightarrow> c \<noteq> b | _ \<Rightarrow> False)"

definition init_changes :: "InitIntegrity \<Rightarrow> InitIntegrity \<Rightarrow> string list" where
  "init_changes ii bl_ii =
     (if hash_changed (ii_init_scripts_hash ii) (ii_init_scripts_hash bl_ii) then [''active scripts CHANGED''] else [])
     @ (if hash_changed (ii_local_d_hash ii) (ii_local_d_hash bl_ii) then [''local.d scripts CHANGED''] else [])
     @ (if hash_changed (ii_runlevel_hash ii) (ii_runlevel_hash bl_ii) then [''runlevel structure CHANGED''] else [])
     @ (if hash_changed (ii_conf_d_hash ii) (ii_conf_d_hash bl_ii) then [''conf.d overrides CHANGED''] else [])
     @ (if length (ii_inactive_scripts ii) \<noteq> length (ii_inactive_scripts bl_ii)
        then [''unused script count CHANGED''] else [])"

definition check_init :: "EbpfState \<Rightarrow> EbpfState \<Rightarrow> string list" where
  "check_init cur bl =
     (case es_init_integrity cur of
        None \<Rightarrow> []
      | Some ii \<Rightarrow>
          (case es_init_integrity bl of
             None \<Rightarrow> []
           | Some bl_ii \<Rightarrow>
               (let changes = init_changes ii bl_ii in
                if changes = [] then [''INIT:OK('' @ show_word (ii_active_script_count ii) @ '')'']
                else [''INIT:TAMPERED('' @ str_join '', '' changes @ '')'']))
          @ (if ii_inactive_scripts ii \<noteq> []
             then [''INIT:UNUSED('' @ show_nat (length (ii_inactive_scripts ii)) @ '')''] else []))"

definition check_xdp :: "EbpfState \<Rightarrow> string list" where
  "check_xdp cur =
     (case es_xdp_attached cur of
        None \<Rightarrow> [] | Some xdp \<Rightarrow> (if \<not> xdp then [''XDP DETACHED''] else [''XDP:OK'']))"

definition check_xdp_stats :: "EbpfState \<Rightarrow> string list" where
  "check_xdp_stats cur =
     (case es_xdp_stats cur of
        None \<Rightarrow> []
      | Some xs \<Rightarrow>
          (if xs_active xs
           then (let exempt_pct = (if 0 < xs_total xs then (xs_exempt xs * 100) div xs_total xs else 0) in
                 [''XDP_STATS:pass='' @ show_word (xs_passed xs) @ '',drop_e='' @ show_word (xs_drop_entropy xs)
                  @ '',drop_p='' @ show_word (xs_drop_port xs) @ '',exempt='' @ show_word exempt_pct @ ''%''])
           else []))"

text \<open>The shape of the eight checks that compare one optional hash with the baseline.\<close>

definition hash_check :: "string \<Rightarrow> string \<Rightarrow> string \<Rightarrow> bytes option \<Rightarrow> bytes option \<Rightarrow> string list" where
  "hash_check ok changed missing cur bl =
     (case (cur, bl) of
        (Some c, Some b) \<Rightarrow> (if c = b then [ok] else [changed])
      | (None, Some _) \<Rightarrow> [missing]
      | _ \<Rightarrow> [])"

definition check_passwd :: "EbpfState \<Rightarrow> EbpfState \<Rightarrow> string list" where
  "check_passwd cur bl =
     hash_check ''PASSWD:OK'' ''PASSWD CHANGED'' ''PASSWD:missing'' (es_passwd_hash cur) (es_passwd_hash bl)"

definition check_ssh :: "EbpfState \<Rightarrow> EbpfState \<Rightarrow> string list" where
  "check_ssh cur bl =
     hash_check ''SSH:OK'' ''SSH CONFIG CHANGED'' ''SSH:missing'' (es_ssh_config_hash cur) (es_ssh_config_hash bl)"

definition check_ld_preload :: "EbpfState \<Rightarrow> string list" where
  "check_ld_preload cur =
     (case es_ld_preload_safe cur of
        None \<Rightarrow> [] | Some safe \<Rightarrow> (if \<not> safe then [''LD_PRELOAD ROOTKIT''] else [''PRELOAD:OK'']))"

definition check_entropy :: "EbpfState \<Rightarrow> string list" where
  "check_entropy cur =
     (case es_entropy_available cur of
        None \<Rightarrow> []
      | Some entropy \<Rightarrow> (if entropy < 128 then [''ENT:LOW('' @ show_word entropy @ '')'']
                         else [''ENT:'' @ show_word entropy]))"

text \<open>The increments of the five watched counters since the previous attestation.\<close>

definition sysmon_deltas :: "SysmonState option \<Rightarrow> SysmonState \<Rightarrow> u64 \<times> u64 \<times> u64 \<times> u64 \<times> u64" where
  "sysmon_deltas prev_sysmon sm =
     (case prev_sysmon of
        None \<Rightarrow> (0, 0, 0, 0, 0)
      | Some prev \<Rightarrow>
          (saturating_sub (sm_execve_count sm) (sm_execve_count prev),
           saturating_sub (sm_ptrace_count sm) (sm_ptrace_count prev),
           saturating_sub (sm_mount_count sm) (sm_mount_count prev),
           saturating_sub (sm_connect_unauthorized_count sm) (sm_connect_unauthorized_count prev),
           saturating_sub (sm_socket_exotic_count sm) (sm_socket_exotic_count prev)))"

definition sysmon_text :: "SysmonState option \<Rightarrow> SysmonState \<Rightarrow> string" where
  "sysmon_text prev_sysmon sm =
     (case sysmon_deltas prev_sysmon sm of (d_exec, d_ptrace, d_mount, d_unauth, d_exotic) \<Rightarrow>
        (if 0 < d_exec \<or> 0 < d_ptrace \<or> 0 < d_mount \<or> 0 < d_unauth \<or> 0 < d_exotic
         then ''SYSMON:ANOMALY(exec:+'' @ show_word d_exec @ '',ptrace:+'' @ show_word d_ptrace
              @ '',mount:+'' @ show_word d_mount @ '',unauth_conn:+'' @ show_word d_unauth
              @ '',exotic_sock:+'' @ show_word d_exotic @ '')''
         else ''SYSMON:OK(hooks:'' @ show_word (sm_total_hooks sm) @ '',exec:+'' @ show_word d_exec
              @ '',ptrace:+'' @ show_word d_ptrace @ '',mount:+'' @ show_word d_mount
              @ '',conn:+'' @ show_word d_unauth @ '',sock:+'' @ show_word d_exotic @ '')''))"

definition check_sysmon :: "SysmonState option \<Rightarrow> EbpfState \<Rightarrow> EbpfState \<Rightarrow> string list" where
  "check_sysmon prev_sysmon cur bl =
     (let baseline_sysmon_active = (case es_sysmon bl of None \<Rightarrow> False | Some s \<Rightarrow> sm_active s);
          unloaded = (if baseline_sysmon_active then [''SYSMON:UNLOADED''] else [])
      in case es_sysmon cur of
           None \<Rightarrow> unloaded
         | Some sm \<Rightarrow> (if sm_active sm then [sysmon_text prev_sysmon sm] else unloaded))"

definition check_fd :: "EbpfState \<Rightarrow> string list" where
  "check_fd cur =
     (case es_fd_audit cur of
        None \<Rightarrow> []
      | Some fda \<Rightarrow>
          (if fda_anomalies fda = [] then [''FD:OK('' @ show_word (fda_total_fds fda) @ '')'']
           else [''FD:ANOMALY('' @ str_join ''; '' (fda_anomalies fda) @ '')'']))"

definition check_kernel :: "EbpfState \<Rightarrow> string list" where
  "check_kernel cur =
     (case es_kernel_integrity cur of
        None \<Rightarrow> []
      | Some ki \<Rightarrow>
          (if ki_clean ki
           then [''KERN:OK(bpf:'' @ show_word (ki_bpf_program_count ki) @ '',kp:'' @ show_word (ki_kprobe_count ki)
                 @ '',mod:'' @ show_word (ki_module_count ki) @ '')'']
           else [''KERN:ANOMALY('' @ str_join ''; '' (ki_anomalies ki) @ '')'']))"

definition check_boot :: "EbpfState \<Rightarrow> EbpfState \<Rightarrow> string list" where
  "check_boot cur bl =
     hash_check ''BOOT:OK'' ''BOOT PARAMS CHANGED'' ''BOOT:missing'' (es_boot_params_hash cur) (es_boot_params_hash bl)"

definition check_dev :: "EbpfState \<Rightarrow> EbpfState \<Rightarrow> string list" where
  "check_dev cur bl =
     hash_check ''DEV:OK'' ''DEV INVENTORY CHANGED'' ''DEV:missing''
       (es_dev_inventory_hash cur) (es_dev_inventory_hash bl)"

definition check_connections :: "verify_env \<Rightarrow> EbpfState \<Rightarrow> EbpfState \<Rightarrow> string list" where
  "check_connections V cur bl =
     (case (es_connection_tuples_hash cur, es_connection_tuples_hash bl) of
        (Some cur_hash, Some bl_hash) \<Rightarrow>
          (if cur_hash \<noteq> bl_hash
           then [''CONN CHANGED: '' @
                 diff_string_sets V (es_connection_tuples cur) (es_connection_tuples bl) ''CONN'']
           else [''CONN:OK('' @ show_nat (length (unwrap_or [] (es_connection_tuples cur))) @ '')''])
      | (Some _, None) \<Rightarrow> [''CONN:no_baseline'']
      | (None, Some _) \<Rightarrow> [''CONN:not_reported'']
      | (None, None) \<Rightarrow>
          (let conn_diff = i64_abs (sint (es_network_connections cur - es_network_connections bl)) in
           if 10 < conn_diff
           then [''CONN ANOMALY: bl='' @ show_word (es_network_connections bl) @ '' cur=''
                 @ show_word (es_network_connections cur)]
           else [''CONN:'' @ show_word (es_network_connections cur) @ ''/bl:''
                 @ show_word (es_network_connections bl)]))"

definition check_iptables :: "EbpfState \<Rightarrow> EbpfState \<Rightarrow> string list" where
  "check_iptables cur bl =
     hash_check ''FW:OK'' ''IPTABLES CHANGED'' ''FW:missing'' (es_iptables_hash cur) (es_iptables_hash bl)"

definition binary_mismatches :: "(string \<times> bytes) list \<Rightarrow> (string \<times> bytes) list \<Rightarrow> string list" where
  "binary_mismatches cur bl_map =
     concat (map (\<lambda>(path, bl_hash).
        (case map_of cur path of
           Some cur_hash \<Rightarrow> (if cur_hash = bl_hash then [] else [path @ '':CHANGED''])
         | None \<Rightarrow> [path @ '':MISSING''])) bl_map)
     @ concat (map (\<lambda>(path, _). (if map_of bl_map path = None then [path @ '':UNEXPECTED''] else [])) cur)"

definition check_binaries :: "EbpfState \<Rightarrow> EbpfState \<Rightarrow> string list" where
  "check_binaries cur bl =
     (case (es_binary_hashes cur, es_binary_hashes bl) of
        (Some c, Some bl_map) \<Rightarrow>
          (let mismatched = binary_mismatches c bl_map in
           if mismatched = [] then [''BIN:OK('' @ show_nat (length bl_map) @ '')'']
           else [''BIN:TAMPERED['' @ str_join '','' mismatched @ '']''])
      | (Some _, None) \<Rightarrow> [''BIN:STALE_BASELINE(recapture required)'']
      | (None, Some _) \<Rightarrow> [''BIN:ATTESTATION_INCOMPLETE'']
      | (None, None) \<Rightarrow> [''BIN:legacy''])"

definition check_bindir :: "EbpfState \<Rightarrow> EbpfState \<Rightarrow> string list" where
  "check_bindir cur bl =
     (case (es_binary_dir_listing_hash cur, es_binary_dir_listing_hash bl) of
        (Some c, Some b) \<Rightarrow> (if c \<noteq> b then [''BINDIR TAMPERED''] else [''BINDIR:OK''])
      | (Some _, None) \<Rightarrow> [''BINDIR:STALE_BASELINE'']
      | (None, Some _) \<Rightarrow> [''BINDIR:ATTESTATION_INCOMPLETE'']
      | (None, None) \<Rightarrow> [''BINDIR:legacy''])"

definition check_ports :: "EbpfState \<Rightarrow> EbpfState \<Rightarrow> string list" where
  "check_ports cur bl =
     (case (es_listening_ports cur, es_listening_ports bl) of
        (Some c, Some bl_ports) \<Rightarrow>
          (if c \<noteq> bl_ports
           then [''PORTS CHANGED: expected '' @ debug_list (map show_word bl_ports)
                 @ '' got '' @ debug_list (map show_word c)
                 @ '' new '' @ debug_list (map show_word (filter (\<lambda>p. p \<notin> set bl_ports) c))]
           else [''PORTS:'' @ debug_list (map show_word c)])
      | (None, Some _) \<Rightarrow> [''PORTS:missing'']
      | _ \<Rightarrow> [])"

definition check_mounts :: "EbpfState \<Rightarrow> EbpfState \<Rightarrow> string list" where
  "check_mounts cur bl =
     hash_check ''MNT:OK'' ''MOUNTS CHANGED'' ''MNT:missing'' (es_mount_hash cur) (es_mount_hash bl)"

definition check_config :: "EbpfState \<Rightarrow> EbpfState \<Rightarrow> string list" where
  "check_config cur bl =
     hash_check ''CFG:OK'' ''CONFIG TAMPERED'' ''CFG:missing'' (es_config_hash cur) (es_config_hash bl)"

definition check_sysctl :: "EbpfState \<Rightarrow> EbpfState \<Rightarrow> string list" where
  "check_sysctl cur bl =
     hash_check ''SYS:OK'' ''SYSCTL CHANGED'' ''SYS:missing'' (es_sysctl_hash cur) (es_sysctl_hash bl)"

definition check_ebpf :: "verify_env \<Rightarrow> SysmonState option \<Rightarrow> EbpfState \<Rightarrow> EbpfState option \<Rightarrow> string list" where
  "check_ebpf V prev_sysmon cur baseline =
     (case baseline of
        None \<Rightarrow> [''No eBPF baseline'']
      | Some bl \<Rightarrow>
          check_userspace V cur bl @ check_kernel_threads V cur bl @ check_masquerade cur
          @ check_modules cur @ check_init cur bl @ check_xdp cur @ check_xdp_stats cur
          @ check_passwd cur bl @ check_ssh cur bl @ check_ld_preload cur @ check_entropy cur
          @ check_sysmon prev_sysmon cur bl @ check_fd cur @ check_kernel cur @ check_boot cur bl
          @ check_dev cur bl @ check_connections V cur bl @ check_iptables cur bl
          @ check_binaries cur bl @ check_bindir cur bl @ check_ports cur bl @ check_mounts cur bl
          @ check_config cur bl @ check_sysctl cur bl)"

section \<open>Key and signature\<close>

definition check_ak :: "PcrBaseline \<Rightarrow> TpmQuote \<Rightarrow> bool \<times> string list" where
  "check_ak bl q =
     (case bl_ak_public bl of
        None \<Rightarrow> (False, [''AK NO BASELINE (unconfigured)''])
      | Some baseline_ak \<Rightarrow>
          (if tq_ak_public q \<noteq> []
           then (if ak_public_matches (tq_ak_public q) baseline_ak then (True, [''AK match''])
                 else (False, [''AK MISMATCH (different TPM!)'']))
           else (False, [''AK EMPTY (stripped identity)''])))"

text \<open>An error of the verifying TPM is reported and leaves the flag set; a panic would end the caller.\<close>

definition check_signature :: "verify_env \<Rightarrow> TpmQuote \<Rightarrow> bool \<times> string list" where
  "check_signature V q =
     (if tq_signature q \<noteq> [] \<and> tq_quote_data q \<noteq> []
      then (case verify_quote_signature (ve_x V) (ve_tss V) (tq_quote_data q) (tq_signature q) (tq_ak_public q) of
              Inr True \<Rightarrow> (True, [''SIG:OK''])
            | Inr False \<Rightarrow> (False, [''SIG:INVALID''])
            | Inl e \<Rightarrow> (True, [''SIG:ERR('' @ error_text e @ '')'']))
      else (True, [''SIG:none'']))"

section \<open>The verdict on one node\<close>

definition verify_attestation ::
  "verify_env \<Rightarrow> BaselineDatabase \<Rightarrow> Attestation \<Rightarrow> u64 option \<Rightarrow> bytes option \<Rightarrow> SysmonState option
     \<Rightarrow> NodeVerificationResult" where
  "verify_attestation V db att prev_ima_count prev_ima_aggregate prev_sysmon =
     (case get_baseline db (att_vm_identity att) of
        None \<Rightarrow>
          \<lparr>nvr_vm_identity = att_vm_identity att, nvr_pcr_match = False, nvr_ima_valid = True,
           nvr_ebpf_valid = True, nvr_signature_valid = True, nvr_ak_match = True,
           nvr_details = ''NO BASELINE for '' @ att_vm_identity att\<rparr>
      | Some bl \<Rightarrow>
          (let q = att_tpm_quote att;
               ima = tq_ima_measurements q;
               (pcr_match, d1) = check_pcrs bl q;
               (ima_ok, d2) = check_ima_count prev_ima_count (ima_count ima);
               (agg_ok, d3) = check_ima_aggregate (ve_x V) prev_ima_count prev_ima_aggregate ima;
               d4 = check_ebpf V prev_sysmon (tq_ebpf_state q) (bl_ebpf_baseline bl);
               (ak_match, d5) = check_ak bl q;
               (signature_valid, d6) = check_signature V q
           in \<lparr>nvr_vm_identity = att_vm_identity att, nvr_pcr_match = pcr_match,
               nvr_ima_valid = (ima_ok \<and> agg_ok), nvr_ebpf_valid = True,
               nvr_signature_valid = signature_valid, nvr_ak_match = ak_match,
               nvr_details = str_join ''; '' (d1 @ d2 @ d3 @ d4 @ d5 @ d6)\<rparr>))"

text \<open>All five flags of a result, the condition the callers print as a pass.\<close>

definition node_passes :: "NodeVerificationResult \<Rightarrow> bool" where
  "node_passes r \<longleftrightarrow>
     nvr_pcr_match r \<and> nvr_ima_valid r \<and> nvr_ebpf_valid r \<and> nvr_signature_valid r \<and> nvr_ak_match r"

section \<open>Lemmas on the IMA log\<close>

text \<open>A text made of \<open>n\<close> newline-terminated lines.\<close>

definition whole_lines :: "nat \<Rightarrow> string \<Rightarrow> bool" where
  "whole_lines n s \<longleftrightarrow> count_list s (CHR 0x0A) = n \<and> s \<noteq> [] \<and> last s = CHR 0x0A"

lemma whole_lines_pos: "whole_lines n s \<Longrightarrow> 0 < n"
  by (metis whole_lines_def count_list_0_iff last_in_set neq0_conv)

lemma prefix_lines_Some:
  assumes "prefix_lines n s = Some p"
  shows "prefix p s \<and> whole_lines (Suc n) p"
  using assms
proof (induction n s arbitrary: p rule: prefix_lines.induct)
  case (1 n)
  then show ?case by simp
next
  case (2 n c cs)
  then show ?case
    by (auto simp: whole_lines_def split: if_splits nat.splits)
qed

lemma prefix_lines_append:
  assumes "whole_lines (Suc n) p"
  shows "prefix_lines n (p @ t) = Some p"
  using assms
proof (induction p arbitrary: n)
  case Nil
  then show ?case by (simp add: whole_lines_def)
next
  case (Cons c cs)
  show ?case
  proof (cases "cs = []")
    case True
    then show ?thesis using Cons.prems by (auto simp: whole_lines_def)
  next
    case False
    show ?thesis
    proof (cases "c = CHR 0x0A")
      case True
      with Cons.prems False have "whole_lines n cs" by (simp add: whole_lines_def)
      moreover from whole_lines_pos [OF this] obtain k where "n = Suc k" by (cases n) auto
      ultimately show ?thesis using Cons.IH [of k] True by simp
    next
      case nl: False
      with Cons.prems False have "whole_lines (Suc n) cs" by (simp add: whole_lines_def)
      with Cons.IH [of n] nl show ?thesis by simp
    qed
  qed
qed

lemma pred_word_nat: "0 < unat w \<Longrightarrow> Suc (unat (saturating_sub w 1)) = unat (w :: u64)"
  by simp

lemma check_ima_aggregate_ok:
  assumes "whole_lines (unat n) prev_text" and "0 < unat n" and "n \<le> ima_count ima"
    and "ima_measurements_text ima = prev_text @ added"
  shows "check_ima_aggregate X (Some n) (Some (sha256 X (as_bytes prev_text))) ima = (True, [''IMA AGG:OK''])"
proof -
  have ne: "prev_text \<noteq> []" using assms(1) by (simp add: whole_lines_def)
  have "prefix_lines (unat (saturating_sub n 1)) (prev_text @ added) = Some prev_text"
    by (rule prefix_lines_append) (use assms(1,2) in simp)
  then show ?thesis
    using assms(3,4) ne by (simp add: check_ima_aggregate_def Let_def as_bytes_def not_less)
qed

lemma check_ima_aggregate_sound:
  assumes "fst (check_ima_aggregate X (Some n) (Some agg) ima)" and "0 < unat n"
  shows "\<exists>p. prefix p (ima_measurements_text ima) \<and> whole_lines (unat n) p \<and> sha256 X (as_bytes p) = agg"
proof -
  obtain p where p: "prefix_lines (unat (saturating_sub n 1)) (ima_measurements_text ima) = Some p"
    and hash: "as_bytes p = [] \<or> sha256 X (as_bytes p) = agg"
    using assms(1)
    by (auto simp: check_ima_aggregate_def Let_def split: if_splits option.splits)
  from prefix_lines_Some [OF p] pred_word_nat [OF assms(2)]
  have "prefix p (ima_measurements_text ima)" "whole_lines (unat n) p" by auto
  with hash show ?thesis by (auto simp: whole_lines_def as_bytes_def)
qed

lemma check_ima_count_ok:
  assumes "200 \<le> unat n + k" and "k \<le> 20" and "unat n + k < 2 ^ 63"
  shows "fst (check_ima_count (Some n) (word_of_nat (unat n + k)))"
proof -
  have d: "word_of_nat (unat n + k) - n = (word_of_nat k :: u64)" by simp
  have "sint (word_of_nat k :: u64) = int k"
    using assms(2) by (simp add: signed_of_nat take_bit_nat_eq_self signed_take_bit_int_eq_self)
  moreover have "\<not> (word_of_nat (unat n + k) :: u64) < 200"
    using assms by (simp add: word_less_nat_alt unat_of_nat del: of_nat_add)
  ultimately show ?thesis
    using assms(2) by (simp add: check_ima_count_def d Let_def del: of_nat_add)
qed

section \<open>Lemmas on the other checks\<close>

lemma check_pcr_Nil:
  "check_pcr expected actual = [] \<longleftrightarrow>
     (\<forall>e. find (\<lambda>p. pcr_index p = pcr_index actual) expected = Some e \<longrightarrow> pcr_value actual = pcr_value e)"
  by (auto simp: check_pcr_def split: option.splits)

lemma fst_check_pcrs:
  "fst (check_pcrs bl q) \<longleftrightarrow>
     (\<forall>a \<in> set (tq_pcr_values q). \<forall>e.
        find (\<lambda>p. pcr_index p = pcr_index a) (bl_pcr_values bl) = Some e \<longrightarrow> pcr_value a = pcr_value e)"
  by (auto simp: check_pcrs_def Let_def check_pcr_Nil)

lemma find_distinct_key:
  assumes "distinct (map k xs)" and "x \<in> set xs"
  shows "find (\<lambda>y. k y = k x) xs = Some x"
  using assms by (induction xs) (auto simp: rev_image_eqI)

lemma word8_small_inj: "inj_on (\<lambda>i. word_of_nat i :: u8) {..<8}"
  by (rule inj_onI) (simp add: word_of_nat_eq_iff take_bit_nat_eq_self)

lemma read_pcrs_distinct: "read_pcrs E = Inr ps \<Longrightarrow> distinct (map pcr_index ps)"
proof -
  assume "read_pcrs E = Inr ps"
  then obtain ds where ps: "ps = map (\<lambda>(i, d). \<lparr>pcr_index = word_of_nat i, pcr_value = d\<rparr>) (enumerate 0 (take 8 ds))"
    by (auto simp: read_pcrs_spec)
  have "map pcr_index ps = map word_of_nat [0..<length (take 8 ds)]"
    by (rule nth_equalityI) (simp_all add: ps nth_enumerate_eq)
  moreover have "distinct (map (\<lambda>i. word_of_nat i :: u8) [0..<length (take 8 ds)])"
    using word8_small_inj by (auto simp: distinct_map intro: inj_on_subset)
  ultimately show ?thesis by simp
qed

lemma fst_check_pcrs_same:
  assumes "distinct (map pcr_index (tq_pcr_values q))" and "bl_pcr_values bl = tq_pcr_values q"
  shows "fst (check_pcrs bl q)"
  using find_distinct_key [OF assms(1)] assms(2) by (simp add: fst_check_pcrs)

lemma fst_check_ak:
  "fst (check_ak bl q) \<longleftrightarrow>
     (\<exists>ak. bl_ak_public bl = Some ak \<and> tq_ak_public q \<noteq> [] \<and> (ak = [] \<or> tq_ak_public q = ak))"
  by (auto simp: check_ak_def ak_public_matches_def split: option.splits)

lemma fst_check_signature:
  "fst (check_signature V q) \<longleftrightarrow>
     (tq_signature q \<noteq> [] \<and> tq_quote_data q \<noteq> [] \<longrightarrow>
      verify_quote_signature (ve_x V) (ve_tss V) (tq_quote_data q) (tq_signature q) (tq_ak_public q) \<noteq> Inr False)"
  by (auto simp: check_signature_def split: sum.splits bool.splits)

lemma binary_mismatches_Nil:
  assumes "distinct (map fst bl)"
  shows "binary_mismatches cur bl = [] \<longleftrightarrow> map_of cur = map_of bl"
proof
  assume *: "binary_mismatches cur bl = []"
  have b: "map_of cur k = Some h" if "(k, h) \<in> set bl" for k h
    using * that by (fastforce simp: binary_mismatches_def split: option.splits if_splits)
  have c: "map_of bl k \<noteq> None" if "(k, h) \<in> set cur" for k h
    using * that by (fastforce simp: binary_mismatches_def split: if_splits)
  show "map_of cur = map_of bl"
  proof
    fix k
    show "map_of cur k = map_of bl k"
      using b [of k] c [of k]
      by (cases "map_of bl k"; cases "map_of cur k") (auto dest: map_of_SomeD)
  qed
next
  assume eq: "map_of cur = map_of bl"
  have "map_of bl k \<noteq> None" if "(k, h) \<in> set cur" for k h
    using that by (metis eq weak_map_of_SomeI option.distinct(1))
  then show "binary_mismatches cur bl = []"
    using assms by (fastforce simp: binary_mismatches_def eq split: option.splits)
qed

lemma verify_attestation_known:
  assumes "get_baseline db (att_vm_identity att) = Some bl"
  shows
   "nvr_pcr_match (verify_attestation V db att pc pa ps) = fst (check_pcrs bl (att_tpm_quote att))"
   "nvr_ima_valid (verify_attestation V db att pc pa ps) =
      (fst (check_ima_count pc (ima_count (tq_ima_measurements (att_tpm_quote att)))) \<and>
       fst (check_ima_aggregate (ve_x V) pc pa (tq_ima_measurements (att_tpm_quote att))))"
   "nvr_ebpf_valid (verify_attestation V db att pc pa ps) = True"
   "nvr_signature_valid (verify_attestation V db att pc pa ps) = fst (check_signature V (att_tpm_quote att))"
   "nvr_ak_match (verify_attestation V db att pc pa ps) = fst (check_ak bl (att_tpm_quote att))"
  using assms by (simp_all add: verify_attestation_def Let_def split_beta)

section \<open>Concrete inputs\<close>

definition demo_verify :: verify_env where
  "demo_verify = \<lparr>ve_x = demo_ext, ve_tss = demo_tss, ve_order = (\<lambda>x. x), ve_order_str = (\<lambda>x. x)\<rparr>"

lemma whole_lines_replicate: "0 < n \<Longrightarrow> whole_lines n (replicate n (CHR 0x0A))"
proof -
  have "count_list (replicate n c) c = n" for c :: char by (induction n) simp_all
  then show "0 < n \<Longrightarrow> ?thesis" by (simp add: whole_lines_def)
qed

text \<open>An honest node against any database that holds its baseline.\<close>

lemma honest_passes:
  assumes known: "get_baseline db vm = Some b" and capture: "capture_baseline X E0 t vm desc = Inr b" and quote: "generate_quote X E = Inr q"
    and pcrs: "te_pcr_read E pcr_selection_0_7 = te_pcr_read E0 pcr_selection_0_7"
    and key: "bl_ak_public b = Some (tq_ak_public q)"
    and sig: "verify_quote_signature X (ve_tss V) (tq_quote_data q) (tq_signature q) (tq_ak_public q) = Inr True"
    and hash: "ve_x V = X"
    and count: "ima_count (tq_ima_measurements q) = word_of_nat (unat n + k)" "0 < unat n"
       "200 \<le> unat n + k" "k \<le> 20" "unat n + k < 2 ^ 63"
    and log: "ima_measurements_text (tq_ima_measurements q) = prev_text @ added"
       "whole_lines (unat n) prev_text"
  shows "node_passes (verify_attestation V db
     \<lparr>att_vm_identity = vm, att_tpm_quote = q, att_timestamp = ts\<rparr>
     (Some n) (Some (sha256 X (as_bytes prev_text))) prev_sysmon)"
proof -
  obtain q0 where q0: "generate_quote X E0 = Inr q0"
    and bpcr: "bl_pcr_values b = tq_pcr_values q0"
    using capture by (auto simp: capture_baseline_Inr)
  have "read_pcrs E0 = read_pcrs E" using pcrs by (simp add: read_pcrs_def)
  then have same: "bl_pcr_values b = tq_pcr_values q"
    using generate_quote_Inr(1) [OF quote] generate_quote_Inr(1) [OF q0] bpcr by simp
  have p: "fst (check_pcrs b q)"
    by (rule fst_check_pcrs_same [OF read_pcrs_distinct [OF generate_quote_Inr(1) [OF quote]] same])
  have "n \<le> ima_count (tq_ima_measurements q)"
    using count by (simp add: word_le_nat_alt unat_of_nat del: of_nat_add)
  from check_ima_aggregate_ok [OF log(2) count(2) this log(1)]
  have a: "fst (check_ima_aggregate (ve_x V) (Some n) (Some (sha256 X (as_bytes prev_text))) (tq_ima_measurements q))"
    by (simp add: hash)
  have c: "fst (check_ima_count (Some n) (ima_count (tq_ima_measurements q)))"
    unfolding count(1) by (rule check_ima_count_ok [OF count(3-5)])
  have "tq_ak_public q \<noteq> []" using sig by (auto simp: verify_quote_signature_def)
  with p a c key sig hash show ?thesis
    by (simp add: node_passes_def verify_attestation_known known fst_check_ak fst_check_signature)
qed

section \<open>Properties\<close>

text \<open>
  C29.  What each flag of the verdict on a node says.  PCRs: there is a baseline and every quoted PCR
  that the baseline lists has the listed value.  IMA: the count and the prefix aggregate are both
  accepted.  AK: the baseline has a key and the quote carries it (an empty baseline key matches
  every non-empty one).  Signature: only a negative answer of the TPM clears the flag, so an unsigned
  quote and an error of the verifying TPM leave it set.  The flag for the measured state is never
  cleared, and an unknown node has the other flags set.
\<close>

theorem verdict_meaning:
  fixes V db att pc pa ps
  defines "r \<equiv> verify_attestation V db att pc pa ps" and "q \<equiv> att_tpm_quote att"
    and "b \<equiv> get_baseline db (att_vm_identity att)"
  shows "nvr_ebpf_valid r \<and>
    (nvr_pcr_match r \<longleftrightarrow> (\<exists>bl. b = Some bl \<and> (\<forall>a \<in> set (tq_pcr_values q). \<forall>e.
        find (\<lambda>p. pcr_index p = pcr_index a) (bl_pcr_values bl) = Some e \<longrightarrow> pcr_value a = pcr_value e))) \<and>
    (nvr_ima_valid r \<longleftrightarrow> b = None \<or>
        fst (check_ima_count pc (ima_count (tq_ima_measurements q))) \<and>
        fst (check_ima_aggregate (ve_x V) pc pa (tq_ima_measurements q))) \<and>
    (nvr_ak_match r \<longleftrightarrow> b = None \<or> (\<exists>bl ak. b = Some bl \<and> bl_ak_public bl = Some ak \<and>
        tq_ak_public q \<noteq> [] \<and> (ak = [] \<or> tq_ak_public q = ak))) \<and>
    (nvr_signature_valid r \<longleftrightarrow> b = None \<or> tq_signature q = [] \<or> tq_quote_data q = [] \<or>
        verify_quote_signature (ve_x V) (ve_tss V) (tq_quote_data q) (tq_signature q) (tq_ak_public q)
          \<noteq> Inr False)"
proof (cases "get_baseline db (att_vm_identity att)")
  case None
  then show ?thesis by (simp add: r_def b_def verify_attestation_def)
next
  case (Some bl)
  then show ?thesis
    unfolding r_def q_def b_def
    by (simp add: verify_attestation_known fst_check_pcrs fst_check_ak fst_check_signature) blast
qed

theorem verdict_meaning_witness:
  "nvr_ebpf_valid (verify_attestation demo_verify (database_new 0) (demo_attestation ''vm1'' 200) None None None)"
  using verdict_meaning [of demo_verify "database_new 0" "demo_attestation ''vm1'' 200" None None None]
  by blast

text \<open>
  C1.  An honest node passes: a quote taken on a node whose PCRs and attestation key are those of the
  captured baseline, signed by that key, whose IMA log extends the log seen before by at most 20
  entries and counts at least 200, gets all five flags, whatever the measured state.
\<close>

theorem honest_node_accepted:
  assumes capture: "capture_baseline X E0 t vm desc = Inr b" and quote: "generate_quote X E = Inr q"
    and pcrs: "te_pcr_read E pcr_selection_0_7 = te_pcr_read E0 pcr_selection_0_7"
    and key: "bl_ak_public b = Some (tq_ak_public q)"
    and sig: "verify_quote_signature X (ve_tss V) (tq_quote_data q) (tq_signature q) (tq_ak_public q) = Inr True"
    and hash: "ve_x V = X"
    and count: "ima_count (tq_ima_measurements q) = word_of_nat (unat n + k)" "0 < unat n"
       "200 \<le> unat n + k" "k \<le> 20" "unat n + k < 2 ^ 63"
    and log: "ima_measurements_text (tq_ima_measurements q) = prev_text @ added"
       "whole_lines (unat n) prev_text"
  shows "node_passes (verify_attestation V (add_baseline now b db)
     \<lparr>att_vm_identity = vm, att_tpm_quote = q, att_timestamp = ts\<rparr>
     (Some n) (Some (sha256 X (as_bytes prev_text))) prev_sysmon)"
  by (rule honest_passes [OF _ assms]) (use capture in \<open>auto simp: bdb.get_add capture_baseline_Inr\<close>)

theorem honest_node_accepted_witness:
  "node_passes (verify_attestation demo_verify (add_baseline 0 (demo_baseline ''vm1'') (database_new 0))
     \<lparr>att_vm_identity = ''vm1'', att_tpm_quote = demo_quote 205, att_timestamp = 8\<rparr>
     (Some 200) (Some (sha256 demo_ext (as_bytes (replicate 200 (CHR 0x0A))))) None)"
proof (rule honest_node_accepted [where k = 5 and added = "replicate 5 (CHR 0x0A)"])
  show "capture_baseline demo_ext (demo_env 200) (Inr 7) ''vm1'' ''golden'' = Inr (demo_baseline ''vm1'')"
    by (rule demo_capture)
  show "generate_quote demo_ext (demo_env 205) = Inr (demo_quote 205)" by (rule demo_generate) simp
  show "ima_measurements_text (tq_ima_measurements (demo_quote 205))
      = replicate 200 (CHR 0x0A) @ replicate 5 (CHR 0x0A)"
    by (rule demo_log) simp
  show "whole_lines (unat (200 :: u64)) (replicate 200 (CHR 0x0A))"
    by (simp add: whole_lines_replicate)
qed (simp_all add: demo_env_def demo_baseline_def demo_quote_def demo_verify_def demo_tss_def
      verify_quote_signature_def Let_def)

text \<open>
  C2.  A rewritten IMA log is caught: if a node passes the IMA check against the count and aggregate
  of an earlier attestation, then its log still starts with the earlier log, unless the attacker
  found a second preimage of the hash; the count is at least 200 and grew by 0 to 20.
\<close>

theorem ima_log_append_only:
  assumes known: "get_baseline db (att_vm_identity att) = Some bl"
    and passes: "nvr_ima_valid (verify_attestation V db att (Some n) (Some (sha256 (ve_x V) (as_bytes prev_text))) ps)"
    and lines: "whole_lines (unat n) prev_text"
    and no_collision: "\<And>p. prefix p (ima_measurements_text (tq_ima_measurements (att_tpm_quote att))) \<Longrightarrow>
       sha256 (ve_x V) (as_bytes p) = sha256 (ve_x V) (as_bytes prev_text) \<Longrightarrow> p = prev_text"
  shows "prefix prev_text (ima_measurements_text (tq_ima_measurements (att_tpm_quote att))) \<and>
     200 \<le> unat (ima_count (tq_ima_measurements (att_tpm_quote att))) \<and>
     0 \<le> sint (ima_count (tq_ima_measurements (att_tpm_quote att)) - n) \<and>
     sint (ima_count (tq_ima_measurements (att_tpm_quote att)) - n) \<le> 20"
proof -
  have pos: "0 < unat n" by (rule whole_lines_pos [OF lines])
  have agg: "fst (check_ima_aggregate (ve_x V) (Some n) (Some (sha256 (ve_x V) (as_bytes prev_text)))
      (tq_ima_measurements (att_tpm_quote att)))"
    and cnt: "fst (check_ima_count (Some n) (ima_count (tq_ima_measurements (att_tpm_quote att))))"
    using passes known by (simp_all add: verify_attestation_known)
  from check_ima_aggregate_sound [OF agg pos] no_collision
  have "prefix prev_text (ima_measurements_text (tq_ima_measurements (att_tpm_quote att)))" by blast
  with cnt show ?thesis
    by (auto simp: check_ima_count_def Let_def word_less_nat_alt not_less split: if_splits)
qed

definition plain_verify :: verify_env where
  "plain_verify = demo_verify\<lparr>ve_x := demo_ext\<lparr>sha256 := (\<lambda>m. m)\<rparr>\<rparr>"

theorem ima_log_append_only_witness:
  "prefix (replicate 200 (CHR 0x0A)) (ima_measurements_text (tq_ima_measurements (demo_quote 205)))"
proof -
  let ?db = "add_baseline 0 (demo_baseline ''vm1'') (database_new 0)"
  let ?att = "demo_attestation ''vm1'' 205"
  let ?prev = "replicate 200 (CHR 0x0A)"
  have q: "att_tpm_quote ?att = demo_quote 205" by (simp add: demo_attestation_def)
  have known: "get_baseline ?db (att_vm_identity ?att) = Some (demo_baseline ''vm1'')"
    by (simp add: bdb.get_add demo_baseline_def demo_attestation_def)
  have lines: "whole_lines (unat (200 :: u64)) ?prev" by (simp add: whole_lines_replicate)
  have count: "ima_count (tq_ima_measurements (demo_quote 205)) = word_of_nat (unat (200 :: u64) + 5)"
    by (simp add: demo_quote_def)
  have "fst (check_ima_count (Some 200) (ima_count (tq_ima_measurements (demo_quote 205))))"
    unfolding count by (rule check_ima_count_ok) simp_all
  moreover have "(200 :: u64) \<le> ima_count (tq_ima_measurements (demo_quote 205))" by (simp add: count)
  from check_ima_aggregate_ok [OF lines _ this demo_log [of 205 200 5], of "ve_x plain_verify"]
  have "fst (check_ima_aggregate (ve_x plain_verify) (Some 200)
      (Some (sha256 (ve_x plain_verify) (as_bytes ?prev))) (tq_ima_measurements (demo_quote 205)))" by simp
  ultimately have pass: "nvr_ima_valid (verify_attestation plain_verify ?db ?att (Some 200)
      (Some (sha256 (ve_x plain_verify) (as_bytes ?prev))) None)"
    by (simp add: verify_attestation_known [OF known] q)
  have "sha256 (ve_x plain_verify) (as_bytes p) = sha256 (ve_x plain_verify) (as_bytes ?prev) \<Longrightarrow> p = ?prev" for p
    by (simp add: plain_verify_def as_bytes_inject)
  from ima_log_append_only [OF known pass lines this] show ?thesis by (simp add: q)
qed

text \<open>
  The verdict does not bind the evidence to the TPM: for a node that has a baseline with an
  attestation key, a first attestation with no PCR values, no quote and no signature, any measured
  state and any 200-entry count gets all five flags as long as it names the (public) key.
\<close>

theorem unsigned_quote_accepted:
  assumes "get_baseline db vm = Some bl" and "bl_ak_public bl = Some ak" and "ak \<noteq> []"
    and "200 \<le> ima_count ima"
  shows "node_passes (verify_attestation V db
     \<lparr>att_vm_identity = vm, att_tpm_quote =
        \<lparr>tq_pcr_values = [], tq_quote_data = [], tq_signature = [], tq_ak_public = ak, tq_nonce = nonce,
         tq_ima_measurements = ima, tq_ebpf_state = state\<rparr>, att_timestamp = ts\<rparr> None None prev_sysmon)"
  using assms
  by (simp add: node_passes_def verify_attestation_known fst_check_pcrs fst_check_ak fst_check_signature
      check_ima_count_def check_ima_aggregate_def not_less)

theorem unsigned_quote_accepted_witness:
  "node_passes (verify_attestation demo_verify
     (add_baseline 0 (demo_baseline ''vm1'') (database_new 0))
     \<lparr>att_vm_identity = ''vm1'', att_tpm_quote =
        \<lparr>tq_pcr_values = [], tq_quote_data = [], tq_signature = [], tq_ak_public = [6], tq_nonce = [],
         tq_ima_measurements = \<lparr>ima_count = 200, ima_aggregate_hash = [], ima_pcr10_value = [],
            ima_measurements_text = []\<rparr>, tq_ebpf_state = default_state\<rparr>, att_timestamp = 3\<rparr> None None None)"
  by (rule unsigned_quote_accepted [where bl = "demo_baseline ''vm1''"])
     (simp_all add: bdb.get_add demo_baseline_def)

text \<open>
  The binary check reports \<open>BIN:OK\<close> exactly when the measured and the baseline tables map the
  same paths to the same hashes: a changed, a missing and an unexpected file are all seen.
\<close>

theorem binaries_ok_iff_same_table:
  assumes "es_binary_hashes cur = Some c" and "es_binary_hashes bl = Some b" and "distinct (map fst b)"
  shows "check_binaries cur bl = [''BIN:OK('' @ show_nat (length b) @ '')''] \<longleftrightarrow> map_of c = map_of b"
  using assms by (simp add: check_binaries_def binary_mismatches_Nil [symmetric] Let_def)

theorem binaries_ok_iff_same_table_witness:
  "check_binaries (default_state\<lparr>es_binary_hashes := Some [(''/bin/sh'', [1])]\<rparr>)
     (default_state\<lparr>es_binary_hashes := Some [(''/bin/sh'', [2])]\<rparr>) \<noteq> [''BIN:OK('' @ show_nat 1 @ '')'']"
  using binaries_ok_iff_same_table [of "default_state\<lparr>es_binary_hashes := Some [(''/bin/sh'', [1])]\<rparr>"
      "[(''/bin/sh'', [1])]" "default_state\<lparr>es_binary_hashes := Some [(''/bin/sh'', [2])]\<rparr>" "[(''/bin/sh'', [2])]"]
  by (simp add: fun_eq_iff)

end
