(* ===== verification/Network.thy ===== *)
theory Network
  imports Prelude
begin

text \<open>
  Connections and framing: \<open>mfa-agent/src/network/mod.rs\<close>, the length-prefixed frames of
  \<open>main.rs\<close> and \<open>dual_authority/mod.rs\<close> (little endian) and of \<open>mfa-monitor/src/lib.rs\<close> (big
  endian), and the retry loop of \<open>connect\<close>.

  A connection is the bytes the peer will have sent before it closes, the bytes written so far and,
  for a peer that goes away, the number of bytes it still takes.  \<open>bincode\<close> is the argument \<open>codec\<close>;
  what the code relies on is that a value it serializes deserializes to itself (\<open>codec_ok\<close>).  The
  interface \<open>length_prefix\<close> states what a byte order promises; the frame lemmas are proved there once
  and interpreted for both orders.
\<close>

section \<open>Connections\<close>

record chan =
  rx :: bytes
  tx :: bytes
  wleft :: "nat option"

definition read_exact :: "nat \<Rightarrow> (chan, bytes) io" where
  "read_exact n c =
     (if length (rx c) < n then (Inl (Err ''early eof''), c\<lparr>rx := []\<rparr>)
      else (Inr (take n (rx c)), c\<lparr>rx := drop n (rx c)\<rparr>))"

definition write_all :: "bytes \<Rightarrow> (chan, unit) io" where
  "write_all bs c =
     (case wleft c of
        None \<Rightarrow> (Inr (), c\<lparr>tx := tx c @ bs\<rparr>)
      | Some k \<Rightarrow>
          (if length bs \<le> k then (Inr (), c\<lparr>tx := tx c @ bs, wleft := Some (k - length bs)\<rparr>)
           else (Inl (Err ''Broken pipe''), c\<lparr>tx := tx c @ take k bs, wleft := Some 0\<rparr>)))"

section \<open>Frames\<close>

text \<open>
  \<open>put\<close> and \<open>get\<close> are \<open>to_be_bytes\<close>/\<open>from_be_bytes\<close> or the little-endian pair on the \<open>u32\<close> length; the
  cast \<open>data.len() as u32\<close> keeps the length modulo \<open>2 ^ 32\<close>.
\<close>

definition put_be32 :: "nat \<Rightarrow> bytes" where "put_be32 n = be_of_nat 4 n"
definition put_le32 :: "nat \<Rightarrow> bytes" where "put_le32 n = le_of_nat 4 n"

definition max_frame :: nat where "max_frame = 10000000"

definition write_frame :: "(nat \<Rightarrow> bytes) \<Rightarrow> bytes \<Rightarrow> (chan, unit) io" where
  "write_frame put data = io_bind (write_all (put (length data))) (\<lambda>_. write_all data)"

definition read_frame :: "(bytes \<Rightarrow> nat) \<Rightarrow> (nat \<Rightarrow> string) \<Rightarrow> (chan, bytes) io" where
  "read_frame get too_large =
     io_bind (read_exact 4) (\<lambda>len_bytes.
       (let len = get len_bytes in
        if max_frame < len then io_res (Inl (Err (too_large len))) else read_exact len))"

section \<open>Messages\<close>

record 'm codec =
  ser :: "'m \<Rightarrow> bytes res"
  de :: "bytes \<Rightarrow> 'm res"

definition codec_ok :: "'m codec \<Rightarrow> 'm \<Rightarrow> bool" where
  "codec_ok C m \<longleftrightarrow> (case ser C m of Inl _ \<Rightarrow> False | Inr bs \<Rightarrow> de C bs = Inr m)"

definition send_message :: "'m codec \<Rightarrow> 'm \<Rightarrow> (chan, unit) io" where
  "send_message C message = io_bind (io_res (ser C message)) (\<lambda>data. write_frame put_be32 data)"

definition receive_message :: "'m codec \<Rightarrow> (chan, 'm) io" where
  "receive_message C =
     io_bind (read_frame nat_of_be (\<lambda>_. ''Message too large'')) (\<lambda>data. io_res (de C data))"

section \<open>Connecting\<close>

text \<open>
  \<open>connect\<close> retries for ever.  The list holds the outcome of each \<open>TcpStream::connect\<close> in turn; the
  result is the stream, the number of attempts and the pauses slept, or \<open>None\<close> while every attempt
  of the list has failed.
\<close>

definition next_delay :: "u64 \<Rightarrow> u64" where "next_delay delay_secs = min (delay_secs * 2) 30"

fun connect_loop :: "u32 \<Rightarrow> u64 \<Rightarrow> 'c option list \<Rightarrow> ('c \<times> u32 \<times> u64 list) option" where
  "connect_loop attempt delay_secs [] = None"
| "connect_loop attempt delay_secs (Some stream # outs) = Some (stream, attempt + 1, [])"
| "connect_loop attempt delay_secs (None # outs) =
     map_option (\<lambda>(stream, n, slept). (stream, n, delay_secs # slept))
       (connect_loop (attempt + 1) (next_delay delay_secs) outs)"

definition connect :: "'c option list \<Rightarrow> ('c \<times> u32 \<times> u64 list) option" where
  "connect outs = connect_loop 0 1 outs"

section \<open>Lemmas on connections\<close>

lemma read_exact_append:
  "length bs = n \<Longrightarrow> read_exact n (c\<lparr>rx := bs @ rest\<rparr>) = (Inr bs, c\<lparr>rx := rest\<rparr>)"
  by (simp add: read_exact_def)

lemma write_all_open: "wleft c = None \<Longrightarrow> write_all bs c = (Inr (), c\<lparr>tx := tx c @ bs\<rparr>)"
  by (simp add: write_all_def)

lemma write_frame_open:
  assumes "wleft c = None"
  shows "write_frame put data c = (Inr (), c\<lparr>tx := tx c @ put (length data) @ data\<rparr>)"
  using assms by (simp add: write_frame_def io_bind_def write_all_open)

text \<open>Whatever happens to the peer, what reaches it is a prefix of what was to be sent.\<close>

lemma write_all_prefix: "\<exists>p. prefix p bs \<and> tx (snd (write_all bs c)) = tx c @ p"
  by (auto simp: write_all_def take_is_prefix split: option.splits)

lemma write_frame_prefix:
  "\<exists>p. prefix p (put (length data) @ data) \<and> tx (snd (write_frame put data c)) = tx c @ p"
proof (cases "write_all (put (length data)) c")
  case (Pair r c')
  obtain p where p: "prefix p (put (length data))" "tx c' = tx c @ p"
    using write_all_prefix [of "put (length data)" c] Pair by auto
  show ?thesis
  proof (cases r)
    case (Inl e)
    then show ?thesis using Pair p by (auto simp: write_frame_def io_bind_def intro: prefix_prefix)
  next
    case (Inr u)
    then have whole: "tx c' = tx c @ put (length data)"
      using Pair by (auto simp: write_all_def split: option.splits if_splits)
    obtain q where "prefix q data" "tx (snd (write_all data c')) = tx c' @ q"
      using write_all_prefix by blast
    then show ?thesis
      using Pair Inr whole by (auto simp: write_frame_def io_bind_def)
  qed
qed

section \<open>The byte-order interface\<close>

locale length_prefix =
  fixes put :: "nat \<Rightarrow> bytes" and get :: "bytes \<Rightarrow> nat"
  assumes length_put: "length (put n) = 4"
    and get_put: "get (put n) = n mod 2 ^ 32"
begin

lemma read_written_frame:
  assumes "length data \<le> max_frame"
  shows "read_frame get e (c\<lparr>rx := put (length data) @ data @ rest\<rparr>) = (Inr data, c\<lparr>rx := rest\<rparr>)"
proof -
  have "length data < 2 ^ 32" using assms by (simp add: max_frame_def)
  then have "get (put (length data)) = length data" by (simp add: get_put)
  then show ?thesis
    using assms by (simp add: read_frame_def io_bind_def read_exact_append length_put Let_def)
qed

lemma read_oversized_frame:
  assumes "max_frame < length data" and "length data < 2 ^ 32"
  shows "read_frame get e (c\<lparr>rx := put (length data) @ data @ rest\<rparr>)
     = (Inl (Err (e (length data))), c\<lparr>rx := data @ rest\<rparr>)"
  using assms by (simp add: read_frame_def io_bind_def read_exact_append length_put get_put Let_def)

lemma read_truncated_frame:
  assumes "length data \<le> max_frame" and "strict_prefix p (put (length data) @ data)"
  shows "read_frame get e (c\<lparr>rx := p\<rparr>) = (Inl (Err ''early eof''), c\<lparr>rx := []\<rparr>)"
proof (cases "length p < 4")
  case True
  then show ?thesis by (simp add: read_frame_def io_bind_def read_exact_def)
next
  case False
  obtain q where q: "p = put (length data) @ q" "strict_prefix q data"
  proof -
    from assms(2) have "prefix p (put (length data) @ data)" and ne: "p \<noteq> put (length data) @ data"
      by auto
    then consider "prefix p (put (length data))" | q where "p = put (length data) @ q" "prefix q data"
      by (auto simp: prefix_append)
    then show thesis
    proof cases
      case 1
      then have "length p \<le> 4" using length_put [of "length data"] by (metis prefix_length_le)
      with False have "length p = length (put (length data))" using length_put by simp
      with 1 have "p = put (length data)" by (auto simp: prefix_def)
      with ne that [of "[]"] show thesis by (cases data) auto
    next
      case (2 q)
      with ne that [of q] show thesis by auto
    qed
  qed
  have "length data < 2 ^ 32" using assms(1) by (simp add: max_frame_def)
  then have "get (put (length data)) = length data" by (simp add: get_put)
  moreover have "length q < length data" using q(2) by (simp add: prefix_length_less)
  ultimately show ?thesis
    using assms(1) q(1)
    by (simp add: read_frame_def io_bind_def read_exact_append length_put Let_def)
       (simp add: read_exact_def)
qed

end

interpretation be: length_prefix put_be32 nat_of_be
  by unfold_locales (simp_all add: put_be32_def nat_of_be_of_nat)

interpretation le: length_prefix put_le32 nat_of_le
  by unfold_locales (simp_all add: put_le32_def nat_of_le_of_nat)

section \<open>Lemmas on messages and on connecting\<close>

lemma codec_ok_ser: "codec_ok C m \<Longrightarrow> \<exists>bs. ser C m = Inr bs \<and> de C bs = Inr m"
  by (auto simp: codec_ok_def split: sum.splits)

lemma connect_loop_spec:
  "connect_loop attempt d (replicate k None @ Some s # outs) =
     Some (s, attempt + word_of_nat k + 1,
           map (\<lambda>i. (next_delay ^^ i) d) [0..<k])"
proof (induction k arbitrary: attempt d)
  case 0
  show ?case by simp
next
  case (Suc k)
  have "map (\<lambda>i. (next_delay ^^ i) d) [0..<Suc k]
      = d # map (\<lambda>i. (next_delay ^^ i) (next_delay d)) [0..<k]"
    by (simp add: upt_conv_Cons map_Suc_upt [symmetric] funpow_swap1 del: upt_Suc)
  then show ?case by (simp add: Suc add.assoc)
qed

lemma backoff_closed:
  "(next_delay ^^ i) 1 = word_of_nat (min (2 ^ i) 30)"
proof (induction i)
  case 0
  show ?case by simp
next
  case (Suc i)
  have "min (word_of_nat (min (2 ^ i) 30) * 2) 30 = (word_of_nat (min (2 ^ Suc i) 30) :: u64)"
  proof (cases "i < 5")
    case True
    then have "i = 0 \<or> i = 1 \<or> i = 2 \<or> i = 3 \<or> i = 4" by auto
    then show ?thesis by auto
  next
    case False
    then have "(2 :: nat) ^ 5 \<le> 2 ^ i" by (intro power_increasing) auto
    then have "min (2 ^ i) 30 = (30 :: nat)" and "min (2 ^ Suc i) 30 = (30 :: nat)" by auto
    then show ?thesis by simp
  qed
  with Suc show ?case by (simp add: next_delay_def)
qed

section \<open>Properties\<close>

text \<open>
  Framed messages round trip: what \<open>send_message\<close> puts on the wire, followed by anything,
  \<open>receive_message\<close> decodes to the same message and leaves exactly what followed, provided the
  encoding fits the receiver's limit of ten million bytes; a peer that closes anywhere inside the
  frame makes the receiver fail instead of returning a message.
\<close>

theorem message_roundtrip:
  assumes "codec_ok C m" and "ser C m = Inr data" and "length data \<le> max_frame"
    and "wleft c = None"
  shows "\<exists>wire. send_message C m c = (Inr (), c\<lparr>tx := tx c @ wire\<rparr>) \<and>
     (\<forall>d rest. receive_message C (d\<lparr>rx := wire @ rest\<rparr>) = (Inr m, d\<lparr>rx := rest\<rparr>)) \<and>
     (\<forall>d p. strict_prefix p wire \<longrightarrow>
        receive_message C (d\<lparr>rx := p\<rparr>) = (Inl (Err ''early eof''), d\<lparr>rx := []\<rparr>))"
proof (intro exI conjI allI impI)
  let ?wire = "put_be32 (length data) @ data"
  show "send_message C m c = (Inr (), c\<lparr>tx := tx c @ ?wire\<rparr>)"
    using assms by (simp add: send_message_def io_bind_def write_frame_open)
  have "de C data = Inr m" using assms by (auto dest: codec_ok_ser)
  then show "receive_message C (d\<lparr>rx := ?wire @ rest\<rparr>) = (Inr m, d\<lparr>rx := rest\<rparr>)" for d rest
    by (simp add: receive_message_def io_bind_def be.read_written_frame [OF assms(3)])
  show "receive_message C (d\<lparr>rx := p\<rparr>) = (Inl (Err ''early eof''), d\<lparr>rx := []\<rparr>)"
    if "strict_prefix p ?wire" for d p
    by (simp add: receive_message_def io_bind_def be.read_truncated_frame [OF assms(3) that])
qed

definition bytes_codec :: "bytes codec" where
  "bytes_codec = \<lparr>ser = Inr, de = Inr\<rparr>"

theorem message_roundtrip_witness:
  "\<exists>wire. send_message bytes_codec [1, 2] \<lparr>rx = [], tx = [], wleft = None\<rparr>
       = (Inr (), \<lparr>rx = [], tx = wire, wleft = None\<rparr>) \<and>
     (\<forall>d rest. receive_message bytes_codec (d\<lparr>rx := wire @ rest\<rparr>) = (Inr [1, 2], d\<lparr>rx := rest\<rparr>)) \<and>
     (\<forall>d p. strict_prefix p wire \<longrightarrow>
        receive_message bytes_codec (d\<lparr>rx := p\<rparr>) = (Inl (Err ''early eof''), d\<lparr>rx := []\<rparr>))"
  using message_roundtrip [of bytes_codec "[1, 2]" "[1, 2]" "\<lparr>rx = [], tx = [], wleft = None\<rparr>"]
  by (simp add: codec_ok_def bytes_codec_def max_frame_def)

text \<open>
  \<open>connect\<close> returns on the first attempt that succeeds, after exactly that many attempts, and
  the pauses before it are 1, 2, 4, 8, 16, 30, 30, ... seconds.
\<close>

theorem connect_backoff:
  "connect (replicate k None @ Some stream # outs) =
     Some (stream, word_of_nat (Suc k), map (\<lambda>i. word_of_nat (min (2 ^ i) 30)) [0..<k])"
  by (simp add: connect_def connect_loop_spec backoff_closed add.commute)

end
