(* ===== verification/Orchestrator.thy ===== *)
theory Orchestrator
  imports Samples Network
begin

text \<open>
  The signed INITIATE, its verification, the replay cache and operator authentication
  (\<open>mfa-agent/src/orchestrator/mod.rs\<close>).  Clock readings, random bytes, the TPM (\<open>tss_verify\<close> and the
  outcome of \<open>sign_data\<close>) and the credential store are arguments.  The interface \<open>replay_guard\<close> states
  what a replay cache promises; that two admissions of one identifier are more than a window apart is
  proved there and holds of the cache by interpretation.
\<close>

section \<open>Data\<close>

definition INITIATE_MAX_AGE_SECS :: u64 where "INITIATE_MAX_AGE_SECS = 300"
definition AUTH_ID_BYTES :: nat where "AUTH_ID_BYTES = 32"

record InitiatePayload =
  ip_version :: u32
  ip_authorization_id :: bytes
  ip_timestamp :: u64
  ip_session_ttl_secs :: u64
  ip_operator_hash :: bytes
  ip_vm0_attestation :: Attestation
  ip_vm0_ak_public :: bytes

record SignedInitiate =
  si_payload :: InitiatePayload
  si_signature :: bytes

datatype InitiateRejection =
    InvalidSignature
  | TimestampExpired u64
  | TimestampInFuture u64
  | DuplicateAuthId
  | AkPublicMismatch
  | UnsupportedVersion u32
  | MalformedPayload string
  | InvalidSessionTtl

fun rejection_text :: "InitiateRejection \<Rightarrow> string" where
  "rejection_text InvalidSignature = ''INITIATE signature verification failed''"
| "rejection_text (TimestampExpired age) = ''INITIATE timestamp expired ('' @ show_word age @ ''s old)''"
| "rejection_text (TimestampInFuture skew) = ''INITIATE timestamp in future (+'' @ show_word skew @ ''s)''"
| "rejection_text DuplicateAuthId = ''INITIATE authorization_id already used''"
| "rejection_text AkPublicMismatch = ''INITIATE vm0 AK public key does not match expected''"
| "rejection_text (UnsupportedVersion v) = ''INITIATE unsupported version '' @ show_word v"
| "rejection_text (MalformedPayload reason) = ''INITIATE malformed: '' @ reason"
| "rejection_text InvalidSessionTtl = ''INITIATE session_ttl_secs out of range''"

record SessionTokenReturn =
  st_authorization_id :: bytes
  st_session_token :: bytes
  st_session_expiry :: u64
  st_chain1_node_count :: u64
  st_chain2_node_count :: u64
  st_authorized :: bool

datatype OrchestratorMessage =
    OmAttestationRequest bytes
  | OmAttestationResponse Attestation
  | OmInitiate SignedInitiate
  | OmInitiateAck bytes
  | OmInitiateRejected string
  | OmSessionToken SessionTokenReturn
  | OmChainFailed bytes string
  | OmHeartbeatPing u64
  | OmHeartbeatResult u64 bool u64 string
  | OmRevoke string
  | OmSessionEnded string

datatype CliRequest =
    Authenticate string string u64
  | CliStatus
  | CliRevoke

datatype CliResponse =
    CrAuthorized bytes bytes u64 u64 u64
  | CrDenied string
  | CrStatus bool "bytes option" "u64 option"
  | CrError string
  | CrPendingApproval string string u64 string

section \<open>Building and signing\<close>

definition payload_new ::
  "bytes \<Rightarrow> u64 \<Rightarrow> u64 \<Rightarrow> bytes \<Rightarrow> Attestation \<Rightarrow> bytes \<Rightarrow> InitiatePayload res" where
  "payload_new random now session_ttl_secs operator_hash vm0_attestation vm0_ak_public =
     (if session_ttl_secs < 60 \<or> 1200 < session_ttl_secs
      then Inl (Err (''session_ttl_secs must be between 60 and 1200 (got '' @ show_word session_ttl_secs @ '')''))
      else Inr \<lparr>ip_version = 1, ip_authorization_id = take AUTH_ID_BYTES random, ip_timestamp = now,
                ip_session_ttl_secs = session_ttl_secs, ip_operator_hash = operator_hash,
                ip_vm0_attestation = vm0_attestation, ip_vm0_ak_public = vm0_ak_public\<rparr>)"

definition canonical_bytes :: "InitiatePayload codec \<Rightarrow> InitiatePayload \<Rightarrow> bytes res" where
  "canonical_bytes C p = with_context ''Failed to serialize InitiatePayload'' (ser C p)"

definition short_auth_id :: "InitiatePayload \<Rightarrow> string res" where
  "short_auth_id p = res_bind (slice_to (ip_authorization_id p) 8) (\<lambda>bs. Inr (hex_encode bs))"

text \<open>\<open>sign k\<close> is the outcome of the \<open>k\<close>-th call of \<open>tpm::sign_data\<close>: a signature and the key's public part.\<close>

definition sign_initiate ::
  "InitiatePayload codec \<Rightarrow> (nat \<Rightarrow> bytes \<Rightarrow> (bytes \<times> bytes) res) \<Rightarrow> InitiatePayload \<Rightarrow> SignedInitiate res" where
  "sign_initiate C sign payload =
     res_bind (with_context ''TPM key enumeration failed'' (sign 0 (as_bytes ''probe''))) (\<lambda>(_, signing_key_public).
     (let payload = payload\<lparr>ip_vm0_ak_public := signing_key_public\<rparr> in
     res_bind (canonical_bytes C payload) (\<lambda>bytes.
     res_bind (with_context ''TPM signing failed for INITIATE payload'' (sign 1 bytes)) (\<lambda>(signature, _).
       Inr \<lparr>si_payload = payload, si_signature = signature\<rparr>))))"

section \<open>Verification\<close>

definition verify_rsa_signature :: "crypto_ext \<Rightarrow> tss_verify \<Rightarrow> bytes \<Rightarrow> bytes \<Rightarrow> bytes \<Rightarrow> bool res" where
  "verify_rsa_signature X T data signature_bytes ak_public_bytes =
     (if data = [] \<or> signature_bytes = [] \<or> ak_public_bytes = [] then Inr False
      else
        res_bind (tv_context T) (\<lambda>_.
        res_bind (with_context ''Failed to unmarshall AK public key''
           (tv_unmarshall_public T ak_public_bytes)) (\<lambda>ak_public.
        res_bind (with_context ''Failed to load external public key'' (tv_load_external T ak_public)) (\<lambda>_.
        (let digest = sha256 X data in
        res_bind (with_context ''Failed to unmarshall signature''
           (tv_unmarshall_signature T signature_bytes)) (\<lambda>signature.
          Inr (tv_verify T ak_public digest signature)))))))"

text \<open>The window of the timestamp check: \<open>None\<close> when it passes.\<close>

definition timestamp_rejection :: "u64 \<Rightarrow> u64 \<Rightarrow> InitiateRejection option" where
  "timestamp_rejection now timestamp =
     (if now < timestamp
      then (let skew = timestamp - now in if 10 < skew then Some (TimestampInFuture skew) else None)
      else (let age = now - timestamp in
            if INITIATE_MAX_AGE_SECS < age then Some (TimestampExpired age) else None))"

definition verify_initiate ::
  "crypto_ext \<Rightarrow> tss_verify \<Rightarrow> InitiatePayload codec \<Rightarrow> u64 \<Rightarrow> SignedInitiate \<Rightarrow> bytes option
     \<Rightarrow> InitiateRejection + unit" where
  "verify_initiate X T C now initiate expected_vm0_ak_public =
     (let p = si_payload initiate in
      if ip_version p \<noteq> 1 then Inl (UnsupportedVersion (ip_version p))
      else case timestamp_rejection now (ip_timestamp p) of
        Some r \<Rightarrow> Inl r
      | None \<Rightarrow>
      if ip_session_ttl_secs p < 60 \<or> 1200 < ip_session_ttl_secs p then Inl InvalidSessionTtl
      else if length (ip_authorization_id p) \<noteq> AUTH_ID_BYTES
        then Inl (MalformedPayload (''authorization_id length '' @ show_nat (length (ip_authorization_id p))
                  @ '' != '' @ show_nat AUTH_ID_BYTES))
      else if length (ip_operator_hash p) \<noteq> 32
        then Inl (MalformedPayload (''operator_hash length '' @ show_nat (length (ip_operator_hash p)) @ '' != 32''))
      else if (case expected_vm0_ak_public of None \<Rightarrow> False | Some expected \<Rightarrow> ip_vm0_ak_public p \<noteq> expected)
        then Inl AkPublicMismatch
      else case canonical_bytes C p of
        Inl e \<Rightarrow> Inl (MalformedPayload (error_text e))
      | Inr bytes \<Rightarrow>
      case verify_rsa_signature X T bytes (si_signature initiate) (ip_vm0_ak_public p) of
        Inl e \<Rightarrow> Inl (MalformedPayload (''Signature verify error: '' @ error_text e))
      | Inr sig_valid \<Rightarrow> (if \<not> sig_valid then Inl InvalidSignature else Inr ()))"

section \<open>Replay cache\<close>

record ReplayCache =
  rc_seen :: "bytes \<rightharpoonup> u64"

definition replay_new :: ReplayCache where
  "replay_new = \<lparr>rc_seen = Map.empty\<rparr>"

definition prune :: "u64 \<Rightarrow> ReplayCache \<Rightarrow> ReplayCache" where
  "prune now c = c\<lparr>rc_seen := (\<lambda>k. case rc_seen c k of
     None \<Rightarrow> None
   | Some timestamp \<Rightarrow> (if saturating_sub now timestamp \<le> INITIATE_MAX_AGE_SECS then Some timestamp else None))\<rparr>"

definition check_and_record :: "u64 \<Rightarrow> bytes \<Rightarrow> ReplayCache \<Rightarrow> bool \<times> ReplayCache" where
  "check_and_record now auth_id c =
     (let c = prune now c in
      if rc_seen c auth_id \<noteq> None then (False, c)
      else (True, c\<lparr>rc_seen := (rc_seen c)(auth_id \<mapsto> now)\<rparr>))"

definition replay_size :: "ReplayCache \<Rightarrow> nat" where
  "replay_size c = card (dom (rc_seen c))"

text \<open>
  The decision of \<open>handle_initiate_connection\<close> on a received INITIATE: verify, then consult the
  cache; each reads the clock.  \<open>Inl\<close> is the reason sent back.
\<close>

definition admit_initiate ::
  "crypto_ext \<Rightarrow> tss_verify \<Rightarrow> InitiatePayload codec \<Rightarrow> bytes option \<Rightarrow> u64 \<Rightarrow> u64 \<Rightarrow> SignedInitiate
     \<Rightarrow> ReplayCache \<Rightarrow> (string + unit) \<times> ReplayCache" where
  "admit_initiate X T C expected now now' initiate cache =
     (case verify_initiate X T C now initiate expected of
        Inl rejection \<Rightarrow> (Inl (rejection_text rejection), cache)
      | Inr _ \<Rightarrow>
          (case check_and_record now' (ip_authorization_id (si_payload initiate)) cache of
             (False, cache') \<Rightarrow> (Inl ''authorization_id already used (replay)'', cache')
           | (True, cache') \<Rightarrow> (Inr (), cache')))"

section \<open>Operator authentication\<close>

record StoredCredentials =
  sc_passphrase1_hash :: "string option"
  sc_passphrase2_hash :: "string option"

record OperatorToken =
  ot_operator_hash :: bytes
  ot_authenticated_at :: u64
  ot_backend :: string

text \<open>
  \<open>load_creds\<close> and \<open>verify_pass\<close> stand for \<open>yubikey::StoredCredentials::load\<close> and
  \<open>yubikey::verify_passphrase\<close>, a module the sources name and do not contain.
\<close>

definition validate_operator ::
  "crypto_ext \<Rightarrow> (string \<Rightarrow> StoredCredentials res) \<Rightarrow> (string \<Rightarrow> string \<Rightarrow> bool res) \<Rightarrow> u64
     \<Rightarrow> string \<Rightarrow> string \<Rightarrow> string \<Rightarrow> OperatorToken res" where
  "validate_operator X load_creds verify_pass now credentials_path passphrase1 passphrase2 =
     res_bind (load_creds credentials_path) (\<lambda>credentials.
     res_bind (ok_or_else ''Missing passphrase1 hash'' (sc_passphrase1_hash credentials)) (\<lambda>hash1.
     res_bind (ok_or_else ''Missing passphrase2 hash'' (sc_passphrase2_hash credentials)) (\<lambda>hash2.
     res_bind (verify_pass passphrase1 hash1) (\<lambda>ok1.
     res_bind (verify_pass passphrase2 hash2) (\<lambda>ok2.
       (if \<not> (ok1 \<and> ok2) then Inl (Err ''Authentication failed'')
        else Inr \<lparr>ot_operator_hash = sha256 X (as_bytes passphrase1 @ as_bytes ''||'' @ as_bytes passphrase2),
                  ot_authenticated_at = now, ot_backend = ''dev-two-passphrase''\<rparr>))))))"

section \<open>The interface of a replay guard\<close>

text \<open>
  \<open>replay_run\<close> feeds a guard with requests \<open>(time, identifier)\<close> and collects its answers.
\<close>

fun replay_run :: "(u64 \<Rightarrow> 'i \<Rightarrow> 'c \<Rightarrow> bool \<times> 'c) \<Rightarrow> 'c \<Rightarrow> (u64 \<times> 'i) list \<Rightarrow> bool list" where
  "replay_run chk c [] = []"
| "replay_run chk c ((now, i) # rs) = (case chk now i c of (ok, c') \<Rightarrow> ok # replay_run chk c' rs)"

text \<open>
  \<open>recorded c i\<close> is the time at which \<open>i\<close> was admitted, if the guard still knows it; it may forget an
  entry only once the entry is older than the window.
\<close>

locale replay_guard =
  fixes chk :: "u64 \<Rightarrow> 'i \<Rightarrow> 'c \<Rightarrow> bool \<times> 'c"
    and key :: "'i \<Rightarrow> 'k"
    and recorded :: "'c \<Rightarrow> 'k \<Rightarrow> u64 option"
    and window :: nat
  assumes refuses: "recorded c (key i) = Some t \<Longrightarrow> unat now - unat t \<le> window \<Longrightarrow> \<not> fst (chk now i c)"
    and records: "fst (chk now i c) \<Longrightarrow> recorded (snd (chk now i c)) (key i) = Some now"
    and keeps: "recorded c k = Some t \<Longrightarrow> unat now - unat t \<le> window \<Longrightarrow>
       recorded (snd (chk now i c)) k = Some t"
begin

lemma run_known_rejected:
  assumes "recorded c k = Some t" and "sorted (map (\<lambda>r. unat (fst r)) rs)" and "n < length rs"
    and "key (snd (rs ! n)) = k" and "unat (fst (rs ! n)) - unat t \<le> window"
  shows "\<not> replay_run chk c rs ! n"
  using assms
proof (induction rs arbitrary: c n)
  case Nil
  then show ?case by simp
next
  case (Cons r rs)
  obtain now i where r: "r = (now, i)" by fastforce
  obtain ok c' where step: "chk now i c = (ok, c')" by fastforce
  show ?case
  proof (cases n)
    case 0
    then show ?thesis using Cons.prems r step refuses [of c i t now] by auto
  next
    case (Suc m)
    have "unat now \<le> unat (fst (rs ! m))" using Cons.prems r Suc by (auto simp: sorted_iff_nth_mono)
    then have "recorded c' k = Some t"
      using keeps [OF Cons.prems(1), of now i] Cons.prems(5) r Suc step by simp
    with Cons.IH [of c' m] Cons.prems r Suc step show ?thesis by simp
  qed
qed

text \<open>Two admissions of one key in a run are more than the window apart.\<close>

lemma admissions_apart:
  assumes "sorted (map (\<lambda>r. unat (fst r)) rs)" and "a < b" and "b < length rs"
    and "key (snd (rs ! a)) = key (snd (rs ! b))"
    and "replay_run chk c rs ! a" and "replay_run chk c rs ! b"
  shows "window < unat (fst (rs ! b)) - unat (fst (rs ! a))"
  using assms
proof (induction rs arbitrary: c a b)
  case Nil
  then show ?case by simp
next
  case (Cons r rs)
  obtain now i where r: "r = (now, i)" by fastforce
  obtain ok c' where step: "chk now i c = (ok, c')" by fastforce
  obtain m where b: "b = Suc m" using Cons.prems(2) by (cases b) auto
  show ?case
  proof (cases a)
    case 0
    have "recorded c' (key i) = Some now"
      using records [of now i c] Cons.prems(5) 0 r step by simp
    from run_known_rejected [OF this, of rs m] show ?thesis
      using Cons.prems 0 r b step by (auto simp: not_le [symmetric])
  next
    case (Suc n)
    with Cons.IH [of n m c'] Cons.prems r b step show ?thesis by auto
  qed
qed

text \<open>The answers of a run: the \<open>n\<close>-th is the guard's answer in the state reached.\<close>

lemma run_nth:
  "n < length rs \<Longrightarrow> \<exists>c'. replay_run chk c rs ! n = fst (chk (fst (rs ! n)) (snd (rs ! n)) c')"
proof (induction rs arbitrary: c n)
  case (Cons r rs)
  then show ?case by (cases n; cases r) (auto split: prod.splits intro: exI [of _ c])
qed simp

end

lemma within_window: "saturating_sub now t \<le> INITIATE_MAX_AGE_SECS \<longleftrightarrow> unat now - unat t \<le> 300"
  by (simp add: INITIATE_MAX_AGE_SECS_def word_le_nat_alt)

lemma prune_Some:
  "rc_seen (prune now c) k = Some t \<longleftrightarrow> rc_seen c k = Some t \<and> unat now - unat t \<le> 300"
  by (auto simp: prune_def within_window split: option.splits)

lemma check_and_record_laws:
  "rc_seen c i = Some t \<Longrightarrow> unat now - unat t \<le> 300 \<Longrightarrow> \<not> fst (check_and_record now i c)"
  "fst (check_and_record now i c) \<Longrightarrow> rc_seen (snd (check_and_record now i c)) i = Some now"
  "rc_seen c k = Some t \<Longrightarrow> unat now - unat t \<le> 300 \<Longrightarrow>
     rc_seen (snd (check_and_record now i c)) k = Some t"
proof -
  show "rc_seen c i = Some t \<Longrightarrow> unat now - unat t \<le> 300 \<Longrightarrow> \<not> fst (check_and_record now i c)"
    using prune_Some [of now c i] by (auto simp: check_and_record_def Let_def)
  show "fst (check_and_record now i c) \<Longrightarrow> rc_seen (snd (check_and_record now i c)) i = Some now"
    by (auto simp: check_and_record_def Let_def)
  assume "rc_seen c k = Some t" "unat now - unat t \<le> 300"
  then have "rc_seen (prune now c) k = Some t" by (simp add: prune_Some)
  then show "rc_seen (snd (check_and_record now i c)) k = Some t"
    by (auto simp: check_and_record_def Let_def)
qed

interpretation cache: replay_guard check_and_record "\<lambda>i. i" rc_seen 300
  by unfold_locales (fact check_and_record_laws)+

text \<open>
  So is the whole decision on an INITIATE, keyed by its authorization identifier: a request is the
  reading of the clock by the cache together with the reading by \<open>verify_initiate\<close> and the message.
\<close>

definition admit_step ::
  "crypto_ext \<Rightarrow> tss_verify \<Rightarrow> InitiatePayload codec \<Rightarrow> bytes option \<Rightarrow> u64 \<Rightarrow> u64 \<times> SignedInitiate
     \<Rightarrow> ReplayCache \<Rightarrow> bool \<times> ReplayCache" where
  "admit_step X T C expected now' = (\<lambda>(now, initiate) cache.
     (case admit_initiate X T C expected now now' initiate cache of (r, cache') \<Rightarrow> (is_inr r, cache')))"

lemma admit_step_simps:
  "admit_step X T C expected now' (now, s) c =
     (if is_inr (verify_initiate X T C now s expected)
      then check_and_record now' (ip_authorization_id (si_payload s)) c else (False, c))"
  by (auto simp: admit_step_def admit_initiate_def is_inr_def split: sum.splits prod.splits bool.splits)

interpretation admission: replay_guard "admit_step X T C expected"
    "\<lambda>i. ip_authorization_id (si_payload (snd i))" rc_seen 300 for X T C expected
  by unfold_locales
     (auto simp: admit_step_simps check_and_record_laws split: if_splits)

section \<open>Lemmas\<close>

lemma timestamp_window:
  "timestamp_rejection now ts = None \<longleftrightarrow> unat ts \<le> unat now + 10 \<and> unat now \<le> unat ts + 300"
proof (cases "now < ts")
  case True
  then have "unat (ts - now) = unat ts - unat now" by (simp add: unat_sub word_less_nat_alt word_le_nat_alt)
  with True show ?thesis by (auto simp: timestamp_rejection_def Let_def word_less_nat_alt)
next
  case False
  then have "unat (now - ts) = unat now - unat ts" by (simp add: unat_sub word_less_nat_alt word_le_nat_alt)
  with False show ?thesis
    by (auto simp: timestamp_rejection_def Let_def word_less_nat_alt INITIATE_MAX_AGE_SECS_def)
qed

lemma verify_rsa_signature_eq: "verify_rsa_signature X T = verify_quote_signature X T"
  by (simp add: fun_eq_iff verify_rsa_signature_def verify_quote_signature_def)

definition ttl_ok :: "u64 \<Rightarrow> bool" where
  "ttl_ok ttl \<longleftrightarrow> 60 \<le> unat ttl \<and> unat ttl \<le> 1200"

lemma ttl_ok_iff: "ttl_ok ttl \<longleftrightarrow> \<not> (ttl < 60 \<or> 1200 < ttl)"
  by (auto simp: ttl_ok_def word_less_nat_alt)

lemma verify_initiate_Inr:
  "verify_initiate X T C now s expected = Inr () \<longleftrightarrow>
     ip_version (si_payload s) = 1 \<and>
     unat (ip_timestamp (si_payload s)) \<le> unat now + 10 \<and> unat now \<le> unat (ip_timestamp (si_payload s)) + 300 \<and>
     ttl_ok (ip_session_ttl_secs (si_payload s)) \<and>
     length (ip_authorization_id (si_payload s)) = 32 \<and> length (ip_operator_hash (si_payload s)) = 32 \<and>
     (expected = None \<or> expected = Some (ip_vm0_ak_public (si_payload s))) \<and>
     (\<exists>bytes. ser C (si_payload s) = Inr bytes \<and>
        verify_rsa_signature X T bytes (si_signature s) (ip_vm0_ak_public (si_payload s)) = Inr True)"
  unfolding verify_initiate_def Let_def ttl_ok_iff AUTH_ID_BYTES_def canonical_bytes_def
  using timestamp_window [of now "ip_timestamp (si_payload s)"]
  by (auto split: option.splits sum.splits)

lemma payload_new_Inr:
  assumes "payload_new random now ttl oh att ak = Inr p" and "32 \<le> length random"
  shows "ip_version p = 1" "ip_timestamp p = now" "ttl_ok (ip_session_ttl_secs p)"
    "length (ip_authorization_id p) = 32" "ip_operator_hash p = oh"
  using assms by (auto simp: payload_new_def AUTH_ID_BYTES_def ttl_ok_iff split: if_splits)

lemma sign_initiate_Inr:
  "sign_initiate C sign p = Inr s \<longleftrightarrow>
     (\<exists>sig0 pk bytes sig pk'. sign 0 (as_bytes ''probe'') = Inr (sig0, pk) \<and>
        ser C (p\<lparr>ip_vm0_ak_public := pk\<rparr>) = Inr bytes \<and> sign 1 bytes = Inr (sig, pk') \<and>
        s = \<lparr>si_payload = p\<lparr>ip_vm0_ak_public := pk\<rparr>, si_signature = sig\<rparr>)"
  by (auto simp: sign_initiate_def canonical_bytes_def res_simps split_paired_Ex Let_def)

section \<open>Properties\<close>

text \<open>
  C28.  \<open>verify_initiate\<close> accepts exactly the messages of version 1 whose timestamp is at most 10
  seconds ahead of the clock and at most 300 behind, whose lifetime is between 60 and 1200 seconds,
  whose identifier and operator hash have 32 bytes, whose key is the expected one when one is
  configured, and whose signature over the serialized payload the TPM confirms for that key.
\<close>

theorem verify_initiate_accepts_iff:
  "verify_initiate X T C now s expected = Inr () \<longleftrightarrow>
     ip_version (si_payload s) = 1 \<and>
     unat (ip_timestamp (si_payload s)) \<le> unat now + 10 \<and> unat now \<le> unat (ip_timestamp (si_payload s)) + 300 \<and>
     60 \<le> unat (ip_session_ttl_secs (si_payload s)) \<and> unat (ip_session_ttl_secs (si_payload s)) \<le> 1200 \<and>
     length (ip_authorization_id (si_payload s)) = 32 \<and> length (ip_operator_hash (si_payload s)) = 32 \<and>
     (expected = None \<or> expected = Some (ip_vm0_ak_public (si_payload s))) \<and>
     (\<exists>bytes. ser C (si_payload s) = Inr bytes \<and> bytes \<noteq> [] \<and> si_signature s \<noteq> [] \<and>
        ip_vm0_ak_public (si_payload s) \<noteq> [] \<and> tv_context T = Inr () \<and>
        (\<exists>key sig. tv_unmarshall_public T (ip_vm0_ak_public (si_payload s)) = Inr key \<and>
           tv_load_external T key = Inr () \<and> tv_unmarshall_signature T (si_signature s) = Inr sig \<and>
           tv_verify T key (sha256 X bytes) sig))"
  by (auto simp: verify_initiate_Inr ttl_ok_def verify_rsa_signature_eq verify_quote_signature_True)

text \<open>
  An INITIATE built by \<open>InitiatePayload::new\<close> and signed by \<open>sign_initiate\<close> on vm0 is accepted by
  vm1 for the next 300 seconds, given that vm0's TPM signs with one key and that vm1's TPM confirms
  what it signs.
\<close>

definition tpm_sign_correct ::
  "crypto_ext \<Rightarrow> tss_verify \<Rightarrow> (nat \<Rightarrow> bytes \<Rightarrow> (bytes \<times> bytes) res) \<Rightarrow> bytes \<Rightarrow> bool" where
  "tpm_sign_correct X T sign pk \<longleftrightarrow>
     (\<forall>k data sig pk'. sign k data = Inr (sig, pk') \<longrightarrow>
        pk' = pk \<and> (data \<noteq> [] \<longrightarrow> verify_rsa_signature X T data sig pk = Inr True))"

theorem honest_initiate_accepted:
  assumes "payload_new random t0 ttl oh att ak = Inr p" and "32 \<le> length random" and "length oh = 32"
    and "sign_initiate C sign p = Inr s" and "tpm_sign_correct X T sign pk"
    and "\<And>bytes. ser C (si_payload s) = Inr bytes \<Longrightarrow> bytes \<noteq> []"
    and "unat t0 \<le> unat now" and "unat now \<le> unat t0 + 300"
  shows "verify_initiate X T C now s (Some pk) = Inr ()"
proof -
  obtain sig0 pk0 bytes sig pk' where sgn: "sign 0 (as_bytes ''probe'') = Inr (sig0, pk0)"
      "ser C (p\<lparr>ip_vm0_ak_public := pk0\<rparr>) = Inr bytes" "sign 1 bytes = Inr (sig, pk')"
    and s: "s = \<lparr>si_payload = p\<lparr>ip_vm0_ak_public := pk0\<rparr>, si_signature = sig\<rparr>"
    using assms(4) by (auto simp: sign_initiate_Inr)
  have pk0: "pk0 = pk" using assms(5) sgn(1) unfolding tpm_sign_correct_def by blast
  have "bytes \<noteq> []" using assms(6) sgn(2) s by simp
  then have "verify_rsa_signature X T bytes sig pk = Inr True"
    using assms(5) sgn(3) unfolding tpm_sign_correct_def by blast
  with payload_new_Inr [OF assms(1,2)] assms(3,7,8) sgn(2) show ?thesis
    by (simp add: verify_initiate_Inr s pk0)
qed

definition demo_payload_codec :: "InitiatePayload codec" where
  "demo_payload_codec = \<lparr>ser = (\<lambda>_. Inr [1]), de = (\<lambda>_. Inl (Err ''unused''))\<rparr>"

definition demo_initiate :: "u64 \<Rightarrow> SignedInitiate" where
  "demo_initiate t = \<lparr>si_payload = \<lparr>ip_version = 1, ip_authorization_id = replicate 32 3, ip_timestamp = t,
      ip_session_ttl_secs = 600, ip_operator_hash = replicate 32 4,
      ip_vm0_attestation = demo_attestation ''vm0'' 200, ip_vm0_ak_public = [6]\<rparr>, si_signature = [5]\<rparr>"

lemma demo_initiate_verifies:
  "unat t \<le> unat now + 10 \<Longrightarrow> unat now \<le> unat t + 300 \<Longrightarrow>
     verify_initiate demo_ext demo_tss demo_payload_codec now (demo_initiate t) (Some [6]) = Inr ()"
  by (simp add: verify_initiate_Inr demo_initiate_def demo_payload_codec_def ttl_ok_def demo_tss_def
      verify_rsa_signature_def Let_def)

theorem honest_initiate_accepted_witness:
  "verify_initiate demo_ext demo_tss demo_payload_codec 1100 (demo_initiate 1000) (Some [6]) = Inr ()"
proof (rule honest_initiate_accepted)
  show "payload_new (replicate 32 3) 1000 600 (replicate 32 4) (demo_attestation ''vm0'' 200) []
      = Inr ((si_payload (demo_initiate 1000))\<lparr>ip_vm0_ak_public := []\<rparr>)"
    by (simp add: payload_new_def demo_initiate_def AUTH_ID_BYTES_def)
  show "sign_initiate demo_payload_codec (\<lambda>_ _. Inr ([5], [6]))
      ((si_payload (demo_initiate 1000))\<lparr>ip_vm0_ak_public := []\<rparr>) = Inr (demo_initiate 1000)"
    by (simp add: sign_initiate_def canonical_bytes_def demo_payload_codec_def demo_initiate_def Let_def)
  show "tpm_sign_correct demo_ext demo_tss (\<lambda>_ _. Inr ([5], [6])) [6]"
    by (simp add: tpm_sign_correct_def verify_rsa_signature_def demo_tss_def Let_def)
qed (auto simp: demo_payload_codec_def)

text \<open>
  C13.  Replay protection: in a run of requests handled in clock order from any cache, an
  authorization identifier admitted twice was admitted more than 300 seconds apart; so one INITIATE
  is admitted twice only if its timestamp was still ahead of the clock at the first admission, or
  if the clock ticked between the two readings of the second one.
\<close>

theorem initiate_admitted_once:
  assumes "sorted (map (\<lambda>r. unat (fst r)) rs)" and "a < b" and "b < length rs"
    and "rs ! a = (now_a', now_a, s)" and "rs ! b = (now_b', now_b, s)"
    and "replay_run (admit_step X T C expected) cache rs ! a"
    and "replay_run (admit_step X T C expected) cache rs ! b"
  shows "unat now_a' + 300 < unat now_b' \<and>
     (unat now_a' < unat (ip_timestamp (si_payload s)) \<or> unat now_b < unat now_b')"
proof -
  have apart: "300 < unat now_b' - unat now_a'"
    using admission.admissions_apart [OF assms(1-3) _ assms(6,7)] assms(4,5) by simp
  obtain c' where "fst (admit_step X T C expected now_b' (now_b, s) c')"
    using admission.run_nth [OF assms(3), of X T C expected cache] assms(5,7) by auto
  then have "verify_initiate X T C now_b s expected = Inr ()"
    by (auto simp: admit_step_simps is_inr_def split: if_splits sum.splits)
  then have "unat now_b \<le> unat (ip_timestamp (si_payload s)) + 300"
    by (simp add: verify_initiate_Inr)
  with apart show ?thesis by linarith
qed

lemma demo_replay:
  "unat t \<le> unat now_a + 10 \<Longrightarrow> unat now_a \<le> unat t + 300 \<Longrightarrow> unat t \<le> unat now_b + 10 \<Longrightarrow>
   unat now_b \<le> unat t + 300 \<Longrightarrow> 300 < unat now_b' - unat now_a' \<Longrightarrow>
   replay_run (admit_step demo_ext demo_tss demo_payload_codec (Some [6])) replay_new
     [(now_a', now_a, demo_initiate t), (now_b', now_b, demo_initiate t)] = [True, True]"
  by (simp add: admit_step_simps demo_initiate_verifies check_and_record_def prune_def replay_new_def
      within_window Let_def not_le [symmetric])

theorem initiate_admitted_once_witness:
  "unat (1000 :: u64) + 300 < unat (1301 :: u64) \<and>
     (unat (1000 :: u64) < unat (ip_timestamp (si_payload (demo_initiate 1010))) \<or> unat (1301 :: u64) < unat (1301 :: u64))"
proof (rule initiate_admitted_once [of "[(1000, 1000, demo_initiate 1010), (1301, 1301, demo_initiate 1010)]" 0 1])
  show "replay_run (admit_step demo_ext demo_tss demo_payload_codec (Some [6])) replay_new
      [(1000, 1000, demo_initiate 1010), (1301, 1301, demo_initiate 1010)] ! 0"
    by (subst demo_replay) simp_all
  show "replay_run (admit_step demo_ext demo_tss demo_payload_codec (Some [6])) replay_new
      [(1000, 1000, demo_initiate 1010), (1301, 1301, demo_initiate 1010)] ! 1"
    by (subst demo_replay) simp_all
qed simp_all

text \<open>
  Both exceptions occur: an INITIATE stamped 10 seconds ahead is admitted when it arrives and
  again 301 seconds later, and one stamped exactly at its first admission is admitted again when the
  clock moves from second 300 to 301 between the two readings.
\<close>

theorem initiate_admitted_twice:
  "replay_run (admit_step demo_ext demo_tss demo_payload_codec (Some [6])) replay_new
     [(1000, 1000, demo_initiate 1010), (1301, 1301, demo_initiate 1010)] = [True, True] \<and>
   replay_run (admit_step demo_ext demo_tss demo_payload_codec (Some [6])) replay_new
     [(1000, 1000, demo_initiate 1000), (1301, 1300, demo_initiate 1000)] = [True, True]"
  by (intro conjI demo_replay) simp_all

text \<open>
  An operator is authenticated exactly when the store holds both hashes and both passphrases
  verify; anything else, a missing hash included, is an error.
\<close>

theorem validate_operator_iff:
  "is_inr (validate_operator X load_creds verify_pass now path p1 p2) \<longleftrightarrow>
     (\<exists>cr h1 h2. load_creds path = Inr cr \<and> sc_passphrase1_hash cr = Some h1 \<and>
        sc_passphrase2_hash cr = Some h2 \<and> verify_pass p1 h1 = Inr True \<and> verify_pass p2 h2 = Inr True)"
proof
  assume "is_inr (validate_operator X load_creds verify_pass now path p1 p2)"
  then obtain t where "validate_operator X load_creds verify_pass now path p1 p2 = Inr t"
    by (auto simp: is_inr_def split: sum.splits)
  then show "\<exists>cr h1 h2. load_creds path = Inr cr \<and> sc_passphrase1_hash cr = Some h1 \<and>
      sc_passphrase2_hash cr = Some h2 \<and> verify_pass p1 h1 = Inr True \<and> verify_pass p2 h2 = Inr True"
    by (auto simp: validate_operator_def res_simps split: if_splits)
qed (auto simp: validate_operator_def)

end
