(* ===== verification/Node.thy ===== *)
theory Node
  imports Samples Network
begin

text \<open>
  What a running agent sees of its machine: sockets, the entropy source, the clock and the TPM.  The
  handlers of \<open>main.rs\<close> are steps over the record \<open>node\<close> below.

  Sockets are numbered: \<open>nd_chan h\<close> is the connection behind handle \<open>h\<close>, and connecting to an address
  opens the next handle on the peer \<open>nd_peer\<close> provides (\<open>connect\<close> itself retries until it succeeds).  The
  entropy source is a sequence of bytes, the clock (seconds, and nanoseconds where the
  code asks for them) and the TPM sequences of readings and outcomes, each with the position reached.  The crates and the derived \<open>Debug\<close> texts are in \<open>agent_env\<close>.
\<close>

record node =
  nd_chan :: "nat \<Rightarrow> chan"
  nd_next :: nat
  nd_peer :: "nat \<Rightarrow> string \<Rightarrow> chan"
  nd_entropy :: "nat \<Rightarrow> u8"
  nd_entropy_pos :: nat
  nd_clock :: "nat \<Rightarrow> u64"
  nd_nanos :: "nat \<Rightarrow> nat"
  nd_clock_pos :: nat
  nd_tpm :: "nat \<Rightarrow> tpm_env"
  nd_tpm_pos :: nat

record agent_env =
  ae_x :: crypto_ext
  ae_messages :: "ProtocolMessage codec"
  ae_payloads :: "RelayCellPayload codec"
  ae_debug :: "ProtocolMessage \<Rightarrow> string"
  ae_debug_command :: "RelayCommand \<Rightarrow> string"

section \<open>Primitive steps\<close>

definition on_chan :: "nat \<Rightarrow> (chan, 'a) io \<Rightarrow> (node, 'a) io" where
  "on_chan h f s = (case f (nd_chan s h) of (r, c) \<Rightarrow> (r, s\<lparr>nd_chan := (nd_chan s)(h := c)\<rparr>))"

definition open_chan :: "string \<Rightarrow> (node, nat) io" where
  "open_chan addr s =
     (let h = nd_next s in
      (Inr h, s\<lparr>nd_chan := (nd_chan s)(h := nd_peer s h addr), nd_next := Suc h\<rparr>))"

definition draw :: "nat \<Rightarrow> (node, bytes) io" where
  "draw n s =
     (Inr (map (nd_entropy s) [nd_entropy_pos s..<nd_entropy_pos s + n]),
      s\<lparr>nd_entropy_pos := nd_entropy_pos s + n\<rparr>)"

definition now_secs :: "(node, u64) io" where
  "now_secs s = (Inr (nd_clock s (nd_clock_pos s)), s\<lparr>nd_clock_pos := Suc (nd_clock_pos s)\<rparr>)"

definition now_nanos :: "(node, nat) io" where
  "now_nanos s = (Inr (nd_nanos s (nd_clock_pos s)), s\<lparr>nd_clock_pos := Suc (nd_clock_pos s)\<rparr>)"

definition take_quote :: "crypto_ext \<Rightarrow> (node, TpmQuote) io" where
  "take_quote X s =
     (generate_quote X (nd_tpm s (nd_tpm_pos s)), s\<lparr>nd_tpm_pos := Suc (nd_tpm_pos s)\<rparr>)"

definition send :: "agent_env \<Rightarrow> nat \<Rightarrow> ProtocolMessage \<Rightarrow> (node, unit) io" where
  "send A h m = on_chan h (send_message (ae_messages A) m)"

definition receive :: "agent_env \<Rightarrow> nat \<Rightarrow> (node, ProtocolMessage) io" where
  "receive A h = on_chan h (receive_message (ae_messages A))"

text \<open>\<open>crypto::encrypt\<close> with the nonce it draws.\<close>

definition encrypt_io :: "agent_env \<Rightarrow> bytes \<Rightarrow> bytes \<Rightarrow> (node, bytes) io" where
  "encrypt_io A key plaintext = io_bind (draw 12) (\<lambda>nonce. io_res (encrypt (ae_x A) nonce key plaintext))"

text \<open>\<open>crypto::generate_key_exchange_init\<close> and \<open>_response\<close> with the random values they draw.\<close>

definition key_exchange_init_io ::
  "agent_env \<Rightarrow> string \<Rightarrow> (node, KeyExchangeInit \<times> bytes \<times> bytes \<times> bytes) io" where
  "key_exchange_init_io A sender_id =
     io_bind (draw 64) (\<lambda>seed. io_bind (draw 32) (\<lambda>secret. io_bind (draw 32) (\<lambda>nonce.
       io_res (generate_key_exchange_init (ae_x A) seed secret nonce sender_id))))"

definition key_exchange_response_io ::
  "agent_env \<Rightarrow> string \<Rightarrow> KeyExchangeInit \<Rightarrow> (node, KeyExchangeResponse \<times> SessionKeys) io" where
  "key_exchange_response_io A responder_id init =
     io_bind (draw 32) (\<lambda>coins. io_bind (draw 32) (\<lambda>secret.
       io_res (generate_key_exchange_response (ae_x A) coins secret responder_id init)))"

section \<open>Lemmas\<close>

lemma draw_length: "draw n s = (Inr bs, s') \<Longrightarrow> length bs = n"
  by (auto simp: draw_def)

lemma encrypt_io_decrypts:
  assumes "aead_correct (ae_x A)" and "encrypt_io A key p s = (Inr c, s')"
  shows "decrypt (ae_x A) key c = Inr p"
proof -
  obtain nonce s1 where d: "draw 12 s = (Inr nonce, s1)" and e: "encrypt (ae_x A) nonce key p = Inr c"
    using assms(2) by (auto simp: encrypt_io_def io_bind_eq_Inr)
  from decrypt_encrypt [OF assms(1) draw_length [OF d] e] show ?thesis .
qed

end
