(* ===== verification/Config.thy ===== *)
theory Config
  imports Prelude
begin

text \<open>
  Node configuration (\<open>mfa-agent/src/config/mod.rs\<close>): the record read from \<open>node.json\<close>, its
  validation, and the accessors the role loops call.  Reading the file and decoding JSON are
  arguments of \<open>load\<close>.  Lemmas: validation decides a declarative well-formedness predicate, and a
  configuration that loads gives every role the fields its main loop unwraps.
\<close>

section \<open>Data\<close>

datatype NodeRole = Client | Proxy | Zts | Da | Orchestrator

record CircuitHop =
  hop_node_id :: string
  hop_address :: string

record NodeConfig =
  cfg_node_id :: string
  cfg_role :: NodeRole
  cfg_listen_port :: u16
  cfg_circuit :: "CircuitHop list"
  cfg_chain2_circuit :: "CircuitHop list"
  cfg_log_mode :: u8
  cfg_unix_socket_path :: "string option"
  cfg_vm1_address :: "string option"
  cfg_credentials_path :: "string option"
  cfg_baselines_path :: "string option"
  cfg_initiate_port :: "u16 option"
  cfg_vm4_address :: "string option"
  cfg_vm0_address :: "string option"
  cfg_vm3_address :: "string option"
  cfg_da_listen_port :: "u16 option"
  cfg_mutual_attest_port :: "u16 option"
  cfg_vm0_ak_public_path :: "string option"

fun role_name :: "NodeRole \<Rightarrow> string" where
  "role_name Client = ''client''"
| "role_name Proxy = ''proxy''"
| "role_name Zts = ''zts''"
| "role_name Da = ''da''"
| "role_name Orchestrator = ''orchestrator''"

section \<open>Operations\<close>

definition validate :: "NodeConfig \<Rightarrow> unit res" where
  "validate c =
     (if cfg_node_id c = [] then Inl (Err ''node_id cannot be empty'')
      else case cfg_role c of
        Client \<Rightarrow>
          (if cfg_circuit c = [] then Inl (Err ''Client role requires non-empty circuit'')
           else if length (cfg_circuit c) < 2
             then Inl (Err (''Circuit must have at least 2 hops, got '' @ show_nat (length (cfg_circuit c))))
           else Inr ())
      | Zts \<Rightarrow>
          (if cfg_chain2_circuit c \<noteq> [] \<and> length (cfg_chain2_circuit c) < 2
             then Inl (Err (''chain2_circuit must have at least 2 hops, got ''
                            @ show_nat (length (cfg_chain2_circuit c))))
           else Inr ())
      | Proxy \<Rightarrow> Inr ()
      | Da \<Rightarrow> Inr ()
      | Orchestrator \<Rightarrow>
          (if cfg_unix_socket_path c = None
             then Inl (Err ''Orchestrator role requires unix_socket_path'')
           else if cfg_vm1_address c = None \<and> cfg_mutual_attest_port c = None
             then Inl (Err ''Orchestrator requires vm1_address (vm0) or mutual_attest_port (vm4)'')
           else if cfg_credentials_path c = None
             then Inl (Err ''Orchestrator role requires credentials_path'')
           else if cfg_baselines_path c = None
             then Inl (Err ''Orchestrator role requires baselines_path'')
           else Inr ()))"

text \<open>\<open>read\<close> is \<open>std::fs::read_to_string\<close>, \<open>parse\<close> is \<open>serde_json::from_str\<close>.\<close>

definition load :: "(string \<Rightarrow> string res) \<Rightarrow> (string \<Rightarrow> NodeConfig res) \<Rightarrow> string option \<Rightarrow> NodeConfig res" where
  "load read parse path =
     (let config_path = unwrap_or ''node.json'' path in
      res_bind (with_context (''Failed to read config: '' @ config_path) (read config_path)) (\<lambda>json.
      res_bind (with_context (''Failed to parse config: '' @ config_path) (parse json)) (\<lambda>config.
      res_bind (validate config) (\<lambda>_. Inr config))))"

definition entry_address :: "NodeConfig \<Rightarrow> string res" where
  "entry_address c =
     ok_or_else ''No circuit defined''
       (case cfg_circuit c of [] \<Rightarrow> None | h # _ \<Rightarrow> Some (hop_address h))"

definition chain2_entry_address :: "NodeConfig \<Rightarrow> string res" where
  "chain2_entry_address c =
     ok_or_else ''No chain2_circuit defined''
       (case cfg_chain2_circuit c of [] \<Rightarrow> None | h # _ \<Rightarrow> Some (hop_address h))"

definition has_chain2 :: "NodeConfig \<Rightarrow> bool" where
  "has_chain2 c = (cfg_chain2_circuit c \<noteq> [])"

text \<open>
  \<open>main\<close> picks the loop to run from the role; an orchestrator with a mutual attestation port is the
  dual authority (vm4), without one it is vm0.
\<close>

datatype NodeLoop = RunClient | RunProxy | RunZts | RunDa | RunDualAuthority | RunOrchestrator

definition dispatch :: "NodeConfig \<Rightarrow> NodeLoop" where
  "dispatch c =
     (case cfg_role c of
        Client \<Rightarrow> RunClient
      | Proxy \<Rightarrow> RunProxy
      | Zts \<Rightarrow> RunZts
      | Da \<Rightarrow> RunDa
      | Orchestrator \<Rightarrow>
          (if cfg_mutual_attest_port c \<noteq> None then RunDualAuthority else RunOrchestrator))"

section \<open>What a configuration promises\<close>

definition config_ok :: "NodeConfig \<Rightarrow> bool" where
  "config_ok c \<longleftrightarrow> cfg_node_id c \<noteq> [] \<and>
     (case cfg_role c of
        Client \<Rightarrow> 2 \<le> length (cfg_circuit c)
      | Zts \<Rightarrow> cfg_chain2_circuit c = [] \<or> 2 \<le> length (cfg_chain2_circuit c)
      | Orchestrator \<Rightarrow>
          cfg_unix_socket_path c \<noteq> None \<and> cfg_credentials_path c \<noteq> None \<and>
          cfg_baselines_path c \<noteq> None \<and>
          (cfg_vm1_address c \<noteq> None \<or> cfg_mutual_attest_port c \<noteq> None)
      | _ \<Rightarrow> True)"

lemma validate_iff: "validate c = Inr () \<longleftrightarrow> config_ok c"
  by (cases "cfg_role c") (auto simp: validate_def config_ok_def Suc_le_eq not_less_eq_eq numeral_2_eq_2)

lemma load_Inr:
  "load read parse path = Inr c \<longleftrightarrow>
     (\<exists>json. read (unwrap_or ''node.json'' path) = Inr json \<and> parse json = Inr c \<and> config_ok c)"
  by (auto simp: load_def Let_def res_simps validate_iff)

text \<open>What the fields of a validated configuration give each main loop.\<close>

definition loop_ready :: "NodeConfig \<Rightarrow> bool" where
  "loop_ready c \<longleftrightarrow>
     (case dispatch c of
        RunClient \<Rightarrow> is_inr (entry_address c) \<and> 2 \<le> length (cfg_circuit c)
      | RunZts \<Rightarrow> has_chain2 c \<longrightarrow> is_inr (chain2_entry_address c) \<and> 2 \<le> length (cfg_chain2_circuit c)
      | RunOrchestrator \<Rightarrow>
          cfg_credentials_path c \<noteq> None \<and> cfg_baselines_path c \<noteq> None \<and>
          cfg_vm1_address c \<noteq> None \<and> cfg_unix_socket_path c \<noteq> None
      | RunDualAuthority \<Rightarrow>
          cfg_credentials_path c \<noteq> None \<and> cfg_baselines_path c \<noteq> None \<and>
          cfg_mutual_attest_port c \<noteq> None \<and> cfg_unix_socket_path c \<noteq> None
      | _ \<Rightarrow> True)"

lemma config_ok_loop_ready: "config_ok c \<Longrightarrow> loop_ready c"
  by (cases "cfg_role c")
     (auto simp: config_ok_def loop_ready_def dispatch_def entry_address_def
        chain2_entry_address_def has_chain2_def split: list.splits)

section \<open>Properties\<close>

text \<open>
  \<open>NodeConfig::load\<close> succeeds exactly on a file that can be read, parses and is well formed
  for its role, and then the main loop that \<open>main\<close> starts for it finds every field it unwraps.
\<close>

theorem load_gives_ready_config:
  "load read parse path = Inr c \<longleftrightarrow>
     (\<exists>json. read (unwrap_or ''node.json'' path) = Inr json \<and> parse json = Inr c \<and>
             config_ok c \<and> loop_ready c)"
  using config_ok_loop_ready by (auto simp: load_Inr)

end
