(* ===== verification/Dual_Authority.thy ===== *)
theory Dual_Authority
  imports Attest_Verify Orchestrator Node Config
begin

text \<open>
  The second orchestrator, vm4 (\<open>mfa-agent/src/dual_authority/mod.rs\<close>): the encrypted wire format, the
  mutual attestation vm0 runs before a chain, the quorum vm3 asks for after it, and vm4's approval of
  pending requests by its operator.  vm4 serves its connections concurrently over one shared cell; it
  is the step relation \<open>vm4_step\<close>, one step per critical section.  Lemmas: sealed messages round trip,
  what the quorum decision means, and that a request is approved only by an operator who
  authenticated while that very request was pending.
\<close>

section \<open>Data\<close>

datatype DualAuthMessage =
    DaAttestation Attestation
  | DaPreApproval bool string string u64
  | DaChainResult FullAuthorizationResponse Attestation
  | DaQuorumDecision bool string string

record PendingRequest =
  pq_requester_id :: string
  pq_requester_ip :: string
  pq_session_ttl_secs :: u64
  pq_attestation_summary :: string
  pq_vm0_verified :: bool
  pq_response_tx :: "nat option"

text \<open>The crates and codecs of this module, and the verifying side.\<close>

record dual_env =
  de_agent :: agent_env
  de_messages :: "DualAuthMessage codec"
  de_inits :: "KeyExchangeInit codec"
  de_responses :: "KeyExchangeResponse codec"
  de_verify :: verify_env

section \<open>Wire format\<close>

definition send_encrypted :: "dual_env \<Rightarrow> nat \<Rightarrow> bytes \<Rightarrow> DualAuthMessage \<Rightarrow> (node, unit) io" where
  "send_encrypted D stream key msg =
     io_bind (io_res (ser (de_messages D) msg)) (\<lambda>plaintext.
     io_bind (encrypt_io (de_agent D) key plaintext) (\<lambda>ciphertext.
       on_chan stream (write_frame put_le32 ciphertext)))"

definition recv_encrypted :: "dual_env \<Rightarrow> nat \<Rightarrow> bytes \<Rightarrow> (node, DualAuthMessage) io" where
  "recv_encrypted D stream key =
     io_bind (on_chan stream (read_frame nat_of_le (\<lambda>len. ''Message too large: '' @ show_nat len @ '' bytes''))) (\<lambda>buf.
     io_bind (io_res (decrypt (ae_x (de_agent D)) key buf)) (\<lambda>plaintext.
       io_res (de (de_messages D) plaintext)))"

definition perform_key_exchange_initiator :: "dual_env \<Rightarrow> nat \<Rightarrow> string \<Rightarrow> (node, bytes) io" where
  "perform_key_exchange_initiator D stream sender_id =
     io_bind (key_exchange_init_io (de_agent D) sender_id) (\<lambda>(init, kyber_sk, x25519_secret, nonce).
     io_bind (io_res (ser (de_inits D) init)) (\<lambda>init_bytes.
     io_bind (on_chan stream (write_frame put_le32 init_bytes)) (\<lambda>_.
     io_bind (on_chan stream (read_frame nat_of_le (\<lambda>_. ''Response too large''))) (\<lambda>resp_bytes.
     io_bind (io_res (de (de_responses D) resp_bytes)) (\<lambda>response.
     io_bind (io_res (complete_key_exchange (ae_x (de_agent D)) init response kyber_sk x25519_secret nonce)) (\<lambda>keys.
       io_return (session_key keys)))))))"

definition perform_key_exchange_responder :: "dual_env \<Rightarrow> nat \<Rightarrow> string \<Rightarrow> (node, bytes) io" where
  "perform_key_exchange_responder D stream responder_id =
     io_bind (on_chan stream (read_frame nat_of_le (\<lambda>_. ''Init too large''))) (\<lambda>init_bytes.
     io_bind (io_res (de (de_inits D) init_bytes)) (\<lambda>init.
     io_bind (key_exchange_response_io (de_agent D) responder_id init) (\<lambda>(response, keys).
     io_bind (io_res (ser (de_responses D) response)) (\<lambda>resp_bytes.
     io_bind (on_chan stream (write_frame put_le32 resp_bytes)) (\<lambda>_.
       io_return (session_key keys))))))"

definition build_self_attestation :: "dual_env \<Rightarrow> string \<Rightarrow> (node, Attestation) io" where
  "build_self_attestation D node_id =
     io_bind (take_quote (ae_x (de_agent D))) (\<lambda>quote.
     io_bind now_secs (\<lambda>timestamp.
       io_return \<lparr>att_vm_identity = node_id, att_tpm_quote = quote, att_timestamp = timestamp\<rparr>))"

section \<open>Judging a peer\<close>

text \<open>The test vm0 and vm4 apply to an attestation: a baseline is known and all five flags are set.\<close>

definition peer_verdict :: "verify_env \<Rightarrow> BaselineDatabase \<Rightarrow> Attestation \<Rightarrow> bool" where
  "peer_verdict V db att =
     (case get_baseline db (att_vm_identity att) of
        None \<Rightarrow> False
      | Some _ \<Rightarrow> node_passes (verify_attestation V db att None None None))"

definition vm0_mutual_attest_vm4 ::
  "dual_env \<Rightarrow> BaselineDatabase \<Rightarrow> string \<Rightarrow> string \<Rightarrow> u64 \<Rightarrow> (node, bool) io" where
  "vm0_mutual_attest_vm4 D db vm4_address node_id session_ttl_secs =
     io_bind (open_chan vm4_address) (\<lambda>stream.
     io_bind (io_context ''Key exchange with vm4 failed'' (perform_key_exchange_initiator D stream node_id)) (\<lambda>key.
     io_bind (build_self_attestation D node_id) (\<lambda>our_att.
     io_bind (send_encrypted D stream key (DaAttestation our_att)) (\<lambda>_.
     io_bind (recv_encrypted D stream key) (\<lambda>vm4_msg.
       (case vm4_msg of
          DaAttestation vm4_att \<Rightarrow>
            (let vm4_ok = peer_verdict (de_verify D) db vm4_att in
             io_bind (send_encrypted D stream key (DaPreApproval vm4_ok node_id
                (if vm4_ok then ''vm4 integrity verified'' else ''vm4 attestation failed'') session_ttl_secs)) (\<lambda>_.
             io_bind (recv_encrypted D stream key) (\<lambda>vm4_decision.
               (case vm4_decision of
                  DaPreApproval approved _ _ _ \<Rightarrow> io_return (approved \<and> vm4_ok)
                | _ \<Rightarrow> io_res (Inl (Err ''Expected PreApproval from vm4''))))))
        | _ \<Rightarrow> io_res (Inl (Err ''Expected attestation from vm4''))))))))"

definition vm3_forward_to_vm4 ::
  "dual_env \<Rightarrow> string \<Rightarrow> string \<Rightarrow> FullAuthorizationResponse \<Rightarrow> (node, bool) io" where
  "vm3_forward_to_vm4 D vm4_address node_id result =
     io_bind (open_chan vm4_address) (\<lambda>stream.
     io_bind (io_context ''Key exchange with vm4 (quorum) failed'' (perform_key_exchange_initiator D stream node_id)) (\<lambda>key.
     io_bind (build_self_attestation D node_id) (\<lambda>our_att.
     io_bind (send_encrypted D stream key (DaChainResult result our_att)) (\<lambda>_.
     io_bind (recv_encrypted D stream key) (\<lambda>decision.
       (case decision of
          DaQuorumDecision approved _ _ \<Rightarrow> io_return approved
        | _ \<Rightarrow> io_res (Inl (Err ''Expected QuorumDecision from vm4''))))))))"

section \<open>The quorum\<close>

text \<open>The two chain conditions are constants of the source.\<close>

definition quorum_decision ::
  "verify_env \<Rightarrow> BaselineDatabase \<Rightarrow> FullAuthorizationResponse \<Rightarrow> Attestation \<Rightarrow> bool \<times> string" where
  "quorum_decision V db chain_result da_att =
     (let vm3_ok = peer_verdict V db da_att; chain1_ok = True; chain2_ok = True;
          approved = (vm3_ok \<and> chain1_ok \<and> chain2_ok \<and> far_authorized chain_result);
          reasons = (if \<not> vm3_ok then [''vm3 integrity failed''] else [])
                  @ (if \<not> chain1_ok then [''chain1 node failures''] else [])
                  @ (if \<not> chain2_ok then [''chain2 node failures''] else [])
                  @ (if \<not> far_authorized chain_result then [''vm3 denied authorization''] else [])
      in (approved, if approved then ''vm4 quorum: vm3 integrity OK, all chain nodes passed''
                    else ''vm4 denied: '' @ str_join '', '' reasons))"

definition handle_vm3_result :: "dual_env \<Rightarrow> BaselineDatabase \<Rightarrow> string \<Rightarrow> nat \<Rightarrow> (node, unit) io" where
  "handle_vm3_result D db node_id stream =
     io_bind (io_context ''Key exchange with vm3 failed'' (perform_key_exchange_responder D stream node_id)) (\<lambda>key.
     io_bind (recv_encrypted D stream key) (\<lambda>msg.
       (case msg of
          DaChainResult chain_result da_att \<Rightarrow>
            (case quorum_decision (de_verify D) db chain_result da_att of (approved, reason) \<Rightarrow>
               send_encrypted D stream key (DaQuorumDecision approved node_id reason))
        | _ \<Rightarrow> io_res (Inl (Err ''Expected ChainResult from vm3'')))))"

section \<open>Pre-approval on vm4\<close>

text \<open>
  The first half of \<open>handle_vm0_attestation\<close>: up to storing the pending request.  \<open>Inl\<close> is the reason of
  an immediate denial, sent back to vm0.
\<close>

definition em_dash :: string where
  "em_dash = [CHR 0xE2, CHR 0x80, CHR 0x94]"

definition vm4_judge ::
  "verify_env \<Rightarrow> BaselineDatabase \<Rightarrow> string \<Rightarrow> Attestation \<Rightarrow> DualAuthMessage \<Rightarrow> string + PendingRequest" where
  "vm4_judge V db requester_ip vm0_att vm0_decision =
     (let (vm0_ok, attestation_summary) =
            (case get_baseline db (att_vm_identity vm0_att) of
               None \<Rightarrow> (False, ''No baseline for vm0'')
             | Some _ \<Rightarrow>
                 (let nr = verify_attestation V db vm0_att None None None in
                  (node_passes nr, (if node_passes nr then ''PASSED '' else ''FAILED '') @ em_dash @ '' '' @ nvr_details nr)));
          (vm0_approved, session_ttl_secs) =
            (case vm0_decision of DaPreApproval approved _ _ ttl \<Rightarrow> (approved, ttl) | _ \<Rightarrow> (False, 0))
      in if \<not> vm0_ok \<or> \<not> vm0_approved
         then Inl (if \<not> vm0_ok then ''vm0 attestation failed'' else ''vm0 denied vm4's attestation'')
         else Inr \<lparr>pq_requester_id = att_vm_identity vm0_att, pq_requester_ip = requester_ip,
                   pq_session_ttl_secs = session_ttl_secs, pq_attestation_summary = attestation_summary,
                   pq_vm0_verified = vm0_ok, pq_response_tx = None\<rparr>)"

definition handle_vm0_attestation ::
  "dual_env \<Rightarrow> BaselineDatabase \<Rightarrow> string \<Rightarrow> string \<Rightarrow> nat \<Rightarrow> (node, bytes \<times> PendingRequest option) io" where
  "handle_vm0_attestation D db node_id requester_ip stream =
     io_bind (io_context ''Key exchange with vm0 failed'' (perform_key_exchange_responder D stream node_id)) (\<lambda>key.
     io_bind (recv_encrypted D stream key) (\<lambda>vm0_msg.
       (case vm0_msg of
          DaAttestation vm0_att \<Rightarrow>
            io_bind (build_self_attestation D node_id) (\<lambda>our_att.
            io_bind (send_encrypted D stream key (DaAttestation our_att)) (\<lambda>_.
            io_bind (recv_encrypted D stream key) (\<lambda>vm0_decision.
              (case vm4_judge (de_verify D) db requester_ip vm0_att vm0_decision of
                 Inl reason \<Rightarrow>
                   io_bind (send_encrypted D stream key (DaPreApproval False node_id reason 0)) (\<lambda>_.
                     io_return (key, None))
               | Inr request \<Rightarrow> io_return (key, Some request)))))
        | _ \<Rightarrow> io_res (Inl (Err ''Expected attestation from vm0'')))))"

text \<open>
  The second half: the decision that is sent once the operator has answered or the wait is over.
\<close>

definition pre_approval_reply :: "string \<Rightarrow> bool \<Rightarrow> DualAuthMessage" where
  "pre_approval_reply node_id approved =
     DaPreApproval approved node_id
       (if approved then ''vm0 integrity verified, operator B authenticated and approved''
        else ''Operator B denied or timed out'') 0"

section \<open>The shared cell of vm4\<close>

text \<open>
  What \<open>run_dual_authority\<close> requires before it listens: the TPM, and every setting it unwraps, in the order
  of the source.  The result is the credentials path, the baselines, the two ports and the socket path.
\<close>

definition dual_authority_setup ::
  "unit res \<Rightarrow> (string \<Rightarrow> BaselineDatabase res) \<Rightarrow> (string \<rightharpoonup> string) \<Rightarrow> NodeConfig
     \<Rightarrow> (string \<times> BaselineDatabase \<times> u16 \<times> u16 \<times> string) res" where
  "dual_authority_setup tpm_init from_json files config =
     res_bind tpm_init (\<lambda>_.
     res_bind (ok_or_else ''vm4 requires credentials_path'' (cfg_credentials_path config)) (\<lambda>credentials_path.
     res_bind (ok_or_else ''vm4 requires baselines_path'' (cfg_baselines_path config)) (\<lambda>baselines_path.
     res_bind (with_context ''Failed to load baselines'' (fst (load_from_file from_json baselines_path files))) (\<lambda>baseline_db.
     res_bind (ok_or_else ''vm4 requires mutual_attest_port'' (cfg_mutual_attest_port config)) (\<lambda>attest_port.
     res_bind (ok_or_else ''vm4 requires da_listen_port'' (cfg_da_listen_port config)) (\<lambda>da_port.
     res_bind (ok_or_else ''vm4 requires unix_socket_path'' (cfg_unix_socket_path config)) (\<lambda>socket_path.
       Inr (credentials_path, baseline_db, attest_port, da_port, socket_path))))))))"

text \<open>
  A handler of vm0's connection is a number, and so is its one-shot channel: the sending half is
  \<open>pq_response_tx\<close> of the pending request, \<open>v4_reply\<close> holds a value that was sent and \<open>v4_phase\<close> where the
  handler is.  A sender that is dropped (its request left the cell unanswered) wakes the handler with
  an error, a value sent to a handler that stopped waiting is lost.
\<close>

datatype wait_phase = Awaiting | Expired | Decided bool

record vm4 =
  v4_pending :: "PendingRequest option"
  v4_reply :: "nat \<rightharpoonup> bool"
  v4_phase :: "nat \<rightharpoonup> wait_phase"

definition vm4_init :: vm4 where
  "vm4_init = \<lparr>v4_pending = None, v4_reply = Map.empty, v4_phase = Map.empty\<rparr>"

definition sender_alive :: "nat \<Rightarrow> vm4 \<Rightarrow> bool" where
  "sender_alive h s = (case v4_pending s of None \<Rightarrow> False | Some req \<Rightarrow> pq_response_tx req = Some h)"

definition submit :: "nat \<Rightarrow> PendingRequest \<Rightarrow> vm4 \<Rightarrow> vm4" where
  "submit h req s = s\<lparr>v4_pending := Some (req\<lparr>pq_response_tx := Some h\<rparr>), v4_phase := (v4_phase s)(h \<mapsto> Awaiting)\<rparr>"

text \<open>\<open>if let Some(tx) = req.response_tx.take() { let _ = tx.send(b); }\<close> on the request in the cell.\<close>

definition take_and_send :: "bool \<Rightarrow> PendingRequest \<Rightarrow> vm4 \<Rightarrow> vm4" where
  "take_and_send b req s =
     (case pq_response_tx req of
        None \<Rightarrow> s
      | Some h \<Rightarrow> s\<lparr>v4_pending := Some (req\<lparr>pq_response_tx := None\<rparr>),
          v4_reply := (if v4_phase s h = Some Awaiting then (v4_reply s)(h \<mapsto> b) else v4_reply s)\<rparr>)"

text \<open>\<open>cli_respond\<close> is the \<open>match\<close> of \<open>handle_vm4_cli\<close>; \<open>auth\<close> is \<open>validate_operator\<close> on the stored credentials.\<close>

definition cli_respond ::
  "(string \<Rightarrow> string \<Rightarrow> OperatorToken res) \<Rightarrow> CliRequest \<Rightarrow> (vm4, CliResponse) io" where
  "cli_respond auth request s =
     (case request of
        Authenticate passphrase1 passphrase2 _ \<Rightarrow>
          (case v4_pending s of
             None \<Rightarrow> (Inr (CrDenied ''No pending request from vm0. Wait for vm0 to connect first.''), s)
           | Some req \<Rightarrow>
               (case auth passphrase1 passphrase2 of
                  Inr token \<Rightarrow>
                    (if length (ot_operator_hash token) < 8 then (Inl (Panic ''range end index 8 out of range''), s)
                     else
                       let s = take_and_send True req s in
                       if length (ot_operator_hash token) < 16 then (Inl (Panic ''range end index 16 out of range''), s)
                       else (Inr (CrAuthorized (take 16 (ot_operator_hash token)) (ot_operator_hash token) 0 0 0),
                             s\<lparr>v4_pending := None\<rparr>))
                | Inl _ \<Rightarrow> (Inr (CrDenied (''Authentication failed '' @ em_dash @ '' request denied'')),
                            (take_and_send False req s)\<lparr>v4_pending := None\<rparr>)))
      | CliStatus \<Rightarrow>
          (case v4_pending s of
             Some req \<Rightarrow>
               (Inr (CrPendingApproval (pq_requester_id req) (pq_requester_ip req) (pq_session_ttl_secs req)
                       (pq_attestation_summary req)), s)
           | None \<Rightarrow> (Inr (CrStatus False None None), s))
      | CliRevoke \<Rightarrow>
          (Inr (CrStatus False None None),
           (case v4_pending s of
              Some req \<Rightarrow> (take_and_send False req s)\<lparr>v4_pending := None\<rparr>
            | None \<Rightarrow> s)))"

text \<open>The whole handler, over its connection and the shared cell.\<close>

definition handle_vm4_cli ::
  "CliRequest codec \<Rightarrow> CliResponse codec \<Rightarrow> (string \<Rightarrow> string \<Rightarrow> OperatorToken res) \<Rightarrow> (chan \<times> vm4, unit) io" where
  "handle_vm4_cli requests responses auth =
     io_bind (\<lambda>(c, s). case read_frame nat_of_le (\<lambda>_. ''CLI request too large'') c of (r, c') \<Rightarrow> (r, (c', s))) (\<lambda>data.
     io_bind (io_res (de requests data)) (\<lambda>request.
     io_bind (\<lambda>(c, s). case cli_respond auth request s of (r, s') \<Rightarrow> (r, (c, s'))) (\<lambda>response.
     io_bind (io_res (ser responses response)) (\<lambda>resp_data.
       (\<lambda>(c, s). case write_frame put_le32 resp_data c of (r, c') \<Rightarrow> (r, (c', s)))))))"

text \<open>
  One step per critical section.  \<open>auth now\<close> is \<open>validate_operator\<close> with the clock at that moment, \<open>admitted\<close>
  the requests \<open>vm4_judge\<close> lets through.  A handler whose wait timed out clears the cell in a second step,
  once it has taken the lock.
\<close>

datatype vm4_event =
    EvSubmit nat PendingRequest
  | EvCli u64 CliRequest
  | EvWake nat
  | EvClosed nat
  | EvExpire nat
  | EvCleanup nat

inductive vm4_step ::
  "(u64 \<Rightarrow> string \<Rightarrow> string \<Rightarrow> OperatorToken res) \<Rightarrow> (PendingRequest \<Rightarrow> bool) \<Rightarrow> vm4 \<Rightarrow> vm4_event \<Rightarrow> vm4 \<Rightarrow> bool"
  for auth :: "u64 \<Rightarrow> string \<Rightarrow> string \<Rightarrow> OperatorToken res" and admitted :: "PendingRequest \<Rightarrow> bool" where
  Submit: "v4_phase s h = None \<Longrightarrow> admitted req \<Longrightarrow> vm4_step auth admitted s (EvSubmit h req) (submit h req s)"
| Cli: "cli_respond (auth now) request s = (r, s') \<Longrightarrow> vm4_step auth admitted s (EvCli now request) s'"
| Wake: "v4_phase s h = Some Awaiting \<Longrightarrow> v4_reply s h = Some b \<Longrightarrow>
     vm4_step auth admitted s (EvWake h) (s\<lparr>v4_phase := (v4_phase s)(h \<mapsto> Decided b)\<rparr>)"
| Closed: "v4_phase s h = Some Awaiting \<Longrightarrow> v4_reply s h = None \<Longrightarrow> \<not> sender_alive h s \<Longrightarrow>
     vm4_step auth admitted s (EvClosed h) (s\<lparr>v4_phase := (v4_phase s)(h \<mapsto> Decided False)\<rparr>)"
| Expire: "v4_phase s h = Some Awaiting \<Longrightarrow> v4_reply s h = None \<Longrightarrow> sender_alive h s \<Longrightarrow>
     vm4_step auth admitted s (EvExpire h) (s\<lparr>v4_phase := (v4_phase s)(h \<mapsto> Expired)\<rparr>)"
| Cleanup: "v4_phase s h = Some Expired \<Longrightarrow>
     vm4_step auth admitted s (EvCleanup h)
       (s\<lparr>v4_pending := None, v4_phase := (v4_phase s)(h \<mapsto> Decided False)\<rparr>)"

inductive vm4_run ::
  "(u64 \<Rightarrow> string \<Rightarrow> string \<Rightarrow> OperatorToken res) \<Rightarrow> (PendingRequest \<Rightarrow> bool) \<Rightarrow> vm4_event list \<Rightarrow> vm4 \<Rightarrow> bool"
  for auth :: "u64 \<Rightarrow> string \<Rightarrow> string \<Rightarrow> OperatorToken res" and admitted :: "PendingRequest \<Rightarrow> bool" where
  Init: "vm4_run auth admitted [] vm4_init"
| Step: "vm4_run auth admitted evs s \<Longrightarrow> vm4_step auth admitted s ev s' \<Longrightarrow>
     vm4_run auth admitted (evs @ [ev]) s'"

section \<open>Lemmas\<close>

lemma cli_respond_reply_True:
  assumes "cli_respond a request s = (r, s')" and "v4_reply s' h = Some True" and "v4_reply s h \<noteq> Some True"
  shows "\<exists>p1 p2 ttl req token. request = Authenticate p1 p2 ttl \<and> v4_pending s = Some req \<and>
     pq_response_tx req = Some h \<and> a p1 p2 = Inr token"
  using assms
  by (auto simp: cli_respond_def take_and_send_def Let_def
      split: CliRequest.splits option.splits sum.splits if_splits)

lemma cli_respond_phase: "cli_respond a request s = (r, s') \<Longrightarrow> v4_phase s' = v4_phase s"
  by (auto simp: cli_respond_def take_and_send_def Let_def
      split: CliRequest.splits option.splits sum.splits if_splits)

lemma cli_respond_pending:
  "cli_respond a request s = (r, s') \<Longrightarrow> v4_pending s' = Some req' \<Longrightarrow>
     \<exists>req tx. v4_pending s = Some req \<and> req' = req\<lparr>pq_response_tx := tx\<rparr>"
  by (auto simp: cli_respond_def take_and_send_def Let_def
      split: CliRequest.splits option.splits sum.splits if_splits)
    (metis PendingRequest.surjective PendingRequest.update_convs(6))+

text \<open>
  The handler changes the cell exactly as the command does once it has been read, even when the answer
  cannot be sent, and not at all before.
\<close>

lemma handle_vm4_cli_cell:
  "snd (snd (handle_vm4_cli requests responses auth (c, s))) =
     (case read_frame nat_of_le (\<lambda>_. ''CLI request too large'') c of
        (Inr data, _) \<Rightarrow> (case de requests data of Inr request \<Rightarrow> snd (cli_respond auth request s) | Inl _ \<Rightarrow> s)
      | (Inl _, _) \<Rightarrow> s)"
  by (auto simp: handle_vm4_cli_def io_bind_def split: prod.splits sum.splits)

text \<open>vm0 goes on only after an attestation that passed and an approval.\<close>

lemma vm0_mutual_attest_sound:
  assumes "vm0_mutual_attest_vm4 D db addr node_id ttl s = (Inr True, s')"
  shows "\<exists>stream key s1 s2 s3 s4 vm4_att nid reason t.
     recv_encrypted D stream key s1 = (Inr (DaAttestation vm4_att), s2) \<and> peer_verdict (de_verify D) db vm4_att \<and>
     recv_encrypted D stream key s3 = (Inr (DaPreApproval True nid reason t), s4)"
proof -
  let ?decide = "\<lambda>ok m. case m of DaPreApproval approved _ _ _ \<Rightarrow> io_return (approved \<and> ok)
      | _ \<Rightarrow> io_res (Inl (Err ''Expected PreApproval from vm4''))"
  obtain stream key s1 msg s2 where r: "recv_encrypted D stream key s1 = (Inr msg, s2)"
    and rest: "(case msg of DaAttestation vm4_att \<Rightarrow>
        (let vm4_ok = peer_verdict (de_verify D) db vm4_att in
         io_bind (send_encrypted D stream key (DaPreApproval vm4_ok node_id
            (if vm4_ok then ''vm4 integrity verified'' else ''vm4 attestation failed'') ttl)) (\<lambda>_.
         io_bind (recv_encrypted D stream key) (?decide vm4_ok)))
      | _ \<Rightarrow> io_res (Inl (Err ''Expected attestation from vm4''))) s2 = (Inr True, s')"
    using assms unfolding vm0_mutual_attest_vm4_def io_bind_eq_Inr by blast
  from rest obtain vm4_att where a: "msg = DaAttestation vm4_att" by (cases msg) auto
  from rest obtain s3 m s4 where r2: "recv_encrypted D stream key s3 = (Inr m, s4)"
    and d: "?decide (peer_verdict (de_verify D) db vm4_att) m s4 = (Inr True, s')"
    unfolding a DualAuthMessage.case Let_def io_bind_eq_Inr by blast
  from d obtain nid reason t where "m = DaPreApproval True nid reason t" "peer_verdict (de_verify D) db vm4_att"
    by (cases m) auto
  with r r2 a show ?thesis by blast
qed

text \<open>\<open>approved_by evs h\<close>: some operator authenticated while the request of handler \<open>h\<close> was in the cell.\<close>

definition approved_by ::
  "(u64 \<Rightarrow> string \<Rightarrow> string \<Rightarrow> OperatorToken res) \<Rightarrow> (PendingRequest \<Rightarrow> bool) \<Rightarrow> vm4_event list \<Rightarrow> nat \<Rightarrow> bool" where
  "approved_by auth admitted evs h \<longleftrightarrow>
     (\<exists>before now p1 p2 ttl after s req token.
        evs = before @ EvCli now (Authenticate p1 p2 ttl) # after \<and> vm4_run auth admitted before s \<and>
        v4_pending s = Some req \<and> pq_response_tx req = Some h \<and> (\<exists>tx. admitted (req\<lparr>pq_response_tx := tx\<rparr>)) \<and>
        auth now p1 p2 = Inr token)"

lemma approved_by_snoc: "approved_by auth admitted evs h \<Longrightarrow> approved_by auth admitted (evs @ [ev]) h"
  unfolding approved_by_def by (metis append.assoc append_Cons)

lemma pending_admitted:
  assumes "vm4_run auth admitted evs s" and "v4_pending s = Some req"
  shows "\<exists>tx. admitted (req\<lparr>pq_response_tx := tx\<rparr>)"
  using assms
proof (induction arbitrary: req rule: vm4_run.induct)
  case Init
  then show ?case by (simp add: vm4_init_def)
next
  case (Step evs s ev s')
  from Step.hyps(2) show ?case
  proof (cases rule: vm4_step.cases)
    case (Submit h r)
    then have "req\<lparr>pq_response_tx := pq_response_tx r\<rparr> = r"
      using Step.prems by (cases r) (auto simp: submit_def)
    then show ?thesis using Submit by metis
  next
    case (Cli now request r)
    from cli_respond_pending [OF this(2) Step.prems] Step.IH show ?thesis by fastforce
  qed (use Step.prems Step.IH in auto)
qed

lemma approval_invariant:
  assumes "vm4_run auth admitted evs s"
  shows "v4_reply s h = Some True \<or> v4_phase s h = Some (Decided True) \<Longrightarrow> approved_by auth admitted evs h"
  using assms
proof (induction rule: vm4_run.induct)
  case Init
  then show ?case by (simp add: vm4_init_def)
next
  case (Step evs s ev s')
  show ?case
  proof (cases "v4_reply s h = Some True \<or> v4_phase s h = Some (Decided True)")
    case True
    then show ?thesis using Step.IH by (blast intro: approved_by_snoc)
  next
    case False
    from Step.hyps(2) False Step.prems
    obtain now request r where ev: "ev = EvCli now request" and
      c: "cli_respond (auth now) request s = (r, s')" and t: "v4_reply s' h = Some True"
      by (cases rule: vm4_step.cases) (auto simp: submit_def split: if_splits dest: cli_respond_phase)
    from cli_respond_reply_True [OF c t] False obtain p1 p2 ttl req token where
      "request = Authenticate p1 p2 ttl" "v4_pending s = Some req" "pq_response_tx req = Some h"
      "auth now p1 p2 = Inr token" by blast
    moreover from this pending_admitted [OF Step.hyps(1)] obtain tx where "admitted (req\<lparr>pq_response_tx := tx\<rparr>)"
      by blast
    moreover have "evs @ [ev] = evs @ EvCli now request # []" by (simp add: ev)
    ultimately show ?thesis using Step.hyps(1) unfolding approved_by_def by metis
  qed
qed

lemma peer_verdict_iff:
  "peer_verdict V db att \<longleftrightarrow>
     get_baseline db (att_vm_identity att) \<noteq> None \<and> node_passes (verify_attestation V db att None None None)"
  by (simp add: peer_verdict_def split: option.splits)

lemma vm4_judge_Inr:
  assumes "vm4_judge V db ip att decision = Inr req"
  shows "peer_verdict V db att \<and> pq_requester_id req = att_vm_identity att \<and> pq_requester_ip req = ip \<and>
     (\<exists>nid reason. decision = DaPreApproval True nid reason (pq_session_ttl_secs req))"
  using assms
  by (auto simp: vm4_judge_def peer_verdict_def Let_def split: option.splits DualAuthMessage.splits if_splits)

lemma send_encrypted_wire:
  assumes "aead_correct (ae_x (de_agent D))" and "codec_ok (de_messages D) msg"
    and "send_encrypted D h key msg s = (Inr (), s')" and "wleft (nd_chan s h) = None"
  shows "\<exists>c. tx (nd_chan s' h) = tx (nd_chan s h) @ put_le32 (length c) @ c \<and>
     decrypt (ae_x (de_agent D)) key c = ser (de_messages D) msg"
proof -
  obtain pt c s1 where pt: "ser (de_messages D) msg = Inr pt"
    and e: "encrypt_io (de_agent D) key pt s = (Inr c, s1)"
    and w: "on_chan h (write_frame put_le32 c) s1 = (Inr (), s')"
    using assms(3) by (auto simp: send_encrypted_def io_bind_eq_Inr)
  have "nd_chan s1 = nd_chan s"
    using e by (auto simp: encrypt_io_def draw_def io_bind_def)
  with w assms(4) have "tx (nd_chan s' h) = tx (nd_chan s h) @ put_le32 (length c) @ c"
    by (auto simp: on_chan_def write_frame_open)
  with encrypt_io_decrypts [OF assms(1) e] pt show ?thesis by auto
qed

lemma recv_encrypted_wire:
  assumes "length c \<le> max_frame" and "decrypt (ae_x (de_agent D)) key c = Inr pt"
    and "de (de_messages D) pt = Inr msg" and "rx (nd_chan t g) = put_le32 (length c) @ c @ rest"
  shows "recv_encrypted D g key t = (Inr msg, t\<lparr>nd_chan := (nd_chan t)(g := (nd_chan t g)\<lparr>rx := rest\<rparr>)\<rparr>)"
proof -
  have "nd_chan t g = (nd_chan t g)\<lparr>rx := put_le32 (length c) @ c @ rest\<rparr>" using assms(4) by simp
  then have "read_frame nat_of_le e (nd_chan t g) = (Inr c, (nd_chan t g)\<lparr>rx := rest\<rparr>)" for e
    using le.read_written_frame [OF assms(1), where c = "nd_chan t g" and rest = rest and e = e] by simp
  then show ?thesis
    using assms(2,3) by (simp add: recv_encrypted_def io_bind_def on_chan_def)
qed

definition admitted_request :: "verify_env \<Rightarrow> BaselineDatabase \<Rightarrow> PendingRequest \<Rightarrow> bool" where
  "admitted_request V db req \<longleftrightarrow> (\<exists>ip att decision. vm4_judge V db ip att decision = Inr req)"

text \<open>The runs of vm4 itself: operators against the credential store, requests through \<open>vm4_judge\<close>.\<close>

abbreviation vm4_runs where
  "vm4_runs X load_creds verify_pass path V db \<equiv>
     vm4_run (\<lambda>now. validate_operator X load_creds verify_pass now path) (admitted_request V db)"

section \<open>Concrete inputs\<close>

definition demo_db :: BaselineDatabase where
  "demo_db = add_baseline 0 (demo_baseline ''vm0'') (database_new 0)"

definition demo_pending :: PendingRequest where
  "demo_pending = \<lparr>pq_requester_id = ''vm0'', pq_requester_ip = ''10.0.0.1'', pq_session_ttl_secs = 600,
     pq_attestation_summary = ''PASSED '' @ em_dash @ '' ''
        @ nvr_details (verify_attestation demo_verify demo_db (demo_attestation ''vm0'' 200) None None None),
     pq_vm0_verified = True, pq_response_tx = None\<rparr>"

definition demo_auth :: "u64 \<Rightarrow> string \<Rightarrow> string \<Rightarrow> OperatorToken res" where
  "demo_auth now = validate_operator demo_ext (\<lambda>_. Inr \<lparr>sc_passphrase1_hash = Some ''one'', sc_passphrase2_hash = Some ''two''\<rparr>)
     (\<lambda>p h. Inr (p = h)) now ''creds''"

lemma demo_peer_verdict: "peer_verdict demo_verify demo_db (demo_attestation ''vm0'' 200)"
proof -
  have "get_baseline demo_db (att_vm_identity (demo_attestation ''vm0'' 200)) = Some (demo_baseline ''vm0'')"
    by (simp add: demo_db_def bdb.get_add demo_baseline_def demo_attestation_def)
  then show ?thesis
    by (simp add: peer_verdict_def node_passes_def verify_attestation_known fst_check_pcrs fst_check_ak
        fst_check_signature check_ima_count_def check_ima_aggregate_def)
      (simp add: demo_attestation_def demo_quote_def demo_baseline_def demo_verify_def demo_tss_def
        verify_quote_signature_def)
qed

lemma demo_judge:
  "vm4_judge demo_verify demo_db ''10.0.0.1'' (demo_attestation ''vm0'' 200)
     (DaPreApproval True ''vm0'' ''ok'' 600) = Inr demo_pending"
  using demo_peer_verdict
  by (auto simp: vm4_judge_def peer_verdict_def demo_pending_def demo_attestation_def Let_def split: option.splits)

lemma demo_admitted: "admitted_request demo_verify demo_db demo_pending"
  using demo_judge unfolding admitted_request_def by blast

lemma vm4_run_snoc: "vm4_run auth admitted evs s \<Longrightarrow> vm4_step auth admitted s ev s' \<Longrightarrow> evs' = evs @ [ev] \<Longrightarrow>
    vm4_run auth admitted evs' s'"
  by (simp add: vm4_run.Step)

lemma run_submit: "admitted req \<Longrightarrow> vm4_run auth admitted [EvSubmit h req] (submit h req vm4_init)"
  by (rule vm4_run_snoc [OF vm4_run.Init Submit]) (simp_all add: vm4_init_def)

lemma demo_approval:
  "\<exists>s. vm4_run demo_auth (admitted_request demo_verify demo_db)
     [EvSubmit 0 demo_pending, EvCli 5 (Authenticate ''one'' ''two'' 60), EvWake 0] s \<and>
     v4_phase s 0 = Some (Decided True)"
proof -
  let ?s1 = "submit 0 demo_pending vm4_init"
  let ?s2 = "?s1\<lparr>v4_pending := None, v4_reply := [0 \<mapsto> True]\<rparr>"
  have "snd (cli_respond (demo_auth 5) (Authenticate ''one'' ''two'' 60) ?s1) = ?s2"
    by (simp add: cli_respond_def submit_def demo_auth_def validate_operator_def take_and_send_def vm4_init_def
        Let_def)
  then obtain r where "cli_respond (demo_auth 5) (Authenticate ''one'' ''two'' 60) ?s1 = (r, ?s2)"
    by (metis prod.collapse)
  from vm4_run_snoc [OF run_submit [where admitted = "admitted_request demo_verify demo_db", OF demo_admitted]
      Cli [where auth = demo_auth, OF this]]
  have 2: "vm4_run demo_auth (admitted_request demo_verify demo_db)
      [EvSubmit 0 demo_pending, EvCli 5 (Authenticate ''one'' ''two'' 60)] ?s2" by simp
  have "v4_phase ?s2 0 = Some Awaiting" "v4_reply ?s2 0 = Some True" by (simp_all add: submit_def)
  from vm4_run_snoc [OF 2 Wake [OF this]] show ?thesis by fastforce
qed

section \<open>Properties\<close>

text \<open>
  C4.  vm4 approves a request only through its operator: whatever the interleaving of connections,
  operator commands, timeouts and clean-ups, if the handler of a connection decides to approve, then
  earlier both passphrases were verified while exactly that connection's request was in the cell, and
  the request came from a node whose attestation passed and which had itself approved vm4, with the
  session length the operator was shown.
\<close>

theorem operator_approval_needed:
  assumes "vm4_runs X load_creds verify_pass path V db evs s" and "v4_phase s h = Some (Decided True)"
  shows "\<exists>before now p1 p2 ttl after s0 req att reason nid.
     evs = before @ EvCli now (Authenticate p1 p2 ttl) # after \<and>
     vm4_runs X load_creds verify_pass path V db before s0 \<and>
     v4_pending s0 = Some req \<and> pq_response_tx req = Some h \<and>
     is_inr (validate_operator X load_creds verify_pass now path p1 p2) \<and>
     pq_requester_id req = att_vm_identity att \<and> peer_verdict V db att \<and>
     vm4_judge V db (pq_requester_ip req) att (DaPreApproval True nid reason (pq_session_ttl_secs req))
       = Inr (req\<lparr>pq_response_tx := None\<rparr>)"
proof -
  have "approved_by (\<lambda>now. validate_operator X load_creds verify_pass now path) (admitted_request V db) evs h"
    using approval_invariant [OF assms(1)] assms(2) by blast
  then obtain before now p1 p2 ttl after s0 req token tx where
    1: "evs = before @ EvCli now (Authenticate p1 p2 ttl) # after"
      "vm4_runs X load_creds verify_pass path V db before s0"
      "v4_pending s0 = Some req" "pq_response_tx req = Some h"
      "validate_operator X load_creds verify_pass now path p1 p2 = Inr token"
    and "admitted_request V db (req\<lparr>pq_response_tx := tx\<rparr>)"
    unfolding approved_by_def by blast
  then obtain ip att decision where j: "vm4_judge V db ip att decision = Inr (req\<lparr>pq_response_tx := tx\<rparr>)"
    by (auto simp: admitted_request_def)
  moreover have "tx = None"
    using j by (cases req) (auto simp: vm4_judge_def Let_def split: prod.splits if_splits)
  ultimately show ?thesis using 1 vm4_judge_Inr [OF j] by (fastforce simp: is_inr_def)
qed

theorem operator_approval_needed_witness:
  "\<exists>before now p1 p2 ttl after.
     [EvSubmit 0 demo_pending, EvCli 5 (Authenticate ''one'' ''two'' 60), EvWake 0]
       = before @ EvCli now (Authenticate p1 p2 ttl) # after \<and> is_inr (demo_auth now p1 p2)"
proof -
  obtain s where r: "vm4_run demo_auth (admitted_request demo_verify demo_db)
      [EvSubmit 0 demo_pending, EvCli 5 (Authenticate ''one'' ''two'' 60), EvWake 0] s"
    and p: "v4_phase s 0 = Some (Decided True)"
    using demo_approval by blast
  from operator_approval_needed [OF r [unfolded demo_auth_def] p] show ?thesis
    unfolding demo_auth_def by blast
qed

text \<open>
  The quorum: vm4 approves exactly when vm3 has a baseline, vm3's own attestation passes against
  it and vm3 says the chains were authorized.  The node results of the two chains do not matter.
\<close>

theorem quorum_decision_iff:
  "fst (quorum_decision V db result att) \<longleftrightarrow>
     get_baseline db (att_vm_identity att) \<noteq> None \<and>
     node_passes (verify_attestation V db att None None None) \<and> far_authorized result"
  by (simp add: quorum_decision_def peer_verdict_iff Let_def)

text \<open>
  A request can be lost without the operator having seen it: a handler that times out clears the
  cell after taking the lock, whatever is in it by then, so a newer request is denied with no command
  of the operator and no timeout of its own.
\<close>

theorem timeout_drops_newer_request:
  assumes "admitted_request V db old" and "admitted_request V db new"
  shows "\<exists>s. vm4_runs X load_creds verify_pass path V db
       [EvSubmit 0 old, EvExpire 0, EvSubmit 1 new, EvCleanup 0, EvClosed 1] s \<and>
     v4_phase s 1 = Some (Decided False)"
proof -
  let ?A = "\<lambda>now. validate_operator X load_creds verify_pass now path" and ?R = "admitted_request V db"
  let ?s2 = "(submit 0 old vm4_init)\<lparr>v4_phase := [0 \<mapsto> Expired]\<rparr>"
  let ?s4 = "(submit 1 new ?s2)\<lparr>v4_pending := None, v4_phase := [0 \<mapsto> Decided False, 1 \<mapsto> Awaiting]\<rparr>"
  have e: "vm4_step ?A ?R (submit 0 old vm4_init) (EvExpire 0) ?s2"
    using Expire [of "submit 0 old vm4_init" 0 ?A ?R] by (simp add: submit_def vm4_init_def sender_alive_def)
  have n: "vm4_step ?A ?R ?s2 (EvSubmit 1 new) (submit 1 new ?s2)"
    by (rule Submit [where admitted = ?R, OF _ assms(2)]) simp
  have k: "vm4_step ?A ?R (submit 1 new ?s2) (EvCleanup 0) ?s4"
    using Cleanup [of "submit 1 new ?s2" 0 ?A ?R] by (simp add: submit_def fun_upd_twist)
  have c: "vm4_step ?A ?R ?s4 (EvClosed 1) (?s4\<lparr>v4_phase := (v4_phase ?s4)(1 \<mapsto> Decided False)\<rparr>)"
    by (rule Closed) (simp_all add: submit_def vm4_init_def sender_alive_def)
  have "vm4_runs X load_creds verify_pass path V db
      ((([EvSubmit 0 old] @ [EvExpire 0]) @ [EvSubmit 1 new]) @ [EvCleanup 0]) ?s4"
    by (rule vm4_run.Step [OF vm4_run.Step [OF vm4_run.Step [OF run_submit [where admitted = ?R, OF assms(1)] e] n] k])
  from vm4_run.Step [OF this c] show ?thesis by fastforce
qed

theorem timeout_drops_newer_request_witness:
  "\<exists>s. vm4_runs demo_ext (\<lambda>_. Inl (Err ''none'')) (\<lambda>_ _. Inr False) [] demo_verify demo_db
       [EvSubmit 0 demo_pending, EvExpire 0, EvSubmit 1 demo_pending, EvCleanup 0, EvClosed 1] s \<and>
     v4_phase s 1 = Some (Decided False)"
  by (rule timeout_drops_newer_request [OF demo_admitted demo_admitted])

text \<open>
  The encrypted wire format of the second orchestrator is faithful: a message that was sent over a
  connection is what the other end, holding the same key, reads from the bytes that left.
\<close>

theorem sealed_message_roundtrip:
  assumes "aead_correct (ae_x (de_agent D))" and "codec_ok (de_messages D) msg"
    and "send_encrypted D h key msg s = (Inr (), s')" and "wleft (nd_chan s h) = None"
    and "tx (nd_chan s' h) = tx (nd_chan s h) @ wire" and "length wire \<le> max_frame"
    and "rx (nd_chan t g) = wire @ rest"
  shows "recv_encrypted D g key t = (Inr msg, t\<lparr>nd_chan := (nd_chan t)(g := (nd_chan t g)\<lparr>rx := rest\<rparr>)\<rparr>)"
proof -
  obtain c where c: "tx (nd_chan s' h) = tx (nd_chan s h) @ put_le32 (length c) @ c"
    and d: "decrypt (ae_x (de_agent D)) key c = ser (de_messages D) msg"
    using send_encrypted_wire [OF assms(1-4)] by blast
  obtain pt where pt: "ser (de_messages D) msg = Inr pt" "de (de_messages D) pt = Inr msg"
    using codec_ok_ser [OF assms(2)] by blast
  from c assms(5) have "wire = put_le32 (length c) @ c" by simp
  then show ?thesis
    using assms(6,7) recv_encrypted_wire [OF _ _ pt(2), where c = c and key = key and t = t and g = g and rest = rest]
      d pt(1) by simp
qed

definition demo_dual :: dual_env where
  "demo_dual = \<lparr>de_agent = \<lparr>ae_x = demo_ext, ae_messages = \<lparr>ser = (\<lambda>_. Inl (Err [])), de = (\<lambda>_. Inl (Err []))\<rparr>,
        ae_payloads = \<lparr>ser = (\<lambda>_. Inl (Err [])), de = (\<lambda>_. Inl (Err []))\<rparr>,
        ae_debug = (\<lambda>_. []), ae_debug_command = (\<lambda>_. [])\<rparr>,
     de_messages = \<lparr>ser = (\<lambda>m. Inr (if m = DaQuorumDecision True [] [] then [1] else [0])),
        de = (\<lambda>bs. if bs = [1] then Inr (DaQuorumDecision True [] []) else Inl (Err []))\<rparr>,
     de_inits = \<lparr>ser = (\<lambda>_. Inl (Err [])), de = (\<lambda>_. Inl (Err []))\<rparr>,
     de_responses = \<lparr>ser = (\<lambda>_. Inl (Err [])), de = (\<lambda>_. Inl (Err []))\<rparr>, de_verify = demo_verify\<rparr>"

definition demo_wire :: "bytes \<Rightarrow> node" where
  "demo_wire incoming = \<lparr>nd_chan = (\<lambda>_. \<lparr>rx = incoming, tx = [], wleft = None\<rparr>), nd_next = 1,
     nd_peer = (\<lambda>_ _. \<lparr>rx = [], tx = [], wleft = None\<rparr>), nd_entropy = (\<lambda>_. 1), nd_entropy_pos = 0,
     nd_clock = (\<lambda>_. 1000), nd_nanos = (\<lambda>_. 1000000), nd_clock_pos = 0, nd_tpm = (\<lambda>_. demo_env 200), nd_tpm_pos = 0\<rparr>"

theorem sealed_message_roundtrip_witness:
  "\<exists>wire. fst (recv_encrypted demo_dual 0 (replicate 32 1) (demo_wire (wire @ [7])))
     = Inr (DaQuorumDecision True [] [])"
proof -
  have x: "ae_x (de_agent demo_dual) = demo_ext" by (simp add: demo_dual_def)
  have k: "codec_ok (de_messages demo_dual) (DaQuorumDecision True [] [])"
    by (simp add: codec_ok_def demo_dual_def)
  let ?r = "send_encrypted demo_dual 0 (replicate 32 1) (DaQuorumDecision True [] []) (demo_wire [])"
  have ok: "?r = (Inr (), snd ?r)" and len: "length (tx (nd_chan (snd ?r) 0)) = 18"
    by (simp_all add: send_encrypted_def encrypt_io_def draw_def io_bind_def encrypt_def on_chan_def
        write_frame_open demo_wire_def demo_dual_def demo_ext_def put_le32_def)
  let ?w = "tx (nd_chan (snd ?r) 0)"
  show ?thesis
    using sealed_message_roundtrip [OF _ k ok, of ?w "demo_wire (?w @ [7])" 0 "[7]"] len
    by (auto simp: x demo_aead demo_wire_def max_frame_def intro!: exI [of _ ?w])
qed

end
