(* ===== verification/Circuit.thy ===== *)
theory Circuit
  imports Node Config
begin

text \<open>
  Telescoping circuits (\<open>mfa-agent/src/main.rs\<close>, the shared helpers, circuit building and the proxy):
  onion wrapping, extending a circuit hop by hop, collecting attestations through it, and the relay
  loop of a proxy.  Lemmas: a layered cell unwraps to its payload at the hop it was made for and one
  layer at a time on the way, and the key a client and a hop agree on is the same.
\<close>

section \<open>Onion layers\<close>

definition data_cell :: "bytes \<Rightarrow> RelayCellPayload" where
  "data_cell inner = \<lparr>rp_command = Data [], rp_next_hop = None, rp_inner_cell = Some inner\<rparr>"

definition plain_cell :: "RelayCommand \<Rightarrow> RelayCellPayload" where
  "plain_cell cmd = \<lparr>rp_command = cmd, rp_next_hop = None, rp_inner_cell = None\<rparr>"

definition seal :: "agent_env \<Rightarrow> bytes \<Rightarrow> RelayCellPayload \<Rightarrow> (node, bytes) io" where
  "seal A key payload = io_bind (io_res (ser (ae_payloads A) payload)) (\<lambda>bytes. encrypt_io A key bytes)"

definition unseal :: "agent_env \<Rightarrow> bytes \<Rightarrow> bytes \<Rightarrow> RelayCellPayload res" where
  "unseal A key cell = res_bind (decrypt (ae_x A) key cell) (\<lambda>decrypted. de (ae_payloads A) decrypted)"

text \<open>\<open>for i in (0..target_depth).rev()\<close>: the next layer is for hop \<open>i\<close>.\<close>

fun wrap_layers :: "agent_env \<Rightarrow> bytes list \<Rightarrow> nat \<Rightarrow> bytes \<Rightarrow> (node, bytes) io" where
  "wrap_layers A session_keys 0 encrypted = io_return encrypted"
| "wrap_layers A session_keys (Suc i) encrypted =
     io_bind (io_res (index_at session_keys i)) (\<lambda>key.
     io_bind (seal A key (data_cell encrypted)) (\<lambda>encrypted'.
       wrap_layers A session_keys i encrypted'))"

definition wrap_payload_for_hop ::
  "agent_env \<Rightarrow> bytes list \<Rightarrow> nat \<Rightarrow> RelayCellPayload \<Rightarrow> (node, bytes) io" where
  "wrap_payload_for_hop A session_keys target_depth payload =
     io_bind (io_res (index_at session_keys target_depth)) (\<lambda>key.
     io_bind (seal A key payload) (\<lambda>encrypted. wrap_layers A session_keys target_depth encrypted))"

text \<open>\<open>for i in 0..target_depth\<close>: \<open>n\<close> layers are left, the next is that of hop \<open>i\<close>.\<close>

fun unwrap_layers :: "agent_env \<Rightarrow> bytes list \<Rightarrow> nat \<Rightarrow> nat \<Rightarrow> bytes \<Rightarrow> bytes res" where
  "unwrap_layers A session_keys i 0 data = Inr data"
| "unwrap_layers A session_keys i (Suc n) data =
     res_bind (index_at session_keys i) (\<lambda>key.
     res_bind (unseal A key data) (\<lambda>payload.
     res_bind (ok_or_else (''Expected inner_cell at layer '' @ show_nat i) (rp_inner_cell payload)) (\<lambda>inner.
       unwrap_layers A session_keys (Suc i) n inner)))"

definition unwrap_response_from_hop ::
  "agent_env \<Rightarrow> bytes list \<Rightarrow> nat \<Rightarrow> bytes \<Rightarrow> RelayCellPayload res" where
  "unwrap_response_from_hop A session_keys target_depth encrypted =
     res_bind (unwrap_layers A session_keys 0 target_depth encrypted) (\<lambda>data.
     res_bind (index_at session_keys target_depth) (\<lambda>key. unseal A key data))"

section \<open>Building a circuit\<close>

definition extend_of_init :: "string \<Rightarrow> KeyExchangeInit \<Rightarrow> ExtendCircuit" where
  "extend_of_init target_id init =
     \<lparr>ec_target_id = target_id, ec_kyber_pk = kxi_kyber_pk init, ec_x25519_pk = kxi_x25519_pk init,
      ec_nonce = kxi_nonce init\<rparr>"

definition response_of_extended :: "ExtendedCircuit \<Rightarrow> KeyExchangeResponse" where
  "response_of_extended ed =
     \<lparr>kxr_responder_id = ed_responder_id ed, kxr_kyber_ct = ed_kyber_ct ed, kxr_x25519_pk = ed_x25519_pk ed\<rparr>"

definition send_cell :: "agent_env \<Rightarrow> nat \<Rightarrow> bytes \<Rightarrow> (node, unit) io" where
  "send_cell A h encrypted = send A h (PmRelayCell \<lparr>rc_encrypted_payload = encrypted\<rparr>)"

definition do_extend_direct :: "agent_env \<Rightarrow> nat \<Rightarrow> string \<Rightarrow> (node, bytes) io" where
  "do_extend_direct A conn target_id =
     io_bind (key_exchange_init_io A ''vm1'') (\<lambda>(init, kyber_sk, x25519_secret, nonce).
     io_bind (send A conn (PmExtendCircuit (extend_of_init target_id init))) (\<lambda>_.
     io_bind (receive A conn) (\<lambda>response.
       (case response of
          PmExtendedCircuit extended \<Rightarrow>
            io_bind (io_res (complete_key_exchange (ae_x A) init (response_of_extended extended)
                               kyber_sk x25519_secret nonce)) (\<lambda>keys. io_return (session_key keys))
        | _ \<Rightarrow> io_res (Inl (Err ''Expected ExtendedCircuit''))))))"

definition do_extend_relay ::
  "agent_env \<Rightarrow> nat \<Rightarrow> bytes list \<Rightarrow> string \<Rightarrow> string \<Rightarrow> nat \<Rightarrow> (node, bytes) io" where
  "do_extend_relay A conn session_keys target_id target_addr last_hop_depth =
     io_bind (key_exchange_init_io A ''vm1'') (\<lambda>(init, kyber_sk, x25519_secret, nonce).
     io_bind (wrap_payload_for_hop A session_keys last_hop_depth
        \<lparr>rp_command = Extend (extend_of_init target_id init), rp_next_hop = Some target_addr,
         rp_inner_cell = None\<rparr>) (\<lambda>encrypted.
     io_bind (send_cell A conn encrypted) (\<lambda>_.
     io_bind (receive A conn) (\<lambda>response.
       (case response of
          PmRelayCell relay \<Rightarrow>
            io_bind (io_res (unwrap_response_from_hop A session_keys last_hop_depth
                               (rc_encrypted_payload relay))) (\<lambda>resp_payload.
              (case rp_command resp_payload of
                 Extended extended \<Rightarrow>
                   io_bind (io_res (complete_key_exchange (ae_x A) init (response_of_extended extended)
                                      kyber_sk x25519_secret nonce)) (\<lambda>keys. io_return (session_key keys))
               | _ \<Rightarrow> io_res (Inl (Err (''Expected Extended for '' @ target_id)))))
        | _ \<Rightarrow> io_res (Inl (Err ''Expected RelayCell'')))))))"

text \<open>\<open>for (i, hop) in hops.iter().enumerate()\<close>, with the keys and identities gathered so far.\<close>

fun build_circuit_from ::
  "agent_env \<Rightarrow> nat \<Rightarrow> nat \<Rightarrow> CircuitHop list \<Rightarrow> bytes list \<Rightarrow> string list \<Rightarrow> (node, bytes list \<times> string list) io" where
  "build_circuit_from A conn i [] session_keys node_ids = io_return (session_keys, node_ids)"
| "build_circuit_from A conn i (hop # hops) session_keys node_ids =
     io_bind (if i = 0 then do_extend_direct A conn (hop_node_id hop)
              else do_extend_relay A conn session_keys (hop_node_id hop) (hop_address hop) (i - 1)) (\<lambda>key.
       build_circuit_from A conn (Suc i) hops (session_keys @ [key]) (node_ids @ [hop_node_id hop]))"

definition build_circuit :: "agent_env \<Rightarrow> nat \<Rightarrow> CircuitHop list \<Rightarrow> (node, bytes list \<times> string list) io" where
  "build_circuit A conn hops = build_circuit_from A conn 0 hops [] []"

section \<open>Attestations through a circuit\<close>

definition request_attestation :: "agent_env \<Rightarrow> nat \<Rightarrow> bytes list \<Rightarrow> nat \<Rightarrow> (node, Attestation) io" where
  "request_attestation A conn session_keys target_depth =
     io_bind (wrap_payload_for_hop A session_keys target_depth (plain_cell AttestationRequest)) (\<lambda>encrypted.
     io_bind (send_cell A conn encrypted) (\<lambda>_.
     io_bind (receive A conn) (\<lambda>response.
       (case response of
          PmRelayCell relay \<Rightarrow>
            io_bind (io_res (unwrap_response_from_hop A session_keys target_depth
                               (rc_encrypted_payload relay))) (\<lambda>resp_payload.
              (case rp_command resp_payload of
                 AttestationResponse att \<Rightarrow> io_return att
               | _ \<Rightarrow> io_res (Inl (Err (''Expected AttestationResponse at depth '' @ show_nat target_depth)))))
        | _ \<Rightarrow> io_res (Inl (Err ''Expected RelayCell''))))))"

fun collect_from ::
  "agent_env \<Rightarrow> nat \<Rightarrow> bytes list \<Rightarrow> string list \<Rightarrow> nat list \<Rightarrow> (node, (string \<times> Attestation) list) io" where
  "collect_from A conn session_keys node_ids [] = io_return []"
| "collect_from A conn session_keys node_ids (depth # depths) =
     io_bind (io_res (index_at node_ids depth)) (\<lambda>node_id.
     io_bind (request_attestation A conn session_keys depth) (\<lambda>att.
     io_bind (collect_from A conn session_keys node_ids depths) (\<lambda>rest.
       io_return ((node_id, att) # rest))))"

text \<open>\<open>session_keys.len() - 1\<close> panics on an empty circuit in a debug build and wraps in a release build,
  where the first index then panics; either way there is no result.\<close>

definition collect_proxy_attestations ::
  "agent_env \<Rightarrow> nat \<Rightarrow> bytes list \<Rightarrow> string list \<Rightarrow> (node, (string \<times> Attestation) list) io" where
  "collect_proxy_attestations A conn session_keys node_ids =
     (if session_keys = [] then io_res (Inl (Panic ''attempt to subtract with overflow''))
      else collect_from A conn session_keys node_ids [0..<length session_keys - 1])"

section \<open>The proxy\<close>

text \<open>
  The endpoint of an \<open>ExtendCircuit\<close>: proxies, vm2 and vm3 answer it with the same code, under the
  sender identity \<open>vm1\<close>.
\<close>

definition answer_extend :: "agent_env \<Rightarrow> nat \<Rightarrow> string \<Rightarrow> ProtocolMessage \<Rightarrow> (node, bytes) io" where
  "answer_extend A conn responder_id message =
     (case message of
        PmExtendCircuit ext \<Rightarrow>
          io_bind (key_exchange_response_io A responder_id
             \<lparr>kxi_sender_id = ''vm1'', kxi_kyber_pk = ec_kyber_pk ext, kxi_x25519_pk = ec_x25519_pk ext,
              kxi_nonce = ec_nonce ext\<rparr>) (\<lambda>(response, keys).
          io_bind (send A conn (PmExtendedCircuit
             \<lparr>ed_responder_id = responder_id, ed_kyber_ct = kxr_kyber_ct response,
              ed_x25519_pk = kxr_x25519_pk response\<rparr>)) (\<lambda>_.
            io_return (session_key keys)))
      | other \<Rightarrow> io_res (Inl (Err (''Expected ExtendCircuit, got '' @ ae_debug A other))))"

definition reply :: "agent_env \<Rightarrow> nat \<Rightarrow> bytes \<Rightarrow> RelayCellPayload \<Rightarrow> (node, unit) io" where
  "reply A conn key payload = io_bind (seal A key payload) (\<lambda>enc. send_cell A conn enc)"

definition proxy_extend :: "agent_env \<Rightarrow> nat \<Rightarrow> bytes \<Rightarrow> string option \<Rightarrow> ExtendCircuit \<Rightarrow> (node, nat) io" where
  "proxy_extend A upstream key next_hop extend_cmd =
     io_bind (io_res (ok_or_else ''EXTEND missing next_hop'' next_hop)) (\<lambda>addr.
     io_bind (open_chan addr) (\<lambda>next.
     io_bind (send A next (PmExtendCircuit extend_cmd)) (\<lambda>_.
     io_bind (receive A next) (\<lambda>resp.
       (case resp of
          PmExtendedCircuit extended \<Rightarrow>
            io_bind (reply A upstream key (plain_cell (Extended extended))) (\<lambda>_. io_return next)
        | _ \<Rightarrow> io_res (Inl (Err ''Expected ExtendedCircuit'')))))))"

definition proxy_forward :: "agent_env \<Rightarrow> nat \<Rightarrow> bytes \<Rightarrow> nat option \<Rightarrow> bytes \<Rightarrow> (node, unit) io" where
  "proxy_forward A upstream key downstream inner_cell =
     io_bind (io_res (ok_or_else ''No downstream'' downstream)) (\<lambda>ds.
     io_bind (send_cell A ds inner_cell) (\<lambda>_.
     io_bind (receive A ds) (\<lambda>resp.
       (case resp of
          PmRelayCell r \<Rightarrow> reply A upstream key (data_cell (rc_encrypted_payload r))
        | PmExtendedCircuit extended \<Rightarrow> reply A upstream key (plain_cell (Extended extended))
        | other \<Rightarrow> io_res (Inl (Err (''Unexpected: '' @ ae_debug A other)))))))"

definition proxy_attest :: "agent_env \<Rightarrow> nat \<Rightarrow> bytes \<Rightarrow> string \<Rightarrow> (node, unit) io" where
  "proxy_attest A upstream key proxy_id =
     io_bind (take_quote (ae_x A)) (\<lambda>quote.
     io_bind now_secs (\<lambda>timestamp.
       reply A upstream key (plain_cell (AttestationResponse
         \<lparr>att_vm_identity = to_lowercase proxy_id, att_tpm_quote = quote, att_timestamp = timestamp\<rparr>))))"

text \<open>One message of the relay loop: the new downstream connection.  Other messages are only printed.\<close>

definition proxy_command ::
  "agent_env \<Rightarrow> string \<Rightarrow> nat \<Rightarrow> bytes \<Rightarrow> nat option \<Rightarrow> RelayCellPayload \<Rightarrow> (node, nat option) io" where
  "proxy_command A proxy_id upstream key downstream payload =
     (case rp_command payload of
        Extend extend_cmd \<Rightarrow>
          io_bind (proxy_extend A upstream key (rp_next_hop payload) extend_cmd) (\<lambda>next.
            io_return (Some next))
      | command \<Rightarrow>
          (case rp_inner_cell payload of
             Some inner_cell \<Rightarrow>
               io_bind (proxy_forward A upstream key downstream inner_cell) (\<lambda>_. io_return downstream)
           | None \<Rightarrow>
               (if command = AttestationRequest
                then io_bind (proxy_attest A upstream key proxy_id) (\<lambda>_. io_return downstream)
                else io_return downstream)))"

definition proxy_step ::
  "agent_env \<Rightarrow> string \<Rightarrow> nat \<Rightarrow> bytes \<Rightarrow> nat option \<Rightarrow> ProtocolMessage \<Rightarrow> (node, nat option) io" where
  "proxy_step A proxy_id upstream key downstream message =
     (case message of
        PmRelayCell relay \<Rightarrow>
          io_bind (io_res (unseal A key (rc_encrypted_payload relay))) (\<lambda>payload.
            proxy_command A proxy_id upstream key downstream payload)
      | _ \<Rightarrow> io_return downstream)"

text \<open>
  The relay loop ends quietly when the upstream closes; an error of a step ends it with that error.
  \<open>None\<close> is running out of the given number of rounds.
\<close>

fun relay_loop ::
  "nat \<Rightarrow> agent_env \<Rightarrow> string \<Rightarrow> nat \<Rightarrow> bytes \<Rightarrow> nat option \<Rightarrow> node \<Rightarrow> (unit res \<times> node) option" where
  "relay_loop 0 A proxy_id upstream key downstream s = None"
| "relay_loop (Suc n) A proxy_id upstream key downstream s =
     (case receive A upstream s of
        (Inl (Err e), s1) \<Rightarrow> Some (Inr (), s1)
      | (Inl (Panic e), s1) \<Rightarrow> Some (Inl (Panic e), s1)
      | (Inr message, s1) \<Rightarrow>
          (case proxy_step A proxy_id upstream key downstream message s1 of
             (Inl e, s2) \<Rightarrow> Some (Inl e, s2)
           | (Inr downstream', s2) \<Rightarrow> relay_loop n A proxy_id upstream key downstream' s2))"

text \<open>As many rounds as the upstream has bytes are enough: every frame takes at least four.\<close>

definition handle_proxy_circuit :: "agent_env \<Rightarrow> string \<Rightarrow> nat \<Rightarrow> node \<Rightarrow> (unit res \<times> node) option" where
  "handle_proxy_circuit A proxy_id upstream s =
     (case io_bind (receive A upstream)
             (\<lambda>message. answer_extend A upstream (to_lowercase proxy_id) message) s of
        (Inl e, s1) \<Rightarrow> Some (Inl e, s1)
      | (Inr key, s1) \<Rightarrow>
          relay_loop (Suc (length (rx (nd_chan s1 upstream)))) A proxy_id upstream key None s1)"

section \<open>Lemmas on layers\<close>

lemma seal_unseal:
  assumes "aead_correct (ae_x A)" and "codec_ok (ae_payloads A) p" and "seal A key p s = (Inr c, s')"
  shows "unseal A key c = Inr p"
proof -
  obtain bs where "ser (ae_payloads A) p = Inr bs" "de (ae_payloads A) bs = Inr p"
    using codec_ok_ser [OF assms(2)] by blast
  then show ?thesis
    using assms(1,3) by (auto simp: seal_def unseal_def io_bind_eq_Inr dest: encrypt_io_decrypts)
qed

text \<open>
  A cell is layered for depth \<open>d\<close> with inner text \<open>c\<close>: each of the hops \<open>0 .. d - 1\<close> unseals a data cell
  whose inner cell is the next layer, the last one leaving \<open>c\<close>.
\<close>

fun layered :: "agent_env \<Rightarrow> bytes list \<Rightarrow> nat \<Rightarrow> nat \<Rightarrow> bytes \<Rightarrow> bytes \<Rightarrow> bool" where
  "layered A keys i 0 cell c \<longleftrightarrow> cell = c"
| "layered A keys i (Suc n) cell c \<longleftrightarrow>
     i < length keys \<and> (\<exists>inner. unseal A (keys ! i) cell = Inr (data_cell inner) \<and> layered A keys (Suc i) n inner c)"

lemma layered_snoc:
  "layered A keys i (Suc n) cell c \<longleftrightarrow>
     (\<exists>c'. layered A keys i n cell c' \<and> i + n < length keys \<and> unseal A (keys ! (i + n)) c' = Inr (data_cell c))"
proof (induction n arbitrary: i cell)
  case 0
  then show ?case by auto
next
  case (Suc n)
  have "layered A keys i (Suc (Suc n)) cell c \<longleftrightarrow>
      i < length keys \<and> (\<exists>inner. unseal A (keys ! i) cell = Inr (data_cell inner) \<and> layered A keys (Suc i) (Suc n) inner c)"
    by simp
  then show ?case unfolding Suc by auto
qed

lemma wrap_layers_layered:
  assumes "aead_correct (ae_x A)" and "\<And>e. codec_ok (ae_payloads A) (data_cell e)"
    and "wrap_layers A keys d c s = (Inr cell, s')"
  shows "layered A keys 0 d cell c"
  using assms(3)
proof (induction d arbitrary: c s)
  case 0
  then show ?case by simp
next
  case (Suc d)
  obtain c' s1 where d: "d < length keys" and seal: "seal A (keys ! d) (data_cell c) s = (Inr c', s1)"
    and rest: "wrap_layers A keys d c' s1 = (Inr cell, s')"
    using Suc.prems by (auto simp: io_bind_eq_Inr index_at_Inr)
  have "unseal A (keys ! d) c' = Inr (data_cell c)"
    by (rule seal_unseal [OF assms(1) assms(2) seal])
  with Suc.IH [OF rest] d show ?case unfolding layered_snoc by auto
qed

lemma unwrap_layers_layered: "layered A keys i n cell c \<Longrightarrow> unwrap_layers A keys i n cell = Inr c"
  by (induction n arbitrary: i cell) (auto simp: index_at_def data_cell_def)

lemma wrap_payload_spec:
  assumes "aead_correct (ae_x A)" and "\<And>e. codec_ok (ae_payloads A) (data_cell e)"
    and "codec_ok (ae_payloads A) payload"
    and "wrap_payload_for_hop A keys d payload s = (Inr cell, s')"
  shows "\<exists>c. layered A keys 0 d cell c \<and> d < length keys \<and> unseal A (keys ! d) c = Inr payload"
proof -
  obtain c s1 where d: "d < length keys" and c: "seal A (keys ! d) payload s = (Inr c, s1)"
    and w: "wrap_layers A keys d c s1 = (Inr cell, s')"
    using assms(4) by (auto simp: wrap_payload_for_hop_def io_bind_eq_Inr index_at_Inr)
  from wrap_layers_layered [OF assms(1,2) w] seal_unseal [OF assms(1,3) c] d show ?thesis by blast
qed

section \<open>Lemmas on progress\<close>

text \<open>
  A step that leaves handle \<open>h\<close> open and never makes more bytes arrive on it.
\<close>

definition tame :: "nat \<Rightarrow> (node, 'a) io \<Rightarrow> bool" where
  "tame h m \<longleftrightarrow> (\<forall>s. h < nd_next s \<longrightarrow> h < nd_next (snd (m s)) \<and>
     length (rx (nd_chan (snd (m s)) h)) \<le> length (rx (nd_chan s h)))"

lemma tame_bind [intro]:
  assumes "tame h m" and "\<And>x. tame h (f x)" shows "tame h (io_bind m f)"
  unfolding tame_def
proof (intro allI impI)
  fix s :: node assume "h < nd_next s"
  with assms(1) have 1: "h < nd_next (snd (m s))"
      "length (rx (nd_chan (snd (m s)) h)) \<le> length (rx (nd_chan s h))"
    unfolding tame_def by auto
  show "h < nd_next (snd (io_bind m f s)) \<and>
      length (rx (nd_chan (snd (io_bind m f s)) h)) \<le> length (rx (nd_chan s h))"
  proof (cases "m s")
    case (Pair r s1)
    show ?thesis
    proof (cases r)
      case (Inl e)
      then show ?thesis using 1 Pair by (simp add: io_bind_def)
    next
      case (Inr x)
      have "h < nd_next (snd (f x s1)) \<and> length (rx (nd_chan (snd (f x s1)) h)) \<le> length (rx (nd_chan s1 h))"
        using assms(2) [of x] 1 Pair unfolding tame_def by simp
      then show ?thesis using 1 Pair Inr by (simp add: io_bind_def)
    qed
  qed
qed

lemma read_exact_rx: "length (rx (snd (read_exact n c))) \<le> length (rx c)"
  by (simp add: read_exact_def)

lemma write_all_rx [simp]: "rx (snd (write_all bs c)) = rx c"
  by (simp add: write_all_def split: option.splits)

lemma send_message_rx: "rx (snd (send_message C m c)) = rx c"
  by (auto simp: send_message_def write_frame_def io_bind_def split: sum.splits prod.splits)
     (metis snd_conv write_all_rx)+

lemma receive_message_rx: "length (rx (snd (receive_message C c))) \<le> length (rx c)"
  by (auto simp: receive_message_def read_frame_def read_exact_def io_bind_def Let_def io_res_def
      split: sum.splits prod.splits if_splits)

lemma receive_message_consumes:
  "receive_message C c = (Inr m, c') \<Longrightarrow> length (rx c') < length (rx c)"
  by (auto simp: receive_message_def read_frame_def read_exact_def io_bind_eq_Inr Let_def io_res_def
      split: if_splits)

lemma tame_on_chan: "(\<And>c. length (rx (snd (f c))) \<le> length (rx c)) \<Longrightarrow> tame h (on_chan k f)"
  by (auto simp: tame_def on_chan_def split: prod.splits) (metis snd_conv)

lemma tame_basic [intro]:
  "tame h (io_return x)" "tame h (io_res r)" "tame h (draw n)" "tame h now_secs"
  "tame h (take_quote X)" "tame h (open_chan a)" "tame h now_nanos"
  by (auto simp: tame_def draw_def now_secs_def now_nanos_def take_quote_def open_chan_def Let_def)

lemma tame_send [intro]: "tame h (send A k m)"
  unfolding send_def by (rule tame_on_chan) (simp add: send_message_rx)

lemma tame_receive [intro]: "tame h (receive A k)"
  unfolding receive_def by (rule tame_on_chan) (rule receive_message_rx)

lemma tame_encrypt [intro]: "tame h (encrypt_io A key p)"
  unfolding encrypt_io_def by blast

lemma tame_reply [intro]: "tame h (reply A k key p)" "tame h (send_cell A k e)"
  unfolding reply_def seal_def send_cell_def by blast+

lemma tame_proxy_extend [intro]: "tame h (proxy_extend A up key next ext)"
  unfolding proxy_extend_def by (intro tame_bind) (auto split: ProtocolMessage.splits)

lemma tame_proxy_forward [intro]: "tame h (proxy_forward A up key ds inner)"
  unfolding proxy_forward_def by (intro tame_bind) (auto split: ProtocolMessage.splits)

lemma tame_proxy_attest [intro]: "tame h (proxy_attest A up key pid)"
  unfolding proxy_attest_def by blast

lemma tame_proxy_command [intro]: "tame h (proxy_command A pid up key ds payload)"
  unfolding proxy_command_def by (cases "rp_command payload"; cases "rp_inner_cell payload") auto

lemma tame_proxy_step: "tame h (proxy_step A pid up key ds m)"
  unfolding proxy_step_def by (cases m) auto

lemma receive_progress:
  assumes "receive A h s = (Inr m, s1)"
  shows "nd_next s1 = nd_next s" and "length (rx (nd_chan s1 h)) < length (rx (nd_chan s h))"
  using assms receive_message_consumes
  by (fastforce simp: receive_def on_chan_def split: prod.splits)+

lemma relay_loop_total:
  "up < nd_next s \<Longrightarrow> length (rx (nd_chan s up)) < n \<Longrightarrow> relay_loop n A pid up key ds s \<noteq> None"
proof (induction n arbitrary: ds s)
  case 0
  then show ?case by simp
next
  case (Suc n)
  show ?case
  proof (cases "receive A up s")
    case (Pair r s1)
    show ?thesis
    proof (cases r)
      case (Inl e)
      then show ?thesis using Pair by (cases e) auto
    next
      case (Inr m)
      note rp = receive_progress [OF Pair [unfolded Inr]]
      obtain r2 s2 where st: "proxy_step A pid up key ds m s1 = (r2, s2)" by fastforce
      have "up < nd_next s2 \<and> length (rx (nd_chan s2 up)) \<le> length (rx (nd_chan s1 up))"
        using tame_proxy_step [of up A pid up key ds m] Suc.prems(1) rp(1) st unfolding tame_def
        by (metis snd_conv)
      with Suc.IH [of s2] Suc.prems(2) rp(2) have "relay_loop n A pid up key d s2 \<noteq> None" for d by simp
      then show ?thesis using Pair Inr st by (cases r2) auto
    qed
  qed
qed

lemma tame_answer_extend: "tame h (answer_extend A k rid m)"
  unfolding answer_extend_def key_exchange_response_io_def
  by (cases m) (auto intro!: tame_bind split: prod.splits)

section \<open>Lemmas on the handshake\<close>

lemma send_open:
  assumes "ser (ae_messages A) m = Inr data" and "wleft (nd_chan s h) = None"
  shows "send A h m s = (Inr (), s\<lparr>nd_chan := (nd_chan s)(h := (nd_chan s h)
     \<lparr>tx := tx (nd_chan s h) @ put_be32 (length data) @ data\<rparr>)\<rparr>)"
  using assms by (simp add: send_def on_chan_def send_message_def io_bind_def write_frame_open)

lemma receive_frame:
  assumes "rx (nd_chan s h) = put_be32 (length data) @ data @ rest" and "length data \<le> max_frame"
    and "de (ae_messages A) data = Inr m"
  shows "fst (receive A h s) = Inr m"
proof -
  have "nd_chan s h = (nd_chan s h)\<lparr>rx := put_be32 (length data) @ data @ rest\<rparr>" using assms(1) by simp
  then have "read_frame nat_of_be e (nd_chan s h) = (Inr data, (nd_chan s h)\<lparr>rx := rest\<rparr>)" for e
    using be.read_written_frame [OF assms(2)] by metis
  then show ?thesis
    using assms(3) by (simp add: receive_def on_chan_def receive_message_def io_bind_def)
qed

lemma key_exchange_init_io_Inr:
  assumes "key_exchange_init_io A sender s = (Inr (init, sk, x, n), s1)"
  shows "\<exists>seed a nonce. generate_key_exchange_init (ae_x A) seed a nonce sender = Inr (init, sk, x, n)"
    and "kxi_sender_id init = sender"
proof -
  show *: "\<exists>seed a nonce. generate_key_exchange_init (ae_x A) seed a nonce sender = Inr (init, sk, x, n)"
    using assms by (auto simp: key_exchange_init_io_def io_bind_eq_Inr)
  then show "kxi_sender_id init = sender"
    by (auto simp: generate_key_exchange_init_def split_beta Let_def)
qed

text \<open>What the hop sends and keeps.\<close>

lemma answer_extend_Inr:
  assumes "answer_extend A h rid (PmExtendCircuit e) t = (Inr key, t1)" and "wleft (nd_chan t h) = None"
  shows "\<exists>coins b response keys data.
     generate_key_exchange_response (ae_x A) coins b rid
       \<lparr>kxi_sender_id = ''vm1'', kxi_kyber_pk = ec_kyber_pk e, kxi_x25519_pk = ec_x25519_pk e,
        kxi_nonce = ec_nonce e\<rparr> = Inr (response, keys) \<and> key = session_key keys \<and>
     ser (ae_messages A) (PmExtendedCircuit \<lparr>ed_responder_id = rid, ed_kyber_ct = kxr_kyber_ct response,
        ed_x25519_pk = kxr_x25519_pk response\<rparr>) = Inr data \<and>
     tx (nd_chan t1 h) = tx (nd_chan t h) @ put_be32 (length data) @ data"
proof -
  obtain coins b response keys t' where
      g: "generate_key_exchange_response (ae_x A) coins b rid
       \<lparr>kxi_sender_id = ''vm1'', kxi_kyber_pk = ec_kyber_pk e, kxi_x25519_pk = ec_x25519_pk e,
        kxi_nonce = ec_nonce e\<rparr> = Inr (response, keys)"
    and snd: "send A h (PmExtendedCircuit \<lparr>ed_responder_id = rid, ed_kyber_ct = kxr_kyber_ct response,
        ed_x25519_pk = kxr_x25519_pk response\<rparr>) t' = (Inr (), t1)"
    and key: "key = session_key keys" and ch: "nd_chan t' = nd_chan t"
    using assms(1)
    by (auto simp: answer_extend_def key_exchange_response_io_def io_bind_eq_Inr draw_def)
  obtain data where data: "ser (ae_messages A) (PmExtendedCircuit \<lparr>ed_responder_id = rid,
      ed_kyber_ct = kxr_kyber_ct response, ed_x25519_pk = kxr_x25519_pk response\<rparr>) = Inr data"
    using snd by (auto simp: send_def on_chan_def send_message_def io_bind_def split: prod.splits sum.splits)
  with send_open [OF data, of t' h] snd ch assms(2)
  have "tx (nd_chan t1 h) = tx (nd_chan t h) @ put_be32 (length data) @ data" by auto
  with g key data show ?thesis by blast
qed

lemma generate_response_id:
  "generate_key_exchange_response X coins b rid init = Inr (response, keys) \<Longrightarrow> kxr_responder_id response = rid"
  by (auto simp: generate_key_exchange_response_def Let_def split: if_splits prod.splits)

section \<open>A concrete agent\<close>

text \<open>
  Codecs for the cells and the one message the evaluations need; anything else does not serialize.
\<close>

definition demo_payloads :: "RelayCellPayload codec" where
  "demo_payloads =
     \<lparr>ser = (\<lambda>p. case rp_inner_cell p of Some e \<Rightarrow> Inr (1 # e) | None \<Rightarrow> Inr [0]),
      de = (\<lambda>bs. case bs of [] \<Rightarrow> Inl (Err ''eof'')
             | b # e \<Rightarrow> Inr (if b = 1 then data_cell e else plain_cell AttestationRequest))\<rparr>"

definition demo_messages :: "ProtocolMessage codec" where
  "demo_messages =
     \<lparr>ser = (\<lambda>m. case m of
          PmExtendedCircuit ed \<Rightarrow>
            (if ed_responder_id ed = ''pr1'' \<and> length (ed_x25519_pk ed) = 1
             then Inr (hd (ed_x25519_pk ed) # ed_kyber_ct ed) else Inl (Err ''unsupported''))
        | PmExtendCircuit _ \<Rightarrow> Inr []
        | _ \<Rightarrow> Inl (Err ''unsupported'')),
      de = (\<lambda>bs. case bs of [] \<Rightarrow> Inl (Err ''eof'')
             | b # ct \<Rightarrow> Inr (PmExtendedCircuit \<lparr>ed_responder_id = ''pr1'', ed_kyber_ct = ct, ed_x25519_pk = [b]\<rparr>))\<rparr>"

definition demo_agent :: agent_env where
  "demo_agent = \<lparr>ae_x = demo_ext, ae_messages = demo_messages, ae_payloads = demo_payloads,
     ae_debug = (\<lambda>_. ''message''), ae_debug_command = (\<lambda>_. ''command'')\<rparr>"

definition demo_node :: "bytes \<Rightarrow> node" where
  "demo_node incoming = \<lparr>nd_chan = (\<lambda>_. \<lparr>rx = incoming, tx = [], wleft = None\<rparr>), nd_next = 1,
     nd_peer = (\<lambda>_ _. \<lparr>rx = [], tx = [], wleft = None\<rparr>), nd_entropy = (\<lambda>_. 1), nd_entropy_pos = 0,
     nd_clock = (\<lambda>_. 1000), nd_nanos = (\<lambda>_. 1000000), nd_clock_pos = 0, nd_tpm = (\<lambda>_. demo_env 200), nd_tpm_pos = 0\<rparr>"

lemma demo_payloads_ok: "codec_ok demo_payloads (data_cell e)" "codec_ok demo_payloads (plain_cell AttestationRequest)"
  by (simp_all add: codec_ok_def demo_payloads_def data_cell_def plain_cell_def)

lemma demo_seal: "\<exists>c s'. seal demo_agent key p s = (Inr c, s')"
  by (cases "rp_inner_cell p")
     (auto simp: seal_def encrypt_io_def draw_def io_bind_def demo_agent_def demo_payloads_def
        encrypt_def demo_ext_def)

lemma demo_wrap: "\<exists>c s'. wrap_payload_for_hop demo_agent [[1], [2]] 1 p s = (Inr c, s')"
proof -
  obtain c1 s1 where 1: "seal demo_agent [2] p s = (Inr c1, s1)" using demo_seal by blast
  obtain c2 s2 where 2: "seal demo_agent [1] (data_cell c1) s1 = (Inr c2, s2)" using demo_seal by blast
  show ?thesis using 1 2 by (simp add: wrap_payload_for_hop_def index_at_def io_bind_def)
qed

section \<open>Properties\<close>

text \<open>
  C27.  Onion cells: a payload wrapped for hop \<open>d\<close> is peeled one layer per hop (each earlier hop
  decrypts a data cell and finds the next layer in it), reaches hop \<open>d\<close> intact, and unwrapping the
  layers with the same keys gives the payload back.
\<close>

theorem onion_cell_peels:
  assumes "aead_correct (ae_x A)" and "\<And>e. codec_ok (ae_payloads A) (data_cell e)"
    and "codec_ok (ae_payloads A) payload"
    and "wrap_payload_for_hop A keys d payload s = (Inr cell, s')"
  shows "(\<exists>c. layered A keys 0 d cell c \<and> unseal A (keys ! d) c = Inr payload) \<and>
     unwrap_response_from_hop A keys d cell = Inr payload"
  using wrap_payload_spec [OF assms] unwrap_layers_layered
  by (fastforce simp: unwrap_response_from_hop_def index_at_def)

theorem onion_cell_peels_witness:
  "\<exists>cell s'. wrap_payload_for_hop demo_agent [[1], [2]] 1 (plain_cell AttestationRequest) (demo_node [])
       = (Inr cell, s') \<and>
     unwrap_response_from_hop demo_agent [[1], [2]] 1 cell = Inr (plain_cell AttestationRequest)"
proof -
  obtain cell s' where w: "wrap_payload_for_hop demo_agent [[1], [2]] 1 (plain_cell AttestationRequest) (demo_node [])
      = (Inr cell, s')"
    using demo_wrap by blast
  have "aead_correct (ae_x demo_agent)" by (simp add: demo_agent_def demo_aead)
  from onion_cell_peels [OF this _ _ w] w demo_payloads_ok show ?thesis
    by (simp add: demo_agent_def)
qed

text \<open>
  The proxy's relay loop always ends: on an open upstream connection, whatever bytes arrive and
  however the downstream behaves, the handler returns.
\<close>

theorem proxy_returns:
  assumes "upstream < nd_next s"
  shows "\<exists>r s'. handle_proxy_circuit A proxy_id upstream s = Some (r, s')"
proof -
  let ?hello = "io_bind (receive A upstream) (\<lambda>m. answer_extend A upstream (to_lowercase proxy_id) m)"
  obtain r s1 where h: "?hello s = (r, s1)" by fastforce
  have "tame upstream ?hello" by (intro tame_bind tame_receive tame_answer_extend)
  then have open1: "upstream < nd_next s1" using assms h unfolding tame_def by (metis snd_conv)
  show ?thesis
  proof (cases r)
    case (Inl e)
    then show ?thesis using h by (simp add: handle_proxy_circuit_def)
  next
    case (Inr key)
    have "relay_loop (Suc (length (rx (nd_chan s1 upstream)))) A proxy_id upstream key None s1 \<noteq> None"
      by (rule relay_loop_total [OF open1]) simp
    then show ?thesis using h Inr by (auto simp: handle_proxy_circuit_def)
  qed
qed

theorem proxy_returns_witness:
  "\<exists>r s'. handle_proxy_circuit demo_agent ''PR1'' 0 (demo_node [0, 0, 0]) = Some (r, s')"
  by (rule proxy_returns) (simp add: demo_node_def)

text \<open>
  C26.  Extending a circuit by one hop: when the client has drawn its key material and the hop answers
  the resulting \<open>ExtendCircuit\<close>, a client that receives the bytes the hop wrote ends up with exactly the
  session key the hop holds, given that messages deserialize to what was serialized.
\<close>

theorem direct_handshake_agrees:
  assumes crates: "kem_correct (ae_x A)" "dh_correct (ae_x A)"
    and init: "key_exchange_init_io A ''vm1'' s = (Inr (init, sk, xs, n), s1)"
    and hop: "answer_extend A h rid (PmExtendCircuit (extend_of_init tid init)) t = (Inr key, t1)"
    and hop_open: "wleft (nd_chan t h) = None" "tx (nd_chan t1 h) = tx (nd_chan t h) @ wire"
    and codec: "\<And>ed bs. ser (ae_messages A) (PmExtendedCircuit ed) = Inr bs \<Longrightarrow>
       de (ae_messages A) bs = Inr (PmExtendedCircuit ed)"
    and fits: "length wire \<le> max_frame"
    and client: "ser (ae_messages A) (PmExtendCircuit (extend_of_init tid init)) = Inr hello"
       "wleft (nd_chan s1 c) = None" "rx (nd_chan s1 c) = wire @ rest"
  shows "fst (do_extend_direct A c tid s) = Inr key"
proof -
  note io = key_exchange_init_io_Inr [OF init]
  let ?i = "\<lparr>kxi_sender_id = ''vm1'', kxi_kyber_pk = ec_kyber_pk (extend_of_init tid init),
      kxi_x25519_pk = ec_x25519_pk (extend_of_init tid init), kxi_nonce = ec_nonce (extend_of_init tid init)\<rparr>"
  have same: "?i = init" using io(2) by (simp add: extend_of_init_def)
  obtain coins b response keys data where
      g: "generate_key_exchange_response (ae_x A) coins b rid init = Inr (response, keys)"
    and key: "key = session_key keys"
    and data: "ser (ae_messages A) (PmExtendedCircuit \<lparr>ed_responder_id = rid, ed_kyber_ct = kxr_kyber_ct response,
        ed_x25519_pk = kxr_x25519_pk response\<rparr>) = Inr data"
    and tx: "tx (nd_chan t1 h) = tx (nd_chan t h) @ put_be32 (length data) @ data"
    using answer_extend_Inr [OF hop hop_open(1)] same by auto
  have wire: "wire = put_be32 (length data) @ data" using tx hop_open(2) by simp
  obtain s2 where sent: "send A c (PmExtendCircuit (extend_of_init tid init)) s1 = (Inr (), s2)"
    and rx2: "rx (nd_chan s2 c) = put_be32 (length data) @ data @ rest"
    using send_open [OF client(1,2)] client(3) wire by simp
  have "length data \<le> max_frame" using fits wire by simp
  from receive_frame [OF rx2 this codec [OF data]]
  obtain s3 where rec: "receive A c s2 = (Inr (PmExtendedCircuit \<lparr>ed_responder_id = rid,
      ed_kyber_ct = kxr_kyber_ct response, ed_x25519_pk = kxr_x25519_pk response\<rparr>), s3)"
    by (cases "receive A c s2") auto
  have "complete_key_exchange (ae_x A) init response sk xs n = Inr keys"
    using io(1) key_agreement [OF crates _ g] by blast
  moreover have "response_of_extended \<lparr>ed_responder_id = rid, ed_kyber_ct = kxr_kyber_ct response,
      ed_x25519_pk = kxr_x25519_pk response\<rparr> = response"
    using generate_response_id [OF g] by (simp add: response_of_extended_def)
  ultimately show ?thesis
    using init sent rec key by (simp add: do_extend_direct_def io_bind_def)
qed

lemma demo_init_io:
  "\<exists>init sk xs n. \<forall>w. \<exists>s1. key_exchange_init_io demo_agent ''vm1'' (demo_node w) = (Inr (init, sk, xs, n), s1)
     \<and> nd_chan s1 = nd_chan (demo_node w)"
  by (simp add: key_exchange_init_io_def draw_def io_bind_def demo_agent_def demo_node_def
      generate_key_exchange_init_def demo_ext_def)

lemma demo_answer:
  "\<exists>key t1. answer_extend demo_agent 0 ''pr1'' (PmExtendCircuit e) (demo_node []) = (Inr key, t1)"
  by (simp add: answer_extend_def key_exchange_response_io_def draw_def io_bind_def demo_agent_def
      demo_node_def generate_key_exchange_response_def demo_ext_def Let_def send_def on_chan_def
      send_message_def demo_messages_def write_frame_def write_all_def del: upt_rec_numeral upt_Suc)

theorem direct_handshake_agrees_witness:
  "\<exists>init wire key t1.
     answer_extend demo_agent 0 ''pr1'' (PmExtendCircuit (extend_of_init ''pr1'' init)) (demo_node []) = (Inr key, t1) \<and>
     fst (do_extend_direct demo_agent 0 ''pr1'' (demo_node wire)) = Inr key"
proof -
  obtain init sk xs n where i: "\<And>w. \<exists>s1. key_exchange_init_io demo_agent ''vm1'' (demo_node w)
      = (Inr (init, sk, xs, n), s1) \<and> nd_chan s1 = nd_chan (demo_node w)"
    using demo_init_io by blast
  let ?e = "extend_of_init ''pr1'' init"
  obtain key t1 where a: "answer_extend demo_agent 0 ''pr1'' (PmExtendCircuit ?e) (demo_node []) = (Inr key, t1)"
    using demo_answer by blast
  have o: "wleft (nd_chan (demo_node w) 0) = None" for w by (simp add: demo_node_def)
  obtain coins b response keys data where
      g: "generate_key_exchange_response (ae_x demo_agent) coins b ''pr1''
         \<lparr>kxi_sender_id = ''vm1'', kxi_kyber_pk = ec_kyber_pk ?e, kxi_x25519_pk = ec_x25519_pk ?e,
          kxi_nonce = ec_nonce ?e\<rparr> = Inr (response, keys)"
    and d: "ser (ae_messages demo_agent) (PmExtendedCircuit \<lparr>ed_responder_id = ''pr1'',
        ed_kyber_ct = kxr_kyber_ct response, ed_x25519_pk = kxr_x25519_pk response\<rparr>) = Inr data"
    and tx: "tx (nd_chan t1 0) = tx (nd_chan (demo_node []) 0) @ put_be32 (length data) @ data"
    using answer_extend_Inr [OF a o] by blast
  have "length (kxr_kyber_ct response) = 1568"
    using g by (auto simp: generate_key_exchange_response_def demo_agent_def demo_ext_def Let_def)
  then have fits: "length (put_be32 (length data) @ data) \<le> max_frame"
    using d by (auto simp: demo_agent_def demo_messages_def max_frame_def put_be32_def split: if_splits)
  let ?w = "put_be32 (length data) @ data"
  obtain s1 where s1: "key_exchange_init_io demo_agent ''vm1'' (demo_node ?w) = (Inr (init, sk, xs, n), s1)"
      "nd_chan s1 = nd_chan (demo_node ?w)"
    using i by blast
  have "fst (do_extend_direct demo_agent 0 ''pr1'' (demo_node ?w)) = Inr key"
  proof (rule direct_handshake_agrees [OF _ _ s1(1) a o tx _ fits, where rest = "[]" and hello = "[]"])
    show "de (ae_messages demo_agent) bs = Inr (PmExtendedCircuit ed)"
      if "ser (ae_messages demo_agent) (PmExtendedCircuit ed) = Inr bs" for ed bs
      using that by (cases ed) (auto simp: demo_agent_def demo_messages_def length_Suc_conv split: if_splits)
  qed (use s1(2) in \<open>simp_all add: demo_agent_def demo_kem demo_dh demo_messages_def demo_node_def\<close>)
  with a show ?thesis by blast
qed

end
