(* ===== verification/Secure_Channel.thy ===== *)
theory Secure_Channel
  imports Circuit
begin

text \<open>
  What the encrypted connections outside the circuits have in common: those of vm0 with vm1
  (\<open>mfa-agent/src/main.rs\<close>), of the second orchestrator (\<open>dual_authority/mod.rs\<close>) and of the log forwarder with the
  monitor (\<open>mfa-monitor/src/lib.rs\<close>).  All seal a serialized message and frame it, and all exchange keys with one
  frame each way, in one byte order or the other.  The interface \<open>message_channel\<close> says what a framed channel
  promises of one message; that whole conversations arrive in order is proved there once.
\<close>

section \<open>The interface of a message channel\<close>

definition set_rx :: "nat \<Rightarrow> bytes \<Rightarrow> node \<Rightarrow> node" where
  "set_rx g bs t = t\<lparr>nd_chan := (nd_chan t)(g := (nd_chan t g)\<lparr>rx := bs\<rparr>)\<rparr>"

lemma set_rx_simps [simp]:
  "set_rx g b (set_rx g a t) = set_rx g b t" "set_rx g (rx (nd_chan t g)) t = t"
  "rx (nd_chan (set_rx g a t) g) = a"
  by (simp_all add: set_rx_def)

text \<open>
  \<open>delivers\<close>: the bytes \<open>w\<close> make a receiver that holds \<open>key\<close> return \<open>m\<close> and consume exactly them.  A channel
  promises that a successful send to an open connection appends bytes that deliver the message.
\<close>

definition delivers :: "(nat \<Rightarrow> bytes \<Rightarrow> (node, 'm) io) \<Rightarrow> bytes \<Rightarrow> 'm \<Rightarrow> bytes \<Rightarrow> bool" where
  "delivers hear key m w \<longleftrightarrow> (\<forall>t g rest. rx (nd_chan t g) = w @ rest \<longrightarrow>
     hear g key t = (Inr m, set_rx g rest t))"

fun send_list :: "(nat \<Rightarrow> bytes \<Rightarrow> 'm \<Rightarrow> (node, unit) io) \<Rightarrow> nat \<Rightarrow> bytes \<Rightarrow> 'm list \<Rightarrow> (node, unit) io" where
  "send_list say h key [] = io_return ()"
| "send_list say h key (m # ms) = io_bind (say h key m) (\<lambda>_. send_list say h key ms)"

fun recv_list :: "(nat \<Rightarrow> bytes \<Rightarrow> (node, 'm) io) \<Rightarrow> nat \<Rightarrow> bytes \<Rightarrow> nat \<Rightarrow> (node, 'm list) io" where
  "recv_list hear h key 0 = io_return []"
| "recv_list hear h key (Suc n) =
     io_bind (hear h key) (\<lambda>m. io_bind (recv_list hear h key n) (\<lambda>ms. io_return (m # ms)))"

text \<open>
  \<open>spoken\<close>: between two states of a speaker, the messages went out over an open connection, and nothing else.
\<close>

definition spoken :: "(nat \<Rightarrow> bytes \<Rightarrow> (node, 'm) io) \<Rightarrow> bytes \<Rightarrow> nat \<Rightarrow> 'm list \<Rightarrow> node \<Rightarrow> node \<Rightarrow> bool" where
  "spoken hear key h ms s s' \<longleftrightarrow> wleft (nd_chan s h) = None \<and> wleft (nd_chan s' h) = None \<and>
     (\<exists>ws. tx (nd_chan s' h) = tx (nd_chan s h) @ concat ws \<and>
        list_all2 (\<lambda>m w. length w \<le> max_frame \<longrightarrow> delivers hear key m w) ms ws)"

lemma spoken_append: "spoken hear key h ms s s1 \<Longrightarrow> spoken hear key h ms' s1 s2 \<Longrightarrow> spoken hear key h (ms @ ms') s s2"
proof (unfold spoken_def, elim conjE exE, intro conjI)
  fix ws ws'
  assume "tx (nd_chan s1 h) = tx (nd_chan s h) @ concat ws" "tx (nd_chan s2 h) = tx (nd_chan s1 h) @ concat ws'"
    "list_all2 (\<lambda>m w. length w \<le> max_frame \<longrightarrow> delivers hear key m w) ms ws"
    "list_all2 (\<lambda>m w. length w \<le> max_frame \<longrightarrow> delivers hear key m w) ms' ws'"
  then show "\<exists>ws. tx (nd_chan s2 h) = tx (nd_chan s h) @ concat ws \<and>
      list_all2 (\<lambda>m w. length w \<le> max_frame \<longrightarrow> delivers hear key m w) (ms @ ms') ws"
    by (intro exI [of _ "ws @ ws'"]) (simp add: list_all2_appendI)
qed

text \<open>The frames of what was spoken, when none can be too long.\<close>

lemma spoken_delivers:
  assumes "spoken hear key h ms s s'" and "tx (nd_chan s' h) = tx (nd_chan s h) @ wire" and "length wire \<le> max_frame"
  obtains ws where "wire = concat ws" "list_all2 (delivers hear key) ms ws"
proof -
  obtain ws where ws: "tx (nd_chan s' h) = tx (nd_chan s h) @ concat ws"
    "list_all2 (\<lambda>m w. length w \<le> max_frame \<longrightarrow> delivers hear key m w) ms ws"
    using assms(1) unfolding spoken_def by blast
  have len: "length w \<le> length wire" if "w \<in> set ws" for w
    using that ws(1) assms(2) by (auto simp: in_set_conv_decomp)
  have "list_all2 (delivers hear key) ms ws"
    using ws(2) by (rule list.rel_mono_strong) (use len assms(3) in fastforce)
  then show thesis using that ws(1) assms(2) by simp
qed

locale message_channel =
  fixes say :: "nat \<Rightarrow> bytes \<Rightarrow> 'm \<Rightarrow> (node, unit) io"
    and hear :: "nat \<Rightarrow> bytes \<Rightarrow> (node, 'm) io"
    and good :: "'m \<Rightarrow> bool"
  assumes sent: "good m \<Longrightarrow> say h key m s = (Inr (), s') \<Longrightarrow> wleft (nd_chan s h) = None \<Longrightarrow>
       wleft (nd_chan s' h) = None \<and>
       (\<exists>w. tx (nd_chan s' h) = tx (nd_chan s h) @ w \<and> (length w \<le> max_frame \<longrightarrow> delivers hear key m w))"
begin

lemma said_one:
  assumes "good m" and "say h key m s = (Inr (), s')" and "wleft (nd_chan s h) = None"
  shows "spoken hear key h [m] s s'"
proof -
  obtain w where "wleft (nd_chan s' h) = None" "tx (nd_chan s' h) = tx (nd_chan s h) @ w"
    "length w \<le> max_frame \<longrightarrow> delivers hear key m w"
    using sent [OF assms] by blast
  with assms(3) show ?thesis by (auto simp: spoken_def intro!: exI [of _ "[w]"])
qed

lemma conversation_bytes:
  assumes "list_all good ms" and "send_list say h key ms s = (Inr (), s')" and "wleft (nd_chan s h) = None"
  shows "spoken hear key h ms s s'"
  using assms
proof (induction ms arbitrary: s)
  case Nil
  then show ?case by (auto simp: spoken_def intro: exI [of _ "[]"])
next
  case (Cons m ms)
  then obtain s1 where s1: "say h key m s = (Inr (), s1)" "send_list say h key ms s1 = (Inr (), s')"
    by (auto simp: io_bind_eq_Inr)
  have m: "spoken hear key h [m] s s1" using Cons.prems by (intro said_one [OF _ s1(1)]) auto
  with Cons.IH [OF _ s1(2)] Cons.prems(1) have "spoken hear key h ms s1 s'" by (auto simp: spoken_def)
  with m show ?case by (auto dest: spoken_append)
qed

lemma deliver_list:
  assumes "list_all2 (delivers hear key) ms ws" and "rx (nd_chan t g) = concat ws @ rest"
  shows "recv_list hear g key (length ms) t = (Inr ms, set_rx g rest t)"
  using assms
proof (induction ms ws arbitrary: t rule: list_all2_induct)
  case Nil
  then have "rest = rx (nd_chan t g)" by simp
  then show ?case by simp
next
  case (Cons m ms w ws)
  let ?t = "set_rx g (concat ws @ rest) t"
  have "hear g key t = (Inr m, ?t)" using Cons.hyps(1) Cons.prems unfolding delivers_def by simp
  moreover have "recv_list hear g key (length ms) ?t = (Inr ms, set_rx g rest t)"
    using Cons.IH [of ?t] by simp
  ultimately show ?case by (simp add: io_bind_def)
qed

text \<open>What was said is what is heard, in order and with nothing left over.\<close>

lemma heard_spoken:
  assumes "spoken hear key h ms s s'" and "tx (nd_chan s' h) = tx (nd_chan s h) @ wire" and "length wire \<le> max_frame"
    and "rx (nd_chan t g) = wire @ rest"
  shows "recv_list hear g key (length ms) t = (Inr ms, set_rx g rest t)"
proof -
  obtain ws where "wire = concat ws" "list_all2 (delivers hear key) ms ws" by (rule spoken_delivers [OF assms(1-3)])
  then show ?thesis using deliver_list assms(4) by simp
qed

lemma conversation:
  assumes "list_all good ms" and "send_list say h key ms s = (Inr (), s')" and "wleft (nd_chan s h) = None"
    and "tx (nd_chan s' h) = tx (nd_chan s h) @ wire" and "length wire \<le> max_frame"
    and "rx (nd_chan t g) = wire @ rest"
  shows "recv_list hear g key (length ms) t = (Inr ms, set_rx g rest t)"
  by (rule heard_spoken [OF conversation_bytes [OF assms(1-3)] assms(4-6)])

end

section \<open>Key exchange over frames\<close>

text \<open>The two ends, over a byte order, the codecs and the text for an oversized frame.\<close>

definition exchange_initiator ::
  "agent_env \<Rightarrow> KeyExchangeInit codec \<Rightarrow> KeyExchangeResponse codec \<Rightarrow> (nat \<Rightarrow> bytes) \<Rightarrow> (bytes \<Rightarrow> nat) \<Rightarrow> (nat \<Rightarrow> string) \<Rightarrow>
   string \<Rightarrow> nat \<Rightarrow> (node, bytes) io" where
  "exchange_initiator A CI CR put get too_large sender_id stream =
     io_bind (key_exchange_init_io A sender_id) (\<lambda>(init, kyber_sk, x25519_secret, nonce).
     io_bind (io_res (ser CI init)) (\<lambda>init_bytes.
     io_bind (on_chan stream (write_frame put init_bytes)) (\<lambda>_.
     io_bind (on_chan stream (read_frame get too_large)) (\<lambda>resp_bytes.
     io_bind (io_res (de CR resp_bytes)) (\<lambda>response.
     io_bind (io_res (complete_key_exchange (ae_x A) init response kyber_sk x25519_secret nonce)) (\<lambda>keys.
       io_return (session_key keys)))))))"

definition exchange_responder ::
  "agent_env \<Rightarrow> KeyExchangeInit codec \<Rightarrow> KeyExchangeResponse codec \<Rightarrow> (nat \<Rightarrow> bytes) \<Rightarrow> (bytes \<Rightarrow> nat) \<Rightarrow> (nat \<Rightarrow> string) \<Rightarrow>
   string \<Rightarrow> nat \<Rightarrow> (node, bytes) io" where
  "exchange_responder A CI CR put get too_large responder_id stream =
     io_bind (on_chan stream (read_frame get too_large)) (\<lambda>init_bytes.
     io_bind (io_res (de CI init_bytes)) (\<lambda>init.
     io_bind (key_exchange_response_io A responder_id init) (\<lambda>(response, keys).
     io_bind (io_res (ser CR response)) (\<lambda>resp_bytes.
     io_bind (on_chan stream (write_frame put resp_bytes)) (\<lambda>_.
       io_return (session_key keys))))))"

context length_prefix
begin

lemma read_pending_frame:
  "rx c = put (length data) @ data @ rest \<Longrightarrow> length data \<le> max_frame \<Longrightarrow> read_frame get e c = (Inr data, c\<lparr>rx := rest\<rparr>)"
  using read_written_frame [where c = c and rest = rest and e = e and data = data] by (metis (mono_tags) chan.surjective chan.update_convs(1))

lemma exchange_initiator_Inr:
  assumes "key_exchange_init_io A sid s = (Inr (init, sk, xs, n), s1)"
    and "ser CI init = Inr hello" and "wleft (nd_chan s c) = None"
    and "rx (nd_chan s c) = put (length data) @ data @ rest" and "length data \<le> max_frame"
    and "de CR data = Inr response"
    and "complete_key_exchange (ae_x A) init response sk xs n = Inr keys"
  shows "exchange_initiator A CI CR put get e sid c s = (Inr (session_key keys),
     s1\<lparr>nd_chan := (nd_chan s)(c := (nd_chan s c)\<lparr>tx := tx (nd_chan s c) @ put (length hello) @ hello, rx := rest\<rparr>)\<rparr>)"
proof -
  have chans: "nd_chan s1 = nd_chan s"
    using assms(1) by (auto simp: key_exchange_init_io_def draw_def io_bind_def)
  let ?c = "(nd_chan s c)\<lparr>tx := tx (nd_chan s c) @ put (length hello) @ hello\<rparr>"
  have r: "read_frame get e ?c = (Inr data, ?c\<lparr>rx := rest\<rparr>)"
    using assms(4,5) by (intro read_pending_frame) simp_all
  show ?thesis
    unfolding exchange_initiator_def io_bind_def assms(1)
    by (simp add: assms(2,3,6,7) chans write_frame_open on_chan_def r)
qed

lemma exchange_responder_Inr:
  assumes "exchange_responder A CI CR put get e nid h t = (Inr key, t1)" and "wleft (nd_chan t h) = None"
    and "rx (nd_chan t h) = put (length hello) @ hello @ rest" and "length hello \<le> max_frame"
    and "de CI hello = Inr init"
  shows "\<exists>coins b response keys data. generate_key_exchange_response (ae_x A) coins b nid init = Inr (response, keys) \<and>
     key = session_key keys \<and> ser CR response = Inr data \<and>
     tx (nd_chan t1 h) = tx (nd_chan t h) @ put (length data) @ data"
proof -
  have r: "read_frame get e (nd_chan t h) = (Inr hello, (nd_chan t h)\<lparr>rx := rest\<rparr>)"
    using assms(3,4) by (rule read_pending_frame)
  show ?thesis
    using assms(1,2,5)
    by (auto simp: exchange_responder_def io_bind_eq_Inr on_chan_def r key_exchange_response_io_def draw_def
        write_frame_open) blast
qed

text \<open>Both ends hold the same key when the initiator reads what the responder wrote in answer to its hello.\<close>

lemma exchange_agrees:
  assumes crates: "kem_correct (ae_x A)" "dh_correct (ae_x A)"
    and init: "key_exchange_init_io A sid s = (Inr (init, sk, xs, n), s1)"
    and hello: "ser CI init = Inr hello" "de CI hello = Inr init" "length hello \<le> max_frame"
    and answer: "exchange_responder A CI CR put get e nid h t = (Inr key, t1)" "wleft (nd_chan t h) = None"
      "rx (nd_chan t h) = put (length hello) @ hello @ rest" "tx (nd_chan t1 h) = tx (nd_chan t h) @ wire"
    and codec: "\<And>r bs. ser CR r = Inr bs \<Longrightarrow> kxr_responder_id r = nid \<Longrightarrow> de CR bs = Inr r"
    and ends: "length wire \<le> max_frame" "wleft (nd_chan s c) = None" "rx (nd_chan s c) = wire @ rest'"
  shows "fst (exchange_initiator A CI CR put get e' sid c s) = Inr key \<and>
     tx (nd_chan (snd (exchange_initiator A CI CR put get e' sid c s)) c) = tx (nd_chan s c) @ put (length hello) @ hello"
proof -
  obtain coins b response keys data where
    g: "generate_key_exchange_response (ae_x A) coins b nid init = Inr (response, keys)" "key = session_key keys"
    and d: "ser CR response = Inr data"
    and tx: "tx (nd_chan t1 h) = tx (nd_chan t h) @ put (length data) @ data"
    using exchange_responder_Inr [OF answer(1-3) hello(3,2)] by blast
  have wire: "wire = put (length data) @ data" using tx answer(4) by simp
  have "complete_key_exchange (ae_x A) init response sk xs n = Inr keys"
    using key_exchange_init_io_Inr(1) [OF init] key_agreement [OF crates _ g(1)] by blast
  note io = exchange_initiator_Inr [OF init hello(1) ends(2) _ _ codec [OF d generate_response_id [OF g(1)]] this]
  have "rx (nd_chan s c) = put (length data) @ data @ rest'" "length data \<le> max_frame"
    using ends(1,3) wire by simp_all
  from io [OF this, of e'] g(2) show ?thesis by simp
qed

text \<open>Seal a serialized message and frame it; read a frame, open it and parse.\<close>

lemma sealed_frame:
  assumes "aead_correct (ae_x A)" and "codec_ok C m"
    and "io_bind (io_res (ser C m)) (\<lambda>pt. io_bind (encrypt_io A key pt) (\<lambda>c. on_chan h (write_frame put c))) s = (Inr (), s')"
    and "wleft (nd_chan s h) = None"
  shows "wleft (nd_chan s' h) = None \<and> (\<exists>w. tx (nd_chan s' h) = tx (nd_chan s h) @ w \<and> (length w \<le> max_frame \<longrightarrow>
     delivers (\<lambda>g key. io_bind (on_chan g (read_frame get e)) (\<lambda>c. io_bind (io_res (decrypt (ae_x A) key c)) (\<lambda>pt. io_res (de C pt)))) key m w))"
proof -
  obtain pt c s1 where pt: "ser C m = Inr pt" and e: "encrypt_io A key pt s = (Inr c, s1)"
    and w: "on_chan h (write_frame put c) s1 = (Inr (), s')"
    using assms(3) by (auto simp: io_bind_eq_Inr)
  have "nd_chan s1 = nd_chan s" using e by (auto simp: encrypt_io_def draw_def io_bind_def)
  with w assms(4) have tx: "tx (nd_chan s' h) = tx (nd_chan s h) @ put (length c) @ c" "wleft (nd_chan s' h) = None"
    by (auto simp: on_chan_def write_frame_open)
  have d: "decrypt (ae_x A) key c = Inr pt" by (rule encrypt_io_decrypts [OF assms(1) e])
  have m: "de C pt = Inr m" using assms(2) pt by (simp add: codec_ok_def)
  have "delivers (\<lambda>g key. io_bind (on_chan g (read_frame get e)) (\<lambda>c. io_bind (io_res (decrypt (ae_x A) key c)) (\<lambda>pt. io_res (de C pt)))) key m
      (put (length c) @ c)" if "length (put (length c) @ c) \<le> max_frame"
    unfolding delivers_def
  proof (intro allI impI)
    fix t :: node and g rest assume r: "rx (nd_chan t g) = (put (length c) @ c) @ rest"
    then have "read_frame get e (nd_chan t g) = (Inr c, (nd_chan t g)\<lparr>rx := rest\<rparr>)"
      using that by (intro read_pending_frame) simp_all
    then show "io_bind (on_chan g (read_frame get e)) (\<lambda>c. io_bind (io_res (decrypt (ae_x A) key c)) (\<lambda>pt. io_res (de C pt))) t =
        (Inr m, set_rx g rest t)"
      using d m by (simp add: io_bind_def on_chan_def set_rx_def)
  qed
  with tx show ?thesis by blast
qed

end

end
