(* ===== verification/Orch_Channel.thy ===== *)
theory Orch_Channel
  imports Dual_Authority Secure_Channel
begin

text \<open>
  The channel between vm0 and vm1 and the operator's socket (\<open>mfa-agent/src/main.rs\<close>): the key exchange of
  both sides, encrypted \<open>OrchestratorMessage\<close> frames, and the frames of the command line tool.  This
  channel and that of the second orchestrator are message channels.
\<close>

section \<open>Environment\<close>

text \<open>
  What the sessions of vm0 and vm1 use of the crates and of code outside the sources: the codecs, the
  derived \<open>Debug\<close> text of a message, the verifying side of the TPM stack, the outcomes of
  \<open>tpm::sign_data\<close> (at a position of the TPM's history, for the calls of one signing), and the credential store.
\<close>

record orch_env =
  oe_dual :: dual_env
  oe_messages :: "OrchestratorMessage codec"
  oe_payloads :: "InitiatePayload codec"
  oe_requests :: "CliRequest codec"
  oe_responses :: "CliResponse codec"
  oe_debug :: "OrchestratorMessage \<Rightarrow> string"
  oe_tss :: tss_verify
  oe_sign :: "nat \<Rightarrow> nat \<Rightarrow> bytes \<Rightarrow> (bytes \<times> bytes) res"
  oe_load_creds :: "string \<Rightarrow> StoredCredentials res"
  oe_verify_pass :: "string \<Rightarrow> string \<Rightarrow> bool res"

abbreviation oe_agent where "oe_agent E \<equiv> de_agent (oe_dual E)"
abbreviation oe_x where "oe_x E \<equiv> ae_x (de_agent (oe_dual E))"

section \<open>Messages between vm0 and vm1\<close>

definition send_orch_message :: "orch_env \<Rightarrow> nat \<Rightarrow> bytes \<Rightarrow> OrchestratorMessage \<Rightarrow> (node, unit) io" where
  "send_orch_message E stream key msg =
     io_bind (io_res (ser (oe_messages E) msg)) (\<lambda>plaintext.
     io_bind (encrypt_io (oe_agent E) key plaintext) (\<lambda>ciphertext.
       on_chan stream (write_frame put_le32 ciphertext)))"

definition recv_orch_message :: "orch_env \<Rightarrow> nat \<Rightarrow> bytes \<Rightarrow> (node, OrchestratorMessage) io" where
  "recv_orch_message E stream key =
     io_bind (on_chan stream (read_frame nat_of_le (\<lambda>len. ''Message too large: '' @ show_nat len))) (\<lambda>ciphertext.
     io_bind (io_res (decrypt (oe_x E) key ciphertext)) (\<lambda>plaintext.
       io_res (de (oe_messages E) plaintext)))"

section \<open>Key exchange\<close>

text \<open>vm0 names itself \<open>vm0\<close> whatever its configured identity.\<close>

definition perform_orchestrator_key_exchange :: "orch_env \<Rightarrow> nat \<Rightarrow> string \<Rightarrow> (node, bytes) io" where
  "perform_orchestrator_key_exchange E stream sender_id =
     io_bind (key_exchange_init_io (oe_agent E) ''vm0'') (\<lambda>(init, kyber_sk, x25519_secret, nonce).
     io_bind (io_res (ser (de_inits (oe_dual E)) init)) (\<lambda>init_bytes.
     io_bind (on_chan stream (write_frame put_le32 init_bytes)) (\<lambda>_.
     io_bind (on_chan stream (read_frame nat_of_le (\<lambda>_. ''Response too large''))) (\<lambda>resp_bytes.
     io_bind (io_res (de (de_responses (oe_dual E)) resp_bytes)) (\<lambda>response.
     io_bind (io_res (complete_key_exchange (oe_x E) init response kyber_sk x25519_secret nonce)) (\<lambda>keys.
       io_return (session_key keys)))))))"

definition perform_vm1_key_exchange :: "orch_env \<Rightarrow> nat \<Rightarrow> string \<Rightarrow> (node, bytes) io" where
  "perform_vm1_key_exchange E stream node_id =
     io_bind (on_chan stream (read_frame nat_of_le (\<lambda>len. ''init too large: '' @ show_nat len))) (\<lambda>init_bytes.
     io_bind (io_res (de (de_inits (oe_dual E)) init_bytes)) (\<lambda>init.
     io_bind (key_exchange_response_io (oe_agent E) node_id init) (\<lambda>(response, keys).
     io_bind (io_res (ser (de_responses (oe_dual E)) response)) (\<lambda>resp_bytes.
     io_bind (on_chan stream (write_frame put_le32 resp_bytes)) (\<lambda>_.
       io_return (session_key keys))))))"

section \<open>The operator's socket\<close>

definition read_cli_request :: "orch_env \<Rightarrow> (chan, CliRequest) io" where
  "read_cli_request E =
     io_bind (read_frame nat_of_le (\<lambda>len. ''CLI request too large: '' @ show_nat len)) (\<lambda>data.
       io_res (de (oe_requests E) data))"

definition write_cli_response :: "orch_env \<Rightarrow> CliResponse \<Rightarrow> (chan, unit) io" where
  "write_cli_response E resp = io_bind (io_res (ser (oe_responses E) resp)) (\<lambda>data. write_frame put_le32 data)"

section \<open>Both encrypted channels are message channels\<close>

text \<open>A broken cipher promises nothing, so the messages in question are those of a correct one.\<close>

definition orch_good :: "orch_env \<Rightarrow> OrchestratorMessage \<Rightarrow> bool" where
  "orch_good E m \<longleftrightarrow> aead_correct (oe_x E) \<and> codec_ok (oe_messages E) m"

definition dual_good :: "dual_env \<Rightarrow> DualAuthMessage \<Rightarrow> bool" where
  "dual_good D m \<longleftrightarrow> aead_correct (ae_x (de_agent D)) \<and> codec_ok (de_messages D) m"

interpretation oc: message_channel "send_orch_message E" "recv_orch_message E" "orch_good E" for E
proof
  fix m h key s s'
  assume "orch_good E m" and "send_orch_message E h key m s = (Inr (), s')" and "wleft (nd_chan s h) = None"
  with le.sealed_frame [of "oe_agent E" "oe_messages E" m key h s s' "\<lambda>len. ''Message too large: '' @ show_nat len"]
  show "wleft (nd_chan s' h) = None \<and> (\<exists>w. tx (nd_chan s' h) = tx (nd_chan s h) @ w \<and>
      (length w \<le> max_frame \<longrightarrow> delivers (recv_orch_message E) key m w))"
    by (simp add: orch_good_def send_orch_message_def recv_orch_message_def [abs_def])
qed

interpretation dc: message_channel "send_encrypted D" "recv_encrypted D" "dual_good D" for D
proof
  fix m h key s s'
  assume "dual_good D m" and "send_encrypted D h key m s = (Inr (), s')" and "wleft (nd_chan s h) = None"
  with le.sealed_frame [of "de_agent D" "de_messages D" m key h s s'
      "\<lambda>len. ''Message too large: '' @ show_nat len @ '' bytes''"]
  show "wleft (nd_chan s' h) = None \<and> (\<exists>w. tx (nd_chan s' h) = tx (nd_chan s h) @ w \<and>
      (length w \<le> max_frame \<longrightarrow> delivers (recv_encrypted D) key m w))"
    by (simp add: dual_good_def send_encrypted_def recv_encrypted_def [abs_def])
qed

section \<open>Lemmas on the key exchange\<close>

lemma orchestrator_exchange:
  "perform_orchestrator_key_exchange E stream sid = exchange_initiator (oe_agent E) (de_inits (oe_dual E)) (de_responses (oe_dual E))
     put_le32 nat_of_le (\<lambda>_. ''Response too large'') ''vm0'' stream"
  by (simp add: perform_orchestrator_key_exchange_def exchange_initiator_def)

lemma vm1_exchange:
  "perform_vm1_key_exchange E stream nid = exchange_responder (oe_agent E) (de_inits (oe_dual E)) (de_responses (oe_dual E))
     put_le32 nat_of_le (\<lambda>len. ''init too large: '' @ show_nat len) nid stream"
  by (simp add: perform_vm1_key_exchange_def exchange_responder_def)

lemma initiator_hello:
  assumes "key_exchange_init_io (oe_agent E) ''vm0'' s = (Inr (init, sk, xs, n), s1)"
    and "ser (de_inits (oe_dual E)) init = Inr hello" and "wleft (nd_chan s c) = None"
    and "rx (nd_chan s c) = put_le32 (length data) @ data @ rest" and "length data \<le> max_frame"
    and "de (de_responses (oe_dual E)) data = Inr response"
    and "complete_key_exchange (oe_x E) init response sk xs n = Inr keys"
  shows "perform_orchestrator_key_exchange E c sid s = (Inr (session_key keys),
     s1\<lparr>nd_chan := (nd_chan s)(c := (nd_chan s c)\<lparr>tx := tx (nd_chan s c) @ put_le32 (length hello) @ hello, rx := rest\<rparr>)\<rparr>)"
  unfolding orchestrator_exchange by (rule le.exchange_initiator_Inr [OF assms])

section \<open>Concrete inputs\<close>

text \<open>
  Codecs that know one value of each message kind: those of a session of a machine whose entropy source
  yields only ones and whose clock stands still (\<open>demo_wire\<close>).
\<close>

definition demo_init :: KeyExchangeInit where
  "demo_init = (case generate_key_exchange_init demo_ext (replicate 64 1) (replicate 32 1) (replicate 32 1) ''vm0'' of
     Inr (i, _) \<Rightarrow> i)"

definition demo_response :: KeyExchangeResponse where
  "demo_response = (case generate_key_exchange_response demo_ext (replicate 32 1) (replicate 32 1) ''vm1'' demo_init of
     Inr (r, _) \<Rightarrow> r)"

definition demo_responses :: "KeyExchangeResponse codec" where
  "demo_responses =
     \<lparr>ser = (\<lambda>r. if kxr_responder_id r = ''vm1'' \<and> length (kxr_x25519_pk r) = 1
          then Inr (hd (kxr_x25519_pk r) # kxr_kyber_ct r) else Inl (Err ''unsupported'')),
      de = (\<lambda>bs. case bs of [] \<Rightarrow> Inl (Err ''eof'')
          | b # ct \<Rightarrow> Inr \<lparr>kxr_responder_id = ''vm1'', kxr_kyber_ct = ct, kxr_x25519_pk = [b]\<rparr>)\<rparr>"

definition demo_payload :: InitiatePayload where
  "demo_payload = \<lparr>ip_version = 1, ip_authorization_id = replicate 32 1, ip_timestamp = 1000, ip_session_ttl_secs = 600,
     ip_operator_hash = replicate 32 2, ip_vm0_attestation = demo_attestation ''vm0'' 200, ip_vm0_ak_public = [6]\<rparr>"

definition demo_token :: SessionTokenReturn where
  "demo_token = \<lparr>st_authorization_id = replicate 32 1, st_session_token = [7], st_session_expiry = 1600,
     st_chain1_node_count = 4, st_chain2_node_count = 3, st_authorized = True\<rparr>"

definition demo_orch_messages :: "OrchestratorMessage codec" where
  "demo_orch_messages =
     \<lparr>ser = (\<lambda>m. Inr (case m of OmAttestationRequest _ \<Rightarrow> [0] | OmAttestationResponse _ \<Rightarrow> [1] | OmInitiate _ \<Rightarrow> [2]
          | OmInitiateAck _ \<Rightarrow> [3] | OmSessionToken _ \<Rightarrow> [4] | OmHeartbeatPing _ \<Rightarrow> [5] | _ \<Rightarrow> [6])),
      de = (\<lambda>bs. if bs = [0] then Inr (OmAttestationRequest (replicate 32 1))
          else if bs = [1] then Inr (OmAttestationResponse (demo_attestation ''vm1'' 200))
          else if bs = [2] then Inr (OmInitiate \<lparr>si_payload = demo_payload, si_signature = [5]\<rparr>)
          else if bs = [3] then Inr (OmInitiateAck (replicate 32 1))
          else if bs = [4] then Inr (OmSessionToken demo_token)
          else if bs = [5] then Inr (OmHeartbeatPing 1)
          else if bs = [6] then Inr (OmHeartbeatResult 1 True 4 [])
          else Inl (Err ''unknown variant''))\<rparr>"

definition demo_orch :: orch_env where
  "demo_orch = \<lparr>oe_dual = demo_dual\<lparr>de_inits := \<lparr>ser = (\<lambda>_. Inr [1]), de = (\<lambda>_. Inr demo_init)\<rparr>,
        de_responses := demo_responses\<rparr>,
     oe_messages = demo_orch_messages,
     oe_payloads = \<lparr>ser = (\<lambda>_. Inr [1]), de = (\<lambda>_. Inr demo_payload)\<rparr>,
     oe_requests = \<lparr>ser = (\<lambda>_. Inr [1]), de = (\<lambda>_. Inr (Authenticate ''one'' ''two'' 600))\<rparr>,
     oe_responses = \<lparr>ser = (\<lambda>_. Inr [1]), de = (\<lambda>_. Inr (CrStatus False None None))\<rparr>,
     oe_debug = (\<lambda>_. []), oe_tss = demo_tss, oe_sign = (\<lambda>_ _ _. Inr ([5], [6])),
     oe_load_creds = (\<lambda>_. Inr \<lparr>sc_passphrase1_hash = Some ''one'', sc_passphrase2_hash = Some ''two''\<rparr>),
     oe_verify_pass = (\<lambda>p h. Inr (p = h))\<rparr>"

lemma demo_orch_x [simp]: "oe_x demo_orch = demo_ext"
  by (simp add: demo_orch_def demo_dual_def)

lemma demo_orch_init:
  "\<exists>sk xs n s1. key_exchange_init_io (oe_agent demo_orch) ''vm0'' (demo_wire w) = (Inr (demo_init, sk, xs, n), s1) \<and>
     nd_chan s1 = nd_chan (demo_wire w)"
  by (simp add: key_exchange_init_io_def draw_def io_bind_def demo_wire_def demo_init_def map_replicate_trivial
      map_replicate_const generate_key_exchange_init_def split_beta Let_def del: upt_rec_numeral)

lemma demo_draw: "draw n (demo_wire w) = (Inr (replicate n 1), (demo_wire w)\<lparr>nd_entropy_pos := n\<rparr>)"
  by (simp add: draw_def demo_wire_def map_replicate_const)

lemma demo_responds:
  "\<exists>keys. generate_key_exchange_response demo_ext (replicate 32 1) (replicate 32 1) ''vm1'' demo_init = Inr (demo_response, keys)"
proof -
  have "\<exists>sk xs n. generate_key_exchange_init demo_ext (replicate 64 1) (replicate 32 1) (replicate 32 1) ''vm0''
      = Inr (demo_init, sk, xs, n)"
    by (simp add: demo_init_def generate_key_exchange_init_def split_beta Let_def)
  then obtain r keys where "generate_key_exchange_response demo_ext (replicate 32 1) (replicate 32 1) ''vm1'' demo_init = Inr (r, keys)"
    using response_exists [OF demo_kem] by blast
  then show ?thesis by (simp add: demo_response_def)
qed

lemma demo_response_shape:
  "generate_key_exchange_response demo_ext coins b rid i = Inr (r, keys) \<Longrightarrow>
     kxr_responder_id r = rid \<and> length (kxr_kyber_ct r) = 1568 \<and> (\<exists>p. kxr_x25519_pk r = [p])"
  by (auto simp: generate_key_exchange_response_def demo_ext_def Let_def)

lemma demo_response_ser:
  "\<exists>data. ser demo_responses demo_response = Inr data \<and> length data = 1569 \<and> de demo_responses data = Inr demo_response"
proof -
  obtain keys where "generate_key_exchange_response demo_ext (replicate 32 1) (replicate 32 1) ''vm1'' demo_init = Inr (demo_response, keys)"
    using demo_responds by blast
  from demo_response_shape [OF this]
  have "kxr_responder_id demo_response = ''vm1''" "length (kxr_kyber_ct demo_response) = 1568"
    "\<exists>b. kxr_x25519_pk demo_response = [b]" by auto
  then show ?thesis by (auto simp: demo_responses_def)
qed

lemma demo_orch_answer:
  assumes "ser demo_responses demo_response = Inr data"
  shows "\<exists>key t1. perform_vm1_key_exchange demo_orch 0 ''vm1'' (demo_wire (put_le32 1 @ 1 # rest)) = (Inr key, t1) \<and>
     tx (nd_chan t1 0) = put_le32 (length data) @ data"
proof -
  have r: "read_frame nat_of_le e \<lparr>rx = put_le32 1 @ 1 # rest, tx = [], wleft = None\<rparr> = (Inr [1], \<lparr>rx = rest, tx = [], wleft = None\<rparr>)" for e
    using le.read_written_frame [where data = "[1]" and e = e and c = "\<lparr>rx = [], tx = [], wleft = None\<rparr>" and rest = rest]
    by (simp add: max_frame_def)
  obtain keys where "generate_key_exchange_response demo_ext (replicate 32 1) (replicate 32 1) ''vm1'' demo_init = Inr (demo_response, keys)"
    using demo_responds by blast
  then show ?thesis
    using assms
    by (simp add: perform_vm1_key_exchange_def io_bind_def on_chan_def r [unfolded One_nat_def] key_exchange_response_io_def draw_def demo_wire_def
        map_replicate_const write_frame_open demo_orch_def demo_dual_def del: upt_rec_numeral)
qed

section \<open>Properties\<close>

text \<open>
  vm0 and vm1 share a key: when vm1 answers the hello of vm0's key exchange, and vm0 reads the bytes
  vm1 wrote, both end with the same session key, and the hello is what vm0 put on the wire; framing and
  encoding included.
\<close>

theorem orchestrator_handshake_agrees:
  assumes crates: "kem_correct (oe_x E)" "dh_correct (oe_x E)"
    and init: "key_exchange_init_io (oe_agent E) ''vm0'' s = (Inr (init, sk, xs, n), s1)"
    and hello: "ser (de_inits (oe_dual E)) init = Inr hello" "de (de_inits (oe_dual E)) hello = Inr init" "length hello \<le> max_frame"
    and vm1: "perform_vm1_key_exchange E h nid t = (Inr key, t1)" "wleft (nd_chan t h) = None"
      "rx (nd_chan t h) = put_le32 (length hello) @ hello @ rest" "tx (nd_chan t1 h) = tx (nd_chan t h) @ wire"
    and codec: "\<And>r bs. ser (de_responses (oe_dual E)) r = Inr bs \<Longrightarrow> kxr_responder_id r = nid \<Longrightarrow> de (de_responses (oe_dual E)) bs = Inr r"
    and vm0: "length wire \<le> max_frame" "wleft (nd_chan s c) = None" "rx (nd_chan s c) = wire @ rest'"
  shows "fst (perform_orchestrator_key_exchange E c sid s) = Inr key \<and>
     tx (nd_chan (snd (perform_orchestrator_key_exchange E c sid s)) c)
       = tx (nd_chan s c) @ put_le32 (length hello) @ hello"
  unfolding orchestrator_exchange
  by (rule le.exchange_agrees [OF crates init hello vm1 [unfolded vm1_exchange] codec vm0])

theorem orchestrator_handshake_agrees_witness:
  "\<exists>wire key t1. perform_vm1_key_exchange demo_orch 0 ''vm1'' (demo_wire (put_le32 1 @ [1])) = (Inr key, t1) \<and>
     fst (perform_orchestrator_key_exchange demo_orch 0 ''vm0'' (demo_wire wire)) = Inr key"
proof -
  obtain data where d: "ser demo_responses demo_response = Inr data" "length data = 1569" using demo_response_ser by blast
  obtain key t1 where a: "perform_vm1_key_exchange demo_orch 0 ''vm1'' (demo_wire (put_le32 1 @ [1])) = (Inr key, t1)"
    "tx (nd_chan t1 0) = put_le32 (length data) @ data"
    using demo_orch_answer [OF d(1), of "[]"] by blast
  let ?w = "put_le32 (length data) @ data"
  obtain sk xs n s1 where i: "key_exchange_init_io (oe_agent demo_orch) ''vm0'' (demo_wire ?w) = (Inr (demo_init, sk, xs, n), s1)"
    using demo_orch_init by blast
  have "fst (perform_orchestrator_key_exchange demo_orch 0 ''vm0'' (demo_wire ?w)) = Inr key"
  proof (rule conjunct1 [OF orchestrator_handshake_agrees [OF _ _ i _ _ _ a(1), where rest = "[]" and rest' = "[]" and wire = ?w and hello = "[1]"]])
    show "kem_correct (oe_x demo_orch)" "dh_correct (oe_x demo_orch)" by (simp_all add: demo_kem demo_dh)
    show "de (de_responses (oe_dual demo_orch)) bs = Inr r"
      if "ser (de_responses (oe_dual demo_orch)) r = Inr bs" "kxr_responder_id r = ''vm1''" for r bs
      using that by (cases r) (auto simp: demo_orch_def demo_responses_def length_Suc_conv split: if_splits)
  qed (use a(2) d in \<open>simp_all add: demo_wire_def demo_orch_def max_frame_def put_le32_def\<close>)
  with a(1) show ?thesis by blast
qed

text \<open>
  C38.  Conversations between vm0 and vm1 are faithful: any list of messages sent over an open connection is
  what the other end, holding the same key, receives, in order and with no byte left over.
\<close>

theorem orch_conversation:
  assumes "aead_correct (oe_x E)" and "list_all (codec_ok (oe_messages E)) ms"
    and "send_list (send_orch_message E) h key ms s = (Inr (), s')" and "wleft (nd_chan s h) = None"
    and "tx (nd_chan s' h) = tx (nd_chan s h) @ wire" and "length wire \<le> max_frame"
    and "rx (nd_chan t g) = wire @ rest"
  shows "recv_list (recv_orch_message E) g key (length ms) t = (Inr ms, set_rx g rest t)"
proof (rule oc.conversation [OF _ assms(3-7)])
  show "list_all (orch_good E) ms" using assms(1,2) by (auto simp: orch_good_def list_all_iff)
qed

theorem orch_conversation_witness:
  "\<exists>wire. fst (recv_list (recv_orch_message demo_orch) 0 (replicate 32 1) 2 (demo_wire wire))
     = Inr [OmInitiateAck (replicate 32 1), OmSessionToken demo_token]"
proof -
  let ?ms = "[OmInitiateAck (replicate 32 1), OmSessionToken demo_token]"
  let ?r = "send_list (send_orch_message demo_orch) 0 (replicate 32 1) ?ms (demo_wire [])"
  have ok: "?r = (Inr (), snd ?r)" and len: "length (tx (nd_chan (snd ?r) 0)) = 36"
    by (simp_all add: send_orch_message_def encrypt_io_def draw_def io_bind_def encrypt_def on_chan_def
        write_frame_open demo_wire_def demo_orch_def demo_dual_def demo_orch_messages_def demo_ext_def put_le32_def)
  let ?w = "tx (nd_chan (snd ?r) 0)"
  have "list_all (codec_ok (oe_messages demo_orch)) ?ms"
    by (simp add: codec_ok_def demo_orch_def demo_orch_messages_def)
  from orch_conversation [OF _ this ok, of ?w "demo_wire ?w" 0 "[]"] len show ?thesis
    by (auto simp: demo_aead demo_wire_def max_frame_def numeral_2_eq_2 intro!: exI [of _ ?w])
qed

end
