(* ===== verification/Audit_Record.thy ===== *)
theory Audit_Record
  imports Attest_Verify
begin

text \<open>
  Audit records (\<open>mfa-agent/src/audit/mod.rs\<close>): the metadata kept of an attestation, the conversion of
  a verification result into a record by parsing its detail string, the classification into forensic
  tiers and the forensic capture.  Lemmas: what the parsers recover of the texts the verifier prints,
  and a declarative reading of the tier.
\<close>

section \<open>Data\<close>

record AttestationMeta =
  am_node_id :: string
  am_timestamp :: u64
  am_tpm_quote_bytes :: u64
  am_tpm_signature_bytes :: u64
  am_ak_public_bytes :: u64
  am_tpm_signed :: bool
  am_pcr_count :: u64
  am_ima_count :: u64
  am_ima_aggregate_hash :: string
  am_ima_pcr10 :: string
  am_process_count :: u64
  am_network_connections :: u64
  am_xdp_attached :: "bool option"
  am_userspace_process_count :: "u64 option"
  am_userspace_processes :: "string list option"
  am_kernel_thread_types :: "string list option"
  am_connection_tuples :: "string list option"
  am_binary_hashes :: "string list option"
  am_init_active_scripts :: "string list option"
  am_init_inactive_scripts :: "string list option"
  am_init_scripts_hash :: "string option"
  am_kernel_thread_type_count :: "u64 option"
  am_kernel_modules_count :: "u64 option"
  am_connection_tuple_count :: "u64 option"
  am_passwd_content :: "string option"
  am_shadow_content :: "string option"
  am_sshd_config_content :: "string option"
  am_authorized_keys_content :: "string option"
  am_ld_preload_content :: "string option"
  am_boot_params_content :: "string option"
  am_dev_inventory_list :: "string list option"
  am_iptables_content :: "string option"
  am_mount_content :: "string option"
  am_sysctl_content :: "string option"
  am_entropy_available :: "u32 option"
  am_xdp_passed :: "u64 option"
  am_xdp_drop_entropy :: "u64 option"
  am_xdp_drop_protocol :: "u64 option"
  am_xdp_drop_port :: "u64 option"
  am_xdp_total :: "u64 option"
  am_xdp_exempt :: "u64 option"
  am_xdp_entropy_histogram :: "u64 list option"
  am_xdp_size_histogram :: "u64 list option"

datatype AuditEvent =
  ChainVerified | ChainDenied | HeartbeatOk | HeartbeatFail | SessionRevoked | AgentStarted | SessionEnded

fun event_name :: "AuditEvent \<Rightarrow> string" where
  "event_name ChainVerified = ''CHAIN_VERIFIED''"
| "event_name ChainDenied = ''CHAIN_DENIED''"
| "event_name HeartbeatOk = ''HEARTBEAT_OK''"
| "event_name HeartbeatFail = ''HEARTBEAT_FAIL''"
| "event_name SessionRevoked = ''SESSION_REVOKED''"
| "event_name AgentStarted = ''AGENT_STARTED''"
| "event_name SessionEnded = ''SESSION_ENDED''"

record NodeAuditRecord =
  na_node :: string
  na_chain :: u8
  na_pass :: bool
  na_pcr_match :: bool
  na_pcr_mismatch_indices :: "bytes option"
  na_ima_valid :: bool
  na_ima_count :: u64
  na_ima_delta :: "int option"
  na_userspace_ok :: bool
  na_userspace_count :: u64
  na_userspace_diff :: "string list option"
  na_kernel_threads_ok :: bool
  na_kernel_thread_count :: u64
  na_kernel_thread_diff :: "string list option"
  na_masquerade_detected :: bool
  na_masquerade_details :: "string list option"
  na_kernel_modules_empty :: bool
  na_kernel_modules_loaded :: "string list option"
  na_connections_ok :: bool
  na_connection_count :: u64
  na_connection_diff :: "string list option"
  na_fw_ok :: bool
  na_bin_ok :: bool
  na_ports_ok :: bool
  na_ports :: "u16 list"
  na_mnt_ok :: bool
  na_cfg_ok :: bool
  na_sys_ok :: bool
  na_xdp_attached :: bool
  na_passwd_ok :: bool
  na_ssh_ok :: bool
  na_ld_preload_safe :: bool
  na_boot_params_ok :: bool
  na_dev_inventory_ok :: bool
  na_entropy_available :: "u32 option"
  na_sysmon_active :: bool
  na_sysmon_hooks :: "u64 option"
  na_sysmon_anomaly :: bool
  na_sysmon_unloaded :: bool
  na_sysmon_exec_delta :: "u64 option"
  na_sysmon_ptrace_delta :: "u64 option"
  na_sysmon_mount_delta :: "u64 option"
  na_sysmon_conn_delta :: "u64 option"
  na_sysmon_sock_delta :: "u64 option"
  na_fd_ok :: bool
  na_fd_count :: u64
  na_kern_ok :: bool
  na_kern_details :: "string option"
  na_init_ok :: bool
  na_init_count :: u64
  na_init_unused :: u64
  na_sig_valid :: bool
  na_ak_match :: bool
  na_raw_details :: string

datatype ForensicTier = Info | Warning | Critical

fun tier_name :: "ForensicTier \<Rightarrow> string" where
  "tier_name Info = ''INFO''"
| "tier_name Warning = ''WARNING''"
| "tier_name Critical = ''CRITICAL''"

text \<open>The derived order: \<open>Info < Warning < Critical\<close>.\<close>

fun tier_rank :: "ForensicTier \<Rightarrow> nat" where
  "tier_rank Info = 0"
| "tier_rank Warning = 1"
| "tier_rank Critical = 2"

instantiation ForensicTier :: linorder
begin

definition less_eq_ForensicTier :: "ForensicTier \<Rightarrow> ForensicTier \<Rightarrow> bool" where
  "less_eq_ForensicTier a b = (tier_rank a \<le> tier_rank b)"

definition less_ForensicTier :: "ForensicTier \<Rightarrow> ForensicTier \<Rightarrow> bool" where
  "less_ForensicTier a b = (tier_rank a < tier_rank b)"

instance
proof
  fix a b :: ForensicTier
  show "a \<le> b \<Longrightarrow> b \<le> a \<Longrightarrow> a = b"
    by (cases a; cases b) (simp_all add: less_eq_ForensicTier_def)
qed (auto simp: less_eq_ForensicTier_def less_ForensicTier_def)

end

record ForensicCapture =
  fc_tier :: string
  fc_trigger_nodes :: "string list"
  fc_trigger_checks :: "string list"
  fc_node_details :: "string list option"
  fc_local_snapshot :: "NodeForensicData option"

section \<open>Metadata of an attestation\<close>

definition extract_attestation_meta :: "Attestation \<Rightarrow> AttestationMeta" where
  "extract_attestation_meta att =
     (let q = att_tpm_quote att; s = tq_ebpf_state q in
        \<lparr>am_node_id = att_vm_identity att,
          am_timestamp = att_timestamp att,
          am_tpm_quote_bytes = word_of_nat (length (tq_quote_data q)),
          am_tpm_signature_bytes = word_of_nat (length (tq_signature q)),
          am_ak_public_bytes = word_of_nat (length (tq_ak_public q)),
          am_tpm_signed = (tq_quote_data q \<noteq> [] \<and> tq_signature q \<noteq> []),
          am_pcr_count = word_of_nat (length (tq_pcr_values q)),
          am_ima_count = ima_count (tq_ima_measurements q),
          am_ima_aggregate_hash = hex_encode (ima_aggregate_hash (tq_ima_measurements q)),
          am_ima_pcr10 = hex_encode (ima_pcr10_value (tq_ima_measurements q)),
          am_process_count = es_process_count s,
          am_network_connections = es_network_connections s,
          am_xdp_attached = es_xdp_attached s,
          am_userspace_process_count = map_option (\<lambda>p. word_of_nat (length p)) (es_userspace_processes s),
          am_userspace_processes = map_option (map (\<lambda>p. pi_comm p @ '' ('' @ pi_exe_path p @ '')'')) (es_userspace_processes s),
          am_kernel_thread_types = es_kernel_thread_types s,
          am_connection_tuples = es_connection_tuples s,
          am_binary_hashes = map_option (map (\<lambda>(path, hash). path @ '': '' @ hex_encode hash)) (es_binary_hashes s),
          am_init_active_scripts = map_option ii_active_scripts (es_init_integrity s),
          am_init_inactive_scripts = map_option ii_inactive_scripts (es_init_integrity s),
          am_init_scripts_hash = Option.bind (es_init_integrity s) (\<lambda>i. map_option hex_encode (ii_init_scripts_hash i)),
          am_kernel_thread_type_count = map_option (\<lambda>t. word_of_nat (length t)) (es_kernel_thread_types s),
          am_kernel_modules_count = map_option (\<lambda>m. word_of_nat (length m)) (es_kernel_modules s),
          am_connection_tuple_count = map_option (\<lambda>c. word_of_nat (length c)) (es_connection_tuples s),
          am_passwd_content = es_passwd_content s,
          am_shadow_content = es_shadow_content s,
          am_sshd_config_content = es_sshd_config_content s,
          am_authorized_keys_content = es_authorized_keys_content s,
          am_ld_preload_content = es_ld_preload_content s,
          am_boot_params_content = es_boot_params_content s,
          am_dev_inventory_list = es_dev_inventory_list s,
          am_iptables_content = es_iptables_content s,
          am_mount_content = es_mount_content s,
          am_sysctl_content = es_sysctl_content s,
          am_entropy_available = es_entropy_available s,
          am_xdp_passed = map_option xs_passed (es_xdp_stats s),
          am_xdp_drop_entropy = map_option xs_drop_entropy (es_xdp_stats s),
          am_xdp_drop_protocol = map_option xs_drop_protocol (es_xdp_stats s),
          am_xdp_drop_port = map_option xs_drop_port (es_xdp_stats s),
          am_xdp_total = map_option xs_total (es_xdp_stats s),
          am_xdp_exempt = map_option xs_exempt (es_xdp_stats s),
          am_xdp_entropy_histogram = map_option xs_entropy_histogram (es_xdp_stats s),
          am_xdp_size_histogram = map_option xs_size_histogram (es_xdp_stats s)\<rparr>)"

section \<open>Parsers of the detail string\<close>

text \<open>\<open>rest[..rest.find(|c| !P c).unwrap_or(rest.len())]\<close> is \<open>takeWhile P rest\<close>.\<close>

definition parse_field_usize :: "string \<Rightarrow> string \<Rightarrow> nat option" where
  "parse_field_usize details pre =
     (case str_after pre details of
        None \<Rightarrow> None
      | Some rest \<Rightarrow>
          (let digits = takeWhile is_digit rest in
           if digits = [] then None else parse_unsigned 64 digits))"

definition parse_sysmon_delta :: "string \<Rightarrow> string \<Rightarrow> u64 option" where
  "parse_sysmon_delta details pre = map_option word_of_nat (parse_field_usize details pre)"

definition parse_parenthesized_count :: "string \<Rightarrow> string \<Rightarrow> nat option" where
  "parse_parenthesized_count details pre =
     (case str_after pre details of
        None \<Rightarrow> None
      | Some rest \<Rightarrow>
          (let body = takeWhile (\<lambda>c. c \<noteq> CHR '')'') rest in
           if body = [] then None else parse_unsigned 64 body))"

definition parse_signed_at :: "string \<Rightarrow> string \<Rightarrow> int option option" where
  "parse_signed_at details pre =
     (case str_after pre details of
        None \<Rightarrow> None
      | Some rest \<Rightarrow>
          (let body = takeWhile (\<lambda>c. is_digit c \<or> c = CHR ''-'') rest in
           if body = [] then None else Some (parse_i64 body)))"

text \<open>The first of the two markers that is followed by a number decides.\<close>

definition parse_ima_delta :: "string \<Rightarrow> int option" where
  "parse_ima_delta details =
     (case parse_signed_at details ''/d+'' of
        Some r \<Rightarrow> r
      | None \<Rightarrow>
          (if str_contains ''/first'' details then None
           else case parse_signed_at details ''delta='' of Some r \<Rightarrow> r | None \<Rightarrow> None))"

definition parse_port_list :: "string \<Rightarrow> u16 list" where
  "parse_port_list body =
     concat (map (\<lambda>s. case parse_unsigned 16 (str_trim s) of None \<Rightarrow> [] | Some n \<Rightarrow> [word_of_nat n])
       (str_split (CHR '','') body))"

text \<open>The list between an opening marker and the next \<open>]\<close>, if both are there.\<close>

definition ports_after :: "string \<Rightarrow> string \<Rightarrow> u16 list" where
  "ports_after details pre =
     (case str_after pre details of
        None \<Rightarrow> []
      | Some rest \<Rightarrow>
          (if CHR '']'' \<in> set rest then parse_port_list (takeWhile (\<lambda>c. c \<noteq> CHR '']'') rest) else []))"

definition parse_ports :: "string \<Rightarrow> u16 list" where
  "parse_ports details = ports_after details ''PORTS:[''"

function parse_pcr_mismatches :: "string \<Rightarrow> u8 list" where
  "parse_pcr_mismatches search =
     (case str_find ''PCR'' search of
        None \<Rightarrow> []
      | Some pos \<Rightarrow>
          (let rest = drop (pos + 3) search;
               number = takeWhile (\<lambda>c. c \<noteq> CHR '' '') rest;
               found = (if CHR '' '' \<in> set rest
                        then (case parse_unsigned 8 number of
                                None \<Rightarrow> []
                              | Some idx \<Rightarrow> (if prefix '' MISMATCH'' (drop (length number) rest)
                                           then [word_of_nat idx] else []))
                        else [])
           in if rest = [] then found else found @ parse_pcr_mismatches rest))"
  by pat_completeness auto
termination
proof (relation "measure length")
  fix search pos and rest :: string
  assume "str_find ''PCR'' search = Some pos" "rest = drop (pos + 3) search" "rest \<noteq> []"
  then show "(rest, search) \<in> measure length" by (cases search) auto
qed simp

declare parse_pcr_mismatches.simps [simp del]

definition extract_diff_entries :: "string \<Rightarrow> string \<Rightarrow> string list" where
  "extract_diff_entries details pre =
     (case str_after pre details of
        None \<Rightarrow> []
      | Some rest \<Rightarrow>
          filter (\<lambda>s. s \<noteq> []) (map str_trim
            (takeWhile (\<lambda>s. prefix ''+'' (str_trim s) \<or> prefix ''-'' (str_trim s))
              (str_split (CHR '';'') rest))))"

definition extract_section :: "string \<Rightarrow> string \<Rightarrow> string list" where
  "extract_section details pre =
     (case str_after pre details of
        None \<Rightarrow> []
      | Some rest \<Rightarrow>
          [str_trim (case str_find ''; '' rest of None \<Rightarrow> rest | Some i \<Rightarrow> take i rest)])"

section \<open>From a verification result to a record\<close>

definition first_of :: "'a option \<Rightarrow> 'a option \<Rightarrow> 'a option" where
  "first_of a b = (case a of None \<Rightarrow> b | Some x \<Rightarrow> Some x)"

definition audit_ima_count :: "string \<Rightarrow> nat" where
  "audit_ima_count d =
     unwrap_or 0 (first_of (parse_field_usize d ''IMA:'')
       (case str_find ''IMA SPIKE:'' d of
          Some pos \<Rightarrow> parse_field_usize (drop pos d) ''cur=''
        | None \<Rightarrow>
            (case str_find ''IMA TAMPER:'' d of
               Some pos \<Rightarrow> parse_field_usize (drop pos d) ''cur=''
             | None \<Rightarrow> parse_field_usize d ''IMA LOW: '')))"

definition audit_userspace_count :: "string \<Rightarrow> nat" where
  "audit_userspace_count d =
     (case parse_parenthesized_count d ''USR:OK('' of
        Some n \<Rightarrow> n
      | None \<Rightarrow> (if str_contains ''USERSPACE CHANGED'' d then str_count ''+('' d + str_count ''-('' d else 0))"

definition audit_diff :: "string \<Rightarrow> string \<Rightarrow> string list option" where
  "audit_diff d pre = (if str_contains pre d then Some (extract_diff_entries d pre) else None)"

definition audit_section :: "string \<Rightarrow> string \<Rightarrow> string list option" where
  "audit_section d pre = (if str_contains pre d then Some (extract_section d pre) else None)"

definition audit_connection_count :: "string \<Rightarrow> nat" where
  "audit_connection_count d =
     (case parse_parenthesized_count d ''CONN:OK('' of
        Some n \<Rightarrow> n
      | None \<Rightarrow>
          (if str_contains ''CONN CHANGED'' d \<or> str_contains ''CONN ANOMALY'' d
           then (case str_find ''CONN CHANGED:'' d of
                   None \<Rightarrow> 1
                 | Some pos \<Rightarrow> count_list (drop pos d) (CHR ''+'') + count_list (drop pos d) (CHR ''-''))
           else 0))"

definition audit_fd_count :: "string \<Rightarrow> nat" where
  "audit_fd_count d =
     unwrap_or 0 (first_of (parse_parenthesized_count d ''FD:OK('')
       (case str_after ''FD:ANOMALY('' d of
          None \<Rightarrow> None
        | Some rest \<Rightarrow>
            (case str_after ''has '' rest of
               None \<Rightarrow> None
             | Some num_rest \<Rightarrow>
                 (let digits = takeWhile is_digit num_rest in
                  if digits = [] \<or> digits = num_rest then None else parse_unsigned 64 digits))))"

definition audit_kern_details :: "string \<Rightarrow> string option" where
  "audit_kern_details d =
     map_option (\<lambda>pos. takeWhile (\<lambda>c. c \<noteq> CHR '';'') (drop pos d)) (str_find ''KERN:'' d)"

definition audit_ports :: "string \<Rightarrow> u16 list" where
  "audit_ports d = (let ports = parse_ports d in if ports = [] then ports_after d ''got ['' else ports)"

definition node_to_audit_record :: "NodeVerificationResult \<Rightarrow> u8 \<Rightarrow> NodeAuditRecord" where
  "node_to_audit_record nr chain =
     (let d = nvr_details nr; has = (\<lambda>p. str_contains p d); pcr_mismatches = parse_pcr_mismatches d in
        \<lparr>na_node = nvr_vm_identity nr,
          na_chain = chain,
          na_pass = node_passes nr,
          na_pcr_match = nvr_pcr_match nr,
          na_pcr_mismatch_indices = (if pcr_mismatches = [] then None else Some pcr_mismatches),
          na_ima_valid = nvr_ima_valid nr,
          na_ima_count = word_of_nat (audit_ima_count d),
          na_ima_delta = parse_ima_delta d,
          na_userspace_ok = (has ''USR:OK'' \<or> has ''USR:no_baseline''),
          na_userspace_count = word_of_nat (audit_userspace_count d),
          na_userspace_diff = audit_diff d ''USERSPACE CHANGED:'',
          na_kernel_threads_ok = (has ''KTH:OK'' \<or> has ''KTH:no_baseline''),
          na_kernel_thread_count = word_of_nat (unwrap_or 0 (parse_parenthesized_count d ''KTH:OK('')),
          na_kernel_thread_diff = audit_diff d ''KTHREAD CHANGED:'',
          na_masquerade_detected = has ''MASQUERADE:'',
          na_masquerade_details = audit_section d ''MASQUERADE:'',
          na_kernel_modules_empty = (has ''MOD:empty'' \<or> \<not> has ''KERNEL MODULES LOADED''),
          na_kernel_modules_loaded = audit_section d ''KERNEL MODULES LOADED:'',
          na_connections_ok = (has ''CONN:OK'' \<or> has ''CONN:no_baseline''),
          na_connection_count = word_of_nat (audit_connection_count d),
          na_connection_diff = audit_diff d ''CONN CHANGED:'',
          na_fw_ok = has ''FW:OK'',
          na_bin_ok = has ''BIN:OK'',
          na_ports_ok = (\<not> has ''PORTS CHANGED''),
          na_ports = audit_ports d,
          na_mnt_ok = has ''MNT:OK'',
          na_cfg_ok = has ''CFG:OK'',
          na_sys_ok = has ''SYS:OK'',
          na_xdp_attached = has ''XDP:OK'',
          na_passwd_ok = (has ''PASSWD:OK'' \<or> \<not> has ''PASSWD CHANGED''),
          na_ssh_ok = (has ''SSH:OK'' \<or> \<not> has ''SSH CONFIG CHANGED''),
          na_ld_preload_safe = (\<not> has ''LD_PRELOAD ROOTKIT''),
          na_boot_params_ok = (has ''BOOT:OK'' \<or> \<not> has ''BOOT PARAMS CHANGED''),
          na_dev_inventory_ok = (has ''DEV:OK'' \<or> \<not> has ''DEV INVENTORY CHANGED''),
          na_entropy_available = map_option word_of_nat (first_of (parse_field_usize d ''ENT:'') (parse_field_usize d ''ENT:LOW('')),
          na_sysmon_active = (has ''SYSMON:OK'' \<or> has ''SYSMON:ANOMALY''),
          na_sysmon_hooks = map_option word_of_nat (parse_field_usize d ''SYSMON:OK(hooks:''),
          na_sysmon_anomaly = has ''SYSMON:ANOMALY'',
          na_sysmon_unloaded = has ''SYSMON:UNLOADED'',
          na_sysmon_exec_delta = parse_sysmon_delta d ''exec:+'',
          na_sysmon_ptrace_delta = parse_sysmon_delta d ''ptrace:+'',
          na_sysmon_mount_delta = parse_sysmon_delta d ''mount:+'',
          na_sysmon_conn_delta = first_of (parse_sysmon_delta d ''conn:+'') (parse_sysmon_delta d ''unauth_conn:+''),
          na_sysmon_sock_delta = first_of (parse_sysmon_delta d ''sock:+'') (parse_sysmon_delta d ''exotic_sock:+''),
          na_fd_ok = has ''FD:OK'',
          na_fd_count = word_of_nat (audit_fd_count d),
          na_kern_ok = has ''KERN:OK'',
          na_kern_details = audit_kern_details d,
          na_init_ok = has ''INIT:OK'',
          na_init_count = word_of_nat (unwrap_or 0 (parse_parenthesized_count d ''INIT:OK('')),
          na_init_unused = word_of_nat (unwrap_or 0 (parse_parenthesized_count d ''INIT:UNUSED('')),
          na_sig_valid = nvr_signature_valid nr,
          na_ak_match = nvr_ak_match nr,
          na_raw_details = nvr_details nr\<rparr>)"

section \<open>Forensic tiers\<close>

definition fully_ok :: "NodeAuditRecord \<Rightarrow> bool" where
  "fully_ok n \<longleftrightarrow> na_pass n \<and> na_fw_ok n \<and> na_passwd_ok n \<and> na_ssh_ok n
     \<and> na_ld_preload_safe n \<and> na_boot_params_ok n \<and> na_dev_inventory_ok n
     \<and> na_mnt_ok n \<and> na_cfg_ok n \<and> na_sys_ok n \<and> na_init_ok n
     \<and> na_xdp_attached n \<and> \<not> na_sysmon_anomaly n \<and> \<not> na_sysmon_unloaded n
     \<and> na_fd_ok n \<and> na_kern_ok n \<and> na_userspace_ok n \<and> na_connections_ok n
     \<and> na_ports_ok n"

text \<open>One round of the loop: \<open>Inl\<close> is an early \<open>return\<close>, \<open>Inr\<close> the tier to go on with.\<close>

definition classify_node :: "ForensicTier \<Rightarrow> NodeAuditRecord \<Rightarrow> ForensicTier + ForensicTier" where
  "classify_node tier n =
     (if fully_ok n then Inr tier
      else if \<not> na_pcr_match n \<or> \<not> na_ak_match n \<or> \<not> na_bin_ok n \<or> \<not> na_fw_ok n \<or> \<not> na_sys_ok n then Inl Critical
      else if na_masquerade_detected n then Inl Critical
      else if \<not> na_kernel_modules_empty n then Inl Critical
      else if \<not> na_xdp_attached n then Inl Critical
      else if na_sysmon_unloaded n then Inl Critical
      else if na_sysmon_anomaly n then Inl Warning
      else if \<not> na_fd_ok n then Inl Warning
      else if \<not> na_kern_ok n then Inl Critical
      else if \<not> na_init_ok n then Inl Critical
      else if \<not> na_ld_preload_safe n then Inl Critical
      else if \<not> na_passwd_ok n then Inl Critical
      else if \<not> na_ssh_ok n then Inl Critical
      else if \<not> na_boot_params_ok n then Inl Critical
      else if \<not> na_ima_valid n \<and> (case na_ima_delta n of None \<Rightarrow> False | Some delta \<Rightarrow> delta < 0) then Inl Critical
      else
        (let tier = (if \<not> na_userspace_ok n \<or> \<not> na_kernel_threads_ok n \<or> \<not> na_connections_ok n then Warning else tier);
             tier = (if \<not> na_mnt_ok n \<or> \<not> na_cfg_ok n \<or> \<not> na_ports_ok n then Warning else tier);
             tier = (if \<not> na_dev_inventory_ok n then Warning else tier);
             tier = (if \<not> na_ima_valid n \<and> tier < Warning then Warning else tier)
         in Inr tier))"

fun classify_from :: "ForensicTier \<Rightarrow> NodeAuditRecord list \<Rightarrow> ForensicTier" where
  "classify_from tier [] = tier"
| "classify_from tier (n # ns) = (case classify_node tier n of Inl t \<Rightarrow> t | Inr tier' \<Rightarrow> classify_from tier' ns)"

definition classify_tier :: "NodeAuditRecord list \<Rightarrow> ForensicTier" where
  "classify_tier nodes = classify_from Info nodes"

section \<open>Forensic capture\<close>

definition trigger_checks :: "NodeAuditRecord \<Rightarrow> string list" where
  "trigger_checks n = map (\<lambda>(_, text). na_node n @ text) (filter fst
      [(\<not> na_pcr_match n, '': PCR mismatch''),
       (\<not> na_bin_ok n, '': binary tampered''),
       (\<not> na_fw_ok n, '': iptables changed''),
       (\<not> na_sys_ok n, '': sysctl changed''),
       (\<not> na_ak_match n, '': AK mismatch''),
       (\<not> na_sig_valid n, '': signature invalid''),
       (\<not> na_ima_valid n, '': IMA anomaly''),
       (\<not> na_userspace_ok n, '': userspace changed''),
       (\<not> na_kernel_threads_ok n, '': kernel threads changed''),
       (na_masquerade_detected n, '': MASQUERADE''),
       (\<not> na_kernel_modules_empty n, '': kernel modules loaded''),
       (\<not> na_connections_ok n, '': connections changed''),
       (\<not> na_mnt_ok n, '': mounts changed''),
       (\<not> na_cfg_ok n, '': config tampered''),
       (\<not> na_ports_ok n, '': ports changed''),
       (\<not> na_xdp_attached n, '': XDP DETACHED''),
       (\<not> na_passwd_ok n, '': PASSWD CHANGED''),
       (\<not> na_ssh_ok n, '': SSH CONFIG CHANGED''),
       (\<not> na_ld_preload_safe n, '': LD_PRELOAD ROOTKIT''),
       (\<not> na_boot_params_ok n, '': BOOT PARAMS CHANGED''),
       (\<not> na_dev_inventory_ok n, '': DEV INVENTORY CHANGED'')])"

text \<open>\<open>snapshot\<close> is what \<open>ebpf::collect_forensic_snapshot\<close> returns.\<close>

definition build_forensic_capture ::
  "NodeForensicData \<Rightarrow> ForensicTier \<Rightarrow> NodeAuditRecord list \<Rightarrow> bool \<Rightarrow> ForensicCapture option" where
  "build_forensic_capture snapshot tier nodes collect_snapshot =
     (if tier = Info then None
      else
        (let failing = filter (\<lambda>n. \<not> na_pass n) nodes;
             node_details = map (\<lambda>n. ''['' @ na_node n @ ''] '' @ na_raw_details n) failing
         in Some \<lparr>fc_tier = tier_name tier, fc_trigger_nodes = map na_node failing,
                  fc_trigger_checks = concat (map trigger_checks failing),
                  fc_node_details = (if node_details = [] then None else Some node_details),
                  fc_local_snapshot = (if collect_snapshot then Some snapshot else None)\<rparr>))"

section \<open>Lemmas on tiers\<close>

definition node_tier :: "NodeAuditRecord \<Rightarrow> ForensicTier" where
  "node_tier n = (case classify_node Info n of Inl t \<Rightarrow> t | Inr t \<Rightarrow> t)"

text \<open>The two checks that return \<open>Warning\<close> at once, before the critical checks that follow them.\<close>

definition cuts_short :: "NodeAuditRecord \<Rightarrow> bool" where
  "cuts_short n \<longleftrightarrow> classify_node Info n = Inl Warning"

lemma tier_le [simp]: "Info \<le> t" "t \<le> Critical" "\<not> t < Info"
  by (cases t; simp add: less_eq_ForensicTier_def less_ForensicTier_def)+

lemma tier_less [simp]: "Info < Warning" "Warning < Critical" "Info < Critical"
  by (simp_all add: less_ForensicTier_def)

lemma tier_max [simp]: "max Info t = t" "max t Info = t" "max Critical t = Critical" "max t Critical = Critical"
  "max Warning Warning = Warning"
  by (simp_all add: max_absorb1 max_absorb2)

lemma classify_node_tier:
  "classify_node t n = (case classify_node Info n of Inl r \<Rightarrow> Inl r | Inr r \<Rightarrow> Inr (max t r))"
  if "t \<noteq> Critical"
  using that by (cases t) (simp_all add: classify_node_def Let_def)

lemma classify_node_not_critical: "t \<noteq> Critical \<Longrightarrow> classify_node t n \<noteq> Inr Critical"
  by (simp add: classify_node_def Let_def)

lemma classify_node_not_info: "classify_node t n \<noteq> Inl Info"
  by (simp add: classify_node_def Let_def)

lemma classify_from_bound:
  "t \<noteq> Critical \<Longrightarrow> classify_from t ns \<le> fold max (map node_tier ns) t"
proof (induction ns arbitrary: t)
  case Nil
  then show ?case by simp
next
  case (Cons n ns)
  have ge: "a \<le> fold max (map node_tier ns) a" for a
  proof (induction ns arbitrary: a)
    case (Cons m ms)
    from Cons [of "max (node_tier m) a"] show ?case by simp
  qed simp
  show ?case
  proof (cases "classify_node Info n")
    case (Inl r)
    then have "classify_from t (n # ns) = r" using classify_node_tier [OF Cons.prems] by simp
    moreover have "r \<le> fold max (map node_tier ns) (max (node_tier n) t)"
      using ge [of "max r t"] Inl by (auto simp: node_tier_def intro: order_trans [OF max.cobounded1])
    ultimately show ?thesis by simp
  next
    case (Inr r)
    then have st: "classify_node t n = Inr (max t r)" using classify_node_tier [OF Cons.prems] Cons.prems by simp
    with Cons.IH [of "max t r"] classify_node_not_critical [OF Cons.prems, of n] Inr show ?thesis
      by (simp add: node_tier_def max.commute)
  qed
qed

lemma classify_from_exact:
  "t \<noteq> Critical \<Longrightarrow> \<forall>n \<in> set ns. \<not> cuts_short n \<Longrightarrow> classify_from t ns = fold max (map node_tier ns) t"
proof (induction ns arbitrary: t)
  case Nil
  then show ?case by simp
next
  case (Cons n ns)
  have crit: "fold max (map node_tier ns) Critical = Critical" by (induction ns) auto
  show ?case
  proof (cases "classify_node Info n")
    case (Inl r)
    have "r = Critical"
      using Inl Cons.prems(2) classify_node_not_info [of Info n] by (cases r) (auto simp: cuts_short_def)
    moreover from this have "node_tier n = Critical" using Inl by (simp add: node_tier_def)
    ultimately show ?thesis using Inl classify_node_tier [OF Cons.prems(1)] crit by simp
  next
    case (Inr r)
    then have st: "classify_node t n = Inr (max t r)" using classify_node_tier [OF Cons.prems(1)] Cons.prems(1) by simp
    with Cons.IH [of "max t r"] classify_node_not_critical [OF Cons.prems(1), of n] Cons.prems(2) Inr show ?thesis
      by (simp add: node_tier_def max.commute)
  qed
qed

section \<open>Lemmas on the texts\<close>

lemma parse_field_first:
  assumes "p \<noteq> []" and "hd p \<notin> set s" and "t = [] \<or> \<not> is_digit (hd t)" and "n < 2 ^ 64"
  shows "parse_field_usize (s @ p @ show_nat n @ t) p = Some n"
  using assms
  by (simp add: parse_field_usize_def str_after_first takeWhile_digits_show parse_unsigned_show)

lemma show_no_letter: "c \<in> {CHR ''I'', CHR ''/''} \<Longrightarrow> c \<notin> set (show_nat n)"
  by (rule not_digit_show) (auto simp: is_digit_def)

text \<open>How the detail string of a node that passes the PCR and count checks begins.\<close>

definition details_head :: "nat \<Rightarrow> u64 \<Rightarrow> string \<Rightarrow> string" where
  "details_head pcrs count rest = show_nat pcrs @ '' PCRs match; '' @ ''IMA:'' @ show_word count @ rest"

lemma details_shape:
  assumes known: "get_baseline db (att_vm_identity att) = Some bl"
    and pcrs: "nvr_pcr_match (verify_attestation V db att (Some prev) pa ps)"
    and count: "fst (check_ima_count (Some prev) (ima_count (tq_ima_measurements (att_tpm_quote att))))"
  shows "\<exists>rest. nvr_details (verify_attestation V db att (Some prev) pa ps) =
     details_head (length (tq_pcr_values (att_tpm_quote att))) (ima_count (tq_ima_measurements (att_tpm_quote att)))
       (''/d+'' @ show_int (sint (ima_count (tq_ima_measurements (att_tpm_quote att)) - prev)) @ ''; '' @ rest)"
proof -
  let ?q = "att_tpm_quote att" let ?n = "ima_count (tq_ima_measurements (att_tpm_quote att))"
  have p: "check_pcrs bl ?q = (True, [show_nat (length (tq_pcr_values ?q)) @ '' PCRs match''])"
    using pcrs by (auto simp: verify_attestation_known [OF known] check_pcrs_def Let_def)
  have c: "check_ima_count (Some prev) ?n =
      (True, [''IMA:'' @ show_word ?n @ ''/d+'' @ show_int (sint (?n - prev))])"
    using count by (auto simp: check_ima_count_def Let_def split: if_splits)
  have "snd (check_ima_aggregate (ve_x V) (Some prev) pa (tq_ima_measurements ?q)) @
      check_ebpf V ps (tq_ebpf_state ?q) (bl_ebpf_baseline bl) @ snd (check_ak bl ?q) @ snd (check_signature V ?q) \<noteq> []"
    by (auto simp: check_ak_def split: option.splits if_splits)
  then show ?thesis
    using known p c
    by (simp add: verify_attestation_def Let_def split_beta str_join_Cons details_head_def)
qed

lemma audit_ima_count_head:
  assumes "rest = [] \<or> \<not> is_digit (hd rest)"
  shows "audit_ima_count (details_head k n rest) = unat n"
proof -
  have "unat n < 2 ^ 64" using unsigned_less [of n] by simp
  then show ?thesis
    using parse_field_first [of "''IMA:''" "show_nat k @ '' PCRs match; ''" rest "unat n"]
      show_no_letter [of _ k] assms
    by (simp add: audit_ima_count_def details_head_def show_word_def first_of_def)
qed

lemma parse_ima_delta_head:
  assumes "0 \<le> i" and "i < 2 ^ 63" and "rest \<noteq> []" and "\<not> is_digit (hd rest)" and "hd rest \<noteq> CHR ''-''"
  shows "parse_ima_delta (details_head k n (''/d+'' @ show_int i @ rest)) = Some i"
proof -
  have slash: "hd ''/d+'' \<notin> set (show_nat k @ '' PCRs match; '' @ ''IMA:'' @ show_word n)"
    using show_no_letter by (simp add: show_word_def)
  have int: "show_int i = show_nat (nat i)" using assms(1) by (simp add: show_int_def)
  have "str_after ''/d+'' ((show_nat k @ '' PCRs match; '' @ ''IMA:'' @ show_word n) @ ''/d+'' @ show_nat (nat i) @ rest)
      = Some (show_nat (nat i) @ rest)"
    by (rule str_after_first [OF _ slash]) simp
  moreover have "takeWhile (\<lambda>c. is_digit c \<or> c = CHR ''-'') (show_nat (nat i) @ rest) = show_nat (nat i)"
  proof -
    have "\<forall>c \<in> set (show_nat (nat i)). is_digit c \<or> c = CHR ''-''" using show_nat_set by blast
    with assms(3-5) show ?thesis by (cases rest) (auto simp: takeWhile_append)
  qed
  moreover have "parse_i64 (show_nat (nat i)) = Some i"
    using parse_i64_show [of "nat i"] assms(1,2) by (simp add: nat_less_iff)
  ultimately show ?thesis
    by (simp add: parse_ima_delta_def parse_signed_at_def details_head_def int)
qed

section \<open>A concrete record\<close>

definition ok_record :: NodeAuditRecord where
  "ok_record = \<lparr>na_node = ''vm1'', na_chain = 1, na_pass = True, na_pcr_match = True,
     na_pcr_mismatch_indices = None, na_ima_valid = True, na_ima_count = 0, na_ima_delta = None,
     na_userspace_ok = True, na_userspace_count = 0, na_userspace_diff = None,
     na_kernel_threads_ok = True, na_kernel_thread_count = 0, na_kernel_thread_diff = None,
     na_masquerade_detected = False, na_masquerade_details = None,
     na_kernel_modules_empty = True, na_kernel_modules_loaded = None, na_connections_ok = True,
     na_connection_count = 0, na_connection_diff = None, na_fw_ok = True, na_bin_ok = True,
     na_ports_ok = True, na_ports = [], na_mnt_ok = True, na_cfg_ok = True, na_sys_ok = True,
     na_xdp_attached = True, na_passwd_ok = True, na_ssh_ok = True, na_ld_preload_safe = True,
     na_boot_params_ok = True, na_dev_inventory_ok = True, na_entropy_available = None,
     na_sysmon_active = True, na_sysmon_hooks = None, na_sysmon_anomaly = False,
     na_sysmon_unloaded = False, na_sysmon_exec_delta = None, na_sysmon_ptrace_delta = None,
     na_sysmon_mount_delta = None, na_sysmon_conn_delta = None, na_sysmon_sock_delta = None,
     na_fd_ok = True, na_fd_count = 0, na_kern_ok = True, na_kern_details = None,
     na_init_ok = True, na_init_count = 0, na_init_unused = 0, na_sig_valid = True,
     na_ak_match = True, na_raw_details = []\<rparr>"

lemma fully_ok_record: "fully_ok ok_record"
  by (simp add: fully_ok_def ok_record_def)

lemma ok_record_cuts: "cuts_short (ok_record\<lparr>na_sysmon_anomaly := True\<rparr>)"
  by (simp add: cuts_short_def classify_node_def fully_ok_def ok_record_def)

section \<open>Properties\<close>

text \<open>
  The forensic tier never exceeds the worst tier of a single node, and it is exactly the worst
  one when no node stops the scan early with a warning (a behavioural anomaly or a descriptor
  anomaly, without a critical finding checked before them).
\<close>

theorem tier_is_worst_node:
  "classify_tier ns \<le> fold max (map node_tier ns) Info \<and>
   ((\<forall>n \<in> set ns. \<not> cuts_short n) \<longrightarrow> classify_tier ns = fold max (map node_tier ns) Info)"
  using classify_from_bound [of Info ns] classify_from_exact [of Info ns] by (simp add: classify_tier_def)

theorem tier_is_worst_node_witness:
  "classify_tier [ok_record, ok_record\<lparr>na_pass := False, na_pcr_match := False\<rparr>]
     = fold max (map node_tier [ok_record, ok_record\<lparr>na_pass := False, na_pcr_match := False\<rparr>]) Info"
proof -
  have "\<not> cuts_short ok_record" "\<not> cuts_short (ok_record\<lparr>na_pass := False, na_pcr_match := False\<rparr>)"
    by (simp_all add: cuts_short_def classify_node_def fully_ok_def ok_record_def)
  with tier_is_worst_node [of "[ok_record, ok_record\<lparr>na_pass := False, na_pcr_match := False\<rparr>]"] show ?thesis
    by simp
qed

text \<open>
  Blind spots of the classification: a node whose TPM signature is invalid, and one whose
  binaries were tampered with while its other fields are in order, are both classified \<open>Info\<close>; and a
  behavioural anomaly on an earlier node turns the whole entry into a \<open>Warning\<close>, whatever the later
  nodes show.
\<close>

theorem tier_blind_spots:
  "classify_tier [ok_record\<lparr>na_pass := False, na_sig_valid := False\<rparr>] = Info \<and>
   classify_tier [ok_record\<lparr>na_bin_ok := False\<rparr>] = Info \<and>
   classify_tier (ok_record\<lparr>na_sysmon_anomaly := True\<rparr> # ns) = Warning"
  by (simp add: classify_tier_def classify_node_def fully_ok_def ok_record_def)

text \<open>
  The audit record recovers from the detail string what the verifier printed: for a known node
  whose PCRs match and whose IMA count is accepted against an earlier one, the record holds the very
  count and the very increase of the attestation.
\<close>

theorem audit_recovers_ima:
  assumes known: "get_baseline db (att_vm_identity att) = Some bl"
    and pcrs: "nvr_pcr_match (verify_attestation V db att (Some prev) pa ps)"
    and ima: "nvr_ima_valid (verify_attestation V db att (Some prev) pa ps)"
  shows "na_ima_count (node_to_audit_record (verify_attestation V db att (Some prev) pa ps) chain)
       = ima_count (tq_ima_measurements (att_tpm_quote att)) \<and>
     na_ima_delta (node_to_audit_record (verify_attestation V db att (Some prev) pa ps) chain)
       = Some (sint (ima_count (tq_ima_measurements (att_tpm_quote att)) - prev))"
proof -
  let ?n = "ima_count (tq_ima_measurements (att_tpm_quote att))" let ?d = "sint (?n - prev)"
  have cnt: "fst (check_ima_count (Some prev) ?n)" using ima by (simp add: verify_attestation_known [OF known])
  then have range: "0 \<le> ?d" "?d \<le> 20" by (auto simp: check_ima_count_def Let_def split: if_splits)
  obtain rest where d: "nvr_details (verify_attestation V db att (Some prev) pa ps) =
      details_head (length (tq_pcr_values (att_tpm_quote att))) ?n (''/d+'' @ show_int ?d @ ''; '' @ rest)"
    using details_shape [OF known pcrs cnt] by blast
  have "audit_ima_count (nvr_details (verify_attestation V db att (Some prev) pa ps)) = unat ?n"
    unfolding d by (rule audit_ima_count_head) (simp add: is_digit_def)
  moreover have "parse_ima_delta (nvr_details (verify_attestation V db att (Some prev) pa ps)) = Some ?d"
    unfolding d by (rule parse_ima_delta_head) (use range in \<open>simp_all add: is_digit_def\<close>)
  ultimately show ?thesis by (simp add: node_to_audit_record_def Let_def)
qed

theorem audit_recovers_ima_witness:
  "na_ima_count (node_to_audit_record (verify_attestation demo_verify
       (add_baseline 0 (demo_baseline ''vm1'') (database_new 0)) (demo_attestation ''vm1'' 205) (Some 200) None None) 1)
     = ima_count (tq_ima_measurements (att_tpm_quote (demo_attestation ''vm1'' 205)))"
proof -
  let ?db = "add_baseline 0 (demo_baseline ''vm1'') (database_new 0)"
  have known: "get_baseline ?db (att_vm_identity (demo_attestation ''vm1'' 205)) = Some (demo_baseline ''vm1'')"
    by (simp add: bdb.get_add demo_baseline_def demo_attestation_def)
  have "nvr_pcr_match (verify_attestation demo_verify ?db (demo_attestation ''vm1'' 205) (Some 200) None None)"
    unfolding verify_attestation_known [OF known] fst_check_pcrs
    by (simp add: demo_attestation_def demo_quote_def demo_baseline_def)
  moreover have "fst (check_ima_count (Some 200) (word_of_nat (unat (200 :: u64) + 5)))"
    by (rule check_ima_count_ok) simp_all
  then have "nvr_ima_valid (verify_attestation demo_verify ?db (demo_attestation ''vm1'' 205) (Some 200) None None)"
    unfolding verify_attestation_known [OF known]
    by (simp add: check_ima_aggregate_def demo_attestation_def demo_quote_def)
  ultimately show ?thesis using audit_recovers_ima [OF known] by blast
qed

end
