(* ===== verification/Audit_Log.thy ===== *)
theory Audit_Log
  imports Audit_Record
begin

text \<open>
  The audit log (\<open>mfa-agent/src/audit/mod.rs\<close>, \<open>AuditLogger\<close>): entries chained by the hash of the
  previous line, appended to a file of JSON lines, and the recovery of the chain state at start.  The
  JSON printer and parser, the signing TPM, the clock and the outcome of the file operations are
  arguments.  \<open>log_state\<close> is the step relation of an agent that logs and restarts; lemmas: the file is a
  hash chain in every reachable state, a chain is determined by its last hash, and what a failed
  append does to it.
\<close>

section \<open>Data\<close>

record TpmCheckpoint =
  tc_chain_hash :: string
  tc_signature :: string
  tc_entries_covered :: u64

record AuditEntryV2 =
  ae2_version :: u32
  ae2_seq :: u64
  ae2_timestamp :: u64
  ae2_node_id :: string
  ae2_heartbeat :: u64
  ae2_event :: AuditEvent
  ae2_chain_id :: string
  ae2_prev_hash :: string
  ae2_nodes :: "NodeAuditRecord list option"
  ae2_attestation_meta :: "AttestationMeta list option"
  ae2_tier :: ForensicTier
  ae2_forensic :: "ForensicCapture option"
  ae2_verification_duration_ms :: "u64 option"
  ae2_session_status :: string
  ae2_authorized :: bool
  ae2_total_nodes_verified :: u64
  ae2_session_token_hash :: "string option"
  ae2_tpm_checkpoint :: "TpmCheckpoint option"

record AuditLogger =
  al_path :: string
  al_seq :: u64
  al_prev_hash :: string
  al_log_mode :: u8
  al_node_id :: string
  al_heartbeat_count :: u64

definition AUDIT_VERSION :: u32 where "AUDIT_VERSION = 2"
definition TPM_CHECKPOINT_INTERVAL :: u64 where "TPM_CHECKPOINT_INTERVAL = 1"
definition GENESIS_HASH :: string where "GENESIS_HASH = ''MFA-AUDIT-GENESIS-v2''"

definition sha256_hex :: "crypto_ext \<Rightarrow> string \<Rightarrow> string" where
  "sha256_hex X data = hex_encode (sha256 X (as_bytes data))"

text \<open>The arguments of one call of \<open>write\<close>.\<close>

record AuditRequest =
  rq_event :: AuditEvent
  rq_heartbeat :: u64
  rq_chain_id :: bytes
  rq_node_results :: "NodeVerificationResult list"
  rq_attestation_metas :: "AttestationMeta list option"
  rq_chain_number :: u8
  rq_session_status :: string
  rq_authorized :: bool
  rq_timing_ms :: "u64 option"
  rq_session_token_hash :: "string option"

text \<open>
  What a call meets: the JSON library, the TPM, the snapshot of the local node, the clock, and whether
  the file opens and takes the line (\<open>WriteFailed n\<close> leaves \<open>n\<close> characters of it).
\<close>

datatype append_outcome = Appended | OpenFailed | WriteFailed nat

record audit_env =
  au_x :: crypto_ext
  au_to_json :: "AuditEntryV2 \<Rightarrow> string res"
  au_from_json :: "string \<Rightarrow> AuditEntryV2 res"
  au_sign :: "bytes \<Rightarrow> (bytes \<times> bytes) res"
  au_snapshot :: NodeForensicData
  au_now :: u64
  au_append :: append_outcome

section \<open>Writing\<close>

definition forensic_for :: "audit_env \<Rightarrow> u8 \<Rightarrow> ForensicTier \<Rightarrow> NodeAuditRecord list \<Rightarrow> ForensicCapture option" where
  "forensic_for U log_mode tier nodes =
     (if log_mode = 1 then None
      else if log_mode = 2 then
        (if tier \<noteq> Info then build_forensic_capture (au_snapshot U) tier nodes True else None)
      else if log_mode = 3 then
        build_forensic_capture (au_snapshot U) tier nodes (tier \<noteq> Info)
      else None)"

definition checkpoint_for :: "audit_env \<Rightarrow> AuditLogger \<Rightarrow> TpmCheckpoint option" where
  "checkpoint_for U L =
     (if al_heartbeat_count L mod TPM_CHECKPOINT_INTERVAL = 0
      then (case au_sign U (as_bytes (al_prev_hash L)) of
              Inr (sig, _) \<Rightarrow> Some \<lparr>tc_chain_hash = al_prev_hash L, tc_signature = hex_encode sig,
                                   tc_entries_covered = TPM_CHECKPOINT_INTERVAL\<rparr>
            | Inl _ \<Rightarrow> None)
      else None)"

text \<open>The entry the logger would write, its counters already advanced.\<close>

definition entry_for :: "audit_env \<Rightarrow> AuditLogger \<Rightarrow> AuditRequest \<Rightarrow> AuditEntryV2" where
  "entry_for U L r =
     (let audit_nodes = map (\<lambda>nr. node_to_audit_record nr (rq_chain_number r)) (rq_node_results r);
          tier = classify_tier audit_nodes
      in \<lparr>ae2_version = AUDIT_VERSION, ae2_seq = al_seq L, ae2_timestamp = au_now U,
          ae2_node_id = al_node_id L, ae2_heartbeat = rq_heartbeat r, ae2_event = rq_event r,
          ae2_chain_id = hex_encode (rq_chain_id r), ae2_prev_hash = al_prev_hash L,
          ae2_nodes = Some audit_nodes, ae2_attestation_meta = rq_attestation_metas r, ae2_tier = tier,
          ae2_forensic = forensic_for U (al_log_mode L) tier audit_nodes,
          ae2_verification_duration_ms = rq_timing_ms r, ae2_session_status = rq_session_status r,
          ae2_authorized = rq_authorized r,
          ae2_total_nodes_verified = word_of_nat (length (rq_node_results r)),
          ae2_session_token_hash = rq_session_token_hash r, ae2_tpm_checkpoint = checkpoint_for U L\<rparr>)"

text \<open>
  \<open>write\<close> on a logger and the content of the file (\<open>None\<close>: there is none).  The sequence number and the
  previous hash advance before the file is opened.
\<close>

definition audit_write ::
  "audit_env \<Rightarrow> AuditRequest \<Rightarrow> (AuditLogger \<times> string option, unit) io" where
  "audit_write U r = (\<lambda>(L, file).
     (let L = L\<lparr>al_seq := al_seq L + 1, al_heartbeat_count := al_heartbeat_count L + 1\<rparr> in
      (case au_to_json U (entry_for U L r) of
         Inl e \<Rightarrow> (Inl e, L, file)
       | Inr entry_json \<Rightarrow>
           (let L = L\<lparr>al_prev_hash := sha256_hex (au_x U) entry_json\<rparr>;
                line = entry_json @ [CHR 0x0A]
            in case au_append U of
                 OpenFailed \<Rightarrow> (Inl (Err ''open failed''), L, file)
               | WriteFailed n \<Rightarrow> (Inl (Err ''write failed''), L, Some (unwrap_or [] file @ take n line))
               | Appended \<Rightarrow> (Inr (), L, Some (unwrap_or [] file @ line))))))"

section \<open>Recovery\<close>

definition blank :: "string \<Rightarrow> bool" where
  "blank l \<longleftrightarrow> str_trim l = []"

definition recover_chain_state :: "audit_env \<Rightarrow> string option \<Rightarrow> u64 \<times> string" where
  "recover_chain_state U file =
     (let genesis = sha256_hex (au_x U) GENESIS_HASH in
      case file of
        None \<Rightarrow> (0, genesis)
      | Some content \<Rightarrow>
          (let ls = str_lines content in
           case find (\<lambda>l. \<not> blank l) (rev ls) of
             Some line \<Rightarrow>
               (case au_from_json U line of
                  Inr e \<Rightarrow> (ae2_seq e, sha256_hex (au_x U) line)
                | Inl _ \<Rightarrow> (word_of_nat (length (filter (\<lambda>l. \<not> blank l) ls)), genesis))
           | None \<Rightarrow> (0, genesis)))"

definition logger_new :: "audit_env \<Rightarrow> string \<Rightarrow> string \<Rightarrow> u8 \<Rightarrow> string option \<Rightarrow> AuditLogger" where
  "logger_new U path node_id log_mode file =
     (case recover_chain_state U file of (seq, prev_hash) \<Rightarrow>
        \<lparr>al_path = path, al_seq = seq, al_prev_hash = prev_hash, al_log_mode = log_mode,
         al_node_id = node_id, al_heartbeat_count = 0\<rparr>)"

section \<open>The hash chain\<close>

definition last_hash :: "audit_env \<Rightarrow> string list \<Rightarrow> string" where
  "last_hash U ls = sha256_hex (au_x U) (if ls = [] then GENESIS_HASH else last ls)"

text \<open>Every line is an entry that names its position and the hash of the line before it.\<close>

definition line_ok :: "audit_env \<Rightarrow> string list \<Rightarrow> string \<Rightarrow> bool" where
  "line_ok U before l \<longleftrightarrow>
     (case au_from_json U l of
        Inl _ \<Rightarrow> False
      | Inr e \<Rightarrow> ae2_seq e = word_of_nat (Suc (length before)) \<and> ae2_prev_hash e = last_hash U before)"

definition chain_ok :: "audit_env \<Rightarrow> string list \<Rightarrow> bool" where
  "chain_ok U ls \<longleftrightarrow> (\<forall>i < length ls. line_ok U (take i ls) (ls ! i))"

text \<open>
  What is relied on of the JSON library: a printed entry parses to an entry with the same sequence
  number and previous hash, is one line (control characters are escaped) and is not blank.
\<close>

definition json_line :: "string \<Rightarrow> bool" where
  "json_line j \<longleftrightarrow> CHR 0x0A \<notin> set j \<and> CHR 0x0D \<notin> set j \<and> \<not> blank j"

definition json_ok :: "audit_env \<Rightarrow> bool" where
  "json_ok U \<longleftrightarrow> (\<forall>e j. au_to_json U e = Inr j \<longrightarrow> json_line j \<and>
     (\<exists>e'. au_from_json U j = Inr e' \<and> ae2_seq e' = ae2_seq e \<and> ae2_prev_hash e' = ae2_prev_hash e))"

text \<open>
  An agent and its log: it starts on the file as it is, writes entries that reach the file, and may
  stop and start again at any time.  The parts of the environment that change from call to call are
  the clock, the snapshot and the TPM's answers.
\<close>

inductive log_state :: "audit_env \<Rightarrow> string option \<Rightarrow> AuditLogger \<Rightarrow> string option \<Rightarrow> bool"
  for U0 :: audit_env and file0 :: "string option" where
  start: "log_state U0 file0 (logger_new U0 path node_id mode file0) file0"
| written: "log_state U0 file0 L file \<Longrightarrow> au_x U = au_x U0 \<Longrightarrow> au_to_json U = au_to_json U0 \<Longrightarrow>
     au_from_json U = au_from_json U0 \<Longrightarrow> audit_write U r (L, file) = (Inr (), L', file') \<Longrightarrow>
     log_state U0 file0 L' file'"
| restart: "log_state U0 file0 L file \<Longrightarrow>
     log_state U0 file0 (logger_new U0 path node_id mode file) file"

section \<open>Lemmas\<close>

lemma str_lines_file_of: "list_all json_line ls \<Longrightarrow> str_lines (file_of ls) = ls"
  by (rule str_lines_whole) (simp add: list_all_iff json_line_def one_line_def)

lemma chain_ok_snoc: "chain_ok U (ls @ [l]) \<longleftrightarrow> chain_ok U ls \<and> line_ok U ls l"
  by (auto simp: chain_ok_def nth_append less_Suc_eq)

lemma line_ok_Inr:
  "line_ok U ls l \<longleftrightarrow> (\<exists>e. au_from_json U l = Inr e \<and> ae2_seq e = word_of_nat (Suc (length ls)) \<and>
     ae2_prev_hash e = last_hash U ls)"
  by (auto simp: line_ok_def split: sum.splits)

lemma recover_spec:
  assumes "list_all json_line ls" and "chain_ok U ls"
  shows "recover_chain_state U (Some (file_of ls)) = (word_of_nat (length ls), last_hash U ls)"
proof (cases ls rule: rev_cases)
  case Nil
  then show ?thesis
    by (simp add: recover_chain_state_def file_of_def str_lines_def last_hash_def Let_def)
next
  case (snoc xs l)
  have nb: "\<not> blank l" using assms(1) snoc by (simp add: json_line_def)
  have "\<exists>e. au_from_json U l = Inr e \<and> ae2_seq e = word_of_nat (Suc (length xs))"
    using assms(2) snoc by (auto simp: chain_ok_snoc line_ok_Inr)
  then show ?thesis
    using nb assms(1) snoc by (auto simp: recover_chain_state_def str_lines_file_of last_hash_def Let_def)
qed

text \<open>A logger that agrees with the lines in its file.\<close>

definition in_step :: "audit_env \<Rightarrow> AuditLogger \<Rightarrow> string list \<Rightarrow> bool" where
  "in_step U L ls \<longleftrightarrow> al_seq L = word_of_nat (length ls) \<and> al_prev_hash L = last_hash U ls"

lemma logger_new_in_step:
  "list_all json_line ls \<Longrightarrow> chain_ok U ls \<Longrightarrow> in_step U (logger_new U p n m (Some (file_of ls))) ls"
  by (simp add: logger_new_def recover_spec in_step_def)

lemma entry_for_simps:
  "ae2_seq (entry_for U L r) = al_seq L" "ae2_prev_hash (entry_for U L r) = al_prev_hash L"
  by (simp_all add: entry_for_def Let_def)

lemma json_ok_entry:
  assumes "json_ok U" and "au_to_json U (entry_for U' L r) = Inr j"
  obtains e where "au_from_json U j = Inr e" "ae2_seq e = al_seq L" "ae2_prev_hash e = al_prev_hash L" "json_line j"
proof -
  obtain e where "au_from_json U j = Inr e" "ae2_seq e = ae2_seq (entry_for U' L r)"
      "ae2_prev_hash e = ae2_prev_hash (entry_for U' L r)" and l: "json_line j"
    using assms unfolding json_ok_def by blast
  then show ?thesis using that by (simp add: entry_for_simps)
qed

lemma audit_write_keeps_chain:
  assumes "json_ok U" and "in_step U L ls" and "chain_ok U ls" and "list_all json_line ls"
    and "unwrap_or [] file = file_of ls" and "audit_write U r (L, file) = (Inr (), L', file')"
  shows "\<exists>j. file' = Some (file_of (ls @ [j])) \<and> chain_ok U (ls @ [j]) \<and> list_all json_line (ls @ [j]) \<and>
     in_step U L' (ls @ [j])"
proof -
  let ?L1 = "L\<lparr>al_seq := al_seq L + 1, al_heartbeat_count := al_heartbeat_count L + 1\<rparr>"
  obtain j where j: "au_to_json U (entry_for U ?L1 r) = Inr j"
    using assms(6) by (auto simp: audit_write_def Let_def split: sum.splits)
  obtain e where parsed: "au_from_json U j = Inr e" "ae2_seq e = al_seq ?L1" "ae2_prev_hash e = al_prev_hash ?L1"
    and line: "json_line j" by (rule json_ok_entry [OF assms(1) j])
  have L': "L' = ?L1\<lparr>al_prev_hash := sha256_hex (au_x U) j\<rparr>" and f': "file' = Some (file_of ls @ j @ [CHR 0x0A])"
    using assms(5,6) j by (auto simp: audit_write_def Let_def split: append_outcome.splits)
  have "chain_ok U (ls @ [j])"
    using assms(2,3) parsed by (simp add: chain_ok_snoc line_ok_Inr entry_for_simps in_step_def)
  then show ?thesis
    using L' f' line assms(2,4) by (auto simp: file_of_def in_step_def last_hash_def)
qed

lemma env_parts:
  assumes "au_x U = au_x U0" "au_to_json U = au_to_json U0" "au_from_json U = au_from_json U0"
  shows "chain_ok U ls = chain_ok U0 ls" "in_step U L ls = in_step U0 L ls" "json_ok U = json_ok U0"
proof -
  have "last_hash U xs = last_hash U0 xs" for xs using assms by (simp add: last_hash_def)
  moreover from this have "line_ok U xs l = line_ok U0 xs l" for xs l
    using assms by (simp add: line_ok_Inr)
  ultimately show "chain_ok U ls = chain_ok U0 ls" "in_step U L ls = in_step U0 L ls" "json_ok U = json_ok U0"
    using assms by (simp_all add: chain_ok_def in_step_def json_ok_def)
qed

lemma log_state_chain:
  assumes "log_state U0 file0 L file" and "json_ok U0"
    and "unwrap_or [] file0 = file_of ls0" and "chain_ok U0 ls0" and "list_all json_line ls0"
  shows "\<exists>ls. unwrap_or [] file = file_of ls \<and> chain_ok U0 ls \<and> list_all json_line ls \<and>
     in_step U0 L ls \<and> prefix ls0 ls"
  using assms(1)
proof (induction rule: log_state.induct)
  case (start path node_id mode)
  have "in_step U0 (logger_new U0 path node_id mode file0) ls0"
  proof (cases file0)
    case None
    then have "ls0 = []" using assms(3) by (cases ls0) (auto simp: file_of_def)
    then show ?thesis
      using None by (simp add: logger_new_def recover_chain_state_def in_step_def last_hash_def)
  next
    case (Some c)
    then show ?thesis using logger_new_in_step [OF assms(5,4)] assms(3) by simp
  qed
  then show ?case using assms(3-5) by blast
next
  case (written L F U r L' F')
  then obtain ls where ls: "unwrap_or [] F = file_of ls" "chain_ok U0 ls" "list_all json_line ls"
      "in_step U0 L ls" "prefix ls0 ls" by blast
  note ep = env_parts [OF written(2-4)]
  from audit_write_keeps_chain [of U L ls F r L' F'] ls written(5) ep assms(2)
  obtain j where "F' = Some (file_of (ls @ [j]))" "chain_ok U0 (ls @ [j])" "list_all json_line (ls @ [j])"
      "in_step U0 L' (ls @ [j])" by auto
  then show ?case using ls(5) by (intro exI [of _ "ls @ [j]"]) auto
next
  case (restart L F path node_id mode)
  then obtain ls where ls: "unwrap_or [] F = file_of ls" "chain_ok U0 ls" "list_all json_line ls"
      "prefix ls0 ls" by blast
  have "in_step U0 (logger_new U0 path node_id mode F) ls"
  proof (cases F)
    case None
    then have "ls = []" using ls(1) by (cases ls) (auto simp: file_of_def)
    then show ?thesis
      using None by (simp add: logger_new_def recover_chain_state_def in_step_def last_hash_def)
  next
    case (Some c)
    then show ?thesis using logger_new_in_step [OF ls(3,2)] ls(1) by simp
  qed
  then show ?case using ls by blast
qed

lemma chain_determined:
  assumes "length ls = length ls'" and "chain_ok U ls" and "chain_ok U ls'"
    and "last_hash U ls = last_hash U ls'"
    and "\<And>a b. a \<in> set ls \<Longrightarrow> b \<in> set ls' \<Longrightarrow> sha256_hex (au_x U) a = sha256_hex (au_x U) b \<Longrightarrow> a = b"
  shows "ls = ls'"
  using assms
proof (induction ls arbitrary: ls' rule: rev_induct)
  case Nil
  then show ?case by simp
next
  case (snoc l ls)
  obtain xs x where ls': "ls' = xs @ [x]" using snoc.prems(1) by (cases ls' rule: rev_cases) auto
  have "l = x" using snoc.prems(4,5) ls' by (simp add: last_hash_def)
  moreover from this have "last_hash U ls = last_hash U xs"
    using snoc.prems(2,3) ls' by (auto simp: chain_ok_snoc line_ok_Inr)
  ultimately show ?case
    using snoc.IH [of xs] snoc.prems ls' by (auto simp: chain_ok_snoc)
qed

lemma chain_length:
  assumes "chain_ok U ls" and "chain_ok U ls'" and "ls \<noteq> []" and "ls' \<noteq> []" and "last ls = last ls'"
    and "length ls < 2 ^ 64" and "length ls' < 2 ^ 64"
  shows "length ls = length ls'"
proof -
  obtain xs x where ls: "ls = xs @ [x]" using assms(3) by (cases ls rule: rev_cases) auto
  obtain ys y where ls': "ls' = ys @ [y]" using assms(4) by (cases ls' rule: rev_cases) auto
  have "(word_of_nat (Suc (length xs)) :: u64) = word_of_nat (Suc (length ys))"
    using assms(1,2,5) ls ls' by (auto simp: chain_ok_snoc line_ok_Inr simp del: of_nat_Suc)
  then have "unat (word_of_nat (Suc (length xs)) :: u64) = unat (word_of_nat (Suc (length ys)) :: u64)" by simp
  then show ?thesis using assms(6,7) ls ls' by (simp add: unat_of_nat del: of_nat_Suc)
qed

section \<open>A concrete log\<close>

definition demo_request :: AuditRequest where
  "demo_request = \<lparr>rq_event = SessionEnded, rq_heartbeat = 1, rq_chain_id = [], rq_node_results = [],
     rq_attestation_metas = None, rq_chain_number = 1, rq_session_status = ''SESSION_ENDED'',
     rq_authorized = True, rq_timing_ms = None, rq_session_token_hash = None\<rparr>"

definition demo_audit0 :: audit_env where
  "demo_audit0 = \<lparr>au_x = demo_ext, au_to_json = (\<lambda>_. Inl (Err ''none'')), au_from_json = (\<lambda>_. Inl (Err ''none'')),
     au_sign = (\<lambda>_. Inr ([5], [6])),
     au_snapshot = \<lparr>nf_timestamp = 0, nf_process_tree = [], nf_process_volatile = [], nf_tcp_connections = [],
        nf_arp_table = [], nf_dmesg_tail = [], nf_ima_tail = [], nf_uptime_seconds = 0, nf_load_average = []\<rparr>,
     au_now = 1000, au_append = Appended\<rparr>"

definition demo_logger :: "u64 \<Rightarrow> string \<Rightarrow> AuditLogger" where
  "demo_logger seq prev = \<lparr>al_path = ''audit.jsonl'', al_seq = seq, al_prev_hash = prev, al_log_mode = 2,
     al_node_id = ''vm2'', al_heartbeat_count = seq\<rparr>"

text \<open>The first two entries of a log, and a printer and parser for them.\<close>

definition demo_entry1 :: AuditEntryV2 where
  "demo_entry1 = entry_for demo_audit0 (demo_logger 1 (sha256_hex demo_ext GENESIS_HASH)) demo_request"

definition demo_entry2 :: AuditEntryV2 where
  "demo_entry2 = entry_for demo_audit0 (demo_logger 2 (sha256_hex demo_ext ''{1}'')) demo_request"

definition demo_audit :: "append_outcome \<Rightarrow> audit_env" where
  "demo_audit outcome = demo_audit0
     \<lparr>au_to_json := (\<lambda>e. if e = demo_entry1 then Inr ''{1}'' else if e = demo_entry2 then Inr ''{2}''
                         else Inl (Err ''unsupported'')),
      au_from_json := (\<lambda>j. if j = ''{1}'' then Inr demo_entry1 else if j = ''{2}'' then Inr demo_entry2
                           else Inl (Err ''syntax'')),
      au_append := outcome\<rparr>"

lemma demo_json_ok: "json_ok (demo_audit outcome)"
  by (auto simp: json_ok_def demo_audit_def json_line_def blank_def str_trim_def is_space_def split: if_splits)

lemma demo_entry_for: "entry_for (demo_audit outcome) L r = entry_for demo_audit0 L r"
  by (simp add: entry_for_def Let_def demo_audit_def demo_audit0_def forensic_for_def checkpoint_for_def)

lemma demo_entries_differ: "demo_entry2 \<noteq> demo_entry1"
proof
  assume "demo_entry2 = demo_entry1"
  then have "ae2_seq demo_entry2 = ae2_seq demo_entry1" by simp
  then show False by (simp add: demo_entry1_def demo_entry2_def entry_for_simps demo_logger_def)
qed

lemma demo_write1:
  "audit_write (demo_audit outcome) demo_request (demo_logger 0 (sha256_hex demo_ext GENESIS_HASH), file) =
     (case outcome of
        OpenFailed \<Rightarrow> (Inl (Err ''open failed''), demo_logger 1 (sha256_hex demo_ext ''{1}''), file)
      | WriteFailed n \<Rightarrow> (Inl (Err ''write failed''), demo_logger 1 (sha256_hex demo_ext ''{1}''),
           Some (unwrap_or [] file @ take n (''{1}'' @ [CHR 0x0A])))
      | Appended \<Rightarrow> (Inr (), demo_logger 1 (sha256_hex demo_ext ''{1}''), Some (unwrap_or [] file @ ''{1}'' @ [CHR 0x0A])))"
proof -
  let ?L = "(demo_logger 0 (sha256_hex demo_ext GENESIS_HASH))
      \<lparr>al_seq := al_seq (demo_logger 0 (sha256_hex demo_ext GENESIS_HASH)) + 1,
       al_heartbeat_count := al_heartbeat_count (demo_logger 0 (sha256_hex demo_ext GENESIS_HASH)) + 1\<rparr>"
  have L: "?L = demo_logger 1 (sha256_hex demo_ext GENESIS_HASH)" by (simp add: demo_logger_def)
  have "au_to_json (demo_audit outcome) (entry_for (demo_audit outcome) ?L demo_request) = Inr ''{1}''"
    unfolding demo_entry_for L by (simp add: demo_audit_def demo_entry1_def)
  then show ?thesis
    by (simp add: audit_write_def Let_def L) (simp add: demo_audit_def demo_audit0_def demo_logger_def
        split: append_outcome.splits)
qed

lemma demo_write2:
  "audit_write (demo_audit Appended) demo_request (demo_logger 1 (sha256_hex demo_ext ''{1}''), file) =
     (Inr (), demo_logger 2 (sha256_hex demo_ext ''{2}''), Some (unwrap_or [] file @ ''{2}'' @ [CHR 0x0A]))"
proof -
  let ?L = "(demo_logger 1 (sha256_hex demo_ext ''{1}''))
      \<lparr>al_seq := al_seq (demo_logger 1 (sha256_hex demo_ext ''{1}'')) + 1,
       al_heartbeat_count := al_heartbeat_count (demo_logger 1 (sha256_hex demo_ext ''{1}'')) + 1\<rparr>"
  have L: "?L = demo_logger 2 (sha256_hex demo_ext ''{1}'')" by (simp add: demo_logger_def)
  have "au_to_json (demo_audit Appended) (entry_for (demo_audit Appended) ?L demo_request) = Inr ''{2}''"
    unfolding demo_entry_for L using demo_entries_differ by (simp add: demo_audit_def demo_entry2_def)
  then show ?thesis
    by (simp add: audit_write_def Let_def L) (simp add: demo_audit_def demo_audit0_def demo_logger_def)
qed

section \<open>Properties\<close>

text \<open>
  C8.  Whatever is logged and however often the agent restarts, as long as every append reaches the
  file the log stays a hash chain (each line names its position and the hash of the line before it,
  the first one the genesis hash), the lines already there are never changed, and the logger's
  counter and hash are those of the last line.
\<close>

theorem audit_log_is_chain:
  assumes "json_ok U" and "log_state U file0 L file"
    and "unwrap_or [] file0 = file_of ls0" and "list_all json_line ls0" and "chain_ok U ls0"
  shows "chain_ok U (str_lines (unwrap_or [] file)) \<and> prefix ls0 (str_lines (unwrap_or [] file)) \<and>
     al_seq L = word_of_nat (length (str_lines (unwrap_or [] file))) \<and>
     al_prev_hash L = last_hash U (str_lines (unwrap_or [] file))"
  using log_state_chain [OF assms(2,1,3,5,4)] by (auto simp: str_lines_file_of in_step_def)

theorem audit_log_is_chain_witness:
  "chain_ok (demo_audit Appended) (str_lines (''{1}'' @ [CHR 0x0A]))"
proof -
  have "logger_new (demo_audit Appended) ''audit.jsonl'' ''vm2'' 2 None
      = demo_logger 0 (sha256_hex demo_ext GENESIS_HASH)"
    by (simp add: logger_new_def recover_chain_state_def Let_def demo_logger_def demo_audit_def demo_audit0_def)
  then have "log_state (demo_audit Appended) None (demo_logger 0 (sha256_hex demo_ext GENESIS_HASH)) None"
    by (metis log_state.start)
  from log_state.written [OF this refl refl refl demo_write1 [of Appended None, simplified]]
  have "log_state (demo_audit Appended) None (demo_logger 1 (sha256_hex demo_ext ''{1}'')) (Some (''{1}'' @ [CHR 0x0A]))"
    by simp
  from audit_log_is_chain [OF demo_json_ok this, of "[]"] show ?thesis
    by (simp add: file_of_def chain_ok_def)
qed


lemma demo_chains: "chain_ok (demo_audit Appended) [''{1}'']" "chain_ok (demo_audit Appended) [''{1}'', ''{2}'']"
  by (simp_all add: chain_ok_def line_ok_def demo_audit_def demo_entry1_def demo_entry2_def entry_for_simps
      demo_logger_def last_hash_def demo_audit0_def less_Suc_eq)

lemma demo_no_collision: "sha256_hex demo_ext ''{1}'' \<noteq> sha256_hex demo_ext ''{2}''"
  by (simp add: sha256_hex_def demo_ext_def pad_to_def sum_bytes_def as_bytes_def hex_encode_def hex_digit_def
      of_char_def)


text \<open>
  A failed append breaks the chain for good: the logger counts the lost entry, so after an
  append that fails to open the file the next entry that does reach it makes the log invalid.
\<close>

theorem failed_append_breaks_chain:
  assumes "json_ok U" and "in_step U L ls" and "list_all json_line ls" and "length ls < 2 ^ 63"
    and "audit_write (U\<lparr>au_append := OpenFailed\<rparr>) r (L, Some (file_of ls)) = (Inl (Err ''open failed''), L1, file1)"
    and "audit_write (U\<lparr>au_append := Appended\<rparr>) r' (L1, file1) = (Inr (), L2, file2)"
  shows "\<not> chain_ok U (str_lines (unwrap_or [] file2))"
proof -
  have f1: "file1 = Some (file_of ls)" and seq1: "al_seq L1 = al_seq L + 1"
    using assms(5) by (auto simp: audit_write_def Let_def split: sum.splits)
  let ?L = "L1\<lparr>al_seq := al_seq L1 + 1, al_heartbeat_count := al_heartbeat_count L1 + 1\<rparr>"
  obtain j where j: "au_to_json U (entry_for (U\<lparr>au_append := Appended\<rparr>) ?L r') = Inr j"
    and f2: "file2 = Some (file_of ls @ j @ [CHR 0x0A])"
    using assms(6) f1 by (auto simp: audit_write_def Let_def split: sum.splits)
  obtain e where parsed: "au_from_json U j = Inr e" "ae2_seq e = al_seq ?L" and "json_line j"
    by (rule json_ok_entry [OF assms(1) j])
  then have "str_lines (unwrap_or [] file2) = ls @ [j]"
    using assms(3) f2 str_lines_file_of [of "ls @ [j]"] by (simp add: file_of_def)
  moreover have "al_seq L1 + 1 \<noteq> word_of_nat (Suc (length ls))"
    using assms(2) seq1 by (simp add: in_step_def)
  ultimately show ?thesis
    using parsed by (auto simp: chain_ok_snoc line_ok_Inr)
qed

theorem failed_append_breaks_chain_witness:
  "\<not> chain_ok (demo_audit Appended) (str_lines (''{2}'' @ [CHR 0x0A]))"
proof -
  let ?U = "demo_audit Appended" let ?L = "demo_logger 0 (sha256_hex demo_ext GENESIS_HASH)"
  have fail: "?U\<lparr>au_append := OpenFailed\<rparr> = demo_audit OpenFailed" "?U\<lparr>au_append := Appended\<rparr> = ?U"
    by (simp_all add: demo_audit_def)
  have "in_step ?U ?L []"
    by (simp add: in_step_def demo_logger_def last_hash_def demo_audit_def demo_audit0_def)
  from failed_append_breaks_chain [OF demo_json_ok this, of demo_request _ _ demo_request, unfolded fail,
      OF _ _ demo_write1 [of OpenFailed, simplified] demo_write2]
  show ?thesis by (simp add: file_of_def)
qed

end
