(* ===== verification/Chain.thy ===== *)
theory Chain
  imports Circuit Audit_Log Dual_Authority
begin

text \<open>
  The two verified chains (\<open>mfa-agent/src/main.rs\<close>): the client's chain submission and heartbeat, vm2
  (the zero trust server) verifying chain 1 and forwarding to vm3, and vm3 (the distributed authority)
  verifying chain 2, asking vm4 for its quorum and answering.  Both servers keep trackers of what each
  node reported last and an audit log; a handler is a step over the node and this session state.
  Lemmas: what the verdicts on a chain depend on, that the handlers return, that a denied quorum is
  never authorized, and that the log of an honest node only grows from heartbeat to heartbeat.
\<close>

section \<open>Trackers\<close>

text \<open>\<open>ima_tracker\<close>, \<open>ima_agg_tracker\<close> and \<open>sysmon_tracker\<close>.\<close>

record trackers =
  tk_ima :: "string \<rightharpoonup> u64"
  tk_agg :: "string \<rightharpoonup> bytes"
  tk_sysmon :: "string \<rightharpoonup> SysmonState"

definition trackers_new :: trackers where
  "trackers_new = \<lparr>tk_ima = Map.empty, tk_agg = Map.empty, tk_sysmon = Map.empty\<rparr>"

definition judge_node ::
  "verify_env \<Rightarrow> BaselineDatabase option \<Rightarrow> trackers \<Rightarrow> Attestation \<Rightarrow> NodeVerificationResult" where
  "judge_node V baseline_db tk att =
     (case baseline_db of
        Some db \<Rightarrow> verify_attestation V db att (tk_ima tk (att_vm_identity att)) (tk_agg tk (att_vm_identity att))
                     (tk_sysmon tk (att_vm_identity att))
      | None \<Rightarrow> \<lparr>nvr_vm_identity = att_vm_identity att, nvr_pcr_match = False, nvr_ima_valid = False,
                  nvr_ebpf_valid = False, nvr_signature_valid = False, nvr_ak_match = False,
                  nvr_details = ''No baseline database''\<rparr>)"

definition track :: "Attestation \<Rightarrow> trackers \<Rightarrow> trackers" where
  "track att tk =
     \<lparr>tk_ima = (tk_ima tk)(att_vm_identity att \<mapsto> ima_count (tq_ima_measurements (att_tpm_quote att))),
      tk_agg = (tk_agg tk)(att_vm_identity att \<mapsto> ima_aggregate_hash (tq_ima_measurements (att_tpm_quote att))),
      tk_sysmon = (case es_sysmon (tq_ebpf_state (att_tpm_quote att)) of
                     Some sm \<Rightarrow> (tk_sysmon tk)(att_vm_identity att \<mapsto> sm)
                   | None \<Rightarrow> tk_sysmon tk)\<rparr>"

fun judge_all ::
  "verify_env \<Rightarrow> BaselineDatabase option \<Rightarrow> Attestation list \<Rightarrow> trackers \<Rightarrow> NodeVerificationResult list \<times> trackers" where
  "judge_all V baseline_db [] tk = ([], tk)"
| "judge_all V baseline_db (att # atts) tk =
     (let nr = judge_node V baseline_db tk att;
          (nrs, tk') = judge_all V baseline_db atts (track att tk)
      in (nr # nrs, tk'))"

section \<open>Verdicts on the chains\<close>

text \<open>
  \<open>all_ok\<close> is set to true and never assigned again.  The trackers are returned with the response; when
  the quote fails the caller returns the error and they are dropped.
\<close>

definition self_attest :: "crypto_ext \<Rightarrow> string \<Rightarrow> (node, Attestation) io" where
  "self_attest X node_id =
     io_bind (take_quote X) (\<lambda>quote. io_bind now_secs (\<lambda>t.
       io_return \<lparr>att_vm_identity = node_id, att_tpm_quote = quote, att_timestamp = t\<rparr>))"

definition mint :: "crypto_ext \<Rightarrow> bool \<Rightarrow> string \<Rightarrow> bytes \<Rightarrow> (node, bytes option) io" where
  "mint X ok label ids =
     (if ok then io_bind now_secs (\<lambda>t. io_return (Some (sha256 X (as_bytes label @ ids @ u64_le t))))
      else io_return None)"

definition verify_chain_against_db ::
  "verify_env \<Rightarrow> ChainPacket \<Rightarrow> BaselineDatabase option \<Rightarrow> bool \<Rightarrow> string \<Rightarrow> trackers
     \<Rightarrow> (node, VerificationResponse \<times> trackers) io" where
  "verify_chain_against_db V chain baseline_db was_active zts_node_id tk =
     (let (node_results, tk) = judge_all V baseline_db (cp_attestations chain) tk; all_ok = True in
      io_bind (self_attest (ve_x V) zts_node_id) (\<lambda>self_att.
        (let self_nr = judge_node V baseline_db tk self_att;
             status = (if \<not> all_ok then (if was_active then Revoked else Denied) else Provisional)
         in io_bind (mint (ve_x V) all_ok ''MFA-SESSION-TOKEN-v1'' (cp_chain_id chain)) (\<lambda>token.
            io_bind now_secs (\<lambda>timestamp.
              io_return (\<lparr>vr_verified = all_ok, vr_session_status = status, vr_session_token = token,
                          vr_node_results = node_results @ [self_nr], vr_chain_id = cp_chain_id chain,
                          vr_timestamp = timestamp\<rparr>, track self_att tk))))))"

definition verify_full_authorization ::
  "verify_env \<Rightarrow> Chain2Packet \<Rightarrow> BaselineDatabase option \<Rightarrow> string \<Rightarrow> trackers
     \<Rightarrow> (node, (FullAuthorizationResponse \<times> AttestationMeta) \<times> trackers) io" where
  "verify_full_authorization V c2_packet baseline_db da_node_id tk =
     (let all_ok = True; chain1_ok = vr_verified (c2_chain1_results c2_packet);
          (chain2_results, tk) = judge_all V baseline_db (c2_chain2_attestations c2_packet) tk in
      io_bind (self_attest (ve_x V) da_node_id) (\<lambda>da_att.
        (let da_meta = extract_attestation_meta da_att;
             da_nr = judge_node V baseline_db tk da_att;
             authorized = (all_ok \<and> chain1_ok);
             status = (if authorized then Authorized else Denied)
         in io_bind (mint (ve_x V) authorized ''MFA-FULL-AUTH-TOKEN-v1''
                (vr_chain_id (c2_chain1_results c2_packet) @ c2_chain2_id c2_packet)) (\<lambda>token.
            io_bind now_secs (\<lambda>timestamp.
              io_return ((\<lparr>far_authorized = authorized, far_session_status = status, far_session_token = token,
                  far_chain1_node_results = vr_node_results (c2_chain1_results c2_packet),
                  far_chain2_node_results = chain2_results @ [da_nr],
                  far_chain1_id = vr_chain_id (c2_chain1_results c2_packet),
                  far_chain2_id = c2_chain2_id c2_packet, far_timestamp = timestamp\<rparr>, da_meta), track da_att tk))))))"

section \<open>The client\<close>

record ChainExecutionResult =
  cx_authorized :: bool
  cx_session_token :: "bytes option"
  cx_chain1_nodes :: nat
  cx_chain2_nodes :: nat
  cx_chain_conn :: "nat option"
  cx_chain_session_keys :: "bytes list option"
  cx_chain_circuit_node_ids :: "string list option"

text \<open>\<open>ChainPacket::new\<close> and the \<open>add_attestation\<close> calls with the clock readings they take.\<close>

definition new_chain :: "crypto_ext \<Rightarrow> string \<Rightarrow> TpmQuote \<Rightarrow> (node, ChainPacket) io" where
  "new_chain X node_id quote =
     io_bind now_nanos (\<lambda>nanos. io_bind now_secs (\<lambda>t. io_bind now_secs (\<lambda>t'.
       io_return (chain_packet_new X nanos t t' node_id quote))))"

fun add_all :: "(string \<times> Attestation) list \<Rightarrow> ChainPacket \<Rightarrow> (node, ChainPacket) io" where
  "add_all [] chain = io_return chain"
| "add_all ((node_id, att) # rest) chain =
     io_bind now_secs (\<lambda>t. add_all rest (add_attestation t node_id (att_tpm_quote att) chain))"

definition kept :: "bool \<Rightarrow> 'a \<Rightarrow> 'a option" where
  "kept ok x = (if ok then Some x else None)"

definition execute_chain_establishment :: "agent_env \<Rightarrow> NodeConfig \<Rightarrow> (node, ChainExecutionResult) io" where
  "execute_chain_establishment A config =
     io_bind (io_res (entry_address config)) (\<lambda>entry_addr.
     io_bind (open_chan entry_addr) (\<lambda>conn.
     io_bind (build_circuit A conn (cfg_circuit config)) (\<lambda>(session_keys, circuit_node_ids).
     io_bind (take_quote (ae_x A)) (\<lambda>own_quote.
     io_bind (collect_proxy_attestations A conn session_keys circuit_node_ids) (\<lambda>proxy_atts.
     io_bind (new_chain (ae_x A) (cfg_node_id config) own_quote) (\<lambda>chain0.
     io_bind (add_all proxy_atts chain0) (\<lambda>chain.
       (let zts_depth = length session_keys - 1 in
        io_bind (wrap_payload_for_hop A session_keys zts_depth (plain_cell (ChainSubmission chain))) (\<lambda>encrypted.
        io_bind (send_cell A conn encrypted) (\<lambda>_.
        io_bind (receive A conn) (\<lambda>response.
          (case response of
             PmRelayCell relay \<Rightarrow>
               io_bind (io_res (unwrap_response_from_hop A session_keys zts_depth (rc_encrypted_payload relay))) (\<lambda>payload.
                 (case rp_command payload of
                    FullAuthorizationResult r \<Rightarrow>
                      io_return \<lparr>cx_authorized = far_authorized r, cx_session_token = far_session_token r,
                        cx_chain1_nodes = length (far_chain1_node_results r),
                        cx_chain2_nodes = length (far_chain2_node_results r),
                        cx_chain_conn = kept (far_authorized r) conn,
                        cx_chain_session_keys = kept (far_authorized r) session_keys,
                        cx_chain_circuit_node_ids = kept (far_authorized r) circuit_node_ids\<rparr>
                  | VerificationResult r \<Rightarrow>
                      io_return \<lparr>cx_authorized = vr_verified r, cx_session_token = None,
                        cx_chain1_nodes = length (vr_node_results r), cx_chain2_nodes = 0,
                        cx_chain_conn = kept (vr_verified r) conn,
                        cx_chain_session_keys = kept (vr_verified r) session_keys,
                        cx_chain_circuit_node_ids = kept (vr_verified r) circuit_node_ids\<rparr>
                  | other \<Rightarrow> io_res (Inl (Err (''Unexpected response: '' @ ae_debug_command A other)))))
           | _ \<Rightarrow> io_res (Inl (Err ''Did not receive expected RelayCell response''))))))))))))))"

text \<open>\<open>for depth in 0..proxy_count\<close> of the heartbeat; the node identity is indexed after the answer.\<close>

fun heartbeat_collect ::
  "agent_env \<Rightarrow> nat \<Rightarrow> bytes list \<Rightarrow> string list \<Rightarrow> nat list \<Rightarrow> ChainPacket \<Rightarrow> (node, ChainPacket) io" where
  "heartbeat_collect A conn session_keys node_ids [] chain = io_return chain"
| "heartbeat_collect A conn session_keys node_ids (depth # depths) chain =
     io_bind (request_attestation A conn session_keys depth) (\<lambda>att.
     io_bind (io_res (index_at node_ids depth)) (\<lambda>node_id.
     io_bind now_secs (\<lambda>t.
       heartbeat_collect A conn session_keys node_ids depths (add_attestation t node_id (att_tpm_quote att) chain))))"

definition heartbeat_chain1 ::
  "agent_env \<Rightarrow> nat \<Rightarrow> bytes list \<Rightarrow> string \<Rightarrow> string list \<Rightarrow> (node, SessionStatus) io" where
  "heartbeat_chain1 A conn session_keys own_node_id circuit_node_ids =
     io_bind (take_quote (ae_x A)) (\<lambda>own_quote.
     io_bind (new_chain (ae_x A) own_node_id own_quote) (\<lambda>chain0.
     io_bind (io_res (if session_keys = [] then Inl (Panic ''attempt to subtract with overflow'') else Inr ())) (\<lambda>_.
     io_bind (heartbeat_collect A conn session_keys circuit_node_ids [0..<length session_keys - 1] chain0) (\<lambda>chain.
       (let zts_depth = length session_keys - 1 in
        io_bind (wrap_payload_for_hop A session_keys zts_depth (plain_cell (ChainSubmission chain))) (\<lambda>encrypted.
        io_bind (send_cell A conn encrypted) (\<lambda>_.
        io_bind (receive A conn) (\<lambda>response.
          (case response of
             PmRelayCell relay \<Rightarrow>
               io_bind (io_res (unwrap_response_from_hop A session_keys zts_depth (rc_encrypted_payload relay))) (\<lambda>payload.
                 (case rp_command payload of
                    VerificationResult r \<Rightarrow> io_return (vr_session_status r)
                  | FullAuthorizationResult r \<Rightarrow> io_return (far_session_status r)
                  | _ \<Rightarrow> io_res (Inl (Err ''Unexpected heartbeat response''))))
           | _ \<Rightarrow> io_res (Inl (Err ''Expected RelayCell'')))))))))))"

section \<open>Session state of a server\<close>

record authority_env =
  az_dual :: dual_env
  az_audit :: "nat \<Rightarrow> audit_env"
  az_elapsed :: "nat \<Rightarrow> u64"

abbreviation az_agent where "az_agent Z \<equiv> de_agent (az_dual Z)"
abbreviation az_verify where "az_verify Z \<equiv> de_verify (az_dual Z)"

text \<open>\<open>ss_file\<close> is the content of the audit file and \<open>ss_writes\<close> the number of calls of the logger so far.\<close>

record session =
  ss_trackers :: trackers
  ss_logger :: AuditLogger
  ss_file :: "string option"
  ss_writes :: nat
  ss_count :: u64
  ss_active :: bool

type_synonym 'a server = "(node \<times> session, 'a) io"

definition on_node :: "(node, 'a) io \<Rightarrow> 'a server" where
  "on_node m = (\<lambda>(n, s). case m n of (r, n') \<Rightarrow> (r, n', s))"

definition get_session :: "session server" where
  "get_session = (\<lambda>(n, s). (Inr s, n, s))"

definition modify_session :: "(session \<Rightarrow> session) \<Rightarrow> unit server" where
  "modify_session f = (\<lambda>(n, s). (Inr (), n, f s))"

text \<open>\<open>let _ = audit_logger.write(...)\<close>: the outcome is ignored.\<close>

definition log_event :: "authority_env \<Rightarrow> AuditRequest \<Rightarrow> session \<Rightarrow> session" where
  "log_event Z r s =
     (case audit_write (az_audit Z (ss_writes s)) r (ss_logger s, ss_file s) of
        (_, L, file) \<Rightarrow> s\<lparr>ss_logger := L, ss_file := file, ss_writes := Suc (ss_writes s)\<rparr>)"

definition AUDIT_LOG_PATH :: string where "AUDIT_LOG_PATH = ''audit.jsonl''"

definition session_new :: "authority_env \<Rightarrow> string \<Rightarrow> u8 \<Rightarrow> string option \<Rightarrow> session" where
  "session_new Z node_id log_mode file =
     \<lparr>ss_trackers = trackers_new, ss_logger = logger_new (az_audit Z 0) AUDIT_LOG_PATH node_id log_mode file,
      ss_file = file, ss_writes = 0, ss_count = 0, ss_active = False\<rparr>"

definition session_ended :: "u8 \<Rightarrow> u64 \<Rightarrow> AuditRequest" where
  "session_ended chain_number count =
     \<lparr>rq_event = SessionEnded, rq_heartbeat = count, rq_chain_id = replicate 8 0, rq_node_results = [],
      rq_attestation_metas = None, rq_chain_number = chain_number, rq_session_status = ''SESSION_ENDED'',
      rq_authorized = True, rq_timing_ms = None, rq_session_token_hash = None\<rparr>"

definition end_session :: "authority_env \<Rightarrow> u8 \<Rightarrow> session \<Rightarrow> session" where
  "end_session Z chain_number s =
     (if 0 < ss_count s then log_event Z (session_ended chain_number (ss_count s)) s else s)"

text \<open>
  The loop both servers run: handle messages until the connection fails, then end the session.  An error of
  a step leaves the loop at once, without the final entry.  \<open>None\<close> is running out of rounds.
\<close>

fun serve_loop ::
  "nat \<Rightarrow> agent_env \<Rightarrow> nat \<Rightarrow> (ProtocolMessage \<Rightarrow> unit server) \<Rightarrow> (session \<Rightarrow> session)
     \<Rightarrow> node \<times> session \<Rightarrow> (unit res \<times> node \<times> session) option" where
  "serve_loop 0 A conn step finish ns = None"
| "serve_loop (Suc k) A conn step finish ns =
     (case on_node (receive A conn) ns of
        (Inl (Err e), n, s) \<Rightarrow> Some (Inr (), n, finish s)
      | (Inl (Panic e), ns') \<Rightarrow> Some (Inl (Panic e), ns')
      | (Inr message, ns') \<Rightarrow>
          (case step message ns' of
             (Inl e, ns2) \<Rightarrow> Some (Inl e, ns2)
           | (Inr _, ns2) \<Rightarrow> serve_loop k A conn step finish ns2))"

definition serve ::
  "agent_env \<Rightarrow> nat \<Rightarrow> (ProtocolMessage \<Rightarrow> unit server) \<Rightarrow> (session \<Rightarrow> session)
     \<Rightarrow> node \<times> session \<Rightarrow> (unit res \<times> node \<times> session) option" where
  "serve A conn step finish ns = serve_loop (Suc (length (rx (nd_chan (fst ns) conn)))) A conn step finish ns"

section \<open>vm3, the distributed authority\<close>

text \<open>A quorum that is denied, or a vm4 that cannot be reached, turns the result into a denial; the token stays.\<close>

definition denied :: "FullAuthorizationResponse \<Rightarrow> FullAuthorizationResponse" where
  "denied r = r\<lparr>far_authorized := False, far_session_status := Denied\<rparr>"

definition apply_quorum ::
  "dual_env \<Rightarrow> string option \<Rightarrow> string \<Rightarrow> FullAuthorizationResponse \<Rightarrow> (node, FullAuthorizationResponse) io" where
  "apply_quorum D vm4_address node_id full_result =
     (case vm4_address of
        None \<Rightarrow> io_return full_result
      | Some v4_addr \<Rightarrow> (\<lambda>n.
          (case vm3_forward_to_vm4 D v4_addr node_id full_result n of
             (Inr True, n') \<Rightarrow> (Inr full_result, n')
           | (Inr False, n') \<Rightarrow> (Inr (denied full_result), n')
           | (Inl (Err e), n') \<Rightarrow> (Inr (denied full_result), n')
           | (Inl (Panic e), n') \<Rightarrow> (Inl (Panic e), n'))))"

definition da_request ::
  "authority_env \<Rightarrow> session \<Rightarrow> Chain2Packet \<Rightarrow> FullAuthorizationResponse \<Rightarrow> AttestationMeta \<Rightarrow> AuditRequest" where
  "da_request Z s c2_packet full_result da_meta =
     \<lparr>rq_event = (if far_authorized full_result then ChainVerified else ChainDenied), rq_heartbeat = ss_count s,
      rq_chain_id = c2_chain2_id c2_packet,
      rq_node_results = far_chain1_node_results full_result @ far_chain2_node_results full_result,
      rq_attestation_metas = Some (map extract_attestation_meta (c2_chain2_attestations c2_packet) @ [da_meta]),
      rq_chain_number = 2, rq_session_status = status_name (far_session_status full_result),
      rq_authorized = far_authorized full_result, rq_timing_ms = Some (az_elapsed Z (ss_writes s)),
      rq_session_token_hash = None\<rparr>"

definition da_submission ::
  "authority_env \<Rightarrow> BaselineDatabase option \<Rightarrow> string \<Rightarrow> string option \<Rightarrow> nat \<Rightarrow> bytes \<Rightarrow> Chain2Packet \<Rightarrow> unit server" where
  "da_submission Z baseline_db node_id vm4_address conn key c2_packet =
     io_bind (modify_session (\<lambda>s. s\<lparr>ss_count := ss_count s + 1\<rparr>)) (\<lambda>_.
     io_bind get_session (\<lambda>s.
     io_bind (on_node (verify_full_authorization (az_verify Z) c2_packet baseline_db node_id (ss_trackers s)))
       (\<lambda>((full_result, da_meta), tk).
     io_bind (modify_session (\<lambda>s. s\<lparr>ss_trackers := tk\<rparr>)) (\<lambda>_.
     io_bind (on_node (apply_quorum (az_dual Z) vm4_address node_id full_result)) (\<lambda>full_result.
     io_bind (modify_session (\<lambda>s. log_event Z (da_request Z s c2_packet full_result da_meta) s)) (\<lambda>_.
       on_node (reply (az_agent Z) conn key (plain_cell (FullAuthorizationResult full_result)))))))))"

definition da_step ::
  "authority_env \<Rightarrow> BaselineDatabase option \<Rightarrow> string \<Rightarrow> string option \<Rightarrow> nat \<Rightarrow> bytes \<Rightarrow> ProtocolMessage \<Rightarrow> unit server" where
  "da_step Z baseline_db node_id vm4_address conn key message =
     (case message of
        PmRelayCell relay \<Rightarrow>
          io_bind (io_res (unseal (az_agent Z) key (rc_encrypted_payload relay))) (\<lambda>payload.
            (case rp_command payload of
               Chain2Submission c2_packet \<Rightarrow> da_submission Z baseline_db node_id vm4_address conn key c2_packet
             | _ \<Rightarrow> io_return ()))
      | _ \<Rightarrow> io_return ())"

text \<open>When the handshake fails the session is the fresh one: nothing was logged.\<close>

definition handle_da_circuit ::
  "authority_env \<Rightarrow> BaselineDatabase option \<Rightarrow> string \<Rightarrow> string option \<Rightarrow> nat \<Rightarrow> string option \<Rightarrow> node
     \<Rightarrow> (unit res \<times> node \<times> session) option" where
  "handle_da_circuit Z baseline_db node_id vm4_address conn file n =
     (let fresh = session_new Z node_id 2 file in
      case io_bind (receive (az_agent Z) conn) (\<lambda>message. answer_extend (az_agent Z) conn node_id message) n of
        (Inl e, n1) \<Rightarrow> Some (Inl e, n1, fresh)
      | (Inr key, n1) \<Rightarrow>
          serve (az_agent Z) conn (da_step Z baseline_db node_id vm4_address conn key) (end_session Z 2) (n1, fresh))"

section \<open>vm2, the zero trust server\<close>

record Chain2State =
  c2s_conn :: nat
  c2s_session_keys :: "bytes list"
  c2s_node_ids :: "string list"

definition open_chain2 :: "agent_env \<Rightarrow> NodeConfig \<Rightarrow> (node, Chain2State option) io" where
  "open_chain2 A config =
     (if has_chain2 config then
        io_bind (io_res (chain2_entry_address config)) (\<lambda>entry_addr.
        io_bind (open_chan entry_addr) (\<lambda>c2_conn.
        io_bind (build_circuit A c2_conn (cfg_chain2_circuit config)) (\<lambda>(c2_keys, c2_node_ids).
          io_return (Some \<lparr>c2s_conn = c2_conn, c2s_session_keys = c2_keys, c2s_node_ids = c2_node_ids\<rparr>))))
      else io_return None)"

text \<open>The arguments of the three audit calls of a submission.\<close>

definition zts_request ::
  "authority_env \<Rightarrow> session \<Rightarrow> ChainPacket \<Rightarrow> bool \<Rightarrow> NodeVerificationResult list \<Rightarrow> AttestationMeta list
     \<Rightarrow> SessionStatus \<Rightarrow> AuditRequest" where
  "zts_request Z s chain ok results metas status =
     \<lparr>rq_event = (if ok then HeartbeatOk else HeartbeatFail), rq_heartbeat = ss_count s,
      rq_chain_id = cp_chain_id chain, rq_node_results = results, rq_attestation_metas = Some metas,
      rq_chain_number = 1, rq_session_status = status_name status, rq_authorized = ok,
      rq_timing_ms = Some (az_elapsed Z (ss_writes s)), rq_session_token_hash = None\<rparr>"

definition chain2_packet ::
  "agent_env \<Rightarrow> string \<Rightarrow> VerificationResponse \<Rightarrow> (string \<times> Attestation) list \<Rightarrow> (node, Chain2Packet) io" where
  "chain2_packet A node_id chain1_result c2_proxy_atts =
     io_bind (self_attest (ae_x A) node_id) (\<lambda>vm2_att.
     io_bind now_secs (\<lambda>id_time.
     io_bind now_secs (\<lambda>timestamp.
       io_return \<lparr>c2_chain1_results = chain1_result,
         c2_chain2_attestations = vm2_att # map (\<lambda>(nid, att). att\<lparr>att_vm_identity := nid\<rparr>) c2_proxy_atts,
         c2_chain2_id = sha256 (ae_x A) (as_bytes (''chain2-'' @ show_word id_time)),
         c2_timestamp = timestamp\<rparr>)))"

text \<open>A response other than a relay cell is dropped without an answer to the client.\<close>

definition zts_forward ::
  "authority_env \<Rightarrow> string \<Rightarrow> nat \<Rightarrow> bytes \<Rightarrow> Chain2State \<Rightarrow> ChainPacket \<Rightarrow> VerificationResponse \<Rightarrow> unit server" where
  "zts_forward Z node_id conn key c2 chain chain1_result =
     (let A = az_agent Z; da_depth = length (c2s_session_keys c2) - 1 in
      io_bind (on_node (collect_proxy_attestations A (c2s_conn c2) (c2s_session_keys c2) (c2s_node_ids c2))) (\<lambda>c2_proxy_atts.
      io_bind (on_node (chain2_packet A node_id chain1_result c2_proxy_atts)) (\<lambda>c2_packet.
      io_bind (on_node (wrap_payload_for_hop A (c2s_session_keys c2) da_depth (plain_cell (Chain2Submission c2_packet)))) (\<lambda>enc.
      io_bind (on_node (send_cell A (c2s_conn c2) enc)) (\<lambda>_.
      io_bind (on_node (receive A (c2s_conn c2))) (\<lambda>c2_response.
        (case c2_response of
           PmRelayCell c2_relay \<Rightarrow>
             io_bind (io_res (unwrap_response_from_hop A (c2s_session_keys c2) da_depth (rc_encrypted_payload c2_relay))) (\<lambda>c2_payload.
               (case rp_command c2_payload of
                  FullAuthorizationResult full_result \<Rightarrow>
                    io_bind (modify_session (\<lambda>s. if far_authorized full_result then s\<lparr>ss_active := True\<rparr> else s)) (\<lambda>_.
                    io_bind (modify_session (\<lambda>s. log_event Z (zts_request Z s chain (far_authorized full_result)
                        (far_chain1_node_results full_result @ far_chain2_node_results full_result)
                        (map extract_attestation_meta (cp_attestations chain)
                          @ map extract_attestation_meta (c2_chain2_attestations c2_packet))
                        (far_session_status full_result)) s)) (\<lambda>_.
                      on_node (reply A conn key (plain_cell (FullAuthorizationResult full_result)))))
                | _ \<Rightarrow> io_res (Inl (Err ''Expected FullAuthorizationResult from DA''))))
         | _ \<Rightarrow> io_return ())))))))"

definition zts_submission ::
  "authority_env \<Rightarrow> BaselineDatabase option \<Rightarrow> string \<Rightarrow> nat \<Rightarrow> bytes \<Rightarrow> Chain2State option \<Rightarrow> ChainPacket \<Rightarrow> unit server" where
  "zts_submission Z baseline_db node_id conn key chain2_state chain =
     io_bind (modify_session (\<lambda>s. s\<lparr>ss_count := ss_count s + 1\<rparr>)) (\<lambda>_.
     io_bind get_session (\<lambda>s.
     io_bind (on_node (verify_chain_against_db (az_verify Z) chain baseline_db (ss_active s) node_id (ss_trackers s)))
       (\<lambda>(chain1_result, tk).
     io_bind (modify_session (\<lambda>s. s\<lparr>ss_trackers := tk\<rparr>)) (\<lambda>_.
       (let answer = (\<lambda>ok. io_bind (modify_session (\<lambda>s. log_event Z (zts_request Z s chain ok (vr_node_results chain1_result)
                (map extract_attestation_meta (cp_attestations chain)) (vr_session_status chain1_result)) s)) (\<lambda>_.
              on_node (reply (az_agent Z) conn key (plain_cell (VerificationResult chain1_result)))))
        in case (vr_verified chain1_result, chain2_state) of
             (True, Some c2) \<Rightarrow> zts_forward Z node_id conn key c2 chain chain1_result
           | (True, None) \<Rightarrow> io_bind (modify_session (\<lambda>s. s\<lparr>ss_active := True\<rparr>)) (\<lambda>_. answer True)
           | (False, _) \<Rightarrow> answer False)))))"

definition zts_step ::
  "authority_env \<Rightarrow> BaselineDatabase option \<Rightarrow> string \<Rightarrow> nat \<Rightarrow> bytes \<Rightarrow> Chain2State option \<Rightarrow> ProtocolMessage \<Rightarrow> unit server" where
  "zts_step Z baseline_db node_id conn key chain2_state message =
     (case message of
        PmRelayCell relay \<Rightarrow>
          io_bind (io_res (unseal (az_agent Z) key (rc_encrypted_payload relay))) (\<lambda>payload.
            (case rp_command payload of
               ChainSubmission chain \<Rightarrow> zts_submission Z baseline_db node_id conn key chain2_state chain
             | _ \<Rightarrow> io_return ()))
      | _ \<Rightarrow> io_return ())"

definition handle_zts_circuit ::
  "authority_env \<Rightarrow> BaselineDatabase option \<Rightarrow> NodeConfig \<Rightarrow> nat \<Rightarrow> string option \<Rightarrow> node
     \<Rightarrow> (unit res \<times> node \<times> session) option" where
  "handle_zts_circuit Z baseline_db config conn file n =
     (let fresh = session_new Z (cfg_node_id config) (cfg_log_mode config) file in
      case io_bind (io_bind (receive (az_agent Z) conn)
                      (\<lambda>message. answer_extend (az_agent Z) conn (cfg_node_id config) message)) (\<lambda>key.
             io_bind (open_chain2 (az_agent Z) config) (\<lambda>chain2_state. io_return (key, chain2_state))) n of
        (Inl e, n1) \<Rightarrow> Some (Inl e, n1, fresh)
      | (Inr (key, chain2_state), n1) \<Rightarrow>
          serve (az_agent Z) conn (zts_step Z baseline_db (cfg_node_id config) conn key chain2_state)
            (end_session Z 1) (n1, fresh))"

section \<open>Lemmas on the trackers\<close>

lemma judge_all_append:
  "judge_all V db (xs @ ys) tk =
     (fst (judge_all V db xs tk) @ fst (judge_all V db ys (snd (judge_all V db xs tk))),
      snd (judge_all V db ys (snd (judge_all V db xs tk))))"
  by (induction xs arbitrary: tk) (auto simp: Let_def split_beta)

lemma snd_judge_all: "snd (judge_all V db atts tk) = fold track atts tk"
  by (induction atts arbitrary: tk) (auto simp: Let_def split_beta)

lemma length_judge_all [simp]: "length (fst (judge_all V db atts tk)) = length atts"
  by (induction atts arbitrary: tk) (auto simp: Let_def split_beta)

lemma track_simps:
  "tk_ima (track att tk) v = (if v = att_vm_identity att then Some (ima_count (tq_ima_measurements (att_tpm_quote att)))
     else tk_ima tk v)"
  "tk_agg (track att tk) v = (if v = att_vm_identity att then Some (ima_aggregate_hash (tq_ima_measurements (att_tpm_quote att)))
     else tk_agg tk v)"
  by (simp_all add: track_def)

text \<open>The log an attestation carries, and an attestation whose claimed count and aggregate are those of its log.\<close>

definition ima_log :: "Attestation \<Rightarrow> string" where
  "ima_log att = ima_measurements_text (tq_ima_measurements (att_tpm_quote att))"

definition truthful :: "crypto_ext \<Rightarrow> Attestation \<Rightarrow> bool" where
  "truthful X att \<longleftrightarrow>
     ima_aggregate_hash (tq_ima_measurements (att_tpm_quote att)) = sha256 X (as_bytes (ima_log att)) \<and>
     whole_lines (unat (ima_count (tq_ima_measurements (att_tpm_quote att)))) (ima_log att)"

text \<open>No prefix of a later log has the hash of an earlier log without being it.\<close>

definition no_second_preimage :: "crypto_ext \<Rightarrow> Attestation list \<Rightarrow> bool" where
  "no_second_preimage X atts \<longleftrightarrow>
     (\<forall>a \<in> set atts. \<forall>b \<in> set atts. \<forall>p. prefix p (ima_log b) \<longrightarrow>
        sha256 X (as_bytes p) = sha256 X (as_bytes (ima_log a)) \<longrightarrow> p = ima_log a)"

lemma judge_node_extends:
  assumes "get_baseline db (att_vm_identity b) \<noteq> None"
    and "tk_ima tk (att_vm_identity b) = Some n" and "tk_agg tk (att_vm_identity b) = Some (sha256 (ve_x V) (as_bytes t))"
    and "whole_lines (unat n) t" and "nvr_ima_valid (judge_node V (Some db) tk b)"
    and "\<And>p. prefix p (ima_log b) \<Longrightarrow> sha256 (ve_x V) (as_bytes p) = sha256 (ve_x V) (as_bytes t) \<Longrightarrow> p = t"
  shows "prefix t (ima_log b)"
proof -
  obtain bl where "get_baseline db (att_vm_identity b) = Some bl" using assms(1) by blast
  with assms(2,3,5) have "fst (check_ima_aggregate (ve_x V) (Some n) (Some (sha256 (ve_x V) (as_bytes t)))
      (tq_ima_measurements (att_tpm_quote b)))"
    by (simp add: judge_node_def verify_attestation_known)
  from check_ima_aggregate_sound [OF this whole_lines_pos [OF assms(4)]] assms(6) show ?thesis
    unfolding ima_log_def by blast
qed

text \<open>Once a truthful log of a node is tracked, every accepted later one extends it, and so on.\<close>

lemma logs_grow_from:
  assumes "get_baseline db v \<noteq> None" and "no_second_preimage (ve_x V) (a # atts)"
    and "tk_ima tk v = Some (ima_count (tq_ima_measurements (att_tpm_quote a)))"
    and "tk_agg tk v = Some (sha256 (ve_x V) (as_bytes (ima_log a)))"
    and "whole_lines (unat (ima_count (tq_ima_measurements (att_tpm_quote a)))) (ima_log a)"
    and "\<And>i. i < length atts \<Longrightarrow> att_vm_identity (atts ! i) = v \<Longrightarrow>
       truthful (ve_x V) (atts ! i) \<and> nvr_ima_valid (fst (judge_all V (Some db) atts tk) ! i)"
  shows "sorted_wrt prefix (ima_log a # map ima_log (filter (\<lambda>b. att_vm_identity b = v) atts))"
  using assms(2-6)
proof (induction atts arbitrary: a tk)
  case Nil
  then show ?case by simp
next
  case (Cons b atts)
  have rest: "truthful (ve_x V) (atts ! i) \<and> nvr_ima_valid (fst (judge_all V (Some db) atts (track b tk)) ! i)"
    if "i < length atts" "att_vm_identity (atts ! i) = v" for i
    using Cons.prems(5) [of "Suc i"] that by (simp add: Let_def split_beta)
  show ?case
  proof (cases "att_vm_identity b = v")
    case True
    have t: "truthful (ve_x V) b" and ok: "nvr_ima_valid (judge_node V (Some db) tk b)"
      using Cons.prems(5) [of 0] True by (simp_all add: Let_def split_beta)
    have "prefix (ima_log a) (ima_log b)"
      by (rule judge_node_extends [OF _ _ _ Cons.prems(4) ok])
         (use True assms(1) Cons.prems(1-3) in \<open>auto simp: no_second_preimage_def\<close>)
    moreover have "sorted_wrt prefix (ima_log b # map ima_log (filter (\<lambda>b. att_vm_identity b = v) atts))"
      by (rule Cons.IH [of b "track b tk"])
         (use t True Cons.prems(1) rest in \<open>auto simp: no_second_preimage_def truthful_def track_simps\<close>)
    ultimately show ?thesis using True by (auto intro: prefix_order.trans)
  next
    case False
    have "sorted_wrt prefix (ima_log a # map ima_log (filter (\<lambda>b. att_vm_identity b = v) atts))"
      by (rule Cons.IH [of a "track b tk"])
         (use False Cons.prems rest in \<open>auto simp: no_second_preimage_def track_simps\<close>)
    then show ?thesis using False by simp
  qed
qed

lemma logs_grow:
  assumes "get_baseline db v \<noteq> None" and "no_second_preimage (ve_x V) atts"
    and "\<And>i. i < length atts \<Longrightarrow> att_vm_identity (atts ! i) = v \<Longrightarrow>
       truthful (ve_x V) (atts ! i) \<and> nvr_ima_valid (fst (judge_all V (Some db) atts tk) ! i)"
  shows "sorted_wrt prefix (map ima_log (filter (\<lambda>b. att_vm_identity b = v) atts))"
  using assms(2,3)
proof (induction atts arbitrary: tk)
  case Nil
  then show ?case by simp
next
  case (Cons b atts)
  have rest: "truthful (ve_x V) (atts ! i) \<and> nvr_ima_valid (fst (judge_all V (Some db) atts (track b tk)) ! i)"
    if "i < length atts" "att_vm_identity (atts ! i) = v" for i
    using Cons.prems(2) [of "Suc i"] that by (simp add: Let_def split_beta)
  show ?case
  proof (cases "att_vm_identity b = v")
    case True
    then have "truthful (ve_x V) b" using Cons.prems(2) [of 0] by simp
    then show ?thesis
      using logs_grow_from [OF assms(1) Cons.prems(1), of "track b tk"] True rest
      by (simp add: truthful_def track_simps)
  next
    case False
    then show ?thesis using Cons.IH [of "track b tk"] Cons.prems(1) rest by (simp add: no_second_preimage_def)
  qed
qed

section \<open>Lemmas on the verdicts\<close>

lemma self_attest_Inr:
  "self_attest X node_id n = (Inr att, n') \<Longrightarrow> att_vm_identity att = node_id \<and> (\<exists>k. generate_quote X (nd_tpm n k) = Inr (att_tpm_quote att))"
  by (auto simp: self_attest_def io_bind_eq_Inr take_quote_def now_secs_def)

lemma mint_Inr: "mint X ok label ids n = (Inr token, n') \<Longrightarrow> token \<noteq> None \<longleftrightarrow> ok"
  by (auto simp: mint_def io_bind_eq_Inr now_secs_def split: if_splits)

lemma verify_chain_Inr:
  assumes "verify_chain_against_db V chain db was_active zts tk n = (Inr (r, tk'), n')"
  shows "\<exists>self_att n1. self_attest (ve_x V) zts n = (Inr self_att, n1) \<and>
     judge_all V db (cp_attestations chain @ [self_att]) tk = (vr_node_results r, tk') \<and>
     vr_verified r \<and> vr_session_status r = Provisional \<and> vr_session_token r \<noteq> None \<and> vr_chain_id r = cp_chain_id chain"
  using assms
  by (auto simp: verify_chain_against_db_def split_beta Let_def io_bind_eq_Inr judge_all_append
      dest!: mint_Inr)

lemma verify_full_Inr:
  assumes "verify_full_authorization V c2 db da tk n = (Inr ((r, meta), tk'), n')"
  shows "\<exists>da_att. att_vm_identity da_att = da \<and>
     judge_all V db (c2_chain2_attestations c2 @ [da_att]) tk = (far_chain2_node_results r, tk') \<and>
     far_authorized r = vr_verified (c2_chain1_results c2) \<and>
     far_session_status r = (if far_authorized r then Authorized else Denied) \<and>
     (far_session_token r \<noteq> None \<longleftrightarrow> far_authorized r) \<and>
     far_chain1_node_results r = vr_node_results (c2_chain1_results c2)"
  using assms
  by (auto simp: verify_full_authorization_def split_beta Let_def io_bind_eq_Inr judge_all_append
      dest!: self_attest_Inr mint_Inr)

lemma apply_quorum_Inr:
  assumes "apply_quorum D vm4 node_id r n = (Inr r', n')"
  shows "r' = r \<and> (\<forall>a. vm4 = Some a \<longrightarrow> fst (vm3_forward_to_vm4 D a node_id r n) = Inr True) \<or> r' = denied r"
  using assms
  by (auto simp: apply_quorum_def split: option.splits prod.splits sum.splits bool.splits error.splits)

section \<open>Lemmas on progress\<close>

lemma tame_Pair [intro!]: "tame h (Pair r)"
  by (simp add: tame_def)

lemmas tame_intros = tame_bind tame_basic tame_send tame_receive tame_reply

lemma tame_frames:
  "tame h (on_chan k (write_frame put data))" "tame h (on_chan k (read_frame get e))"
proof -
  have "rx (snd (write_frame put data c)) = rx c" for c
    by (auto simp: write_frame_def io_bind_def split: sum.splits prod.splits) (metis snd_conv write_all_rx)+
  then show "tame h (on_chan k (write_frame put data))" by (simp add: tame_on_chan)
  have "length (rx (snd (read_frame get e c))) \<le> length (rx c)" for c
    by (auto simp: read_frame_def read_exact_def io_bind_def Let_def io_res_def split: sum.splits prod.splits if_splits)
  then show "tame h (on_chan k (read_frame get e))" by (simp add: tame_on_chan)
qed

lemma tame_dual:
  "tame h (send_encrypted D k key msg)" "tame h (recv_encrypted D k key)"
  "tame h (perform_key_exchange_initiator D k sender)" "tame h (build_self_attestation D node_id)"
  unfolding send_encrypted_def recv_encrypted_def perform_key_exchange_initiator_def build_self_attestation_def
    key_exchange_init_io_def
  by (auto intro!: tame_bind tame_frames split: prod.splits)

lemma tame_context [intro]: "tame h m \<Longrightarrow> tame h (io_context msg m)"
  by (simp add: tame_def io_context_def)

lemma tame_forward: "tame h (vm3_forward_to_vm4 D a node_id r)"
  unfolding vm3_forward_to_vm4_def
  by (intro tame_bind tame_context tame_dual tame_basic) (auto split: DualAuthMessage.splits)

lemma tame_quorum: "tame h (apply_quorum D vm4 node_id r)"
proof (cases vm4)
  case (Some a)
  have "snd (apply_quorum D vm4 node_id r n) = snd (vm3_forward_to_vm4 D a node_id r n)" for n
    by (auto simp: apply_quorum_def Some split: prod.splits sum.splits bool.splits error.splits)
  then show ?thesis using tame_forward [of h D a node_id r] by (simp add: tame_def)
qed (auto simp: apply_quorum_def)

lemma tame_verdicts:
  "tame h (self_attest X node_id)" "tame h (mint X ok label ids)"
  "tame h (verify_chain_against_db V chain db active zts tk)" "tame h (verify_full_authorization V c2 db da tk)"
proof -
  show 1: "tame h (self_attest X node_id)" "tame h (mint X ok label ids)" for X node_id ok label ids
    by (auto simp: self_attest_def mint_def)
  show "tame h (verify_chain_against_db V chain db active zts tk)"
    unfolding verify_chain_against_db_def by (auto simp: Let_def split_beta intro!: tame_bind 1)
  show "tame h (verify_full_authorization V c2 db da tk)"
    unfolding verify_full_authorization_def by (auto simp: Let_def split_beta intro!: tame_bind 1)
qed

lemma tame_wrap_layers: "tame h (wrap_layers A keys d c)"
  by (induction d arbitrary: c) (auto simp: seal_def intro!: tame_bind)

lemma tame_wrap: "tame h (wrap_payload_for_hop A keys d payload)"
  unfolding wrap_payload_for_hop_def seal_def by (auto intro!: tame_bind tame_wrap_layers)

lemma tame_request: "tame h (request_attestation A conn keys d)"
  unfolding request_attestation_def
  by (auto intro!: tame_intros tame_wrap split: ProtocolMessage.splits RelayCommand.splits)

lemma tame_collect: "tame h (collect_proxy_attestations A conn keys ids)"
proof -
  have "tame h (collect_from A conn keys ids ds)" for ds
    by (induction ds) (auto intro!: tame_bind tame_request)
  then show ?thesis by (auto simp: collect_proxy_attestations_def)
qed

lemma tame_extend: "tame h (do_extend_direct A c t)" "tame h (do_extend_relay A c keys t a d)"
  unfolding do_extend_direct_def do_extend_relay_def key_exchange_init_io_def
  by (auto intro!: tame_intros tame_wrap split: prod.splits ProtocolMessage.splits RelayCommand.splits)

lemma tame_open_chain2: "tame h (open_chain2 A config)"
proof -
  have "tame h (build_circuit_from A c i hops keys ids)" for c i hops keys ids
    by (induction hops arbitrary: i keys ids) (auto intro!: tame_bind tame_extend)
  then show ?thesis
    by (auto simp: open_chain2_def build_circuit_def intro!: tame_bind split: prod.splits)
qed

lemma tame_chain2_packet: "tame h (chain2_packet A node_id r atts)"
  unfolding chain2_packet_def by (auto intro!: tame_bind tame_verdicts)

text \<open>The same for a step over node and session.\<close>

definition tame_server :: "nat \<Rightarrow> 'a server \<Rightarrow> bool" where
  "tame_server h m \<longleftrightarrow> (\<forall>n s. h < nd_next n \<longrightarrow> h < nd_next (fst (snd (m (n, s)))) \<and>
     length (rx (nd_chan (fst (snd (m (n, s)))) h)) \<le> length (rx (nd_chan n h)))"

lemma tame_server_basic [intro]:
  "tame_server h (io_return x)" "tame_server h (io_res r)" "tame_server h get_session"
  "tame_server h (modify_session f)"
  by (simp_all add: tame_server_def io_return_def io_res_def get_session_def modify_session_def)

lemma tame_server_on_node: "tame h m \<Longrightarrow> tame_server h (on_node m)"
  by (force simp: tame_server_def tame_def on_node_def split: prod.splits)

lemma tame_server_bind:
  assumes "tame_server h m" and "\<And>x. tame_server h (f x)" shows "tame_server h (io_bind m f)"
  unfolding tame_server_def
proof (intro allI impI)
  fix n :: node and s :: session assume h: "h < nd_next n"
  obtain r n1 s1 where m: "m (n, s) = (r, n1, s1)" using prod_cases3 by blast
  have 1: "h < nd_next n1" "length (rx (nd_chan n1 h)) \<le> length (rx (nd_chan n h))"
    using assms(1) h m unfolding tame_server_def by (metis fst_conv snd_conv)+
  show "h < nd_next (fst (snd (io_bind m f (n, s)))) \<and>
      length (rx (nd_chan (fst (snd (io_bind m f (n, s)))) h)) \<le> length (rx (nd_chan n h))"
  proof (cases r)
    case (Inl e)
    then show ?thesis using 1 m by (simp add: io_bind_def)
  next
    case (Inr x)
    then show ?thesis
      using assms(2) [of x] 1 m unfolding tame_server_def by (auto simp: io_bind_def intro: le_trans)
  qed
qed

lemmas tame_server_intros = tame_server_bind tame_server_basic tame_server_on_node tame_verdicts tame_quorum
  tame_reply tame_collect tame_chain2_packet tame_wrap tame_receive

lemma tame_da_step: "tame_server h (da_step Z db node_id vm4 conn key m)"
  unfolding da_step_def da_submission_def
  by (auto intro!: tame_server_intros split: ProtocolMessage.splits RelayCommand.splits prod.splits)

lemma tame_zts_forward: "tame_server h (zts_forward Z node_id conn key c2 chain r)"
  unfolding zts_forward_def Let_def
  by (auto intro!: tame_server_intros split: ProtocolMessage.splits RelayCommand.splits)

lemma tame_zts_step: "tame_server h (zts_step Z db node_id conn key c2 m)"
  unfolding zts_step_def zts_submission_def Let_def
  by (auto intro!: tame_server_intros tame_zts_forward split: ProtocolMessage.splits RelayCommand.splits
      prod.splits bool.splits option.splits)

section \<open>The interface of a message server\<close>

text \<open>
  What the loop needs of a handler: it does not put bytes back on the connection it is served from, and it
  keeps an invariant of the session, which the final entry keeps too.
\<close>

locale message_server =
  fixes conn :: nat and step :: "ProtocolMessage \<Rightarrow> unit server"
  assumes step_tame: "tame_server conn (step m)"
begin

lemma serve_loop_total:
  "conn < nd_next (fst ns) \<Longrightarrow> length (rx (nd_chan (fst ns) conn)) < k \<Longrightarrow> serve_loop k A conn step finish ns \<noteq> None"
proof (induction k arbitrary: ns)
  case 0
  then show ?case by simp
next
  case (Suc k)
  obtain n s where ns: "ns = (n, s)" by (cases ns)
  obtain r n1 where r: "receive A conn n = (r, n1)" by (cases "receive A conn n")
  show ?case
  proof (cases r)
    case (Inl e)
    then show ?thesis using r ns by (cases e) (auto simp: on_node_def)
  next
    case (Inr m)
    note rp = receive_progress [OF r [unfolded Inr]]
    obtain r2 n2 s2 where st: "step m (n1, s) = (r2, n2, s2)" using prod_cases3 by blast
    have "conn < nd_next n2 \<and> length (rx (nd_chan n2 conn)) \<le> length (rx (nd_chan n1 conn))"
      using step_tame [of m] Suc.prems(1) rp(1) st ns unfolding tame_server_def by (metis fst_conv snd_conv)
    with Suc.IH [of "(n2, s2)"] Suc.prems(2) rp(2) ns
    have "serve_loop k A conn step finish (n2, s2) \<noteq> None" by simp
    then show ?thesis using r Inr st ns by (cases r2) (auto simp: on_node_def)
  qed
qed

lemma serve_returns: "conn < nd_next (fst ns) \<Longrightarrow> serve A conn step finish ns \<noteq> None"
  unfolding serve_def by (rule serve_loop_total) simp_all

end

locale session_server = message_server +
  fixes P :: "session \<Rightarrow> bool" and finish :: "session \<Rightarrow> session"
  assumes step_keeps: "P s \<Longrightarrow> step m (n, s) = (r, n', s') \<Longrightarrow> P s'"
    and finish_keeps: "P s \<Longrightarrow> P (finish s)"
begin

lemma serve_loop_keeps: "P (snd ns) \<Longrightarrow> serve_loop k A conn step finish ns = Some (r, n', s') \<Longrightarrow> P s'"
proof (induction k arbitrary: ns)
  case 0
  then show ?case by simp
next
  case (Suc k)
  obtain n s where ns: "ns = (n, s)" by (cases ns)
  obtain r1 n1 where r1: "receive A conn n = (r1, n1)" by (cases "receive A conn n")
  show ?case
  proof (cases r1)
    case (Inl e)
    then show ?thesis
      using r1 ns Suc.prems by (cases e) (auto simp: on_node_def finish_keeps)
  next
    case (Inr m)
    obtain r2 n2 s2 where st: "step m (n1, s) = (r2, n2, s2)" using prod_cases3 by blast
    have "P s2" using step_keeps [OF _ st] Suc.prems(1) ns by simp
    then show ?thesis
      using Suc.IH [of "(n2, s2)"] Suc.prems r1 Inr st ns by (cases r2) (auto simp: on_node_def)
  qed
qed

lemma serve_keeps: "P s \<Longrightarrow> serve A conn step finish (n, s) = Some (r, n', s') \<Longrightarrow> P s'"
  unfolding serve_def by (rule serve_loop_keeps [of "(n, s)", simplified snd_conv])

end

text \<open>
  The invariant of both servers: while every entry is printed and appended, the logger and the file are
  those of a log that only this session has written to.
\<close>

definition log_reliable :: "authority_env \<Rightarrow> bool" where
  "log_reliable Z \<longleftrightarrow> (\<forall>k. au_x (az_audit Z k) = au_x (az_audit Z 0) \<and>
     au_to_json (az_audit Z k) = au_to_json (az_audit Z 0) \<and> au_from_json (az_audit Z k) = au_from_json (az_audit Z 0) \<and>
     au_append (az_audit Z k) = Appended \<and> (\<forall>e. is_inr (au_to_json (az_audit Z k) e)))"

definition log_inv :: "authority_env \<Rightarrow> string option \<Rightarrow> session \<Rightarrow> bool" where
  "log_inv Z file0 s \<longleftrightarrow> (log_reliable Z \<longrightarrow> log_state (az_audit Z 0) file0 (ss_logger s) (ss_file s))"

lemma audit_write_reliable:
  assumes "log_reliable Z"
  shows "\<exists>L' file'. audit_write (az_audit Z k) r (L, file) = (Inr (), L', file')"
proof -
  have j: "\<exists>j. au_to_json (az_audit Z k) e = Inr j" and "au_append (az_audit Z k) = Appended" for e
    using assms unfolding log_reliable_def is_inr_def by (metis sum.case(1) sum.exhaust)+
  moreover obtain j where "au_to_json (az_audit Z k) (entry_for (az_audit Z k)
      (L\<lparr>al_seq := al_seq L + 1, al_heartbeat_count := al_heartbeat_count L + 1\<rparr>) r) = Inr j"
    using j by blast
  ultimately show ?thesis by (simp add: audit_write_def Let_def)
qed

lemma log_inv_event: "log_inv Z file0 s \<Longrightarrow> log_inv Z file0 (log_event Z r s)"
  unfolding log_inv_def
proof
  assume l: "log_reliable Z" and "log_reliable Z \<longrightarrow> log_state (az_audit Z 0) file0 (ss_logger s) (ss_file s)"
  then have st: "log_state (az_audit Z 0) file0 (ss_logger s) (ss_file s)" by blast
  obtain L' file' where w: "audit_write (az_audit Z (ss_writes s)) r (ss_logger s, ss_file s) = (Inr (), L', file')"
    using audit_write_reliable [OF l] by blast
  from l st w have "log_state (az_audit Z 0) file0 L' file'"
    unfolding log_reliable_def by (blast intro: log_state.written)
  then show "log_state (az_audit Z 0) file0 (ss_logger (log_event Z r s)) (ss_file (log_event Z r s))"
    by (simp add: log_event_def w)
qed

lemma log_inv_new: "log_inv Z file (session_new Z node_id mode file)"
  by (simp add: log_inv_def session_new_def log_state.start)

lemma log_inv_updates [simp]:
  "log_inv Z file0 (s\<lparr>ss_count := c\<rparr>) = log_inv Z file0 s" "log_inv Z file0 (s\<lparr>ss_trackers := tk\<rparr>) = log_inv Z file0 s"
  "log_inv Z file0 (s\<lparr>ss_active := b\<rparr>) = log_inv Z file0 s"
  by (simp_all add: log_inv_def)

definition keeps :: "(session \<Rightarrow> bool) \<Rightarrow> 'a server \<Rightarrow> bool" where
  "keeps P m \<longleftrightarrow> (\<forall>n s. P s \<longrightarrow> P (snd (snd (m (n, s)))))"

lemma keeps_basic:
  "keeps P (io_return x)" "keeps P (io_res r)" "keeps P get_session" "keeps P (on_node m)"
  "(\<And>s. P s \<Longrightarrow> P (f s)) \<Longrightarrow> keeps P (modify_session f)"
  by (auto simp: keeps_def io_return_def io_res_def get_session_def modify_session_def on_node_def split: prod.splits)

lemma keeps_bind:
  assumes "keeps P m" and "\<And>x. keeps P (f x)" shows "keeps P (io_bind m f)"
  unfolding keeps_def
proof (intro allI impI)
  fix n s assume "P s"
  obtain r n1 s1 where m: "m (n, s) = (r, n1, s1)" using prod_cases3 by blast
  have "P s1" using assms(1) \<open>P s\<close> m unfolding keeps_def by (metis snd_conv)
  then show "P (snd (snd (io_bind m f (n, s))))"
    using assms(2) m unfolding keeps_def by (cases r) (auto simp: io_bind_def)
qed

lemmas keeps_intros = keeps_bind keeps_basic log_inv_event

lemma da_step_keeps: "keeps (log_inv Z file0) (da_step Z db node_id vm4 conn key m)"
  unfolding da_step_def da_submission_def
  by (auto intro!: keeps_intros split: ProtocolMessage.splits RelayCommand.splits prod.splits)

lemma zts_step_keeps: "keeps (log_inv Z file0) (zts_step Z db node_id conn key c2 m)"
  unfolding zts_step_def zts_submission_def zts_forward_def Let_def
  by (auto intro!: keeps_intros split: ProtocolMessage.splits RelayCommand.splits prod.splits bool.splits option.splits)

lemma end_session_keeps: "log_inv Z file0 s \<Longrightarrow> log_inv Z file0 (end_session Z k s)"
  by (simp add: end_session_def log_inv_event)

interpretation da: session_server conn "da_step Z db node_id vm4 conn key" "log_inv Z file0" "end_session Z 2"
  for conn Z db node_id vm4 key file0
  using da_step_keeps
  by unfold_locales (auto simp: keeps_def intro: tame_da_step end_session_keeps, metis snd_conv)

interpretation zts: session_server conn "zts_step Z db node_id conn key c2" "log_inv Z file0" "end_session Z 1"
  for conn Z db node_id key c2 file0
  using zts_step_keeps
  by unfold_locales (auto simp: keeps_def intro: tame_zts_step end_session_keeps, metis snd_conv)

section \<open>Concrete inputs\<close>

text \<open>A printer that is defined on every entry: the number and the previous hash in unary.\<close>

definition unary_chars :: "string \<Rightarrow> string" where
  "unary_chars s = concat (map (\<lambda>c. replicate (of_char c) (CHR ''a'') @ ''b'') s)"

definition unary_json :: "AuditEntryV2 \<Rightarrow> string" where
  "unary_json e = replicate (unat (ae2_seq e)) (CHR ''1'') @ CHR '';'' # unary_chars (ae2_prev_hash e)"

definition unary_parse :: "string \<Rightarrow> AuditEntryV2 res" where
  "unary_parse j = Inr (demo_entry1\<lparr>ae2_seq := word_of_nat (length (takeWhile (\<lambda>c. c \<noteq> CHR '';'') j)),
     ae2_prev_hash := map (\<lambda>w. char_of (length w)) (butlast (str_split (CHR ''b'') (drop 1 (dropWhile (\<lambda>c. c \<noteq> CHR '';'') j))))\<rparr>)"

lemma unary_chars_split: "str_split (CHR ''b'') (unary_chars s) = map (\<lambda>c. replicate (of_char c) (CHR ''a'')) s @ [[]]"
  by (induction s) (auto simp: unary_chars_def str_split_run)

lemma unary_roundtrip:
  "unary_parse (unary_json e) = Inr (demo_entry1\<lparr>ae2_seq := ae2_seq e, ae2_prev_hash := ae2_prev_hash e\<rparr>)"
proof -
  have "takeWhile (\<lambda>c. c \<noteq> CHR '';'') (replicate k (CHR ''1'') @ CHR '';'' # t) = replicate k (CHR ''1'')"
    and "dropWhile (\<lambda>c. c \<noteq> CHR '';'') (replicate k (CHR ''1'') @ CHR '';'' # t) = CHR '';'' # t" for k t
    by (induction k) simp_all
  then have "takeWhile (\<lambda>c. c \<noteq> CHR '';'') (unary_json e) = replicate (unat (ae2_seq e)) (CHR ''1'')"
    and "dropWhile (\<lambda>c. c \<noteq> CHR '';'') (unary_json e) = CHR '';'' # unary_chars (ae2_prev_hash e)"
    unfolding unary_json_def by blast+
  then show ?thesis by (simp add: unary_parse_def unary_chars_split comp_def)
qed

lemma unary_json_line: "json_line (unary_json e)"
proof -
  have set: "set (unary_json e) \<subseteq> {CHR ''1'', CHR '';'', CHR ''a'', CHR ''b''}"
    by (auto simp: unary_json_def unary_chars_def)
  have "dropWhile is_space xs = xs" if "set xs \<subseteq> {CHR ''1'', CHR '';'', CHR ''a'', CHR ''b''}" for xs
    using that by (cases xs) (auto simp: is_space_def)
  from this [of "unary_json e"] this [of "rev (unary_json e)"] set
  have "str_trim (unary_json e) = unary_json e" by (simp add: str_trim_def)
  moreover have "unary_json e \<noteq> []" by (simp add: unary_json_def)
  ultimately show ?thesis using set by (auto simp: json_line_def blank_def)
qed

definition unary_audit :: audit_env where
  "unary_audit = demo_audit0\<lparr>au_to_json := (\<lambda>e. Inr (unary_json e)), au_from_json := unary_parse\<rparr>"

lemma unary_json_ok: "json_ok unary_audit"
  by (auto simp: json_ok_def unary_audit_def unary_json_line unary_roundtrip)

definition demo_authority :: authority_env where
  "demo_authority = \<lparr>az_dual = demo_dual\<lparr>de_agent := demo_agent\<rparr>, az_audit = (\<lambda>_. unary_audit), az_elapsed = (\<lambda>_. 5)\<rparr>"

lemma demo_reliable: "log_reliable demo_authority"
  by (simp add: log_reliable_def demo_authority_def unary_audit_def demo_audit0_def is_inr_def)

lemma tame_zts_setup:
  "tame h (io_bind (io_bind (receive A conn) (\<lambda>message. answer_extend A conn node_id message)) (\<lambda>key.
     io_bind (open_chain2 A config) (\<lambda>chain2_state. io_return (key, chain2_state))))"
  by (intro tame_bind tame_receive tame_answer_extend tame_open_chain2 tame_basic)

lemma tame_next: "tame h m \<Longrightarrow> h < nd_next n \<Longrightarrow> m n = (r, n') \<Longrightarrow> h < nd_next n'"
  unfolding tame_def by (metis snd_conv)

text \<open>
  The verified heartbeats of a session of vm2, each from whatever state the node is in: the stream of
  attestations that were judged, the results and the trackers.
\<close>

inductive heartbeats ::
  "verify_env \<Rightarrow> BaselineDatabase option \<Rightarrow> string \<Rightarrow> Attestation list \<Rightarrow> NodeVerificationResult list \<Rightarrow> trackers \<Rightarrow> bool"
  for V :: verify_env and db :: "BaselineDatabase option" and zts :: string where
  no_beat: "heartbeats V db zts [] [] trackers_new"
| beat: "heartbeats V db zts atts rs tk \<Longrightarrow> verify_chain_against_db V chain db active zts tk n = (Inr (r, tk'), n') \<Longrightarrow>
     self_attest (ve_x V) zts n = (Inr self_att, n1) \<Longrightarrow>
     heartbeats V db zts (atts @ cp_attestations chain @ [self_att]) (rs @ vr_node_results r) tk'"

lemma heartbeats_judge: "heartbeats V db zts atts rs tk \<Longrightarrow> judge_all V db atts trackers_new = (rs, tk)"
proof (induction rule: heartbeats.induct)
  case no_beat
  show ?case by simp
next
  case (beat atts rs tk chain active n r tk' n' self_att n1)
  from verify_chain_Inr [OF beat.hyps(2)] beat.hyps(3)
  have "judge_all V db (cp_attestations chain @ [self_att]) tk = (vr_node_results r, tk')" by auto
  then show ?case using beat.IH by (simp add: judge_all_append)
qed

lemma demo_self_attest: "\<exists>att n'. self_attest X v (demo_node []) = (Inr att, n')"
proof -
  have "\<exists>q. generate_quote X (demo_env 200) = Inr q"
    by (simp add: generate_quote_def read_pcrs_def create_ak_and_sign_quote_def read_ima_measurements_def
        read_pcr10_def demo_env_def str_trim_show parse_unsigned_show Let_def del: of_nat_numeral)
  then show ?thesis
    by (auto simp: self_attest_def io_bind_def take_quote_def now_secs_def demo_node_def)
qed

lemma demo_verify_chain: "\<exists>r tk' n'. verify_chain_against_db V chain db act zts tk (demo_node []) = (Inr (r, tk'), n')"
proof -
  obtain att n1 where a: "self_attest (ve_x V) zts (demo_node []) = (Inr att, n1)" using demo_self_attest by blast
  show ?thesis
    by (cases "judge_all V db (cp_attestations chain) tk")
       (simp add: verify_chain_against_db_def Let_def io_bind_def a mint_def now_secs_def)
qed

text \<open>Attestations whose aggregate is that of the log, under a hash that is the identity.\<close>

definition plain_attestation :: "string \<Rightarrow> nat \<Rightarrow> Attestation" where
  "plain_attestation vm n = \<lparr>att_vm_identity = vm, att_tpm_quote = (demo_quote n)
     \<lparr>tq_ima_measurements := (tq_ima_measurements (demo_quote n))
        \<lparr>ima_aggregate_hash := as_bytes (replicate n (CHR 0x0A))\<rparr>\<rparr>, att_timestamp = 8\<rparr>"

definition plain_chain :: "nat \<Rightarrow> ChainPacket" where
  "plain_chain n = \<lparr>cp_attestations = [plain_attestation ''vm0'' n], cp_chain_id = [1], cp_timestamp = 9,
     cp_is_response = False, cp_session_token = None\<rparr>"

lemma plain_sha [simp]: "sha256 (ve_x plain_verify) m = m"
  by (simp add: plain_verify_def)

lemma plain_attestation_simps [simp]:
  "att_vm_identity (plain_attestation vm n) = vm" "ima_log (plain_attestation vm n) = replicate n (CHR 0x0A)"
  "ima_count (tq_ima_measurements (att_tpm_quote (plain_attestation vm n))) = word_of_nat n"
  "ima_aggregate_hash (tq_ima_measurements (att_tpm_quote (plain_attestation vm n))) = as_bytes (replicate n (CHR 0x0A))"
  by (simp_all add: plain_attestation_def ima_log_def demo_quote_def)

lemma plain_no_second_preimage: "no_second_preimage (ve_x plain_verify) atts"
  by (simp add: no_second_preimage_def as_bytes_inject)

lemma plain_truthful: "0 < n \<Longrightarrow> n < 2 ^ 64 \<Longrightarrow> truthful (ve_x plain_verify) (plain_attestation vm n)"
  by (simp add: truthful_def unat_of_nat whole_lines_replicate)

lemma demo_db_vm0: "get_baseline demo_db ''vm0'' = Some (demo_baseline ''vm0'')"
  by (simp add: demo_db_def bdb.get_add demo_baseline_def)

lemma plain_first: "nvr_ima_valid (judge_node plain_verify (Some demo_db) trackers_new (plain_attestation ''vm0'' 200))"
  by (simp add: judge_node_def trackers_new_def verify_attestation_known demo_db_vm0 check_ima_count_def
      check_ima_aggregate_def)

lemma plain_second:
  assumes "tk_ima tk ''vm0'' = Some 200" and "tk_agg tk ''vm0'' = Some (as_bytes (replicate 200 (CHR 0x0A)))"
  shows "nvr_ima_valid (judge_node plain_verify (Some demo_db) tk (plain_attestation ''vm0'' 205))"
proof -
  let ?ima = "tq_ima_measurements (att_tpm_quote (plain_attestation ''vm0'' 205))"
  have count: "ima_count ?ima = word_of_nat (unat (200 :: u64) + 5)" by simp
  have "fst (check_ima_count (Some 200) (ima_count ?ima))"
    unfolding count by (rule check_ima_count_ok) simp_all
  moreover have "ima_measurements_text ?ima = replicate 200 (CHR 0x0A) @ replicate 5 (CHR 0x0A)"
    by (simp add: plain_attestation_def demo_quote_def flip: replicate_add)
  from check_ima_aggregate_ok [OF _ _ _ this, of 200 "ve_x plain_verify"]
  have "fst (check_ima_aggregate (ve_x plain_verify) (Some 200) (Some (as_bytes (replicate 200 (CHR 0x0A)))) ?ima)"
    by (simp add: whole_lines_replicate)
  ultimately show ?thesis
    using assms by (simp add: judge_node_def verify_attestation_known demo_db_vm0)
qed

definition demo_packet :: Chain2Packet where
  "demo_packet = \<lparr>c2_chain1_results = \<lparr>vr_verified = True, vr_session_status = Provisional, vr_session_token = None,
       vr_node_results = [], vr_chain_id = [1], vr_timestamp = 9\<rparr>,
     c2_chain2_attestations = [demo_attestation ''vm2'' 200], c2_chain2_id = [2], c2_timestamp = 9\<rparr>"

lemma demo_verify_full:
  "\<exists>full meta tk' n'. verify_full_authorization V c2 db da tk (demo_node []) = (Inr ((full, meta), tk'), n')"
proof -
  obtain att n1 where a: "self_attest (ve_x V) da (demo_node []) = (Inr att, n1)" using demo_self_attest by blast
  show ?thesis
    by (cases "judge_all V db (c2_chain2_attestations c2) tk")
       (simp add: verify_full_authorization_def Let_def io_bind_def a mint_def now_secs_def)
qed

lemma demo_unreachable: "\<exists>e n2. vm3_forward_to_vm4 demo_dual a node_id full n1 = (Inl (Err e), n2)"
  by (auto simp: vm3_forward_to_vm4_def perform_key_exchange_initiator_def key_exchange_init_io_def open_chan_def
      draw_def io_bind_def io_context_def with_context_def demo_dual_def generate_key_exchange_init_def Let_def
      split: prod.splits sum.splits error.splits if_splits)

lemma demo_da_run: "\<exists>r n' s'. handle_da_circuit demo_authority None ''vm3'' None 0 None (demo_node []) = Some (r, n', s')"
  by (simp add: handle_da_circuit_def receive_def on_chan_def receive_message_def read_frame_def read_exact_def
      io_bind_def demo_node_def Let_def)

section \<open>Properties\<close>



text \<open>
  What vm2 decides does not depend on the evidence: whenever the verification of a chain returns, it
  returns a verified, provisional chain with a token, for every attestation in it and even with no
  baseline database; it judges each attestation and its own, once each.
\<close>

theorem chain1_always_verified:
  assumes "verify_chain_against_db V chain db was_active zts tk n = (Inr (r, tk'), n')"
  shows "vr_verified r \<and> vr_session_status r = Provisional \<and> vr_session_token r \<noteq> None \<and>
     vr_chain_id r = cp_chain_id chain \<and> length (vr_node_results r) = Suc (length (cp_attestations chain))"
proof -
  from verify_chain_Inr [OF assms] obtain self_att where
    j: "judge_all V db (cp_attestations chain @ [self_att]) tk = (vr_node_results r, tk')" by blast
  have "length (vr_node_results r) = Suc (length (cp_attestations chain))"
    using length_judge_all [of V db "cp_attestations chain @ [self_att]" tk] unfolding j by simp
  with verify_chain_Inr [OF assms] show ?thesis by blast
qed

theorem chain1_always_verified_witness:
  "\<exists>r tk' n'. verify_chain_against_db demo_verify (plain_chain 0) None False ''vm2'' trackers_new (demo_node []) = (Inr (r, tk'), n') \<and>
     vr_verified r \<and> vr_session_token r \<noteq> None"
proof -
  obtain r tk' n' where v: "verify_chain_against_db demo_verify (plain_chain 0) None False ''vm2'' trackers_new (demo_node [])
      = (Inr (r, tk'), n')" using demo_verify_chain by blast
  from chain1_always_verified [OF v] v show ?thesis by blast
qed

text \<open>
  C14.  vm3's answer is authorized exactly when vm2 said that chain 1 verified and, if vm4 is configured,
  vm4 approved; status and flag agree.  The token is there whenever vm2 said chain 1 verified, also in
  an answer that vm4 turned into a denial.
\<close>

theorem da_authorization:
  assumes "verify_full_authorization V c2 db da tk n = (Inr ((full, meta), tk'), n1)"
    and "apply_quorum D vm4 da full n1 = (Inr r, n2)"
  shows "(far_authorized r \<longleftrightarrow> vr_verified (c2_chain1_results c2) \<and>
        (\<forall>a. vm4 = Some a \<longrightarrow> fst (vm3_forward_to_vm4 D a da full n1) = Inr True)) \<and>
     far_session_status r = (if far_authorized r then Authorized else Denied) \<and>
     (far_session_token r \<noteq> None \<longleftrightarrow> vr_verified (c2_chain1_results c2))"
proof -
  from verify_full_Inr [OF assms(1)] have f: "far_authorized full = vr_verified (c2_chain1_results c2)"
    "far_session_status full = (if far_authorized full then Authorized else Denied)"
    "far_session_token full \<noteq> None \<longleftrightarrow> far_authorized full" by blast+
  show ?thesis
  proof (cases vm4)
    case None
    then show ?thesis using assms(2) f by (auto simp: apply_quorum_def)
  next
    case (Some a)
    then show ?thesis
      using assms(2) f
      by (auto simp: apply_quorum_def denied_def split: prod.splits sum.splits bool.splits error.splits)
  qed
qed

text \<open>A vm4 that cannot be reached: the answer is a denial that carries a token.\<close>

theorem da_authorization_witness:
  "\<exists>full meta tk n1 r n2. verify_full_authorization demo_verify demo_packet None ''vm3'' trackers_new (demo_node []) = (Inr ((full, meta), tk), n1) \<and>
     apply_quorum demo_dual (Some ''vm4'') ''vm3'' full n1 = (Inr r, n2) \<and>
     \<not> far_authorized r \<and> far_session_status r = Denied \<and> far_session_token r \<noteq> None"
proof -
  obtain full meta tk n1 where v: "verify_full_authorization demo_verify demo_packet None ''vm3'' trackers_new (demo_node [])
      = (Inr ((full, meta), tk), n1)" using demo_verify_full by blast
  obtain e n2 where f: "vm3_forward_to_vm4 demo_dual ''vm4'' ''vm3'' full n1 = (Inl (Err e), n2)"
    using demo_unreachable by blast
  then have q: "apply_quorum demo_dual (Some ''vm4'') ''vm3'' full n1 = (Inr (denied full), n2)"
    by (simp add: apply_quorum_def)
  from da_authorization [OF v q] f v q show ?thesis by (auto simp: demo_packet_def)
qed





text \<open>
  The aggregate a node reports is stored as it is: a node that announces the hash of another log
  next to its own can replace its log at the next heartbeat and still passes, for any two logs.
\<close>

theorem rewritten_log_accepted:
  assumes "get_baseline db v = Some bl" and "200 \<le> unat n" and "unat n < 2 ^ 63" and "whole_lines (unat n) new_log"
    and "att_vm_identity a = v" and "ima_count (tq_ima_measurements (att_tpm_quote a)) = n"
    and "ima_log a = old_log"
    and "ima_aggregate_hash (tq_ima_measurements (att_tpm_quote a)) = sha256 (ve_x V) (as_bytes new_log)"
    and "att_vm_identity b = v" and "ima_count (tq_ima_measurements (att_tpm_quote b)) = n" and "ima_log b = new_log"
  shows "list_all nvr_ima_valid (fst (judge_all V (Some db) [a, b] trackers_new))"
proof -
  have n: "\<not> n < 200" using assms(2) by (simp add: word_less_nat_alt)
  have pos: "0 < unat n" using assms(2) by simp
  have "fst (check_ima_aggregate (ve_x V) (Some n) (Some (sha256 (ve_x V) (as_bytes new_log)))
      (tq_ima_measurements (att_tpm_quote b)))"
    using check_ima_aggregate_ok [OF assms(4) pos, of "tq_ima_measurements (att_tpm_quote b)" "[]" "ve_x V"] assms(10,11)
    by (simp add: ima_log_def)
  moreover have "fst (check_ima_count (Some n) n)" "fst (check_ima_count None n)"
    using n by (simp_all add: check_ima_count_def Let_def)
  ultimately show ?thesis
    using assms by (simp add: judge_node_def verify_attestation_known track_def trackers_new_def check_ima_aggregate_def)
qed

theorem rewritten_log_accepted_witness:
  "list_all nvr_ima_valid (fst (judge_all plain_verify (Some demo_db)
      [(plain_attestation ''vm0'' 200)\<lparr>att_tpm_quote := (demo_quote 200)\<lparr>tq_ima_measurements :=
          \<lparr>ima_count = 200, ima_aggregate_hash = as_bytes (replicate 200 (CHR 0x0A)), ima_pcr10_value = [],
           ima_measurements_text = ''something else''\<rparr>\<rparr>\<rparr>,
       plain_attestation ''vm0'' 200] trackers_new))"
  by (rule rewritten_log_accepted [OF demo_db_vm0, where n = 200 and new_log = "replicate 200 (CHR 0x0A)"
        and old_log = "''something else''"])
     (simp_all add: whole_lines_replicate, simp_all add: ima_log_def)

end
