(* ===== verification/Vm1_Session.thy ===== *)
theory Vm1_Session
  imports Orch_Channel Chain
begin

text \<open>
  vm1, the verified client (\<open>run_client\<close> and \<open>handle_initiate_connection\<close> of \<open>mfa-agent/src/main.rs\<close>): one
  connection of vm0 from the key exchange over the admission of its INITIATE and the chain it triggers to
  the heartbeat loop and its end.  A connection is a step over the node and the replay cache.  Lemmas: the
  handler returns, it opens no connection before an INITIATE was admitted, and what a served session had.
\<close>

section \<open>Time\<close>

text \<open>
  Milliseconds since a loop started.  A round of \<open>tokio::select!\<close> waits for a deadline and for an event;
  the one that is ready first runs, and when both are ready at the same moment either may
  (\<open>tm_deadline_first\<close>).  \<open>tm_arrival k\<close> is when the event of round \<open>k\<close> is there, \<open>tm_work k\<close> how long its
  handling takes.
\<close>

record timing =
  tm_deadline_first :: "nat \<Rightarrow> bool"
  tm_arrival :: "nat \<Rightarrow> nat"
  tm_work :: "nat \<Rightarrow> nat"

definition deadline_wins :: "timing \<Rightarrow> nat \<Rightarrow> nat \<Rightarrow> nat \<Rightarrow> bool" where
  "deadline_wins T k deadline event \<longleftrightarrow> deadline < event \<or> deadline = event \<and> tm_deadline_first T k"

section \<open>Admission\<close>

type_synonym 'a vm1 = "(node \<times> ReplayCache, 'a) io"

definition on_vm1 :: "(node, 'a) io \<Rightarrow> 'a vm1" where
  "on_vm1 m = (\<lambda>(n, cache). case m n of (r, n') \<Rightarrow> (r, n', cache))"

definition receive_initiate :: "orch_env \<Rightarrow> string \<Rightarrow> nat \<Rightarrow> (node, bytes \<times> SignedInitiate) io" where
  "receive_initiate E node_id stream =
     io_bind (perform_vm1_key_exchange E stream node_id) (\<lambda>key.
     io_bind (recv_orch_message E stream key) (\<lambda>msg.
       (case msg of
          OmAttestationRequest nonce \<Rightarrow>
            io_bind (take_quote (oe_x E)) (\<lambda>quote.
            io_bind now_secs (\<lambda>timestamp.
            io_bind (send_orch_message E stream key (OmAttestationResponse
                \<lparr>att_vm_identity = node_id, att_tpm_quote = quote, att_timestamp = timestamp\<rparr>)) (\<lambda>_.
            io_bind (recv_orch_message E stream key) (\<lambda>msg.
              (case msg of
                 OmInitiate initiate \<Rightarrow> io_return (key, initiate)
               | other \<Rightarrow> io_res (Inl (Err (''Expected Initiate, got '' @ oe_debug E other))))))))
        | other \<Rightarrow> io_res (Inl (Err (''Expected AttestationRequest, got '' @ oe_debug E other))))))"

text \<open>\<open>Inl\<close> is a rejection: the reason sent to vm0 and the error the handler ends with.\<close>

definition admit_io :: "orch_env \<Rightarrow> bytes option \<Rightarrow> SignedInitiate \<Rightarrow> (string \<times> string + unit) vm1" where
  "admit_io E expected initiate = (\<lambda>(n, cache).
     (let now = nd_clock n (nd_clock_pos n); n1 = snd (now_secs n) in
      case verify_initiate (oe_x E) (oe_tss E) (oe_payloads E) now initiate expected of
        Inl rejection \<Rightarrow> (Inr (Inl (rejection_text rejection, ''INITIATE rejected: '' @ rejection_text rejection)), n1, cache)
      | Inr _ \<Rightarrow>
          (case check_and_record (nd_clock n1 (nd_clock_pos n1)) (ip_authorization_id (si_payload initiate)) cache of
             (False, cache') \<Rightarrow> (let reason = ''authorization_id already used (replay)'' in
                (Inr (Inl (reason, reason)), snd (now_secs n1), cache'))
           | (True, cache') \<Rightarrow> (Inr (Inr ()), snd (now_secs n1), cache'))))"

text \<open>Authorization identifier, session length and expiry of an accepted INITIATE, after the acknowledgement.\<close>

definition accept_initiate ::
  "orch_env \<Rightarrow> nat \<Rightarrow> bytes \<Rightarrow> bytes option \<Rightarrow> SignedInitiate \<Rightarrow> (bytes \<times> u64 \<times> u64) vm1" where
  "accept_initiate E stream key expected initiate =
     io_bind (admit_io E expected initiate) (\<lambda>verdict.
       (case verdict of
          Inl (reason, e) \<Rightarrow>
            io_bind (on_vm1 (send_orch_message E stream key (OmInitiateRejected reason))) (\<lambda>_. io_res (Inl (Err e)))
        | Inr _ \<Rightarrow>
            (let p = si_payload initiate in
             io_bind (on_vm1 now_secs) (\<lambda>now.
             io_bind (io_res (short_auth_id p)) (\<lambda>_.
             io_bind (io_res (slice_to (ip_operator_hash p) 8)) (\<lambda>_.
             io_bind (on_vm1 (send_orch_message E stream key (OmInitiateAck (ip_authorization_id p)))) (\<lambda>_.
               io_return (ip_authorization_id p, ip_session_ttl_secs p, now + ip_session_ttl_secs p))))))))"

section \<open>Establishing the session\<close>

record vm1_session =
  v1_stream :: nat
  v1_key :: bytes
  v1_chain_conn :: nat
  v1_chain_keys :: "bytes list"
  v1_node_ids :: "string list"

definition chain_failed :: "orch_env \<Rightarrow> nat \<Rightarrow> bytes \<Rightarrow> bytes \<Rightarrow> string \<Rightarrow> string \<Rightarrow> (node, 'a) io" where
  "chain_failed E stream key authorization_id reason e =
     io_bind (send_orch_message E stream key (OmChainFailed authorization_id reason)) (\<lambda>_. io_res (Inl (Err e)))"

definition establish_session ::
  "orch_env \<Rightarrow> NodeConfig \<Rightarrow> nat \<Rightarrow> bytes \<Rightarrow> bytes \<times> u64 \<times> u64 \<Rightarrow> (node, vm1_session) io" where
  "establish_session E config stream key = (\<lambda>(authorization_id, session_ttl_secs, session_expiry).
     io_bind (\<lambda>n. (case execute_chain_establishment (oe_agent E) config n of
                (Inl (Err e), n') \<Rightarrow>
                  (let reason = ''Chain establishment failed: '' @ e in
                   chain_failed E stream key authorization_id reason reason n')
              | other \<Rightarrow> other)) (\<lambda>chain_result.
       (if \<not> cx_authorized chain_result
        then chain_failed E stream key authorization_id ''Chain completed but not authorized'' ''Chain not authorized''
        else
          io_bind (io_res (ok_or_else ''Chain connection not preserved'' (cx_chain_conn chain_result))) (\<lambda>chain_conn.
          io_bind (io_res (ok_or_else ''Chain session keys not preserved'' (cx_chain_session_keys chain_result))) (\<lambda>chain_keys.
          io_bind (io_res (ok_or_else ''Chain circuit node IDs not preserved'' (cx_chain_circuit_node_ids chain_result))) (\<lambda>node_ids.
          io_bind (send_orch_message E stream key (OmSessionToken
              \<lparr>st_authorization_id = authorization_id, st_session_token = unwrap_or [] (cx_session_token chain_result),
               st_session_expiry = session_expiry, st_chain1_node_count = word_of_nat (cx_chain1_nodes chain_result),
               st_chain2_node_count = word_of_nat (cx_chain2_nodes chain_result), st_authorized = True\<rparr>)) (\<lambda>_.
            io_return \<lparr>v1_stream = stream, v1_key = key, v1_chain_conn = chain_conn, v1_chain_keys = chain_keys,
              v1_node_ids = node_ids\<rparr>)))))))"

section \<open>The heartbeat loop\<close>

fun status_debug :: "SessionStatus \<Rightarrow> string" where
  "status_debug Provisional = ''Provisional''"
| "status_debug Authorized = ''Authorized''"
| "status_debug Denied = ''Denied''"
| "status_debug Revoked = ''Revoked''"

text \<open>What a chain heartbeat says to vm0: whether the chain is still good, and the details.\<close>

fun heartbeat_report :: "SessionStatus res \<Rightarrow> bool \<times> string" where
  "heartbeat_report (Inr status) =
     (status = Authorized \<or> status = Provisional, ''chain heartbeat: '' @ status_debug status)"
| "heartbeat_report (Inl e) = (False, ''heartbeat error: '' @ error_text e)"

text \<open>One message of vm0 during the session; \<open>Some\<close> is the reason the session ends.\<close>

definition vm1_heartbeat :: "orch_env \<Rightarrow> string \<Rightarrow> vm1_session \<Rightarrow> u64 \<Rightarrow> (node, string option) io" where
  "vm1_heartbeat E node_id S sequence = (\<lambda>n.
     (case heartbeat_chain1 (oe_agent E) (v1_chain_conn S) (v1_chain_keys S) node_id (v1_node_ids S) n of
        (Inl (Panic e), n1) \<Rightarrow> (Inl (Panic e), n1)
      | (r, n1) \<Rightarrow>
          (case heartbeat_report r of (hb_ok, details) \<Rightarrow>
            (case send_orch_message E (v1_stream S) (v1_key S)
                (OmHeartbeatResult sequence hb_ok (word_of_nat (length (v1_node_ids S) + 1)) details) n1 of
               (Inl (Panic e), n2) \<Rightarrow> (Inl (Panic e), n2)
             | (Inl (Err e), n2) \<Rightarrow> (Inr (Some (''connection error: '' @ e)), n2)
             | (Inr _, n2) \<Rightarrow> (Inr (if hb_ok then None else Some (''integrity failure: '' @ details)), n2)))))"

definition vm1_message :: "orch_env \<Rightarrow> string \<Rightarrow> vm1_session \<Rightarrow> (node, string option) io" where
  "vm1_message E node_id S = (\<lambda>n.
     (case recv_orch_message E (v1_stream S) (v1_key S) n of
        (Inr (OmHeartbeatPing sequence), n1) \<Rightarrow> vm1_heartbeat E node_id S sequence n1
      | (Inr (OmRevoke reason), n1) \<Rightarrow> (Inr (Some (''revoked: '' @ reason)), n1)
      | (Inr _, n1) \<Rightarrow> (Inr None, n1)
      | (Inl (Err e), n1) \<Rightarrow> (Inr (Some (''vm0 disconnect: '' @ e)), n1)
      | (Inl (Panic e), n1) \<Rightarrow> (Inl (Panic e), n1)))"

text \<open>The loop until the session ends: the reason, and \<open>None\<close> when the rounds run out.\<close>

primrec session_loop ::
  "nat \<Rightarrow> orch_env \<Rightarrow> string \<Rightarrow> timing \<Rightarrow> nat \<Rightarrow> vm1_session \<Rightarrow> nat \<Rightarrow> nat \<Rightarrow> node \<Rightarrow> (string res \<times> node) option" where
  "session_loop 0 E node_id T deadline S k t n = None"
| "session_loop (Suc fuel) E node_id T deadline S k t n =
     (let arrives = max t (tm_arrival T k) in
      if deadline_wins T k (max t deadline) arrives then Some (Inr ''TTL expired'', n)
      else
        (case vm1_message E node_id S n of
           (Inl e, n') \<Rightarrow> Some (Inl e, n')
         | (Inr (Some reason), n') \<Rightarrow> Some (Inr reason, n')
         | (Inr None, n') \<Rightarrow> session_loop fuel E node_id T deadline S (Suc k) (arrives + tm_work T k) n'))"

section \<open>The connection and the client\<close>

definition serve_session ::
  "orch_env \<Rightarrow> string \<Rightarrow> timing \<Rightarrow> u64 \<Rightarrow> vm1_session \<Rightarrow> node \<Rightarrow> (unit res \<times> node) option" where
  "serve_session E node_id T session_ttl_secs S n =
     (case session_loop (Suc (length (rx (nd_chan n (v1_stream S))))) E node_id T (1000 * unat session_ttl_secs) S 0 0 n of
        None \<Rightarrow> None
      | Some (Inl e, n') \<Rightarrow> Some (Inl e, n')
      | Some (Inr end_reason, n') \<Rightarrow>
          (case send_orch_message E (v1_stream S) (v1_key S) (OmSessionEnded end_reason) n' of
             (Inl (Panic e), n2) \<Rightarrow> Some (Inl (Panic e), n2)
           | (_, n2) \<Rightarrow> Some (Inr (), n2)))"

definition handle_initiate_connection ::
  "orch_env \<Rightarrow> timing \<Rightarrow> NodeConfig \<Rightarrow> bytes option \<Rightarrow> nat \<Rightarrow> node \<times> ReplayCache
     \<Rightarrow> (unit res \<times> node \<times> ReplayCache) option" where
  "handle_initiate_connection E T config expected stream s =
     (case io_bind (on_vm1 (receive_initiate E (cfg_node_id config) stream)) (\<lambda>(key, initiate).
           io_bind (accept_initiate E stream key expected initiate) (\<lambda>grant.
           io_bind (on_vm1 (establish_session E config stream key grant)) (\<lambda>S.
             io_return (S, fst (snd grant))))) s of
        (Inl e, s') \<Rightarrow> Some (Inl e, s')
      | (Inr (S, session_ttl_secs), (n, cache)) \<Rightarrow>
          map_option (\<lambda>(r, n'). (r, n', cache)) (serve_session E (cfg_node_id config) T session_ttl_secs S n))"

text \<open>
  What \<open>run_client\<close> reads before it listens: the port, and the expected key of vm0.  A path that cannot be
  read leaves the check of the key off.
\<close>

definition client_settings :: "(string \<Rightarrow> bytes option) \<Rightarrow> NodeConfig \<Rightarrow> u16 \<times> bytes option" where
  "client_settings read_file config =
     (unwrap_or 9003 (cfg_initiate_port config),
      (case cfg_vm0_ak_public_path config of None \<Rightarrow> None | Some path \<Rightarrow> read_file path))"

text \<open>The accept loop over the connections that come in, one after the other.  An error ends
  its connection only, a panic the client.\<close>

fun client_loop ::
  "orch_env \<Rightarrow> (nat \<Rightarrow> timing) \<Rightarrow> NodeConfig \<Rightarrow> bytes option \<Rightarrow> nat list \<Rightarrow> node \<times> ReplayCache
     \<Rightarrow> (unit res list \<times> node \<times> ReplayCache) option" where
  "client_loop E T config expected [] s = Some ([], s)"
| "client_loop E T config expected (stream # streams) s =
     (case handle_initiate_connection E (T stream) config expected stream s of
        None \<Rightarrow> None
      | Some (Inl (Panic e), s') \<Rightarrow> Some ([Inl (Panic e)], s')
      | Some (r, s') \<Rightarrow> map_option (\<lambda>(rs, s2). (r # rs, s2)) (client_loop E T config expected streams s'))"

section \<open>Lemmas on progress\<close>

lemma tame_orch [intro]:
  "tame h (send_orch_message E k key m)" "tame h (recv_orch_message E k key)"
  "tame h (perform_vm1_key_exchange E k node_id)" "tame h (perform_orchestrator_key_exchange E k sid)"
  unfolding send_orch_message_def recv_orch_message_def perform_vm1_key_exchange_def key_exchange_response_io_def
    perform_orchestrator_key_exchange_def key_exchange_init_io_def
  by (auto intro!: tame_bind tame_frames split: prod.splits)

lemma tame_new_chain: "tame h (new_chain X node_id quote)"
  unfolding new_chain_def by (auto intro!: tame_bind)

lemma tame_heartbeat_collect: "tame h (heartbeat_collect A conn keys ids ds chain)"
  by (induction ds arbitrary: chain) (auto intro!: tame_bind tame_request)

lemma tame_heartbeat_chain1: "tame h (heartbeat_chain1 A conn keys node_id ids)"
  unfolding heartbeat_chain1_def Let_def
  by (intro tame_bind tame_new_chain tame_heartbeat_collect tame_wrap tame_basic tame_reply tame_receive)
     (auto intro!: tame_bind split: ProtocolMessage.splits RelayCommand.splits)

lemma tame_vm1_heartbeat: "tame h (vm1_heartbeat E node_id S sequence)"
  unfolding tame_def
proof (intro allI impI)
  fix n :: node assume h: "h < nd_next n"
  obtain r n1 where 1: "heartbeat_chain1 (oe_agent E) (v1_chain_conn S) (v1_chain_keys S) node_id (v1_node_ids S) n = (r, n1)"
    by fastforce
  have t1: "h < nd_next n1" "length (rx (nd_chan n1 h)) \<le> length (rx (nd_chan n h))"
    using tame_heartbeat_chain1 h 1 unfolding tame_def by (metis snd_conv)+
  obtain r2 n2 where 2: "send_orch_message E (v1_stream S) (v1_key S) (OmHeartbeatResult sequence (fst (heartbeat_report r))
      (word_of_nat (length (v1_node_ids S) + 1)) (snd (heartbeat_report r))) n1 = (r2, n2)" by fastforce
  have t2: "h < nd_next n2" "length (rx (nd_chan n2 h)) \<le> length (rx (nd_chan n1 h))"
    using tame_orch(1) t1(1) 2 unfolding tame_def by (metis snd_conv)+
  have "snd (vm1_heartbeat E node_id S sequence n) = n1 \<or> snd (vm1_heartbeat E node_id S sequence n) = n2"
  proof (cases r)
    case (Inl e)
    with 1 2 show ?thesis by (cases e) (auto simp: vm1_heartbeat_def split: sum.splits error.splits)
  next
    case (Inr x)
    with 1 2 show ?thesis by (auto simp: vm1_heartbeat_def split: sum.splits error.splits)
  qed
  with t1 t2 show "h < nd_next (snd (vm1_heartbeat E node_id S sequence n)) \<and>
      length (rx (nd_chan (snd (vm1_heartbeat E node_id S sequence n)) h)) \<le> length (rx (nd_chan n h))"
    by (auto intro: le_trans)
qed

lemma recv_orch_progress:
  assumes "recv_orch_message E h key n = (Inr m, n1)"
  shows "nd_next n1 = nd_next n" and "length (rx (nd_chan n1 h)) < length (rx (nd_chan n h))"
  using assms
  by (auto simp: recv_orch_message_def io_bind_eq_Inr on_chan_def read_frame_def read_exact_def Let_def io_res_def
      split: prod.splits if_splits)

text \<open>A round that goes on has taken bytes from the connection.\<close>

lemma vm1_message_progress:
  assumes "vm1_message E node_id S n = (Inr None, n')" and "v1_stream S < nd_next n"
  shows "v1_stream S < nd_next n'" and "length (rx (nd_chan n' (v1_stream S))) < length (rx (nd_chan n (v1_stream S)))"
proof -
  obtain m n1 where m: "recv_orch_message E (v1_stream S) (v1_key S) n = (Inr m, n1)"
    using assms(1) by (auto simp: vm1_message_def split: prod.splits sum.splits error.splits)
  note rp = recv_orch_progress [OF m]
  have "v1_stream S < nd_next n' \<and> length (rx (nd_chan n' (v1_stream S))) \<le> length (rx (nd_chan n1 (v1_stream S)))"
  proof (cases "\<exists>sq. m = OmHeartbeatPing sq")
    case True
    then obtain sq where "vm1_heartbeat E node_id S sq n1 = (Inr None, n')"
      using assms(1) m by (auto simp: vm1_message_def)
    then show ?thesis
      using tame_vm1_heartbeat [of "v1_stream S" E node_id S sq] rp(1) assms(2) unfolding tame_def by (metis snd_conv)
  next
    case False
    then have "n' = n1" using assms(1) m by (cases m) (auto simp: vm1_message_def)
    then show ?thesis using rp assms(2) by simp
  qed
  with rp show "v1_stream S < nd_next n'" "length (rx (nd_chan n' (v1_stream S))) < length (rx (nd_chan n (v1_stream S)))"
    by linarith+
qed

lemma session_loop_total:
  "v1_stream S < nd_next n \<Longrightarrow> length (rx (nd_chan n (v1_stream S))) < fuel \<Longrightarrow>
     session_loop fuel E node_id T deadline S k t n \<noteq> None"
proof (induction fuel arbitrary: k t n)
  case 0
  then show ?case by simp
next
  case (Suc fuel)
  obtain r n' where m: "vm1_message E node_id S n = (r, n')" by fastforce
  have "session_loop fuel E node_id T deadline S (Suc k) u n' \<noteq> None" if "r = Inr None" for u
    using vm1_message_progress [OF m [unfolded that] Suc.prems(1)] Suc.prems(2) by (intro Suc.IH) simp_all
  then show ?case
    by (cases r) (auto simp: m Let_def split: option.splits)
qed

lemma serve_session_total:
  assumes "v1_stream S < nd_next n" shows "\<exists>r n'. serve_session E node_id T ttl S n = Some (r, n')"
proof -
  obtain r n1 where "session_loop (Suc (length (rx (nd_chan n (v1_stream S))))) E node_id T (1000 * unat ttl) S 0 0 n = Some (r, n1)"
    using session_loop_total [OF assms, of "Suc (length (rx (nd_chan n (v1_stream S))))" E node_id T "1000 * unat ttl" 0 0] by auto
  note loop = this
  show ?thesis
  proof (cases r)
    case (Inl e)
    with loop show ?thesis by (simp add: serve_session_def del: session_loop.simps)
  next
    case (Inr reason)
    obtain r2 n2 where "send_orch_message E (v1_stream S) (v1_key S) (OmSessionEnded reason) n1 = (r2, n2)" by fastforce
    with loop Inr show ?thesis
      by (simp add: serve_session_def del: session_loop.simps split: sum.split error.split)
  qed
qed

lemma tame_build_circuit: "tame h (build_circuit A c hops)"
proof -
  have "tame h (build_circuit_from A c i hops keys ids)" for i hops keys ids
    by (induction hops arbitrary: i keys ids) (auto intro!: tame_bind tame_extend)
  then show ?thesis by (auto simp: build_circuit_def)
qed

lemma tame_add_all: "tame h (add_all atts chain)"
  by (induction atts arbitrary: chain) (auto intro!: tame_bind)

lemma execute_shape:
  "\<exists>R. (\<forall>conn h. tame h (R conn)) \<and>
     execute_chain_establishment A config = io_bind (io_res (entry_address config)) (\<lambda>addr. io_bind (open_chan addr) R)"
  apply (intro exI, rule conjI [rotated], rule execute_chain_establishment_def)
  unfolding Let_def split_beta
  by (intro allI tame_bind tame_build_circuit tame_add_all tame_new_chain tame_wrap tame_basic tame_reply tame_receive tame_collect)
     (auto intro!: tame_bind tame_basic split: ProtocolMessage.splits RelayCommand.splits)

lemma tame_execute: "tame h (execute_chain_establishment A config)"
proof -
  obtain R where "\<And>conn h. tame h (R conn)"
    "execute_chain_establishment A config = io_bind (io_res (entry_address config)) (\<lambda>addr. io_bind (open_chan addr) R)"
    using execute_shape [of A config] by blast
  then show ?thesis by (auto intro!: tame_bind tame_basic)
qed

lemma tame_bind_from:
  assumes "h < nd_next (snd (m n))" and "\<And>x. tame h (f x)" shows "h < nd_next (snd (io_bind m f n))"
  using assms unfolding tame_def by (cases "m n") (auto simp: io_bind_def split: sum.splits)

text \<open>Building a chain opens a connection to the entry of the circuit, whatever comes of it.\<close>

lemma execute_opens:
  assumes "entry_address config = Inr addr"
  shows "nd_next n < nd_next (snd (execute_chain_establishment A config n))"
proof -
  obtain R where R: "\<And>conn h. tame h (R conn)"
    "execute_chain_establishment A config = io_bind (io_res (entry_address config)) (\<lambda>addr. io_bind (open_chan addr) R)"
    using execute_shape [of A config] by blast
  have "nd_next n < nd_next (snd (open_chan addr n))" by (simp add: open_chan_def Let_def)
  then have "nd_next n < nd_next (snd (R (nd_next n) (snd (open_chan addr n))))"
    using R(1) [of "nd_next n" "nd_next n"] unfolding tame_def by blast
  then show ?thesis using assms by (simp add: R(2) io_bind_def open_chan_def Let_def)
qed

lemma tame_receive_initiate: "tame h (receive_initiate E node_id stream)"
  unfolding receive_initiate_def by (auto intro!: tame_bind tame_basic tame_orch split: OrchestratorMessage.splits)

lemma tame_chain_failed: "tame h (chain_failed E stream key aid reason e)"
  unfolding chain_failed_def by (auto intro!: tame_bind tame_basic tame_orch)

text \<open>The chain is executed first; a failure is reported, and what follows it only uses open connections.\<close>

lemma establish_shape:
  "\<exists>f F. (\<forall>h e. tame h (f e)) \<and> (\<forall>h x. tame h (F x)) \<and>
     establish_session E config stream key grant = io_bind (\<lambda>n. case execute_chain_establishment (oe_agent E) config n of
       (Inl (Err e), n') \<Rightarrow> f e n' | other \<Rightarrow> other) F"
  apply (intro exI, rule conjI [rotated], rule conjI [rotated])
    apply (unfold establish_session_def split_beta Let_def, rule refl)
  by (auto intro!: tame_bind tame_basic tame_orch tame_chain_failed)

lemma establish_keeps:
  assumes "h < nd_next (snd (execute_chain_establishment (oe_agent E) config n))"
  shows "h < nd_next (snd (establish_session E config stream key grant n))"
proof -
  obtain f F where f: "\<And>h e. tame h (f e)" "\<And>h x. tame h (F x)"
    "establish_session E config stream key grant = io_bind (\<lambda>n. case execute_chain_establishment (oe_agent E) config n of
       (Inl (Err e), n') \<Rightarrow> f e n' | other \<Rightarrow> other) F"
    using establish_shape [of E config stream key grant] by blast
  show ?thesis
    unfolding f(3) using assms f(1)
    by (intro tame_bind_from f(2)) (auto simp: tame_def split: prod.splits sum.splits error.splits)
qed

section \<open>Lemmas on quiet steps\<close>

text \<open>A quiet step opens no connection.\<close>

definition quiet :: "(node, 'a) io \<Rightarrow> bool" where
  "quiet m \<longleftrightarrow> (\<forall>n. nd_next (snd (m n)) = nd_next n)"

lemma quiet_bind:
  assumes "quiet m" and "\<And>x. quiet (f x)" shows "quiet (io_bind m f)"
  unfolding quiet_def
proof
  fix n :: node
  obtain r n1 where m: "m n = (r, n1)" by fastforce
  with assms(1) have "nd_next n1 = nd_next n" unfolding quiet_def by (metis snd_conv)
  with assms(2) m show "nd_next (snd (io_bind m f n)) = nd_next n"
    by (cases r) (simp_all add: io_bind_def quiet_def)
qed

lemma quiet_basic:
  "quiet (io_return x)" "quiet (io_res r)" "quiet (draw n)" "quiet now_secs" "quiet (take_quote X)" "quiet (on_chan h f)"
  by (auto simp: quiet_def draw_def now_secs_def take_quote_def on_chan_def split: prod.splits)

lemma quiet_orch:
  "quiet (send_orch_message E k key m)" "quiet (recv_orch_message E k key)" "quiet (perform_vm1_key_exchange E k node_id)"
  unfolding send_orch_message_def recv_orch_message_def perform_vm1_key_exchange_def key_exchange_response_io_def encrypt_io_def
  by (auto intro!: quiet_bind quiet_basic split: prod.splits)

lemma quiet_receive_initiate: "quiet (receive_initiate E node_id stream)"
  unfolding receive_initiate_def by (auto intro!: quiet_bind quiet_basic quiet_orch split: OrchestratorMessage.splits)

section \<open>Lemmas on the admission\<close>

lemma on_vm1_simp [simp]: "on_vm1 m (n, cache) = (fst (m n), snd (m n), cache)"
  by (simp add: on_vm1_def split: prod.splits)

text \<open>The admission is \<open>admit_initiate\<close> on two readings of the clock.\<close>

lemma admit_io_admits:
  "admit_io E expected initiate (n, cache) = (Inr (Inr ()), n', cache') \<longleftrightarrow>
     admit_initiate (oe_x E) (oe_tss E) (oe_payloads E) expected (nd_clock n (nd_clock_pos n))
       (nd_clock n (Suc (nd_clock_pos n))) initiate cache = (Inr (), cache') \<and>
     n' = n\<lparr>nd_clock_pos := nd_clock_pos n + 2\<rparr>"
  by (auto simp: admit_io_def admit_initiate_def now_secs_def Let_def split: sum.splits prod.splits bool.splits)

lemma admit_io_node: "nd_next (fst (snd (admit_io E expected initiate (n, cache)))) = nd_next n"
    "is_inr (fst (admit_io E expected initiate (n, cache)))"
  by (auto simp: admit_io_def now_secs_def Let_def split: sum.splits prod.splits bool.splits)

lemma admit_io_refused:
  "admit_io E expected initiate (n, cache) = (Inr (Inl (reason, e)), n', cache') \<Longrightarrow>
     admit_initiate (oe_x E) (oe_tss E) (oe_payloads E) expected (nd_clock n (nd_clock_pos n))
       (nd_clock n (Suc (nd_clock_pos n))) initiate cache = (Inl reason, cache')"
  by (auto simp: admit_io_def admit_initiate_def now_secs_def Let_def split: sum.splits prod.splits bool.splits)

lemma admit_initiate_Inr:
  "admit_initiate X T C expected now now' initiate cache = (Inr (), cache') \<longleftrightarrow>
     verify_initiate X T C now initiate expected = Inr () \<and>
     check_and_record now' (ip_authorization_id (si_payload initiate)) cache = (True, cache')"
  by (auto simp: admit_initiate_def split: sum.splits prod.splits bool.splits)

text \<open>What an accepted INITIATE leaves: its identifier recorded and its own session length.\<close>

lemma accept_initiate_Inr:
  assumes "accept_initiate E stream key expected initiate (n, cache) = (Inr (aid, ttl, expiry), n', cache')"
  shows "admit_initiate (oe_x E) (oe_tss E) (oe_payloads E) expected (nd_clock n (nd_clock_pos n))
       (nd_clock n (Suc (nd_clock_pos n))) initiate cache = (Inr (), cache')"
    and "aid = ip_authorization_id (si_payload initiate)" and "ttl = ip_session_ttl_secs (si_payload initiate)"
    and "expiry = nd_clock n (nd_clock_pos n + 2) + ttl"
  using assms
  by (auto simp: accept_initiate_def io_bind_eq_Inr admit_io_admits now_secs_def Let_def numeral_2_eq_2
      split: sum.splits) (metis old.unit.exhaust prod.exhaust sum.exhaust)+

lemma accept_initiate_refused:
  assumes "accept_initiate E stream key expected initiate (n, cache) = (r, n', cache')"
    and "\<And>c. admit_initiate (oe_x E) (oe_tss E) (oe_payloads E) expected (nd_clock n (nd_clock_pos n))
       (nd_clock n (Suc (nd_clock_pos n))) initiate cache \<noteq> (Inr (), c)"
  shows "nd_next n' = nd_next n \<and> \<not> is_inr r"
proof -
  obtain v n1 c1 where a: "admit_io E expected initiate (n, cache) = (Inr v, n1, c1)"
    using admit_io_node(2) [of E expected initiate n cache] by (cases "admit_io E expected initiate (n, cache)") (auto simp: is_inr_def split: sum.splits)
  have "nd_next n1 = nd_next n" using admit_io_node(1) [of E expected initiate n cache] a by simp
  moreover obtain reason e where "v = Inl (reason, e)"
    using a assms(2) admit_io_admits [of E expected initiate n cache n1 c1] by (cases v) auto
  moreover have "nd_next (snd (send_orch_message E stream key m n1)) = nd_next n1" for m
    using quiet_orch(1) unfolding quiet_def by blast
  ultimately show ?thesis
    using assms(1) a by (auto simp: accept_initiate_def io_bind_def split: sum.splits prod.splits)
qed

section \<open>Lemmas on a connection\<close>

lemma establish_Inr:
  assumes "establish_session E config stream key (aid, ttl, expiry) n = (Inr S, n')"
  shows "v1_stream S = stream \<and> v1_key S = key \<and>
     (\<exists>x n1. execute_chain_establishment (oe_agent E) config n = (Inr x, n1) \<and> cx_authorized x \<and>
        cx_chain_conn x = Some (v1_chain_conn S) \<and> cx_chain_session_keys x = Some (v1_chain_keys S) \<and>
        cx_chain_circuit_node_ids x = Some (v1_node_ids S))"
  using assms
  by (auto simp: establish_session_def io_bind_eq_Inr chain_failed_def ok_or_else_Inr Let_def
      split: if_splits prod.splits sum.splits error.splits)

text \<open>
  The three stages of a connection: nothing received, an INITIATE that is refused, and one that is
  admitted, after which the chain is built and the session served.
\<close>

lemma connection_stages:
  assumes "handle_initiate_connection E T config expected stream (n, cache) = res"
  obtains (no_initiate) e n1 where "receive_initiate E (cfg_node_id config) stream n = (Inl e, n1)" "res = Some (Inl e, n1, cache)"
  | (refused) key initiate n1 e n2 cache' where "receive_initiate E (cfg_node_id config) stream n = (Inr (key, initiate), n1)"
      "accept_initiate E stream key expected initiate (n1, cache) = (Inl e, n2, cache')" "res = Some (Inl e, n2, cache')"
  | (failed) key initiate n1 grant n2 cache' e n3 where "receive_initiate E (cfg_node_id config) stream n = (Inr (key, initiate), n1)"
      "accept_initiate E stream key expected initiate (n1, cache) = (Inr grant, n2, cache')"
      "establish_session E config stream key grant n2 = (Inl e, n3)" "res = Some (Inl e, n3, cache')"
  | (served) key initiate n1 grant n2 cache' S n3 where "receive_initiate E (cfg_node_id config) stream n = (Inr (key, initiate), n1)"
      "accept_initiate E stream key expected initiate (n1, cache) = (Inr grant, n2, cache')"
      "establish_session E config stream key grant n2 = (Inr S, n3)"
      "res = map_option (\<lambda>(r, n'). (r, n', cache')) (serve_session E (cfg_node_id config) T (fst (snd grant)) S n3)"
proof -
  obtain r n1 where 1: "receive_initiate E (cfg_node_id config) stream n = (r, n1)" by fastforce
  show thesis
  proof (cases r)
    case (Inl e)
    then show ?thesis using 1 assms by (intro no_initiate) (auto simp: handle_initiate_connection_def io_bind_def)
  next
    case (Inr ki)
    obtain key initiate where ki: "ki = (key, initiate)" by fastforce
    obtain r2 n2 c2 where 2: "accept_initiate E stream key expected initiate (n1, cache) = (r2, n2, c2)"
      using prod_cases3 by blast
    show ?thesis
    proof (cases r2)
      case Inl2: (Inl e)
      then show ?thesis using 1 2 Inr ki assms
        by (intro refused) (auto simp: handle_initiate_connection_def io_bind_def)
    next
      case Inr2: (Inr grant)
      obtain r3 n3 where 3: "establish_session E config stream key grant n2 = (r3, n3)" by fastforce
      show ?thesis
      proof (cases r3)
        case Inl3: (Inl e)
        then show ?thesis using 1 2 3 Inr Inr2 ki assms
          by (intro failed) (auto simp: handle_initiate_connection_def io_bind_def)
      next
        case Inr3: (Inr S)
        then show ?thesis using 1 2 3 Inr Inr2 ki assms
          by (intro served) (auto simp: handle_initiate_connection_def io_bind_def)
      qed
    qed
  qed
qed

lemma accept_quiet:
  assumes "accept_initiate E stream key expected initiate (n, cache) = (r, n', cache')"
  shows "nd_next n' = nd_next n"
  using assms quiet_orch(1) unfolding quiet_def
  by (auto simp: accept_initiate_def io_bind_def admit_io_def now_secs_def Let_def
      split: sum.splits prod.splits bool.splits if_splits)

lemma connection_total:
  assumes "stream < nd_next n"
  shows "\<exists>r n' cache'. handle_initiate_connection E T config expected stream (n, cache) = Some (r, n', cache')"
proof (cases rule: connection_stages [OF refl, where E = E and T = T and config = config and expected = expected
      and stream = stream and n = n and cache = cache])
  case (4 key initiate n1 grant n2 cache' S n3)
  have "stream < nd_next n1"
    using tame_receive_initiate assms 4(1) unfolding tame_def by (metis snd_conv)
  then have "stream < nd_next n2" using accept_quiet [OF 4(2)] by simp
  then have "stream < nd_next n3" using establish_keeps [of stream E config n2 stream key grant] tame_execute 4(3) unfolding tame_def by (metis snd_conv)
  moreover obtain aid ttl expiry where "grant = (aid, ttl, expiry)" using prod_cases3 by blast
  ultimately have "v1_stream S < nd_next n3" using establish_Inr 4(3) by metis
  from serve_session_total [OF this] 4(4) show ?thesis by fastforce
qed auto

text \<open>An admitted INITIATE makes vm1 open a connection, if it has a circuit.\<close>

lemma vm1_message_next:
  assumes "vm1_message E node_id S n = (r, n')" and "h < nd_next n" shows "h < nd_next n'"
proof -
  obtain r1 n1 where 1: "recv_orch_message E (v1_stream S) (v1_key S) n = (r1, n1)" by fastforce
  have n1: "h < nd_next n1" using tame_orch(2) 1 assms(2) unfolding tame_def by (metis snd_conv)
  have hb: "h < nd_next n2" if "vm1_heartbeat E node_id S sq n1 = (r2, n2)" for sq r2 n2
    using tame_vm1_heartbeat n1 that unfolding tame_def by (metis snd_conv)
  show ?thesis
  proof (cases r1)
    case (Inl e)
    then show ?thesis using assms(1) 1 n1 by (cases e) (auto simp: vm1_message_def)
  next
    case (Inr m)
    then show ?thesis using assms(1) 1 n1 hb by (cases m) (auto simp: vm1_message_def)
  qed
qed

lemma session_loop_next:
  "session_loop fuel E node_id T deadline S k t n = Some (r, n') \<Longrightarrow> h < nd_next n \<Longrightarrow> h < nd_next n'"
proof (induction fuel arbitrary: k t n)
  case (Suc fuel)
  obtain r1 n1 where 1: "vm1_message E node_id S n = (r1, n1)" by fastforce
  note n1 = vm1_message_next [OF 1 Suc.prems(2)]
  show ?case
    using Suc.prems 1 n1 Suc.IH [of _ _ n1]
    by (cases r1) (auto simp: Let_def split: if_splits option.splits)
qed simp

lemma serve_session_next:
  assumes "serve_session E node_id T ttl S n = Some (r, n')" and "h < nd_next n"
  shows "h < nd_next n'"
proof -
  obtain r1 n1 where 1: "session_loop (Suc (length (rx (nd_chan n (v1_stream S))))) E node_id T (1000 * unat ttl) S 0 0 n = Some (r1, n1)"
    using assms(1) by (auto simp: serve_session_def split: option.splits)
  note n1 = session_loop_next [OF 1 assms(2)]
  have "h < nd_next n2" if "send_orch_message E (v1_stream S) (v1_key S) m n1 = (r2, n2)" for m r2 n2
    using tame_orch(1) n1 that unfolding tame_def by (metis snd_conv)
  then show ?thesis
    using assms(1) 1 n1 by (auto simp: serve_session_def split: sum.splits prod.splits error.splits)
qed

lemma admitted_opens:
  assumes "handle_initiate_connection E T config expected stream (n, cache) = Some (r, n', cache')"
    and "entry_address config = Inr addr"
    and "receive_initiate E (cfg_node_id config) stream n = (Inr (key, initiate), n1)"
    and "accept_initiate E stream key expected initiate (n1, cache) = (Inr grant, n2, c2)"
  shows "nd_next n2 < nd_next n'"
proof -
  obtain r3 n3 where 3: "establish_session E config stream key grant n2 = (r3, n3)" by fastforce
  have n3: "nd_next n2 < nd_next n3"
    using establish_keeps [OF execute_opens [OF assms(2)], of n2 E stream key grant] 3 by simp
  show ?thesis
  proof (cases r3)
    case (Inl e)
    then show ?thesis using assms 3 n3 by (auto simp: handle_initiate_connection_def io_bind_def)
  next
    case (Inr S)
    then obtain r4 where "serve_session E (cfg_node_id config) T (fst (snd grant)) S n3 = Some (r4, n')"
      using assms 3 by (auto simp: handle_initiate_connection_def io_bind_def)
    from serve_session_next [OF this n3] show ?thesis .
  qed
qed

section \<open>Concrete inputs\<close>

definition demo_timing :: timing where
  "demo_timing = \<lparr>tm_deadline_first = (\<lambda>_. True), tm_arrival = (\<lambda>_. 0), tm_work = (\<lambda>_. 0)\<rparr>"

definition demo_client :: NodeConfig where
  "demo_client = \<lparr>cfg_node_id = ''vm1'', cfg_role = Client, cfg_listen_port = 9001, cfg_circuit = [\<lparr>hop_node_id = ''pr1'', hop_address = ''10.0.0.2:9001''\<rparr>], cfg_chain2_circuit = [],
     cfg_log_mode = 2, cfg_unix_socket_path = None, cfg_vm1_address = None, cfg_credentials_path = None,
     cfg_baselines_path = None, cfg_initiate_port = None, cfg_vm4_address = None, cfg_vm0_address = None,
     cfg_vm3_address = None, cfg_da_listen_port = None, cfg_mutual_attest_port = None, cfg_vm0_ak_public_path = None\<rparr>"

text \<open>The bytes vm0 sends on a machine whose entropy source yields ones: a frame with a one-byte message.\<close>

definition demo_frame :: "bytes \<Rightarrow> u8 \<Rightarrow> bytes" where
  "demo_frame key b = put_le32 14 @ replicate 12 1 @ [sum_bytes key, b]"

lemma demo_frame_delivers:
  assumes "de demo_orch_messages [b] = Inr m"
  shows "delivers (recv_orch_message demo_orch) key m (demo_frame key b)"
  unfolding delivers_def
proof (intro allI impI)
  fix t :: node and g rest
  assume r: "rx (nd_chan t g) = demo_frame key b @ rest"
  let ?c = "replicate 12 1 @ [sum_bytes key, b]"
  have "nd_chan t g = (nd_chan t g)\<lparr>rx := put_le32 (length ?c) @ ?c @ rest\<rparr>"
    using r by (simp add: demo_frame_def)
  then have f: "read_frame nat_of_le e (nd_chan t g) = (Inr ?c, (nd_chan t g)\<lparr>rx := rest\<rparr>)" for e
    using le.read_written_frame [where data = ?c and c = "nd_chan t g" and rest = rest and e = e]
    by (simp add: max_frame_def)
  have "decrypt demo_ext key ?c = Inr [b]" by (simp add: decrypt_def demo_ext_def)
  then show "recv_orch_message demo_orch g key t = (Inr m, set_rx g rest t)"
    using assms by (simp add: recv_orch_message_def io_bind_def on_chan_def f set_rx_def)
      (simp add: demo_orch_def)
qed

lemma demo_vm1_key:
  "\<exists>key. \<forall>rest. \<exists>t1. perform_vm1_key_exchange demo_orch 0 ''vm1'' (demo_wire (put_le32 1 @ 1 # rest)) = (Inr key, t1) \<and>
     rx (nd_chan t1 0) = rest \<and> wleft (nd_chan t1 0) = None \<and> nd_next t1 = 1 \<and> nd_entropy t1 = (\<lambda>_. 1) \<and>
     nd_clock t1 = (\<lambda>_. 1000) \<and> nd_tpm t1 = (\<lambda>_. demo_env 200)"
proof -
  have r: "read_frame nat_of_le e \<lparr>rx = put_le32 1 @ 1 # rest, tx = [], wleft = None\<rparr> = (Inr [1], \<lparr>rx = rest, tx = [], wleft = None\<rparr>)" for e rest
    using le.read_written_frame [where data = "[1]" and e = e and c = "\<lparr>rx = [], tx = [], wleft = None\<rparr>" and rest = rest]
    by (simp add: max_frame_def)
  obtain keys where "generate_key_exchange_response demo_ext (replicate 32 1) (replicate 32 1) ''vm1'' demo_init = Inr (demo_response, keys)"
    using demo_responds by blast
  moreover obtain data where "ser demo_responses demo_response = Inr data" using demo_response_ser by blast
  ultimately show ?thesis
    by (intro exI [of _ "session_key keys"])
       (simp add: perform_vm1_key_exchange_def io_bind_def on_chan_def r [unfolded One_nat_def] key_exchange_response_io_def draw_def
        demo_wire_def map_replicate_const write_frame_open demo_orch_def demo_dual_def del: upt_rec_numeral)
qed

lemma demo_send: "wleft (nd_chan t h) = None \<Longrightarrow> nd_entropy t = (\<lambda>_. 1) \<Longrightarrow>
   \<exists>t'. send_orch_message demo_orch h key m t = (Inr (), t') \<and> (\<forall>k. rx (nd_chan t' k) = rx (nd_chan t k)) \<and>
     wleft (nd_chan t' h) = None \<and> nd_next t' = nd_next t \<and> nd_entropy t' = nd_entropy t \<and> nd_clock t' = nd_clock t \<and>
     nd_tpm t' = nd_tpm t"
  by (simp add: send_orch_message_def io_bind_def encrypt_io_def draw_def encrypt_def on_chan_def write_frame_open
      demo_orch_def demo_dual_def demo_ext_def demo_orch_messages_def)

lemma demo_receive_initiate:
  "\<exists>wire key n1. receive_initiate demo_orch ''vm1'' 0 (demo_wire wire) = (Inr (key, \<lparr>si_payload = demo_payload, si_signature = [5]\<rparr>), n1) \<and>
     nd_clock n1 = (\<lambda>_. 1000) \<and> nd_next n1 = 1 \<and> wleft (nd_chan n1 0) = None \<and> nd_entropy n1 = (\<lambda>_. 1)"
proof -
  obtain key where key: "\<And>rest. \<exists>t1. perform_vm1_key_exchange demo_orch 0 ''vm1'' (demo_wire (put_le32 1 @ 1 # rest)) = (Inr key, t1) \<and>
     rx (nd_chan t1 0) = rest \<and> wleft (nd_chan t1 0) = None \<and> nd_next t1 = 1 \<and> nd_entropy t1 = (\<lambda>_. 1) \<and>
     nd_clock t1 = (\<lambda>_. 1000) \<and> nd_tpm t1 = (\<lambda>_. demo_env 200)"
    using demo_vm1_key by blast
  let ?f0 = "demo_frame key 0" and ?f2 = "demo_frame key 2"
  obtain t1 where t1: "perform_vm1_key_exchange demo_orch 0 ''vm1'' (demo_wire (put_le32 1 @ 1 # ?f0 @ ?f2)) = (Inr key, t1)"
    "rx (nd_chan t1 0) = ?f0 @ ?f2" "wleft (nd_chan t1 0) = None" "nd_next t1 = 1" "nd_entropy t1 = (\<lambda>_. 1)"
    "nd_clock t1 = (\<lambda>_. 1000)" "nd_tpm t1 = (\<lambda>_. demo_env 200)"
    using key [of "?f0 @ ?f2"] by blast
  let ?t2 = "set_rx 0 ?f2 t1"
  have m0: "recv_orch_message demo_orch 0 key t1 = (Inr (OmAttestationRequest (replicate 32 1)), ?t2)"
    using demo_frame_delivers [of 0 "OmAttestationRequest (replicate 32 1)" key] t1(2)
    by (simp add: demo_orch_messages_def delivers_def)
  let ?t3 = "?t2\<lparr>nd_tpm_pos := Suc (nd_tpm_pos t1), nd_clock_pos := Suc (nd_clock_pos t1)\<rparr>"
  have "wleft (nd_chan ?t3 0) = None" "nd_entropy ?t3 = (\<lambda>_. 1)" using t1 by (simp_all add: set_rx_def)
  from demo_send [OF this, of key "OmAttestationResponse \<lparr>att_vm_identity = ''vm1'', att_tpm_quote = demo_quote 200, att_timestamp = 1000\<rparr>"]
  obtain t4 where t4: "send_orch_message demo_orch 0 key (OmAttestationResponse \<lparr>att_vm_identity = ''vm1'', att_tpm_quote = demo_quote 200,
       att_timestamp = 1000\<rparr>) ?t3 = (Inr (), t4)" "rx (nd_chan t4 0) = ?f2" "wleft (nd_chan t4 0) = None" "nd_next t4 = 1"
       "nd_entropy t4 = (\<lambda>_. 1)" "nd_clock t4 = (\<lambda>_. 1000)"
    using t1 by (auto simp: set_rx_def)
  have m2: "recv_orch_message demo_orch 0 key t4 = (Inr (OmInitiate \<lparr>si_payload = demo_payload, si_signature = [5]\<rparr>), set_rx 0 [] t4)"
    using demo_frame_delivers [of 2 "OmInitiate \<lparr>si_payload = demo_payload, si_signature = [5]\<rparr>" key] t4(2)
    by (simp add: demo_orch_messages_def delivers_def)
  have q: "take_quote (oe_x demo_orch) ?t2 = (Inr (demo_quote 200), ?t2\<lparr>nd_tpm_pos := Suc (nd_tpm_pos t1)\<rparr>)"
    using t1(7) by (simp add: take_quote_def set_rx_def demo_generate)
  have "receive_initiate demo_orch ''vm1'' 0 (demo_wire (put_le32 1 @ 1 # ?f0 @ ?f2)) =
      (Inr (key, \<lparr>si_payload = demo_payload, si_signature = [5]\<rparr>), set_rx 0 [] t4)"
    using t1(1,6) m0 q t4(1) m2 by (simp add: receive_initiate_def io_bind_def now_secs_def set_rx_def)
  moreover have "nd_clock (set_rx 0 [] t4) = (\<lambda>_. 1000)" "nd_next (set_rx 0 [] t4) = 1"
    "wleft (nd_chan (set_rx 0 [] t4) 0) = None" "nd_entropy (set_rx 0 [] t4) = (\<lambda>_. 1)"
    using t4 by (simp_all add: set_rx_def)
  ultimately show ?thesis by blast
qed

lemma demo_verify_initiate:
  "verify_initiate (oe_x demo_orch) (oe_tss demo_orch) (oe_payloads demo_orch) 1000
     \<lparr>si_payload = demo_payload, si_signature = [5]\<rparr> None = Inr ()"
  by (simp add: verify_initiate_def timestamp_rejection_def demo_payload_def canonical_bytes_def
      verify_rsa_signature_def demo_orch_def demo_tss_def AUTH_ID_BYTES_def INITIATE_MAX_AGE_SECS_def Let_def)

lemma demo_accept:
  assumes "nd_clock n = (\<lambda>_. 1000)" and "wleft (nd_chan n 0) = None" and "nd_entropy n = (\<lambda>_. 1)"
  shows "\<exists>grant n' cache'. accept_initiate demo_orch 0 key None \<lparr>si_payload = demo_payload, si_signature = [5]\<rparr> (n, replay_new)
     = (Inr grant, n', cache') \<and> nd_next n' = nd_next n"
proof -
  let ?n = "n\<lparr>nd_clock_pos := nd_clock_pos n + 3\<rparr>"
  obtain t' where "send_orch_message demo_orch 0 key (OmInitiateAck (replicate 32 1)) ?n = (Inr (), t')" "nd_next t' = nd_next n"
    using demo_send [of ?n 0 key "OmInitiateAck (replicate 32 1)"] assms(2,3) by auto
  moreover have "check_and_record 1000 (replicate 32 1) replay_new = (True, \<lparr>rc_seen = [replicate 32 1 \<mapsto> 1000]\<rparr>)"
    by (simp add: check_and_record_def prune_def replay_new_def)
  ultimately show ?thesis
    using assms(1) demo_verify_initiate
    by (simp add: accept_initiate_def admit_io_def io_bind_def now_secs_def short_auth_id_def slice_to_def numeral_3_eq_3 Let_def)
       (simp add: demo_payload_def io_bind_def now_secs_def short_auth_id_def slice_to_def)
qed

section \<open>Properties\<close>

text \<open>
  A connection to vm1 always ends: whatever vm0, the proxies and the servers send, and however the
  deadline of the session and the arrival of messages fall together, the handler returns.
\<close>

theorem vm1_connection_returns:
  assumes "stream < nd_next n"
  shows "\<exists>r n' cache'. handle_initiate_connection E T config expected stream (n, cache) = Some (r, n', cache')"
  using assms by (rule connection_total)

theorem vm1_connection_returns_witness:
  "\<exists>r n' cache'. handle_initiate_connection demo_orch demo_timing demo_client None 0 (demo_wire [1, 0], replay_new)
     = Some (r, n', cache')"
  by (rule vm1_connection_returns) (simp add: demo_wire_def)

text \<open>
  C12.  vm1 contacts the chain only for an admitted INITIATE.  If a connection made vm1 open any other
  connection, or ended as a served session, then vm0 sent an INITIATE that verified against the expected key
  when it was read and whose identifier was not in the replay cache and is recorded in it now; its session
  length is between 60 and 1200 seconds.
\<close>

theorem vm1_acts_only_on_initiate:
  assumes "handle_initiate_connection E T config expected stream (n, cache) = Some (r, n', cache')"
    and "nd_next n' \<noteq> nd_next n \<or> is_inr r"
  shows "\<exists>key initiate n1 now now'.
     receive_initiate E (cfg_node_id config) stream n = (Inr (key, initiate), n1) \<and>
     verify_initiate (oe_x E) (oe_tss E) (oe_payloads E) now initiate expected = Inr () \<and>
     check_and_record now' (ip_authorization_id (si_payload initiate)) cache = (True, cache') \<and>
     60 \<le> ip_session_ttl_secs (si_payload initiate) \<and> ip_session_ttl_secs (si_payload initiate) \<le> 1200"
proof -
  have adm: ?thesis if 1: "receive_initiate E (cfg_node_id config) stream n = (Inr (key, initiate), n1)"
    and 2: "accept_initiate E stream key expected initiate (n1, cache) = (Inr grant, n2, cache')" for key initiate n1 grant n2
  proof -
    obtain aid ttl expiry where "grant = (aid, ttl, expiry)" using prod_cases3 by blast
    from accept_initiate_Inr(1) [OF 2 [unfolded this]] obtain now now' where
      a: "verify_initiate (oe_x E) (oe_tss E) (oe_payloads E) now initiate expected = Inr ()"
      "check_and_record now' (ip_authorization_id (si_payload initiate)) cache = (True, cache')"
      by (auto simp: admit_initiate_Inr)
    moreover from a(1) have "60 \<le> ip_session_ttl_secs (si_payload initiate)" "ip_session_ttl_secs (si_payload initiate) \<le> 1200"
      by (auto simp: verify_initiate_def Let_def not_less split: if_splits option.splits sum.splits)
    ultimately show ?thesis using 1 by blast
  qed
  have q: "nd_next n1 = nd_next n" if "receive_initiate E (cfg_node_id config) stream n = (x, n1)" for x n1
    using quiet_receive_initiate that unfolding quiet_def by (metis snd_conv)
  show ?thesis
  proof (cases rule: connection_stages [OF assms(1)])
    case (1 e n1)
    then show ?thesis using q [OF 1(1)] assms(2) by simp
  next
    case (2 key initiate n1 e n2 c2)
    then show ?thesis using q [OF 2(1)] accept_quiet [OF 2(2)] assms(2) by simp
  next
    case (3 key initiate n1 grant n2 c2 e n3)
    then show ?thesis using adm by simp
  next
    case (4 key initiate n1 grant n2 c2 S n3)
    from 4(4) have "c2 = cache'"
      by (cases "serve_session E (cfg_node_id config) T (fst (snd grant)) S n3") auto
    then show ?thesis using adm 4 by simp
  qed
qed

theorem vm1_acts_only_on_initiate_witness:
  "\<exists>wire r n' cache' key initiate n1. handle_initiate_connection demo_orch demo_timing demo_client None 0 (demo_wire wire, replay_new)
       = Some (r, n', cache') \<and> nd_next n' \<noteq> nd_next (demo_wire wire) \<and>
     receive_initiate demo_orch ''vm1'' 0 (demo_wire wire) = (Inr (key, initiate), n1) \<and>
     rc_seen cache' (ip_authorization_id (si_payload initiate)) \<noteq> None"
proof -
  obtain wire key n1 where r: "receive_initiate demo_orch ''vm1'' 0 (demo_wire wire) =
      (Inr (key, \<lparr>si_payload = demo_payload, si_signature = [5]\<rparr>), n1)" and n1: "nd_clock n1 = (\<lambda>_. 1000)" "nd_next n1 = 1"
      "wleft (nd_chan n1 0) = None" "nd_entropy n1 = (\<lambda>_. 1)"
    using demo_receive_initiate by blast
  obtain grant n2 cache2 where a: "accept_initiate demo_orch 0 key None \<lparr>si_payload = demo_payload, si_signature = [5]\<rparr>
      (n1, replay_new) = (Inr grant, n2, cache2)" "nd_next n2 = 1"
    using demo_accept [OF n1(1,3,4)] n1(2) by metis
  have c: "cfg_node_id demo_client = ''vm1''" "entry_address demo_client = Inr ''10.0.0.2:9001''"
    by (simp_all add: demo_client_def entry_address_def)
  obtain r' n' cache' where h: "handle_initiate_connection demo_orch demo_timing demo_client None 0 (demo_wire wire, replay_new)
      = Some (r', n', cache')"
    using connection_total [of 0 "demo_wire wire"] by (fastforce simp: demo_wire_def)
  have "nd_next n' \<noteq> 1"
    using admitted_opens [OF h c(2) r [folded c(1)] a(1)] a(2) by simp
  then have "nd_next n' \<noteq> nd_next (demo_wire wire)" by (simp add: demo_wire_def)
  moreover from this have "nd_next n' \<noteq> nd_next (demo_wire wire) \<or> is_inr r'" by blast
  from vm1_acts_only_on_initiate [OF h this, unfolded c(1) r]
  obtain now' where "check_and_record now' (ip_authorization_id demo_payload) replay_new = (True, cache')" by auto
  with check_and_record_laws(2) [of now' "ip_authorization_id demo_payload" replay_new]
  have "rc_seen cache' (ip_authorization_id demo_payload) = Some now'" by simp
  then have "rc_seen cache' (ip_authorization_id (si_payload \<lparr>si_payload = demo_payload, si_signature = [5]\<rparr>)) \<noteq> None" by simp
  ultimately show ?thesis using h r by blast
qed

end
