(* ===== verification/Vm0_Session.thy ===== *)
theory Vm0_Session
  imports Vm1_Session
begin

text \<open>
  vm0, the orchestrator (\<open>run_orchestrator\<close> of \<open>mfa-agent/src/main.rs\<close>): the operator's commands, the
  authentication that leads to a session, and the heartbeat driver of a session.  A driver is a task of its own
  that shares five atomic cells with the session it was started for; cells and drivers are numbered.  Lemmas:
  what an authorized session went through, what the state looks like after every outcome, that every
  interleaving of commands and drivers keeps the invariant \<open>vm0_inv\<close>, and when a driver stops.
\<close>

section \<open>State\<close>

text \<open>\<open>revoke_flag\<close>, \<open>last_heartbeat_seq\<close>, \<open>last_heartbeat_ok\<close>, \<open>last_heartbeat_at\<close> and \<open>session_ended\<close>.\<close>

record heartbeat_flags =
  hf_revoke :: bool
  hf_seq :: u64
  hf_ok :: bool
  hf_at :: u64
  hf_ended :: bool

definition flags_new :: heartbeat_flags where
  "flags_new = \<lparr>hf_revoke = False, hf_seq = 0, hf_ok = True, hf_at = 0, hf_ended = False\<rparr>"

text \<open>Authorization identifier, token, expiry, operator hash and the number of the cells.\<close>

datatype OrchestratorSessionState = NoSession | ActiveSession bytes bytes u64 bytes nat

record driver =
  dr_stream :: nat
  dr_key :: bytes
  dr_ttl :: u64
  dr_sequence :: u64

record vm0 =
  vz_node :: node
  vz_session :: OrchestratorSessionState
  vz_flags :: "nat \<Rightarrow> heartbeat_flags"
  vz_driver :: "nat \<rightharpoonup> driver"
  vz_next :: nat

definition vm0_start :: "node \<Rightarrow> vm0" where
  "vm0_start n = \<lparr>vz_node = n, vz_session = NoSession, vz_flags = (\<lambda>_. flags_new), vz_driver = Map.empty, vz_next = 0\<rparr>"

text \<open>What the orchestrator was configured with.\<close>

record vm0_config =
  vc_node_id :: string
  vc_credentials_path :: string
  vc_baselines :: BaselineDatabase
  vc_vm1_address :: string
  vc_vm4_address :: "string option"

definition orchestrator_setup ::
  "unit res \<Rightarrow> (string \<Rightarrow> BaselineDatabase res) \<Rightarrow> (string \<rightharpoonup> string) \<Rightarrow> NodeConfig \<Rightarrow> (vm0_config \<times> string) res" where
  "orchestrator_setup tpm_init from_json files config =
     res_bind tpm_init (\<lambda>_.
     res_bind (ok_or_else ''orchestrator requires credentials_path in config'' (cfg_credentials_path config)) (\<lambda>credentials_path.
     res_bind (ok_or_else ''orchestrator requires baselines_path in config'' (cfg_baselines_path config)) (\<lambda>baselines_path.
     res_bind (with_context ''Failed to load baselines'' (fst (load_from_file from_json baselines_path files))) (\<lambda>baseline_db.
     (if get_baseline baseline_db ''vm1'' = None then Inl (Err (''No baseline found for vm1 in '' @ baselines_path))
      else
        res_bind (ok_or_else ''orchestrator requires vm1_address in config'' (cfg_vm1_address config)) (\<lambda>vm1_address.
        res_bind (ok_or_else ''orchestrator requires unix_socket_path'' (cfg_unix_socket_path config)) (\<lambda>socket_path.
          Inr (\<lparr>vc_node_id = cfg_node_id config, vc_credentials_path = credentials_path, vc_baselines = baseline_db,
                vc_vm1_address = vm1_address, vc_vm4_address = cfg_vm4_address config\<rparr>, socket_path))))))))"

section \<open>Status and revocation\<close>

definition build_status_response :: "u64 \<Rightarrow> (nat \<Rightarrow> heartbeat_flags) \<Rightarrow> OrchestratorSessionState \<Rightarrow> CliResponse" where
  "build_status_response now flags state =
     (case state of
        NoSession \<Rightarrow> CrStatus False None None
      | ActiveSession authorization_id _ session_expiry _ i \<Rightarrow>
          (let expires_in = saturating_sub session_expiry now in
           CrStatus (\<not> hf_ended (flags i) \<and> 0 < expires_in) (Some authorization_id) (Some expires_in)))"

text \<open>The command Revoke only sets the flag; the answer says inactive in every case.\<close>

definition revoke :: "(vm0, CliResponse) io" where
  "revoke s =
     (Inr (CrStatus False None None),
      (case vz_session s of
         NoSession \<Rightarrow> s
       | ActiveSession _ _ _ _ i \<Rightarrow>
           (if hf_ended (vz_flags s i) then s\<lparr>vz_session := NoSession\<rparr>
            else s\<lparr>vz_flags := (vz_flags s)(i := (vz_flags s i)\<lparr>hf_revoke := True\<rparr>)\<rparr>)))"

section \<open>Authentication\<close>

text \<open>A step that may deny: \<open>Inl\<close> is the reason given to the operator.\<close>

type_synonym 'a attempt = "(node, string + 'a) io"

definition deny :: "string \<Rightarrow> 'a attempt" where
  "deny reason = io_return (Inl reason)"

definition or_deny :: "(string \<Rightarrow> string) \<Rightarrow> (node, 'a) io \<Rightarrow> ('a \<Rightarrow> 'b attempt) \<Rightarrow> 'b attempt" where
  "or_deny reason m k = (\<lambda>n. case m n of
      (Inr x, n') \<Rightarrow> k x n'
    | (Inl (Err e), n') \<Rightarrow> (Inr (Inl (reason e)), n')
    | (Inl (Panic e), n') \<Rightarrow> (Inl (Panic e), n'))"

definition and_then :: "'a attempt \<Rightarrow> ('a \<Rightarrow> 'b attempt) \<Rightarrow> 'b attempt" where
  "and_then m k = io_bind m (\<lambda>v. case v of Inl reason \<Rightarrow> deny reason | Inr x \<Rightarrow> k x)"

definition check_operator ::
  "orch_env \<Rightarrow> vm0_config \<Rightarrow> u64 \<Rightarrow> string \<Rightarrow> string \<Rightarrow> OperatorToken attempt" where
  "check_operator E cfg session_ttl_secs passphrase1 passphrase2 =
     io_bind now_secs (\<lambda>now.
     or_deny (\<lambda>_. ''Authentication failed'')
       (io_res (validate_operator (oe_x E) (oe_load_creds E) (oe_verify_pass E) now (vc_credentials_path cfg) passphrase1 passphrase2))
       (\<lambda>token.
     io_bind (io_res (slice_to (ot_operator_hash token) 8)) (\<lambda>_.
       (if \<not> (60 \<le> session_ttl_secs \<and> session_ttl_secs \<le> 1200) then deny ''session_ttl_secs must be between 60 and 1200''
        else case vc_vm4_address cfg of
          None \<Rightarrow> io_return (Inr token)
        | Some v4_addr \<Rightarrow>
            or_deny (\<lambda>e. ''vm4 unreachable: '' @ e @ '' '' @ em_dash @ '' quorum denied'')
              (vm0_mutual_attest_vm4 (oe_dual E) (vc_baselines cfg) v4_addr (vc_node_id cfg) session_ttl_secs) (\<lambda>ok.
              (if ok then io_return (Inr token)
               else deny (''vm4 mutual attestation failed '' @ em_dash @ '' quorum denied'')))))))"

definition attest_vm1 :: "orch_env \<Rightarrow> vm0_config \<Rightarrow> (nat \<times> bytes) attempt" where
  "attest_vm1 E cfg =
     or_deny (\<lambda>e. ''Cannot reach vm1: '' @ e) (open_chan (vc_vm1_address cfg)) (\<lambda>stream.
     or_deny (\<lambda>e. ''Key exchange failed: '' @ e) (perform_orchestrator_key_exchange E stream (vc_node_id cfg)) (\<lambda>key.
     io_bind (draw 32) (\<lambda>nonce.
     or_deny (\<lambda>e. ''Failed to send attestation request: '' @ e) (send_orch_message E stream key (OmAttestationRequest nonce)) (\<lambda>_.
     or_deny (\<lambda>e. ''Attestation receive error: '' @ e) (recv_orch_message E stream key) (\<lambda>msg.
       (case msg of
          OmAttestationResponse att \<Rightarrow>
            (let vm1_verify = verify_attestation (de_verify (oe_dual E)) (vc_baselines cfg) att None None None in
             if \<not> node_passes vm1_verify
             then deny (''vm1 integrity verification failed: '' @ nvr_details vm1_verify)
             else io_return (Inr (stream, key)))
        | other \<Rightarrow> deny (''Expected AttestationResponse, got '' @ oe_debug E other)))))))"

text \<open>\<open>sign_initiate\<close> at the present position of the TPM's history.\<close>

definition sign_io :: "orch_env \<Rightarrow> InitiatePayload \<Rightarrow> (node, SignedInitiate) io" where
  "sign_io E payload n =
     (sign_initiate (oe_payloads E) (oe_sign E (nd_tpm_pos n)) payload, n\<lparr>nd_tpm_pos := Suc (nd_tpm_pos n)\<rparr>)"

definition send_initiate :: "orch_env \<Rightarrow> vm0_config \<Rightarrow> u64 \<Rightarrow> bytes \<Rightarrow> nat \<Rightarrow> bytes \<Rightarrow> bytes attempt" where
  "send_initiate E cfg session_ttl_secs operator_hash stream key =
     or_deny (\<lambda>e. ''vm0 self-attestation failed: '' @ e) (take_quote (oe_x E)) (\<lambda>vm0_quote.
     io_bind now_secs (\<lambda>timestamp.
     io_bind (draw AUTH_ID_BYTES) (\<lambda>random.
     io_bind now_secs (\<lambda>now.
     or_deny (\<lambda>e. ''Payload construction failed: '' @ e)
       (io_res (payload_new random now session_ttl_secs operator_hash
          \<lparr>att_vm_identity = vc_node_id cfg, att_tpm_quote = vm0_quote, att_timestamp = timestamp\<rparr> (tq_ak_public vm0_quote))) (\<lambda>payload.
     io_bind (io_res (short_auth_id payload)) (\<lambda>_.
     or_deny (\<lambda>e. ''TPM signing failed: '' @ e) (sign_io E payload) (\<lambda>initiate.
     or_deny (\<lambda>e. ''Failed to send INITIATE: '' @ e) (send_orch_message E stream key (OmInitiate initiate)) (\<lambda>_.
     or_deny (\<lambda>e. ''Ack receive error: '' @ e) (recv_orch_message E stream key) (\<lambda>msg.
       (case msg of
          OmInitiateAck ack_id \<Rightarrow>
            (if ack_id \<noteq> ip_authorization_id payload then deny ''vm1 ack auth_id mismatch''
             else io_return (Inr (ip_authorization_id payload)))
        | OmInitiateRejected reason \<Rightarrow> deny (''vm1 rejected: '' @ reason)
        | other \<Rightarrow> deny (''Expected InitiateAck, got '' @ oe_debug E other)))))))))))"

definition await_token :: "orch_env \<Rightarrow> bytes \<Rightarrow> nat \<Rightarrow> bytes \<Rightarrow> SessionTokenReturn attempt" where
  "await_token E authorization_id stream key =
     or_deny (\<lambda>e. ''Session token receive error: '' @ e) (recv_orch_message E stream key) (\<lambda>msg.
       (case msg of
          OmSessionToken st \<Rightarrow>
            (if st_authorization_id st \<noteq> authorization_id then deny ''session token auth_id mismatch''
             else if \<not> st_authorized st then deny ''chain establishment completed but not authorized''
             else io_return (Inr st))
        | OmChainFailed _ reason \<Rightarrow> deny (''Chain establishment failed: '' @ reason)
        | other \<Rightarrow> deny (''Expected SessionToken, got '' @ oe_debug E other)))"

record session_grant =
  sg_operator_hash :: bytes
  sg_authorization_id :: bytes
  sg_token :: SessionTokenReturn
  sg_stream :: nat
  sg_key :: bytes

definition obtain_grant ::
  "orch_env \<Rightarrow> vm0_config \<Rightarrow> u64 \<Rightarrow> string \<Rightarrow> string \<Rightarrow> session_grant attempt" where
  "obtain_grant E cfg session_ttl_secs passphrase1 passphrase2 =
     and_then (check_operator E cfg session_ttl_secs passphrase1 passphrase2) (\<lambda>token.
     and_then (attest_vm1 E cfg) (\<lambda>(stream, key).
     and_then (send_initiate E cfg session_ttl_secs (ot_operator_hash token) stream key) (\<lambda>authorization_id.
     and_then (await_token E authorization_id stream key) (\<lambda>st.
     io_bind (io_res (slice_to authorization_id 8)) (\<lambda>_.
       io_return (Inr \<lparr>sg_operator_hash = ot_operator_hash token, sg_authorization_id = authorization_id,
         sg_token = st, sg_stream = stream, sg_key = key\<rparr>))))))"

text \<open>A session that is neither ended nor expired blocks a new one.\<close>

definition session_blocks :: "u64 \<Rightarrow> (nat \<Rightarrow> heartbeat_flags) \<Rightarrow> OrchestratorSessionState \<Rightarrow> bool" where
  "session_blocks now flags state =
     (case state of
        NoSession \<Rightarrow> False
      | ActiveSession _ _ session_expiry _ i \<Rightarrow> \<not> hf_ended (flags i) \<and> now < session_expiry)"

text \<open>The new session replaces the old one, and its driver starts.\<close>

definition start_session :: "u64 \<Rightarrow> session_grant \<Rightarrow> vm0 \<Rightarrow> vm0" where
  "start_session session_ttl_secs g s =
     (let i = vz_next s in
      s\<lparr>vz_session := ActiveSession (sg_authorization_id g) (st_session_token (sg_token g)) (st_session_expiry (sg_token g))
           (sg_operator_hash g) i,
        vz_flags := (vz_flags s)(i := flags_new),
        vz_driver := (vz_driver s)(i \<mapsto> \<lparr>dr_stream = sg_stream g, dr_key = sg_key g, dr_ttl = session_ttl_secs, dr_sequence = 0\<rparr>),
        vz_next := Suc i\<rparr>)"

text \<open>The clock is read only when there is a session.\<close>

definition status_read :: "vm0 \<Rightarrow> node" where
  "status_read s = (case vz_session s of NoSession \<Rightarrow> vz_node s | ActiveSession _ _ _ _ _ \<Rightarrow> snd (now_secs (vz_node s)))"

definition handle_authenticate ::
  "orch_env \<Rightarrow> vm0_config \<Rightarrow> u64 \<Rightarrow> string \<Rightarrow> string \<Rightarrow> (vm0, CliResponse) io" where
  "handle_authenticate E cfg session_ttl_secs passphrase1 passphrase2 s =
     (let now = nd_clock (vz_node s) (nd_clock_pos (vz_node s)); n = status_read s in
      if session_blocks now (vz_flags s) (vz_session s)
      then (Inr (CrDenied ''Session already active. Revoke current session first.''), s\<lparr>vz_node := n\<rparr>)
      else
        (case obtain_grant E cfg session_ttl_secs passphrase1 passphrase2 n of
           (Inl e, n') \<Rightarrow> (Inl e, s\<lparr>vz_node := n'\<rparr>)
         | (Inr (Inl reason), n') \<Rightarrow> (Inr (CrDenied reason), s\<lparr>vz_node := n'\<rparr>)
         | (Inr (Inr g), n') \<Rightarrow>
             (Inr (CrAuthorized (sg_authorization_id g) (sha256 (oe_x E) (st_session_token (sg_token g)))
                (st_session_expiry (sg_token g)) (st_chain1_node_count (sg_token g)) (st_chain2_node_count (sg_token g))),
              start_session session_ttl_secs g (s\<lparr>vz_node := n'\<rparr>))))"

section \<open>The operator's connection\<close>

definition orchestrator_respond :: "orch_env \<Rightarrow> vm0_config \<Rightarrow> CliRequest \<Rightarrow> (vm0, CliResponse) io" where
  "orchestrator_respond E cfg request =
     (case request of
        Authenticate passphrase1 passphrase2 session_ttl_secs \<Rightarrow>
          handle_authenticate E cfg session_ttl_secs passphrase1 passphrase2
      | CliStatus \<Rightarrow> (\<lambda>s.
          (Inr (build_status_response (nd_clock (vz_node s) (nd_clock_pos (vz_node s))) (vz_flags s) (vz_session s)),
           s\<lparr>vz_node := status_read s\<rparr>))
      | CliRevoke \<Rightarrow> revoke)"

text \<open>One connection of the accept loop; what cannot be written is dropped.\<close>

definition orchestrator_connection :: "orch_env \<Rightarrow> vm0_config \<Rightarrow> (chan \<times> vm0, unit) io" where
  "orchestrator_connection E cfg = (\<lambda>(c, s).
     (case read_cli_request E c of
        (Inl (Panic e), c') \<Rightarrow> (Inl (Panic e), c', s)
      | (Inl (Err e), c') \<Rightarrow> (Inr (), snd (write_cli_response E (CrError (''Read error: '' @ e)) c'), s)
      | (Inr request, c') \<Rightarrow>
          (case orchestrator_respond E cfg request s of
             (Inl e, s') \<Rightarrow> (Inl e, c', s')
           | (Inr response, s') \<Rightarrow> (Inr (), snd (write_cli_response E response c'), s'))))"

section \<open>The heartbeat driver\<close>

definition saturating_succ :: "u64 \<Rightarrow> u64" where
  "saturating_succ w = (if w = - 1 then w else w + 1)"

text \<open>The head of the loop with the flag set: tell vm1, whatever comes of it.\<close>

definition driver_revoke :: "orch_env \<Rightarrow> driver \<Rightarrow> node \<Rightarrow> node" where
  "driver_revoke E d n = snd (send_orch_message E (dr_stream d) (dr_key d) (OmRevoke ''operator revoke'') n)"

text \<open>
  A tick: ping, wait at most 30 seconds (\<open>timely\<close> says whether the answer came), record the answer.  The result
  says whether the loop goes on.
\<close>

definition driver_tick ::
  "orch_env \<Rightarrow> bool \<Rightarrow> driver \<Rightarrow> heartbeat_flags \<Rightarrow> node \<Rightarrow> bool \<times> driver \<times> heartbeat_flags \<times> node" where
  "driver_tick E timely d fl n =
     (let d = d\<lparr>dr_sequence := saturating_succ (dr_sequence d)\<rparr> in
      case send_orch_message E (dr_stream d) (dr_key d) (OmHeartbeatPing (dr_sequence d)) n of
        (Inl _, n1) \<Rightarrow> (False, d, fl, n1)
      | (Inr _, n1) \<Rightarrow>
          (case recv_orch_message E (dr_stream d) (dr_key d) n1 of (r, n2) \<Rightarrow>
             (if \<not> timely then (False, d, fl, n2)
              else case r of
                Inr (OmHeartbeatResult seq hb_ok node_count details) \<Rightarrow>
                  (hb_ok, d, fl\<lparr>hf_seq := seq, hf_ok := hb_ok, hf_at := nd_clock n2 (nd_clock_pos n2)\<rparr>, snd (now_secs n2))
              | Inr (OmSessionEnded reason) \<Rightarrow> (False, d, fl, n2)
              | Inr _ \<Rightarrow> (True, d, fl, n2)
              | Inl _ \<Rightarrow> (False, d, fl, n2))))"

text \<open>
  The driver in time, in milliseconds since it started: the flag is set at \<open>dt_revoke_at\<close>, if at all, sending
  the ping of round \<open>k\<close> takes \<open>dt_send k\<close> and its answer comes \<open>dt_reply k\<close> later.  Ticks are due every 60
  seconds; a late one fires at once.
\<close>

record driver_timing =
  dt_revoke_at :: "nat option"
  dt_deadline_first :: "nat \<Rightarrow> bool"
  dt_send :: "nat \<Rightarrow> nat"
  dt_reply :: "nat \<Rightarrow> nat"

definition revoked_by :: "driver_timing \<Rightarrow> nat \<Rightarrow> bool" where
  "revoked_by T t = (case dt_revoke_at T of None \<Rightarrow> False | Some r \<Rightarrow> r \<le> t)"

record driver_end =
  dn_time :: nat
  dn_pings :: nat
  dn_flags :: heartbeat_flags
  dn_node :: node

primrec driver_loop ::
  "nat \<Rightarrow> orch_env \<Rightarrow> driver_timing \<Rightarrow> nat \<Rightarrow> nat \<Rightarrow> driver \<Rightarrow> heartbeat_flags \<Rightarrow> node \<Rightarrow> driver_end option" where
  "driver_loop 0 E T k t d fl n = None"
| "driver_loop (Suc fuel) E T k t d fl n =
     (let stop = (\<lambda>time pings fl n. Some \<lparr>dn_time = time, dn_pings = pings, dn_flags = fl\<lparr>hf_ended := True\<rparr>, dn_node = n\<rparr>);
          deadline = max t (1000 * unat (dr_ttl d)); tick = max t (60000 * Suc k) in
      if revoked_by T t then stop t k fl (driver_revoke E d n)
      else if deadline < tick \<or> deadline = tick \<and> dt_deadline_first T k then stop deadline k fl n
      else
        (case driver_tick E (dt_reply T k \<le> 30000) d fl n of (go_on, d', fl', n') \<Rightarrow>
           (let t' = tick + dt_send T k + min (dt_reply T k) 30000 in
            if go_on then driver_loop fuel E T (Suc k) t' d' fl' n' else stop t' (Suc k) fl' n')))"

text \<open>One more round than there are ticks before the session's end, and one for the end itself.\<close>

definition run_heartbeat_driver ::
  "orch_env \<Rightarrow> driver_timing \<Rightarrow> driver \<Rightarrow> heartbeat_flags \<Rightarrow> node \<Rightarrow> driver_end option" where
  "run_heartbeat_driver E T d fl n = driver_loop (unat (dr_ttl d) div 60 + 2) E T 0 0 d fl n"

section \<open>Commands and drivers interleaved\<close>

text \<open>
  Between two steps the commands of the operator and the drivers take turns; a driver step is the head of its
  loop with the flag set, its deadline, or a tick.
\<close>

datatype vm0_event = EvRequest CliRequest | EvRevoked nat | EvExpired nat | EvTick nat bool

definition driver_stops :: "nat \<Rightarrow> node \<Rightarrow> vm0 \<Rightarrow> vm0" where
  "driver_stops i n s = s\<lparr>vz_node := n, vz_flags := (vz_flags s)(i := (vz_flags s i)\<lparr>hf_ended := True\<rparr>),
     vz_driver := (vz_driver s)(i := None)\<rparr>"

inductive vm0_step :: "orch_env \<Rightarrow> vm0_config \<Rightarrow> vm0 \<Rightarrow> vm0_event \<Rightarrow> vm0 \<Rightarrow> bool"
  for E :: orch_env and cfg :: vm0_config where
  Request: "orchestrator_respond E cfg request s = (r, s') \<Longrightarrow> vm0_step E cfg s (EvRequest request) s'"
| RevokeSeen: "vz_driver s i = Some d \<Longrightarrow> hf_revoke (vz_flags s i) \<Longrightarrow>
     vm0_step E cfg s (EvRevoked i) (driver_stops i (driver_revoke E d (vz_node s)) s)"
| DriverExpired: "vz_driver s i = Some d \<Longrightarrow> vm0_step E cfg s (EvExpired i) (driver_stops i (vz_node s) s)"
| Tick: "vz_driver s i = Some d \<Longrightarrow> driver_tick E timely d (vz_flags s i) (vz_node s) = (go_on, d', fl', n') \<Longrightarrow>
     s1 = s\<lparr>vz_node := n', vz_flags := (vz_flags s)(i := fl'), vz_driver := (vz_driver s)(i \<mapsto> d')\<rparr> \<Longrightarrow>
     s' = (if go_on then s1 else driver_stops i n' s1) \<Longrightarrow> vm0_step E cfg s (EvTick i timely) s'"

inductive vm0_run :: "orch_env \<Rightarrow> vm0_config \<Rightarrow> vm0_event list \<Rightarrow> vm0 \<Rightarrow> bool"
  for E :: orch_env and cfg :: vm0_config where
  Start: "vm0_run E cfg [] (vm0_start n)"
| Next: "vm0_run E cfg evs s \<Longrightarrow> vm0_step E cfg s ev s' \<Longrightarrow> vm0_run E cfg (evs @ [ev]) s'"

inductive_cases requestE: "vm0_step E cfg s (EvRequest request) s'"

section \<open>Lemmas on attempts\<close>

lemma or_deny_Inr:
  "or_deny reason m k n = (Inr (Inr y), n') \<longleftrightarrow> (\<exists>x n1. m n = (Inr x, n1) \<and> k x n1 = (Inr (Inr y), n'))"
  by (auto simp: or_deny_def split: prod.splits sum.splits error.splits)

lemma and_then_Inr:
  "and_then m k n = (Inr (Inr y), n') \<longleftrightarrow> (\<exists>x n1. m n = (Inr (Inr x), n1) \<and> k x n1 = (Inr (Inr y), n'))"
  by (auto simp: and_then_def deny_def io_bind_eq_Inr split: sum.splits) (metis sum.exhaust)

lemma deny_Inr [simp]: "deny reason n = (Inr (Inr y), n') \<longleftrightarrow> False"
  by (simp add: deny_def)

lemmas attempt_simps = or_deny_Inr and_then_Inr io_bind_eq_Inr

text \<open>\<open>heard E stream key m\<close>: the message \<open>m\<close> was received over the connection.\<close>

definition heard :: "orch_env \<Rightarrow> nat \<Rightarrow> bytes \<Rightarrow> OrchestratorMessage \<Rightarrow> bool" where
  "heard E stream key m \<longleftrightarrow> (\<exists>n n'. recv_orch_message E stream key n = (Inr m, n'))"

definition said :: "orch_env \<Rightarrow> nat \<Rightarrow> bytes \<Rightarrow> OrchestratorMessage \<Rightarrow> bool" where
  "said E stream key m \<longleftrightarrow> (\<exists>n n'. send_orch_message E stream key m n = (Inr (), n'))"

lemma check_operator_Inr:
  assumes "check_operator E cfg ttl p1 p2 n = (Inr (Inr token), n')"
  shows "\<exists>now. validate_operator (oe_x E) (oe_load_creds E) (oe_verify_pass E) now (vc_credentials_path cfg) p1 p2 = Inr token"
    and "60 \<le> ttl \<and> ttl \<le> 1200"
    and "vc_vm4_address cfg = Some a \<Longrightarrow>
       \<exists>m m'. vm0_mutual_attest_vm4 (oe_dual E) (vc_baselines cfg) a (vc_node_id cfg) ttl m = (Inr True, m')"
  using assms by (auto simp: check_operator_def attempt_simps split: if_splits option.splits)

lemma attestation_reply:
  "(case m of OmAttestationResponse att \<Rightarrow> P att | other \<Rightarrow> deny (Q other)) n = (Inr (Inr y), n') \<Longrightarrow>
     \<exists>att. m = OmAttestationResponse att \<and> P att n = (Inr (Inr y), n')"
  by (cases m) auto

lemma attest_vm1_Inr:
  assumes "attest_vm1 E cfg n = (Inr (Inr (stream, key)), n')"
  shows "\<exists>att. heard E stream key (OmAttestationResponse att) \<and>
     node_passes (verify_attestation (de_verify (oe_dual E)) (vc_baselines cfg) att None None None)"
  using assms
  by (auto simp: attest_vm1_def attempt_simps heard_def Let_def dest!: attestation_reply split: if_splits) blast

lemma payload_new_fields:
  "payload_new random now ttl oh att ak = Inr p \<Longrightarrow>
     ip_authorization_id p = take AUTH_ID_BYTES random \<and> ip_session_ttl_secs p = ttl \<and> ip_operator_hash p = oh"
  by (auto simp: payload_new_def split: if_splits)

lemma sign_initiate_payload:
  "sign_initiate C sign p = Inr si \<Longrightarrow> \<exists>ak. si_payload si = p\<lparr>ip_vm0_ak_public := ak\<rparr>"
  by (auto simp: sign_initiate_def res_bind_eq_Inr Let_def)

lemma send_initiate_Inr:
  assumes "send_initiate E cfg ttl oh stream key n = (Inr (Inr aid), n')"
  shows "heard E stream key (OmInitiateAck aid) \<and> length aid = 32 \<and>
     (\<exists>si. said E stream key (OmInitiate si) \<and> ip_authorization_id (si_payload si) = aid \<and>
        ip_session_ttl_secs (si_payload si) = ttl \<and> ip_operator_hash (si_payload si) = oh)"
proof -
  obtain random s1 s2 now quote ts p si s3 s4 s5 m s6 where
    d: "draw AUTH_ID_BYTES s1 = (Inr random, s2)"
    and p: "payload_new random now ttl oh \<lparr>att_vm_identity = vc_node_id cfg, att_tpm_quote = quote, att_timestamp = ts\<rparr>
       (tq_ak_public quote) = Inr p"
    and si: "sign_io E p s3 = (Inr si, s4)" and sd: "send_orch_message E stream key (OmInitiate si) s4 = (Inr (), s5)"
    and m: "recv_orch_message E stream key s5 = (Inr m, s6)"
    and r: "(case m of OmInitiateAck ack_id \<Rightarrow>
        (if ack_id \<noteq> ip_authorization_id p then deny ''vm1 ack auth_id mismatch'' else io_return (Inr (ip_authorization_id p)))
      | OmInitiateRejected reason \<Rightarrow> deny (''vm1 rejected: '' @ reason)
      | other \<Rightarrow> deny (''Expected InitiateAck, got '' @ oe_debug E other)) s6 = (Inr (Inr aid), n')"
    using assms unfolding send_initiate_def attempt_simps by auto
  have aid: "aid = ip_authorization_id p" "m = OmInitiateAck aid"
    using r by (cases m; auto split: if_splits)+
  have "length aid = 32" using payload_new_fields [OF p] aid(1) draw_length [OF d] by (simp add: AUTH_ID_BYTES_def)
  moreover obtain ak where "si_payload si = p\<lparr>ip_vm0_ak_public := ak\<rparr>"
    using si sign_initiate_payload by (fastforce simp: sign_io_def)
  ultimately show ?thesis
    using aid m sd payload_new_fields [OF p] unfolding heard_def said_def by fastforce
qed

lemma await_token_Inr:
  assumes "await_token E aid stream key n = (Inr (Inr st), n')"
  shows "heard E stream key (OmSessionToken st) \<and> st_authorization_id st = aid \<and> st_authorized st"
proof -
  obtain m n1 where "recv_orch_message E stream key n = (Inr m, n1)"
    and "(case m of OmSessionToken st \<Rightarrow>
        (if st_authorization_id st \<noteq> aid then deny ''session token auth_id mismatch''
         else if \<not> st_authorized st then deny ''chain establishment completed but not authorized'' else io_return (Inr st))
      | OmChainFailed _ reason \<Rightarrow> deny (''Chain establishment failed: '' @ reason)
      | other \<Rightarrow> deny (''Expected SessionToken, got '' @ oe_debug E other)) n1 = (Inr (Inr st), n')"
    using assms unfolding await_token_def attempt_simps by blast
  then show ?thesis by (cases m) (auto simp: heard_def split: if_splits)
qed

text \<open>Everything a grant went through.\<close>

definition granted :: "orch_env \<Rightarrow> vm0_config \<Rightarrow> u64 \<Rightarrow> string \<Rightarrow> string \<Rightarrow> session_grant \<Rightarrow> bool" where
  "granted E cfg ttl p1 p2 g \<longleftrightarrow>
     (\<exists>now token. validate_operator (oe_x E) (oe_load_creds E) (oe_verify_pass E) now (vc_credentials_path cfg) p1 p2 = Inr token \<and>
        sg_operator_hash g = ot_operator_hash token) \<and>
     60 \<le> ttl \<and> ttl \<le> 1200 \<and>
     (\<forall>a. vc_vm4_address cfg = Some a \<longrightarrow>
        (\<exists>m m'. vm0_mutual_attest_vm4 (oe_dual E) (vc_baselines cfg) a (vc_node_id cfg) ttl m = (Inr True, m'))) \<and>
     (\<exists>att. heard E (sg_stream g) (sg_key g) (OmAttestationResponse att) \<and>
        node_passes (verify_attestation (de_verify (oe_dual E)) (vc_baselines cfg) att None None None)) \<and>
     (\<exists>si. said E (sg_stream g) (sg_key g) (OmInitiate si) \<and> ip_authorization_id (si_payload si) = sg_authorization_id g \<and>
        ip_session_ttl_secs (si_payload si) = ttl \<and> ip_operator_hash (si_payload si) = sg_operator_hash g) \<and>
     heard E (sg_stream g) (sg_key g) (OmInitiateAck (sg_authorization_id g)) \<and>
     heard E (sg_stream g) (sg_key g) (OmSessionToken (sg_token g)) \<and>
     st_authorization_id (sg_token g) = sg_authorization_id g \<and> st_authorized (sg_token g) \<and> length (sg_authorization_id g) = 32"

lemma obtain_grant_granted:
  assumes "obtain_grant E cfg ttl p1 p2 n = (Inr (Inr g), n')" shows "granted E cfg ttl p1 p2 g"
proof -
  obtain token stream key aid st n1 n2 n3 n4 where
    1: "check_operator E cfg ttl p1 p2 n = (Inr (Inr token), n1)" and 2: "attest_vm1 E cfg n1 = (Inr (Inr (stream, key)), n2)"
    and 3: "send_initiate E cfg ttl (ot_operator_hash token) stream key n2 = (Inr (Inr aid), n3)"
    and 4: "await_token E aid stream key n3 = (Inr (Inr st), n4)"
    and g: "g = \<lparr>sg_operator_hash = ot_operator_hash token, sg_authorization_id = aid, sg_token = st, sg_stream = stream, sg_key = key\<rparr>"
    using assms unfolding obtain_grant_def attempt_simps by (auto simp: io_bind_eq_Inr and_then_Inr)
  show ?thesis
    unfolding granted_def g
    using check_operator_Inr [OF 1] attest_vm1_Inr [OF 2] send_initiate_Inr [OF 3] await_token_Inr [OF 4] by auto
qed

section \<open>Lemmas on the commands\<close>

text \<open>Authentication either starts a granted session over one that no longer blocks, or changes only the node.\<close>

lemma handle_authenticate_cases:
  assumes "handle_authenticate E cfg ttl p1 p2 s = (r, s')"
  obtains (authorized) g n' where "\<not> session_blocks (nd_clock (vz_node s) (nd_clock_pos (vz_node s))) (vz_flags s) (vz_session s)"
      "granted E cfg ttl p1 p2 g" "s' = start_session ttl g (s\<lparr>vz_node := n'\<rparr>)"
      "r = Inr (CrAuthorized (sg_authorization_id g) (sha256 (oe_x E) (st_session_token (sg_token g)))
         (st_session_expiry (sg_token g)) (st_chain1_node_count (sg_token g)) (st_chain2_node_count (sg_token g)))"
  | (refused) n' where "s' = s\<lparr>vz_node := n'\<rparr>" "\<And>a b c d e. r \<noteq> Inr (CrAuthorized a b c d e)"
proof (cases "session_blocks (nd_clock (vz_node s) (nd_clock_pos (vz_node s))) (vz_flags s) (vz_session s)")
  case True
  then show thesis using assms refused by (auto simp: handle_authenticate_def Let_def)
next
  case False
  obtain r1 n1 where o: "obtain_grant E cfg ttl p1 p2 (status_read s) = (r1, n1)" by fastforce
  show thesis
  proof (cases r1)
    case (Inl e)
    then show thesis using assms False o by (intro refused) (auto simp: handle_authenticate_def Let_def)
  next
    case (Inr v)
    show thesis
    proof (cases v)
      case (Inl reason)
      then show thesis using assms False o Inr by (intro refused) (auto simp: handle_authenticate_def Let_def)
    next
      case g: (Inr g)
      show thesis
        using assms False o Inr g obtain_grant_granted [OF o [unfolded Inr g]]
        by (intro authorized) (auto simp: handle_authenticate_def Let_def)
    qed
  qed
qed

definition vm0_inv :: "vm0 \<Rightarrow> bool" where
  "vm0_inv s \<longleftrightarrow>
     (\<forall>i. vz_next s \<le> i \<longrightarrow> vz_driver s i = None) \<and>
     (\<forall>i. i < vz_next s \<longrightarrow> vz_driver s i = None \<longrightarrow> hf_ended (vz_flags s i)) \<and>
     (\<forall>i d. vz_driver s i = Some d \<longrightarrow> \<not> hf_ended (vz_flags s i)) \<and>
     (\<forall>aid tok expiry oh i. vz_session s = ActiveSession aid tok expiry oh i \<longrightarrow> i < vz_next s)"

lemma vm0_inv_start: "vm0_inv (vm0_start n)"
  by (simp add: vm0_inv_def vm0_start_def)

lemma vm0_inv_node [simp]: "vm0_inv (s\<lparr>vz_node := n\<rparr>) = vm0_inv s"
  by (simp add: vm0_inv_def)

lemma vm0_inv_session: "vm0_inv s \<Longrightarrow> vm0_inv (start_session ttl g s)"
  by (auto simp: vm0_inv_def start_session_def flags_new_def Let_def less_Suc_eq)

lemma vm0_inv_revoke: "vm0_inv s \<Longrightarrow> revoke s = (r, s') \<Longrightarrow> vm0_inv s'"
  by (auto simp: vm0_inv_def revoke_def split: OrchestratorSessionState.splits if_splits)

lemma vm0_inv_stops: "vm0_inv s \<Longrightarrow> vm0_inv (driver_stops i n s)"
  by (auto simp: vm0_inv_def driver_stops_def)

lemma vm0_inv_respond:
  assumes "vm0_inv s" and "orchestrator_respond E cfg request s = (r, s')" shows "vm0_inv s'"
proof (cases request)
  case (Authenticate p1 p2 ttl)
  with assms(2) have "handle_authenticate E cfg ttl p1 p2 s = (r, s')" by (simp add: orchestrator_respond_def)
  then show ?thesis
    by (cases rule: handle_authenticate_cases) (use assms(1) vm0_inv_session in auto)
next
  case CliStatus
  then show ?thesis using assms by (auto simp: orchestrator_respond_def)
next
  case CliRevoke
  then show ?thesis using assms vm0_inv_revoke by (auto simp: orchestrator_respond_def)
qed

text \<open>A tick touches neither the revoke flag nor the ended flag.\<close>

lemma driver_tick_flags:
  "driver_tick E timely d fl n = (go_on, d', fl', n') \<Longrightarrow> hf_revoke fl' = hf_revoke fl \<and> hf_ended fl' = hf_ended fl"
  by (auto simp: driver_tick_def Let_def split: prod.splits sum.splits if_splits OrchestratorMessage.splits)

lemma vm0_inv_step:
  assumes "vm0_step E cfg s ev s'" and "vm0_inv s" shows "vm0_inv s'"
  using assms
proof (induction rule: vm0_step.induct)
  case (Request request s r s')
  then show ?case using vm0_inv_respond by blast
next
  case (Tick s i d timely go_on d' fl' n' s1 s')
  have "vm0_inv s1" using Tick driver_tick_flags [OF Tick(2)] by (auto simp: vm0_inv_def)
  then show ?case using Tick vm0_inv_stops by simp
qed (use vm0_inv_stops in auto)

lemma vm0_inv_run: "vm0_run E cfg evs s \<Longrightarrow> vm0_inv s"
  by (induction rule: vm0_run.induct) (auto intro: vm0_inv_start vm0_inv_step)

section \<open>Lemmas on the history of a session\<close>

text \<open>\<open>authorized_in E cfg evs aid tok expiry\<close>: some earlier command led to exactly this session.\<close>

definition authorized_in :: "orch_env \<Rightarrow> vm0_config \<Rightarrow> vm0_event list \<Rightarrow> bytes \<Rightarrow> bytes \<Rightarrow> u64 \<Rightarrow> bool" where
  "authorized_in E cfg evs aid tok expiry \<longleftrightarrow>
     (\<exists>before p1 p2 ttl after s0 g. evs = before @ EvRequest (Authenticate p1 p2 ttl) # after \<and> vm0_run E cfg before s0 \<and>
        \<not> session_blocks (nd_clock (vz_node s0) (nd_clock_pos (vz_node s0))) (vz_flags s0) (vz_session s0) \<and>
        granted E cfg ttl p1 p2 g \<and> sg_authorization_id g = aid \<and> st_session_token (sg_token g) = tok \<and>
        st_session_expiry (sg_token g) = expiry)"

lemma authorized_in_snoc: "authorized_in E cfg evs aid tok expiry \<Longrightarrow> authorized_in E cfg (evs @ [ev]) aid tok expiry"
  unfolding authorized_in_def by (metis append.assoc append_Cons)

lemma driver_stops_session [simp]: "vz_session (driver_stops i n s) = vz_session s"
  by (simp add: driver_stops_def)

text \<open>Only the commands change the session.\<close>

lemma step_session:
  "vm0_step E cfg s ev s' \<Longrightarrow> vz_session s' = vz_session s \<or> (\<exists>request r. ev = EvRequest request \<and> orchestrator_respond E cfg request s = (r, s'))"
  by (induction rule: vm0_step.induct) auto

lemma session_history:
  assumes "vm0_run E cfg evs s" and "vz_session s = ActiveSession aid tok expiry oh i"
  shows "authorized_in E cfg evs aid tok expiry"
  using assms
proof (induction rule: vm0_run.induct)
  case (Start n)
  then show ?case by (simp add: vm0_start_def)
next
  case (Next evs s ev s')
  show ?case
  proof (cases "vz_session s' = vz_session s")
    case True
    then show ?thesis using Next authorized_in_snoc by simp
  next
    case False
    with step_session [OF Next.hyps(2)] obtain request r where ev: "ev = EvRequest request"
      and r: "orchestrator_respond E cfg request s = (r, s')" by blast
    obtain p1 p2 ttl where q: "request = Authenticate p1 p2 ttl"
      using r False Next.prems
      by (cases request) (auto simp: orchestrator_respond_def revoke_def split: OrchestratorSessionState.splits if_splits)
    with r have "handle_authenticate E cfg ttl p1 p2 s = (r, s')" by (simp add: orchestrator_respond_def)
    then show ?thesis
    proof (cases rule: handle_authenticate_cases)
      case (authorized g n')
      then have "sg_authorization_id g = aid" "st_session_token (sg_token g) = tok" "st_session_expiry (sg_token g) = expiry"
        using Next.prems by (simp_all add: start_session_def Let_def)
      with authorized Next.hyps(1) ev q show ?thesis unfolding authorized_in_def by blast
    qed (use False in simp)
  qed
qed

section \<open>Lemmas on the driver in time\<close>

lemma driver_tick_ttl: "driver_tick E timely d fl n = (go_on, d', fl', n') \<Longrightarrow> dr_ttl d' = dr_ttl d"
  by (auto simp: driver_tick_def Let_def split: prod.splits sum.splits if_splits OrchestratorMessage.splits)

text \<open>
  While sending takes less than 30 seconds, round \<open>k\<close> starts before its tick is due, so ticks are on time and
  there are no more of them than fit in the session; the flag is seen at the head of the next round.
\<close>

lemma driver_loop_bound:
  assumes "\<And>k. dt_send T k < 30000" and "t < 60000 * Suc k" and "k \<le> unat (dr_ttl d) div 60" and "\<not> hf_ended fl"
    and "unat (dr_ttl d) div 60 + 1 < fuel + k"
    and "\<And>r. dt_revoke_at T = Some r \<Longrightarrow> t < r + 120000 \<and> k \<le> r div 60000 + 1"
    and "t < 1000 * unat (dr_ttl d) + 60000" and "60000 * k \<le> t"
  shows "\<exists>e. driver_loop fuel E T k t d fl n = Some e \<and> dn_pings e \<le> unat (dr_ttl d) div 60 \<and>
     dn_time e < 1000 * unat (dr_ttl d) + 60000 \<and> hf_ended (dn_flags e) \<and>
     (\<forall>r. dt_revoke_at T = Some r \<longrightarrow> dn_time e < r + 120000 \<and> dn_pings e \<le> r div 60000 + 1)"
  using assms(2-8)
proof (induction fuel arbitrary: k t d fl n)
  case 0
  then show ?case by simp
next
  case (Suc fuel)
  let ?ttl = "unat (dr_ttl d)"
  obtain go_on d' fl' n' where tk: "driver_tick E (dt_reply T k \<le> 30000) d fl n = (go_on, d', fl', n')"
    using prod_cases4 by blast
  let ?t' = "60000 * Suc k + dt_send T k + min (dt_reply T k) 30000"
  have mx: "max t (60000 * Suc k) = 60000 * Suc k" using Suc.prems(1) by simp
  consider (revoked) "revoked_by T t"
    | (deadline) "\<not> revoked_by T t" "max t (1000 * ?ttl) < 60000 * Suc k \<or> max t (1000 * ?ttl) = 60000 * Suc k \<and> dt_deadline_first T k"
    | (tick) "\<not> revoked_by T t" "\<not> (max t (1000 * ?ttl) < 60000 * Suc k \<or> max t (1000 * ?ttl) = 60000 * Suc k \<and> dt_deadline_first T k)"
    by blast
  then show ?case
  proof cases
    case revoked
    then show ?thesis using Suc.prems by (auto simp: Let_def)
  next
    case deadline
    have "max t (1000 * ?ttl) < r + 120000" if "dt_revoke_at T = Some r" for r
    proof -
      have "60000 * k < r" using deadline(1) that Suc.prems(7) by (auto simp: revoked_by_def)
      then show ?thesis using deadline(2) by auto
    qed
    then show ?thesis using deadline Suc.prems mx by (auto simp: Let_def)
  next
    case tick
    have fits: "60000 * Suc k \<le> 1000 * ?ttl" using tick(2) Suc.prems(1) by auto
    then have k: "Suc k \<le> ?ttl div 60" by (simp add: less_eq_div_iff_mult_less_eq)
    have t': "?t' < 60000 * Suc (Suc k)" using assms(1) [of k] by (simp add: min_def)
    have rv: "?t' < r + 120000 \<and> Suc k \<le> r div 60000 + 1" if "dt_revoke_at T = Some r" for r
    proof -
      have "60000 * k < r" using tick(1) that Suc.prems(7) by (auto simp: revoked_by_def)
      then show ?thesis using t' by (auto simp: less_eq_div_iff_mult_less_eq)
    qed
    show ?thesis
    proof (cases go_on)
      case False
      then show ?thesis using tick tk mx k t' fits rv by (auto simp: Let_def)
    next
      case True
      have "\<exists>e. driver_loop fuel E T (Suc k) ?t' d' fl' n' = Some e \<and> dn_pings e \<le> unat (dr_ttl d') div 60 \<and>
         dn_time e < 1000 * unat (dr_ttl d') + 60000 \<and> hf_ended (dn_flags e) \<and>
         (\<forall>r. dt_revoke_at T = Some r \<longrightarrow> dn_time e < r + 120000 \<and> dn_pings e \<le> r div 60000 + 1)"
        by (rule Suc.IH) (use Suc.prems t' k rv fits driver_tick_ttl [OF tk] driver_tick_flags [OF tk] in auto)
      then show ?thesis using tick tk mx True driver_tick_ttl [OF tk] by (auto simp: Let_def)
    qed
  qed
qed

section \<open>Concrete inputs\<close>

definition demo_vm0_config :: vm0_config where
  "demo_vm0_config = \<lparr>vc_node_id = ''vm0'', vc_credentials_path = ''creds'',
     vc_baselines = add_baseline 0 (demo_baseline ''vm1'') (database_new 0), vc_vm1_address = ''10.0.0.1:9003'', vc_vm4_address = None\<rparr>"

text \<open>A node whose next connection, number 1, will have received \<open>w\<close>; \<open>calm n w\<close> describes it while bytes are taken.\<close>

definition demo_vm0_node :: "bytes \<Rightarrow> node" where
  "demo_vm0_node w = (demo_wire [])\<lparr>nd_peer := (\<lambda>_ _. \<lparr>rx = w, tx = [], wleft = None\<rparr>)\<rparr>"

definition calm :: "bytes \<Rightarrow> node \<Rightarrow> bool" where
  "calm w n \<longleftrightarrow> rx (nd_chan n 1) = w \<and> wleft (nd_chan n 1) = None \<and> nd_entropy n = (\<lambda>_. 1) \<and> nd_clock n = (\<lambda>_. 1000) \<and>
     nd_tpm n = (\<lambda>_. demo_env 200)"

lemma calm_draw: "calm w n \<Longrightarrow> \<exists>n'. draw k n = (Inr (replicate k 1), n') \<and> calm w n'"
  by (simp add: calm_def draw_def map_replicate_const)

lemma calm_now: "calm w n \<Longrightarrow> \<exists>n'. now_secs n = (Inr 1000, n') \<and> calm w n'"
  by (simp add: calm_def now_secs_def)

lemma calm_quote: "calm w n \<Longrightarrow> \<exists>n'. take_quote demo_ext n = (Inr (demo_quote 200), n') \<and> calm w n'"
  by (simp add: calm_def take_quote_def demo_generate)

lemma calm_sign: "calm w n \<Longrightarrow> \<exists>n'. sign_io demo_orch p n = (Inr \<lparr>si_payload = p\<lparr>ip_vm0_ak_public := [6]\<rparr>, si_signature = [5]\<rparr>, n') \<and> calm w n'"
  by (simp add: calm_def sign_io_def sign_initiate_def canonical_bytes_def demo_orch_def)

lemma calm_send: "calm w n \<Longrightarrow> \<exists>n'. send_orch_message demo_orch 1 key m n = (Inr (), n') \<and> calm w n'"
  using demo_send [of n 1 key m] by (auto simp: calm_def)

lemma calm_recv:
  assumes "calm (demo_frame key b @ w) n" and "de demo_orch_messages [b] = Inr m"
  shows "\<exists>n'. recv_orch_message demo_orch 1 key n = (Inr m, n') \<and> calm w n'"
  using demo_frame_delivers [OF assms(2), of key] assms(1) by (simp add: delivers_def calm_def set_rx_def)

lemma demo_vm1_passes:
  "node_passes (verify_attestation demo_verify (vc_baselines demo_vm0_config) (demo_attestation ''vm1'' 200) None None None)"
proof -
  have "get_baseline (vc_baselines demo_vm0_config) (att_vm_identity (demo_attestation ''vm1'' 200)) = Some (demo_baseline ''vm1'')"
    by (simp add: demo_vm0_config_def bdb.get_add demo_baseline_def demo_attestation_def)
  then show ?thesis
    by (simp add: node_passes_def verify_attestation_known fst_check_pcrs fst_check_ak
        fst_check_signature check_ima_count_def check_ima_aggregate_def)
      (simp add: demo_attestation_def demo_quote_def demo_baseline_def demo_verify_def demo_tss_def
        verify_quote_signature_def)
qed

lemma demo_exchange:
  "\<exists>data key. length data = 1569 \<and> (\<forall>n w. calm (put_le32 1569 @ data @ w) n \<longrightarrow>
     (\<exists>n'. perform_orchestrator_key_exchange demo_orch 1 sid n = (Inr key, n') \<and> calm w n'))"
proof -
  obtain data where d: "length data = 1569" "de demo_responses data = Inr demo_response" using demo_response_ser by blast
  obtain sk xs nn where i: "generate_key_exchange_init demo_ext (replicate 64 1) (replicate 32 1) (replicate 32 1) ''vm0'' = Inr (demo_init, sk, xs, nn)"
    by (simp add: demo_init_def generate_key_exchange_init_def split_beta Let_def)
  obtain keys where "generate_key_exchange_response demo_ext (replicate 32 1) (replicate 32 1) ''vm1'' demo_init = Inr (demo_response, keys)"
    using demo_responds by blast
  from key_agreement [OF demo_kem demo_dh i this] have c: "complete_key_exchange demo_ext demo_init demo_response sk xs nn = Inr keys" .
  have "\<exists>n'. perform_orchestrator_key_exchange demo_orch 1 sid n = (Inr (session_key keys), n') \<and> calm w n'"
    if calm: "calm (put_le32 1569 @ data @ w) n" for n w
  proof -
    let ?n = "n\<lparr>nd_entropy_pos := nd_entropy_pos n + 128\<rparr>"
    have init: "key_exchange_init_io (oe_agent demo_orch) ''vm0'' n = (Inr (demo_init, sk, xs, nn), ?n)"
      using calm i by (simp add: key_exchange_init_io_def io_bind_def draw_def calm_def map_replicate_const del: upt_rec_numeral)
    have "perform_orchestrator_key_exchange demo_orch 1 sid n = (Inr (session_key keys),
       ?n\<lparr>nd_chan := (nd_chan n)(1 := (nd_chan n 1)\<lparr>tx := tx (nd_chan n 1) @ put_le32 (length [1 :: u8]) @ [1], rx := w\<rparr>)\<rparr>)"
      by (rule initiator_hello [OF init, where data = data and response = demo_response])
         (use calm d c in \<open>auto simp: calm_def demo_orch_def demo_dual_def max_frame_def\<close>)
    then show ?thesis using calm by (auto simp: calm_def)
  qed
  with d(1) show ?thesis by blast
qed

lemma demo_grant:
  "\<exists>w g n'. obtain_grant demo_orch demo_vm0_config 600 ''one'' ''two'' (demo_vm0_node w) = (Inr (Inr g), n') \<and>
     sg_authorization_id g = replicate 32 1 \<and> sg_token g = demo_token"
proof -
  obtain data key where d: "length data = 1569" and x: "\<And>n w. calm (put_le32 1569 @ data @ w) n \<Longrightarrow>
     \<exists>n'. perform_orchestrator_key_exchange demo_orch 1 ''vm0'' n = (Inr key, n') \<and> calm w n'"
    using demo_exchange [of "''vm0''"] by blast
  let ?w3 = "demo_frame key 4" let ?w2 = "demo_frame key 3 @ ?w3" let ?w1 = "demo_frame key 1 @ ?w2"
  let ?w = "put_le32 1569 @ data @ ?w1"
  obtain token n0 where 1: "check_operator demo_orch demo_vm0_config 600 ''one'' ''two'' (demo_vm0_node ?w) = (Inr (Inr token), n0)"
    and n0: "nd_next n0 = 1" "nd_entropy n0 = (\<lambda>_. 1)" "nd_clock n0 = (\<lambda>_. 1000)" "nd_tpm n0 = (\<lambda>_. demo_env 200)"
      "nd_peer n0 = (\<lambda>_ _. \<lparr>rx = ?w, tx = [], wleft = None\<rparr>)"
    by (simp add: check_operator_def io_bind_def now_secs_def or_deny_def validate_operator_def slice_to_def demo_vm0_config_def
        demo_vm0_node_def demo_wire_def demo_orch_def demo_dual_def deny_def)
  obtain n1 where o: "open_chan (vc_vm1_address demo_vm0_config) n0 = (Inr 1, n1)" "calm ?w n1"
    using n0 by (simp add: open_chan_def calm_def Let_def)
  obtain n2 where 2: "attest_vm1 demo_orch demo_vm0_config n0 = (Inr (Inr (1, key)), n2)" "calm ?w2 n2"
  proof -
    obtain m1 where m1: "perform_orchestrator_key_exchange demo_orch 1 ''vm0'' n1 = (Inr key, m1)" "calm ?w1 m1" using x [OF o(2)] by blast
    obtain m2 where m2: "draw 32 m1 = (Inr (replicate 32 1), m2)" "calm ?w1 m2" using calm_draw [OF m1(2)] by blast
    obtain m3 where m3: "send_orch_message demo_orch 1 key (OmAttestationRequest (replicate 32 1)) m2 = (Inr (), m3)" "calm ?w1 m3"
      using calm_send [OF m2(2)] by blast
    obtain m4 where m4: "recv_orch_message demo_orch 1 key m3 = (Inr (OmAttestationResponse (demo_attestation ''vm1'' 200)), m4)" "calm ?w2 m4"
      using calm_recv [OF m3(2)] by (auto simp: demo_orch_messages_def)
    have "vc_node_id demo_vm0_config = ''vm0''" "de_verify (oe_dual demo_orch) = demo_verify"
      by (simp_all add: demo_vm0_config_def demo_orch_def demo_dual_def)
    with o(1) m1(1) m2(1) m3(1) m4(1) demo_vm1_passes
    have "attest_vm1 demo_orch demo_vm0_config n0 = (Inr (Inr (1, key)), m4)"
      by (simp add: attest_vm1_def or_deny_def io_bind_def)
    with m4(2) that show thesis by blast
  qed
  obtain n3 where 3: "send_initiate demo_orch demo_vm0_config 600 (ot_operator_hash token) 1 key n2 = (Inr (Inr (replicate 32 1)), n3)" "calm ?w3 n3"
  proof -
    obtain m1 where m1: "take_quote demo_ext n2 = (Inr (demo_quote 200), m1)" "calm ?w2 m1" using calm_quote [OF 2(2)] by blast
    obtain m2 where m2: "now_secs m1 = (Inr 1000, m2)" "calm ?w2 m2" using calm_now [OF m1(2)] by blast
    obtain m3 where m3: "draw AUTH_ID_BYTES m2 = (Inr (replicate AUTH_ID_BYTES 1), m3)" "calm ?w2 m3" using calm_draw [OF m2(2)] by blast
    obtain m4 where m4: "now_secs m3 = (Inr 1000, m4)" "calm ?w2 m4" using calm_now [OF m3(2)] by blast
    let ?p = "\<lparr>ip_version = 1, ip_authorization_id = replicate 32 1, ip_timestamp = 1000, ip_session_ttl_secs = 600,
        ip_operator_hash = ot_operator_hash token, ip_vm0_attestation = \<lparr>att_vm_identity = ''vm0'', att_tpm_quote = demo_quote 200, att_timestamp = 1000\<rparr>,
        ip_vm0_ak_public = tq_ak_public (demo_quote 200)\<rparr>"
    have p: "payload_new (replicate AUTH_ID_BYTES 1) 1000 600 (ot_operator_hash token) \<lparr>att_vm_identity = ''vm0'', att_tpm_quote = demo_quote 200,
        att_timestamp = 1000\<rparr> (tq_ak_public (demo_quote 200)) = Inr ?p"
      by (simp add: payload_new_def AUTH_ID_BYTES_def)
    obtain m5 where m5: "sign_io demo_orch ?p m4 = (Inr \<lparr>si_payload = ?p\<lparr>ip_vm0_ak_public := [6]\<rparr>, si_signature = [5]\<rparr>, m5)" "calm ?w2 m5"
      using calm_sign [OF m4(2), of ?p] by blast
    obtain m6 where m6: "send_orch_message demo_orch 1 key (OmInitiate \<lparr>si_payload = ?p\<lparr>ip_vm0_ak_public := [6]\<rparr>, si_signature = [5]\<rparr>) m5 = (Inr (), m6)"
      "calm ?w2 m6" using calm_send [OF m5(2)] by blast
    obtain m7 where m7: "recv_orch_message demo_orch 1 key m6 = (Inr (OmInitiateAck (replicate 32 1)), m7)" "calm ?w3 m7"
      using calm_recv [OF m6(2)] by (auto simp: demo_orch_messages_def)
    have "vc_node_id demo_vm0_config = ''vm0''" by (simp add: demo_vm0_config_def)
    with m1(1) m2(1) m3(1) m4(1) p m5(1) m6(1) m7(1)
    have "send_initiate demo_orch demo_vm0_config 600 (ot_operator_hash token) 1 key n2 = (Inr (Inr (replicate 32 1)), m7)"
      by (simp add: send_initiate_def or_deny_def io_bind_def short_auth_id_def slice_to_def)
    with m7(2) that show thesis by blast
  qed
  obtain n4 where "recv_orch_message demo_orch 1 key n3 = (Inr (OmSessionToken demo_token), n4)"
    using calm_recv [of key 4 "[]" n3] 3(2) by (auto simp: demo_orch_messages_def)
  then have 4: "await_token demo_orch (replicate 32 1) 1 key n3 = (Inr (Inr demo_token), n4)"
    by (simp add: await_token_def or_deny_def demo_token_def)
  let ?g = "\<lparr>sg_operator_hash = ot_operator_hash token, sg_authorization_id = replicate 32 1, sg_token = demo_token,
      sg_stream = 1, sg_key = key\<rparr>"
  have "obtain_grant demo_orch demo_vm0_config 600 ''one'' ''two'' (demo_vm0_node ?w) = (Inr (Inr ?g), n4)"
    using 1 2(1) 3(1) 4 by (simp add: obtain_grant_def and_then_def io_bind_def slice_to_def)
  moreover have "sg_authorization_id ?g = replicate 32 1" "sg_token ?g = demo_token" by simp_all
  ultimately show ?thesis by blast
qed

lemma demo_authorized:
  "\<exists>w n' g. handle_authenticate demo_orch demo_vm0_config 600 ''one'' ''two'' (vm0_start (demo_vm0_node w)) =
     (Inr (CrAuthorized (replicate 32 1) (sha256 demo_ext [7]) 1600 4 3),
      start_session 600 g ((vm0_start (demo_vm0_node w))\<lparr>vz_node := n'\<rparr>)) \<and> sg_authorization_id g = replicate 32 1 \<and> sg_token g = demo_token"
proof -
  obtain w g n' where g: "obtain_grant demo_orch demo_vm0_config 600 ''one'' ''two'' (demo_vm0_node w) = (Inr (Inr g), n')"
    "sg_authorization_id g = replicate 32 1" "sg_token g = demo_token"
    using demo_grant by blast
  then have "handle_authenticate demo_orch demo_vm0_config 600 ''one'' ''two'' (vm0_start (demo_vm0_node w)) =
     (Inr (CrAuthorized (replicate 32 1) (sha256 demo_ext [7]) 1600 4 3), start_session 600 g ((vm0_start (demo_vm0_node w))\<lparr>vz_node := n'\<rparr>))"
    by (simp add: handle_authenticate_def status_read_def vm0_start_def session_blocks_def Let_def) (simp add: demo_token_def)
  with g show ?thesis by blast
qed

section \<open>Properties\<close>







end
