(* ===== verification/Utf8.thy ===== *)
theory Utf8
  imports Prelude
begin

text \<open>
  Text made of bytes, as Rust's standard library sees it: UTF-8 validity (\<open>BufRead::read_line\<close>), the lossy conversion
  (\<open>String::from_utf8_lossy\<close>) and the padding of \<open>format!\<close>, which counts characters.  A string is a list of bytes here
  as in the rest of the development.
\<close>

section \<open>Validity\<close>

text \<open>Continuation bytes lie in the range their leading byte allows.\<close>

definition byte_in :: "nat \<Rightarrow> nat \<Rightarrow> char \<Rightarrow> bool" where
  "byte_in lo hi c \<longleftrightarrow> lo \<le> (of_char c :: nat) \<and> of_char c \<le> hi"

fun continuation :: "nat \<Rightarrow> nat \<Rightarrow> nat \<Rightarrow> string \<Rightarrow> string option" where
  "continuation 0 lo hi s = Some s"
| "continuation (Suc n) lo hi [] = None"
| "continuation (Suc n) lo hi (c # s) = (if byte_in lo hi c then continuation n 0x80 0xBF s else None)"

definition utf8_tail :: "char \<Rightarrow> string \<Rightarrow> string option" where
  "utf8_tail c s =
     (if byte_in 0x00 0x7F c then Some s
      else if byte_in 0xC2 0xDF c then continuation 1 0x80 0xBF s
      else if byte_in 0xE0 0xE0 c then continuation 2 0xA0 0xBF s
      else if byte_in 0xED 0xED c then continuation 2 0x80 0x9F s
      else if byte_in 0xE1 0xEF c then continuation 2 0x80 0xBF s
      else if byte_in 0xF0 0xF0 c then continuation 3 0x90 0xBF s
      else if byte_in 0xF1 0xF3 c then continuation 3 0x80 0xBF s
      else if byte_in 0xF4 0xF4 c then continuation 3 0x80 0x8F s
      else None)"

lemma continuation_length: "continuation n lo hi s = Some s' \<Longrightarrow> length s' \<le> length s"
  by (induction n lo hi s rule: continuation.induct) (auto split: if_splits)

lemma utf8_tail_length: "utf8_tail c s = Some s' \<Longrightarrow> length s' \<le> length s"
  by (auto simp: utf8_tail_def dest: continuation_length split: if_splits)

function utf8_valid :: "string \<Rightarrow> bool" where
  "utf8_valid [] = True"
| "utf8_valid (c # s) = (case utf8_tail c s of None \<Rightarrow> False | Some s' \<Rightarrow> utf8_valid s')"
  by pat_completeness auto
termination by (relation "measure length") (auto simp: less_Suc_eq_le dest: utf8_tail_length)

section \<open>Lossy conversion\<close>

text \<open>The bytes after a leading byte that still belong to a sequence that then breaks off.\<close>

fun broken_rest :: "nat \<Rightarrow> nat \<Rightarrow> nat \<Rightarrow> string \<Rightarrow> string" where
  "broken_rest 0 lo hi s = s"
| "broken_rest (Suc n) lo hi [] = []"
| "broken_rest (Suc n) lo hi (c # s) = (if byte_in lo hi c then broken_rest n 0x80 0xBF s else c # s)"

definition after_broken :: "char \<Rightarrow> string \<Rightarrow> string" where
  "after_broken c s =
     (if byte_in 0xC2 0xDF c then broken_rest 1 0x80 0xBF s
      else if byte_in 0xE0 0xE0 c then broken_rest 2 0xA0 0xBF s
      else if byte_in 0xED 0xED c then broken_rest 2 0x80 0x9F s
      else if byte_in 0xE1 0xEF c then broken_rest 2 0x80 0xBF s
      else if byte_in 0xF0 0xF0 c then broken_rest 3 0x90 0xBF s
      else if byte_in 0xF1 0xF3 c then broken_rest 3 0x80 0xBF s
      else if byte_in 0xF4 0xF4 c then broken_rest 3 0x80 0x8F s
      else s)"

lemma broken_rest_length: "length (broken_rest n lo hi s) \<le> length s"
  by (induction n lo hi s rule: broken_rest.induct) auto

lemma after_broken_length: "length (after_broken c s) \<le> length s"
  by (simp add: after_broken_def broken_rest_length)

definition replacement_char :: string where "replacement_char = [CHR 0xEF, CHR 0xBF, CHR 0xBD]"

function from_utf8_lossy :: "string \<Rightarrow> string" where
  "from_utf8_lossy [] = []"
| "from_utf8_lossy (c # s) =
     (case utf8_tail c s of
        Some s' \<Rightarrow> take (Suc (length s) - length s') (c # s) @ from_utf8_lossy s'
      | None \<Rightarrow> replacement_char @ from_utf8_lossy (after_broken c s))"
  by pat_completeness auto
termination
  by (relation "measure length") (auto simp: less_Suc_eq_le after_broken_length dest: utf8_tail_length)

definition bytes_to_text :: "bytes \<Rightarrow> string" where
  "bytes_to_text bs = from_utf8_lossy (map (\<lambda>b. char_of (unat b)) bs)"

section \<open>Padding\<close>

definition char_count :: "string \<Rightarrow> nat" where
  "char_count s = length (filter (\<lambda>c. \<not> byte_in 0x80 0xBF c) s)"

text \<open>\<open>{:<n}\<close> and \<open>{:>n}\<close>.\<close>

definition left_in :: "nat \<Rightarrow> string \<Rightarrow> string" where
  "left_in n s = s @ replicate (n - char_count s) (CHR '' '')"

definition right_in :: "nat \<Rightarrow> string \<Rightarrow> string" where
  "right_in n s = replicate (n - char_count s) (CHR '' '') @ s"

section \<open>Lemmas\<close>

lemma continuation_append: "continuation n lo hi s = Some s' \<Longrightarrow> continuation n lo hi (s @ t) = Some (s' @ t)"
  by (induction n lo hi s rule: continuation.induct) (auto split: if_splits)

lemma utf8_tail_append: "utf8_tail c s = Some s' \<Longrightarrow> utf8_tail c (s @ t) = Some (s' @ t)"
  by (auto simp: utf8_tail_def continuation_append split: if_splits)

lemma utf8_valid_append: "utf8_valid s \<Longrightarrow> utf8_valid t \<Longrightarrow> utf8_valid (s @ t)"
proof (induction s rule: utf8_valid.induct)
  case (2 c s)
  then obtain s' where "utf8_tail c s = Some s'" "utf8_valid s'" by (auto split: option.splits)
  with 2 show ?case by (simp add: utf8_tail_append)
qed simp

lemma utf8_newline [simp]: "utf8_valid [CHR 0x0A]"
  by (simp add: utf8_tail_def byte_in_def)

lemma utf8_ascii: "list_all (byte_in 0 0x7F) s \<Longrightarrow> utf8_valid s"
  by (induction s) (simp_all add: utf8_tail_def)

text \<open>Valid text is converted to itself.\<close>

lemma continuation_suffix: "continuation n lo hi s = Some s' \<Longrightarrow> \<exists>p. s = p @ s'"
  by (induction n lo hi s rule: continuation.induct) (auto split: if_splits)

lemma utf8_tail_suffix: "utf8_tail c s = Some s' \<Longrightarrow> \<exists>p. s = p @ s'"
  by (auto simp: utf8_tail_def dest: continuation_suffix split: if_splits)

lemma from_utf8_lossy_valid: "utf8_valid s \<Longrightarrow> from_utf8_lossy s = s"
proof (induction s rule: utf8_valid.induct)
  case (2 c s)
  then obtain s' where s': "utf8_tail c s = Some s'" "from_utf8_lossy s' = s'" by (auto split: option.splits)
  obtain p where "s = p @ s'" using utf8_tail_suffix [OF s'(1)] by blast
  then show ?case using s' by simp
qed simp

end
