(* ===== verification/Terminal.thy ===== *)
theory Terminal
  imports Utf8
begin

text \<open>
  Lines of text as the programs read them: \<open>BufRead::read_line\<close> on a file or on standard input, the option parser the
  command line tools share, and a terminal whose echo can be switched off.  Standard input is the bytes typed before it
  is closed; reading at its end gives an empty line.
\<close>

section \<open>Reading a line\<close>

text \<open>\<open>read_line\<close>: up to and including the next newline.\<close>

fun split_line :: "string \<Rightarrow> string \<times> string" where
  "split_line [] = ([], [])"
| "split_line (c # s) = (if c = CHR 0x0A then ([c], s) else (case split_line s of (l, rest) \<Rightarrow> (c # l, rest)))"

lemma split_line_append: "split_line s = (l, rest) \<Longrightarrow> s = l @ rest"
  by (induction s arbitrary: l rest) (auto split: if_splits prod.splits)

lemma split_line_shorter: "split_line (c # s) = (l, rest) \<Longrightarrow> length rest < length (c # s)"
  by (auto split: if_splits prod.splits dest: split_line_append)

lemma split_line_newline: "CHR 0x0A \<notin> set l \<Longrightarrow> split_line (l @ CHR 0x0A # s) = (l @ [CHR 0x0A], s)"
  by (induction l) auto

definition read_line :: "(string, string) io" where
  "read_line s =
     (case split_line s of (line, rest) \<Rightarrow>
        (if utf8_valid line then Inr line else Inl (Err ''stream did not contain valid UTF-8''), rest))"

text \<open>\<open>prompt\<close> of the tools: the answer without the blanks around it.\<close>

definition prompt :: "(string, string) io" where
  "prompt = io_bind read_line (\<lambda>line. io_return (str_trim line))"

section \<open>A terminal\<close>

record terminal =
  tm_input :: string
  tm_echo :: bool

definition on_input :: "(string, 'a) io \<Rightarrow> (terminal, 'a) io" where
  "on_input f t = (case f (tm_input t) of (r, rest) \<Rightarrow> (r, t\<lparr>tm_input := rest\<rparr>))"

text \<open>The echo is off while the line is read; an error leaves before it is restored.\<close>

definition prompt_secret :: "(terminal, string) io" where
  "prompt_secret t =
     (case on_input read_line (t\<lparr>tm_echo := False\<rparr>) of
        (Inl e, t') \<Rightarrow> (Inl e, t')
      | (Inr line, t') \<Rightarrow> (Inr (str_trim line), t'\<lparr>tm_echo := tm_echo t\<rparr>))"

definition prompt_with_default :: "string \<Rightarrow> (terminal, string) io" where
  "prompt_with_default preset =
     io_bind (on_input prompt) (\<lambda>trimmed. io_return (if trimmed = [] then preset else trimmed))"

section \<open>Options\<close>

text \<open>The argument behind the first occurrence of an option.\<close>

fun option_value :: "string \<Rightarrow> string list \<Rightarrow> string option" where
  "option_value name [] = None"
| "option_value name (arg # args) =
     (if arg = name then (case args of [] \<Rightarrow> None | v # _ \<Rightarrow> Some v) else option_value name args)"

section \<open>Lemmas\<close>

text \<open>A line as an operator types it.\<close>

definition typed :: "string \<Rightarrow> bool" where
  "typed l \<longleftrightarrow> CHR 0x0A \<notin> set l \<and> utf8_valid l"

lemma file_of_Cons: "file_of (l # ls) = l @ CHR 0x0A # file_of ls"
  by (simp add: file_of_def)

lemma file_of_Nil [simp]: "file_of [] = []"
  by (simp add: file_of_def)

lemma read_line_typed: "typed l \<Longrightarrow> read_line (l @ CHR 0x0A # s) = (Inr (l @ [CHR 0x0A]), s)"
  using utf8_valid_append [OF _ utf8_newline, of l] by (simp add: read_line_def typed_def split_line_newline)

lemma read_line_end [simp]: "read_line [] = (Inr [], [])"
  by (simp add: read_line_def)

lemma prompt_typed: "typed l \<Longrightarrow> prompt (l @ CHR 0x0A # s) = (Inr (str_trim l), s)"
  by (simp add: prompt_def io_bind_def read_line_typed str_trim_newline)

lemma prompt_end [simp]: "prompt [] = (Inr [], [])"
  by (simp add: prompt_def io_bind_def str_trim_def)

lemma prompt_secret_typed:
  "typed l \<Longrightarrow> prompt_secret \<lparr>tm_input = l @ CHR 0x0A # s, tm_echo = e\<rparr> = (Inr (str_trim l), \<lparr>tm_input = s, tm_echo = e\<rparr>)"
  by (simp add: prompt_secret_def on_input_def read_line_typed str_trim_newline)

lemma prompt_with_default_typed:
  "typed l \<Longrightarrow> prompt_with_default d \<lparr>tm_input = l @ CHR 0x0A # s, tm_echo = e\<rparr> =
     (Inr (if str_trim l = [] then d else str_trim l), \<lparr>tm_input = s, tm_echo = e\<rparr>)"
  by (simp add: prompt_with_default_def on_input_def prompt_typed io_bind_def)

text \<open>The echo comes back after a line, and stays off after bytes that are no text.\<close>

lemma prompt_secret_echo:
  "prompt_secret t = (r, t') \<Longrightarrow> tm_echo t' \<longleftrightarrow> is_inr r \<and> tm_echo t"
  by (auto simp: prompt_secret_def on_input_def split: prod.splits sum.splits)

end
