(* ===== verification/Vm0_Cli.thy ===== *)
theory Vm0_Cli
  imports Vm0_Session Terminal
begin

text \<open>
  The operator's command line (\<open>mfa-agent/src/bin/vm0-cli.rs\<close>): the prompts, the request on the Unix socket and what is shown
  of the answer, with the exit status of the process.  Rulers and empty lines of the output are left out; an \<open>anyhow\<close>
  error ends the process with status 1.  The last part runs the tool against a connection of vm0.
\<close>

section \<open>Arguments\<close>

definition DEFAULT_SOCKET :: string where "DEFAULT_SOCKET = ''/run/mfa-agent/orchestrator.sock''"

definition parse_socket_arg :: "string list \<Rightarrow> string option" where
  "parse_socket_arg args = option_value ''--socket'' args"

text \<open>A long dash and an arrow, in UTF-8.\<close>

definition dash :: string where "dash = [CHR 0xE2, CHR 0x80, CHR 0x94]"
definition arrow :: string where "arrow = [CHR 0xE2, CHR 0x86, CHR 0x92]"
definition dot :: string where "dot = [CHR 0xE2, CHR 0x9A, CHR 0xAB]"

definition cli_usage :: "string list" where
  "cli_usage = [''Usage:'', ''  vm0-cli authenticate  '' @ dash @ '' start authorization flow'',
     ''  vm0-cli status        '' @ dash @ '' query current session status'',
     ''  vm0-cli revoke        '' @ dash @ '' revoke current session'', ''Options:'',
     ''  --socket PATH         '' @ dash @ '' override default socket path'']"

section \<open>The socket\<close>

record cli_world =
  cw_term :: terminal
  cw_socket :: "string \<rightharpoonup> chan"

definition on_term :: "(terminal, 'a) io \<Rightarrow> (cli_world, 'a) io" where
  "on_term f w = (case f (cw_term w) of (r, t) \<Rightarrow> (r, w\<lparr>cw_term := t\<rparr>))"

text \<open>\<open>send_request\<close> on the connected stream, and with the connection.\<close>

definition cli_exchange :: "orch_env \<Rightarrow> CliRequest \<Rightarrow> (chan, CliResponse) io" where
  "cli_exchange E req =
     io_bind (io_res (ser (oe_requests E) req)) (\<lambda>data.
     io_bind (write_frame put_le32 data) (\<lambda>_.
     io_bind (read_frame nat_of_le (\<lambda>resp_len. ''Response too large: '' @ show_nat resp_len)) (\<lambda>resp_bytes.
       io_res (de (oe_responses E) resp_bytes))))"

definition send_request :: "orch_env \<Rightarrow> string \<Rightarrow> CliRequest \<Rightarrow> (cli_world, CliResponse) io" where
  "send_request E socket_path req w =
     (case cw_socket w socket_path of
        None \<Rightarrow> (Inl (Err (''Failed to connect to '' @ socket_path)), w)
      | Some stream \<Rightarrow>
          (case cli_exchange E req stream of (r, stream') \<Rightarrow> (r, w\<lparr>cw_socket := (cw_socket w)(socket_path \<mapsto> stream')\<rparr>)))"

section \<open>The flows\<close>

text \<open>The exit status and the lines shown.\<close>

type_synonym shown = "nat \<times> string list"

text \<open>The prompts of \<open>authenticate\<close>: on the socket of vm4 there is no session to ask the length of.\<close>

definition ask_session_length :: "string \<Rightarrow> (terminal, u64) io" where
  "ask_session_length socket_path =
     (if str_contains ''vm4'' socket_path then io_return 0
      else io_bind (prompt_with_default ''8'') (\<lambda>ttl_str.
        io_bind (io_res (ok_or_else ''Invalid session duration'' (parse_unsigned 64 ttl_str))) (\<lambda>ttl_minutes.
          (if 1 \<le> ttl_minutes \<and> ttl_minutes \<le> 20 then io_return (word_of_nat ttl_minutes * 60)
           else io_res (Inl (Err ''Session duration must be between 1 and 20 minutes''))))))"

definition ask_authenticate :: "string \<Rightarrow> (terminal, CliRequest) io" where
  "ask_authenticate socket_path =
     io_bind prompt_secret (\<lambda>passphrase1.
     io_bind prompt_secret (\<lambda>passphrase2.
     io_bind (ask_session_length socket_path) (\<lambda>session_ttl_secs.
       io_return (Authenticate passphrase1 passphrase2 session_ttl_secs))))"

definition show_authenticate :: "CliResponse \<Rightarrow> shown res" where
  "show_authenticate response =
     (case response of
        CrAuthorized authorization_id session_token_hash session_expiry chain1_nodes chain2_nodes \<Rightarrow>
          res_bind (slice_to authorization_id 8) (\<lambda>auth_id. res_bind (slice_to session_token_hash 16) (\<lambda>token_hash.
            Inr (0, [''SESSION AUTHORIZED'', ''  Authorization ID: '' @ hex_encode auth_id,
              ''  Session hash:     '' @ hex_encode token_hash, ''  Expires:          unix '' @ show_word session_expiry,
              ''  Chain 1:          '' @ show_word chain1_nodes @ '' nodes verified'',
              ''  Chain 2:          '' @ show_word chain2_nodes @ '' nodes verified''])))
      | CrDenied reason \<Rightarrow> Inr (1, [''AUTHORIZATION DENIED'', ''  Reason: '' @ reason])
      | CrError message \<Rightarrow> Inr (2, [''ERROR: '' @ message])
      | _ \<Rightarrow> Inr (3, [''Unexpected response from orchestrator'']))"

definition show_status :: "CliResponse \<Rightarrow> shown res" where
  "show_status response =
     (case response of
        CrStatus active authorization_id expires_in_secs \<Rightarrow>
          (if active then
             res_bind (case authorization_id of None \<Rightarrow> Inr ''unknown'' | Some a \<Rightarrow> res_bind (slice_to a 8) (\<lambda>b. Inr (hex_encode b))) (\<lambda>auth_id.
             (let left = unwrap_or 0 expires_in_secs in
              Inr (0, [''Active session'', ''   Authorization ID: '' @ auth_id,
                ''   Expires in: '' @ show_word left @ '' seconds ('' @ show_nat (unat left div 60) @ '' minutes)''])))
           else Inr (0, [dot @ '' No active session'']))
      | CrPendingApproval requester_id requester_ip session_ttl_secs attestation_summary \<Rightarrow>
          Inr (0, ['' PENDING APPROVAL REQUEST'', ''  Requester:   '' @ requester_id @ '' ('' @ requester_ip @ '')'',
            ''  Session TTL: '' @ show_nat (unat session_ttl_secs div 60) @ '' minutes'', ''  Attestation: '' @ attestation_summary,
            ''  '' @ arrow @ '' Run '' @ [CHR 0x27] @ ''vm0-cli authenticate'' @ [CHR 0x27] @ '' to APPROVE'',
            ''  '' @ arrow @ '' Run '' @ [CHR 0x27] @ ''vm0-cli revoke'' @ [CHR 0x27] @ '' to DENY''])
      | CrError message \<Rightarrow> Inr (2, [''ERROR: '' @ message])
      | _ \<Rightarrow> Inr (3, [''Unexpected response'']))"

definition show_revoke :: "CliResponse \<Rightarrow> shown res" where
  "show_revoke response =
     (case response of
        CrStatus active _ _ \<Rightarrow> Inr (0, [if active then ''Revoke acknowledged'' else ''Session revoked''])
      | CrError message \<Rightarrow> Inr (2, [''ERROR: '' @ message])
      | _ \<Rightarrow> Inr (0, [''Revoke acknowledged'']))"

text \<open>What the three flows share: a request, and what is shown of the answer.\<close>

definition flow :: "orch_env \<Rightarrow> string \<Rightarrow> (terminal, CliRequest) io \<Rightarrow> (CliResponse \<Rightarrow> shown res) \<Rightarrow> (cli_world, shown) io" where
  "flow E socket_path ask answer =
     io_bind (on_term ask) (\<lambda>request. io_bind (send_request E socket_path request) (\<lambda>response. io_res (answer response)))"

definition authenticate_flow :: "orch_env \<Rightarrow> string \<Rightarrow> (cli_world, shown) io" where
  "authenticate_flow E socket_path = flow E socket_path (ask_authenticate socket_path) show_authenticate"

definition status_flow :: "orch_env \<Rightarrow> string \<Rightarrow> (cli_world, shown) io" where
  "status_flow E socket_path = flow E socket_path (io_return CliStatus) show_status"

definition revoke_flow :: "orch_env \<Rightarrow> string \<Rightarrow> (cli_world, shown) io" where
  "revoke_flow E socket_path = flow E socket_path (io_return CliRevoke) show_revoke"

definition vm0_cli_main :: "orch_env \<Rightarrow> string list \<Rightarrow> (cli_world, shown) io" where
  "vm0_cli_main E args =
     (if length args < 2 then io_return (1, cli_usage)
      else
        (let socket_path = unwrap_or DEFAULT_SOCKET (parse_socket_arg args); command = args ! 1 in
         if command = ''authenticate'' \<or> command = ''auth'' then authenticate_flow E socket_path
         else if command = ''status'' then status_flow E socket_path
         else if command = ''revoke'' then revoke_flow E socket_path
         else if command \<in> {''-h'', ''--help'', ''help''} then io_return (0, cli_usage)
         else io_return (1, (''Unknown command: '' @ command) # cli_usage)))"

section \<open>The tool and vm0\<close>

text \<open>
  A run of the tool against vm0: the tool writes its request before it reads, so what it sends is what it sends when
  no answer comes; vm0 serves a connection with these bytes, and the tool goes on with vm0's answer.
\<close>

definition fresh_stream :: "bytes \<Rightarrow> chan" where
  "fresh_stream bs = \<lparr>rx = bs, tx = [], wleft = None\<rparr>"

definition sent_on :: "string \<Rightarrow> cli_world \<Rightarrow> bytes" where
  "sent_on path w = (case cw_socket w path of None \<Rightarrow> [] | Some c \<Rightarrow> tx c)"

definition connected :: "string \<Rightarrow> bytes \<Rightarrow> cli_world \<Rightarrow> cli_world" where
  "connected path bs w = w\<lparr>cw_socket := (cw_socket w)(path \<mapsto> fresh_stream bs)\<rparr>"

definition cli_run ::
  "orch_env \<Rightarrow> vm0_config \<Rightarrow> string \<Rightarrow> (cli_world, 'a) io \<Rightarrow> cli_world \<Rightarrow> vm0 \<Rightarrow> 'a res \<times> vm0" where
  "cli_run E cfg path tool w s =
     (let sent = sent_on path (snd (tool (connected path [] w))) in
      case orchestrator_connection E cfg (fresh_stream sent, s) of (_, c, s') \<Rightarrow>
        (fst (tool (connected path (tx c) w)), s'))"

lemma read_exact_tx: "tx (snd (read_exact n c)) = tx c"
  by (simp add: read_exact_def)

lemma read_frame_tx: "tx (snd (read_frame g e c)) = tx c"
  by (auto simp: read_frame_def io_bind_def Let_def read_exact_tx split: prod.splits sum.splits)
     (metis read_exact_tx snd_conv)+

lemma exchange_sends:
  assumes "ser (oe_requests E) req = Inr data" and "wleft c = None"
  shows "tx (snd (cli_exchange E req c)) = tx c @ put_le32 (length data) @ data"
proof -
  let ?c = "c\<lparr>tx := tx c @ put_le32 (length data) @ data\<rparr>" and ?e = "\<lambda>n. ''Response too large: '' @ show_nat n"
  have "snd (cli_exchange E req c) = snd (read_frame nat_of_le ?e ?c)"
    using assms by (auto simp: cli_exchange_def io_bind_def write_frame_open split: prod.splits sum.splits)
  then show ?thesis by (simp add: read_frame_tx)
qed

lemma exchange_answered:
  assumes "ser (oe_requests E) req = Inr data" and "ser (oe_responses E) resp = Inr rdata" and "codec_ok (oe_responses E) resp"
    and "length rdata \<le> max_frame"
  shows "fst (cli_exchange E req (fresh_stream (put_le32 (length rdata) @ rdata))) = Inr resp"
proof -
  have "de (oe_responses E) rdata = Inr resp" using assms(2,3) by (auto dest: codec_ok_ser)
  moreover have "read_frame nat_of_le e (c\<lparr>rx := put_le32 (length rdata) @ rdata\<rparr>) = (Inr rdata, c\<lparr>rx := []\<rparr>)" for e c
    using le.read_written_frame [OF assms(4), where e = e and c = c and rest = "[]"] by simp
  from this [of _ "\<lparr>rx = [], tx = put_le32 (length data) @ data, wleft = None\<rparr>"]
  have "read_frame nat_of_le e \<lparr>rx = put_le32 (length rdata) @ rdata, tx = put_le32 (length data) @ data, wleft = None\<rparr> =
      (Inr rdata, \<lparr>rx = [], tx = put_le32 (length data) @ data, wleft = None\<rparr>)" for e by simp
  ultimately show ?thesis
    using assms(1) by (simp add: cli_exchange_def io_bind_def write_frame_open fresh_stream_def)
qed

lemma vm0_serves:
  assumes "ser (oe_requests E) req = Inr data" and "codec_ok (oe_requests E) req" and "length data \<le> max_frame"
    and "orchestrator_respond E cfg req s = (Inr resp, s')" and "ser (oe_responses E) resp = Inr rdata"
  shows "orchestrator_connection E cfg (fresh_stream (put_le32 (length data) @ data), s) =
    (Inr (), (fresh_stream [])\<lparr>tx := put_le32 (length rdata) @ rdata\<rparr>, s')"
proof -
  have "de (oe_requests E) data = Inr req" using assms(1,2) by (auto dest: codec_ok_ser)
  moreover have "read_frame nat_of_le e (fresh_stream (put_le32 (length data) @ data)) = (Inr data, fresh_stream [])" for e
    using le.read_written_frame [OF assms(3), where e = e and c = "fresh_stream []" and rest = "[]"] by (simp add: fresh_stream_def)
  ultimately have "read_cli_request E (fresh_stream (put_le32 (length data) @ data)) = (Inr req, fresh_stream [])"
    by (simp add: read_cli_request_def io_bind_def)
  then show ?thesis
    using assms(4,5) by (simp add: orchestrator_connection_def write_cli_response_def io_bind_def write_frame_open fresh_stream_def)
qed

text \<open>One flow against vm0: it shows vm0's answer to its request.\<close>

lemma cli_run_flow:
  assumes ask: "fst (ask (cw_term w)) = Inr req" and req: "codec_ok (oe_requests E) req" "ser (oe_requests E) req = Inr data" "length data \<le> max_frame"
    and respond: "orchestrator_respond E cfg req s = (Inr resp, s')"
    and resp: "codec_ok (oe_responses E) resp" "ser (oe_responses E) resp = Inr rdata" "length rdata \<le> max_frame"
  shows "cli_run E cfg path (flow E path ask answer) w s = (answer resp, s')"
proof -
  obtain t where t: "ask (cw_term w) = (Inr req, t)" using ask by (cases "ask (cw_term w)") simp
  have run: "flow E path ask answer (connected path bs w) =
      (case cli_exchange E req (fresh_stream bs) of (r, c) \<Rightarrow>
        (res_bind r answer, w\<lparr>cw_term := t, cw_socket := (cw_socket w)(path \<mapsto> c)\<rparr>))" for bs
    by (auto simp: flow_def on_term_def connected_def send_request_def t io_bind_def split: prod.splits sum.splits)
  have "sent_on path (snd (flow E path ask answer (connected path [] w))) = put_le32 (length data) @ data"
    using exchange_sends [OF req(2), of "fresh_stream []"]
    by (simp add: run sent_on_def fresh_stream_def case_prod_beta)
  moreover have "fst (flow E path ask answer (connected path (put_le32 (length rdata) @ rdata) w)) = answer resp"
    using exchange_answered [OF req(2) resp(2,1,3)] by (simp add: run case_prod_beta)
  ultimately show ?thesis
    by (simp add: cli_run_def vm0_serves [OF req(2,1,3) respond resp(2)] Let_def)
qed

lemma session_length_bounds:
  assumes "ask_session_length path t = (Inr ttl, t')" and "\<not> str_contains ''vm4'' path"
  shows "60 \<le> ttl \<and> ttl \<le> 1200 \<and> unat ttl mod 60 = 0"
proof -
  obtain n where n: "1 \<le> n" "n \<le> 20" "ttl = word_of_nat n * 60"
    using assms by (auto simp: ask_session_length_def io_bind_eq_Inr split: if_splits)
  then have "unat ttl = n * 60" by (simp add: unat_word_ariths unat_of_nat)
  with n(1,2) show ?thesis by (simp add: word_le_nat_alt)
qed

lemma ask_authenticate_typed:
  assumes "typed l1" "typed l2" "typed m" "\<not> str_contains ''vm4'' path"
    and "parse_unsigned 64 (if str_trim m = [] then ''8'' else str_trim m) = Some n" "1 \<le> n" "n \<le> 20"
  shows "ask_authenticate path \<lparr>tm_input = file_of [l1, l2, m], tm_echo = e\<rparr> =
    (Inr (Authenticate (str_trim l1) (str_trim l2) (word_of_nat n * 60)), \<lparr>tm_input = [], tm_echo = e\<rparr>)"
  using assms
  by (simp add: ask_authenticate_def ask_session_length_def io_bind_def file_of_Cons prompt_secret_typed prompt_with_default_typed)

definition demo_cli_env :: orch_env where
  "demo_cli_env = demo_orch\<lparr>oe_requests := \<lparr>ser = (\<lambda>_. Inr [2]), de = (\<lambda>_. Inr CliStatus)\<rparr>,
     oe_responses := \<lparr>ser = (\<lambda>_. Inr [3]), de = (\<lambda>_. Inr (CrStatus False None None))\<rparr>\<rparr>"

definition demo_cli_world :: "string list \<Rightarrow> cli_world" where
  "demo_cli_world ls = \<lparr>cw_term = \<lparr>tm_input = file_of ls, tm_echo = True\<rparr>, cw_socket = Map.empty\<rparr>"

section \<open>Properties\<close>

text \<open>
  C22.  The operator is told what vm0 decided: the tool run against vm0 with \<open>authenticate\<close>, \<open>status\<close> or \<open>revoke\<close> sends the
  request of that command, and shows vm0's answer to it; vm0 ends in the state the request leads to.
\<close>

theorem operator_sees_answer:
  assumes command: "2 \<le> length args" "path = unwrap_or DEFAULT_SOCKET (parse_socket_arg args)"
      "args ! 1 \<in> {''authenticate'', ''auth''} \<and> fst (ask_authenticate path (cw_term w)) = Inr req \<and> answer = show_authenticate
       \<or> args ! 1 = ''status'' \<and> req = CliStatus \<and> answer = show_status
       \<or> args ! 1 = ''revoke'' \<and> req = CliRevoke \<and> answer = show_revoke"
    and req: "codec_ok (oe_requests E) req" "ser (oe_requests E) req = Inr data" "length data \<le> max_frame"
    and vm0: "orchestrator_respond E cfg req s = (Inr resp, s')"
    and resp: "codec_ok (oe_responses E) resp" "ser (oe_responses E) resp = Inr rdata" "length rdata \<le> max_frame"
  shows "cli_run E cfg path (vm0_cli_main E args) w s = (answer resp, s')"
proof -
  note run = cli_run_flow [OF _ req vm0 resp]
  from command(3) consider
    (auth) "args ! 1 \<in> {''authenticate'', ''auth''}" "fst (ask_authenticate path (cw_term w)) = Inr req" "answer = show_authenticate"
    | (status) "args ! 1 = ''status''" "req = CliStatus" "answer = show_status"
    | (revoke) "args ! 1 = ''revoke''" "req = CliRevoke" "answer = show_revoke" by blast
  then show ?thesis
  proof cases
    case auth
    then have "vm0_cli_main E args = authenticate_flow E path" using command(1,2) by (auto simp: vm0_cli_main_def Let_def)
    then show ?thesis using run [of "ask_authenticate path", OF auth(2)] auth(3) by (simp add: authenticate_flow_def)
  next
    case status
    then have "vm0_cli_main E args = status_flow E path" using command(1,2) by (simp add: vm0_cli_main_def Let_def)
    then show ?thesis using run [of "io_return CliStatus"] status(2,3) by (simp add: status_flow_def)
  next
    case revoke
    then have "vm0_cli_main E args = revoke_flow E path" using command(1,2) by (simp add: vm0_cli_main_def Let_def)
    then show ?thesis using run [of "io_return CliRevoke"] revoke(2,3) by (simp add: revoke_flow_def)
  qed
qed

theorem operator_sees_answer_witness:
  "cli_run demo_cli_env demo_vm0_config DEFAULT_SOCKET (vm0_cli_main demo_cli_env [''vm0-cli'', ''status'']) (demo_cli_world []) (vm0_start (demo_vm0_node [])) =
     (show_status (CrStatus False None None), vm0_start (demo_vm0_node []))"
  using operator_sees_answer [of "[''vm0-cli'', ''status'']" DEFAULT_SOCKET "demo_cli_world []" CliStatus show_status demo_cli_env "[2]"
      demo_vm0_config "vm0_start (demo_vm0_node [])" "CrStatus False None None" "vm0_start (demo_vm0_node [])" "[3]"]
  by (simp add: parse_socket_arg_def demo_cli_env_def codec_ok_def max_frame_def orchestrator_respond_def vm0_start_def
      build_status_response_def status_read_def)

text \<open>
  The tool asks vm0 for nothing vm0 refuses: whatever is typed, a request of \<open>authenticate\<close> on a socket other than
  vm4's is for whole minutes, from one to twenty, and an INITIATE for that length can be built.
\<close>

theorem asked_length_accepted:
  assumes "ask_authenticate path t = (Inr req, t')" and "\<not> str_contains ''vm4'' path"
  shows "\<exists>p1 p2 ttl. req = Authenticate p1 p2 ttl \<and> 60 \<le> ttl \<and> ttl \<le> 1200 \<and> unat ttl mod 60 = 0 \<and>
    is_inr (payload_new random now ttl oh att ak)"
proof -
  obtain p1 p2 ttl t2 where req: "req = Authenticate p1 p2 ttl" and ttl: "ask_session_length path t2 = (Inr ttl, t')"
    using assms(1) by (auto simp: ask_authenticate_def io_bind_eq_Inr)
  have len: "60 \<le> ttl \<and> ttl \<le> 1200 \<and> unat ttl mod 60 = 0" by (rule session_length_bounds [OF ttl assms(2)])
  then have "is_inr (payload_new random now ttl oh att ak)" by (simp add: payload_new_def not_less)
  with len req show ?thesis by (intro exI [of _ p1] exI [of _ p2] exI [of _ ttl]) (simp only: simp_thms)
qed

theorem asked_length_accepted_witness:
  "\<exists>p1 p2 ttl t'. ask_authenticate DEFAULT_SOCKET \<lparr>tm_input = file_of [''one'', ''two'', ''7''], tm_echo = True\<rparr> = (Inr (Authenticate p1 p2 ttl), t') \<and>
     60 \<le> ttl \<and> ttl \<le> 1200"
proof -
  have typed: "typed ''one''" "typed ''two''" "typed ''7''" by (simp_all add: typed_def utf8_tail_def byte_in_def)
  have trim: "str_trim ''one'' = ''one''" "str_trim ''two'' = ''two''" "str_trim ''7'' = ''7''" by (simp_all add: str_trim_def is_space_def)
  have seven: "parse_unsigned 64 ''7'' = Some 7"
    using char_of_char [of "CHR ''7''", where 'a = nat] by (simp add: parse_unsigned_def parse_digits_def is_digit_def digits_value_def)
  have path: "\<not> str_contains ''vm4'' DEFAULT_SOCKET" by (simp add: str_contains_def DEFAULT_SOCKET_def)
  have req: "ask_authenticate DEFAULT_SOCKET \<lparr>tm_input = file_of [''one'', ''two'', ''7''], tm_echo = True\<rparr> =
      (Inr (Authenticate ''one'' ''two'' (word_of_nat 7 * 60)), \<lparr>tm_input = [], tm_echo = True\<rparr>)"
    using ask_authenticate_typed [OF typed path, of 7 True] by (simp add: trim seven)
  show ?thesis using asked_length_accepted [OF req path] req by blast
qed

end
