(* ===== verification/Init_Credentials.thy ===== *)
theory Init_Credentials
  imports Terminal
begin

text \<open>
  The tool that sets up the operator's passphrases (\<open>mfa-agent/src/bin/init-credentials.rs\<close>).  Hashing the passphrases and
  saving the result belong to the module \<open>yubikey\<close>, which the sources name and do not contain: \<open>cred_store\<close>.  The loop
  over the attempts is a partial function with the value \<open>None\<close> when it does not end.
\<close>

section \<open>The tool\<close>

definition DEFAULT_PATH :: string where "DEFAULT_PATH = ''/opt/mfa-agent/credentials.json''"
definition MIN_LENGTH :: nat where "MIN_LENGTH = 12"

record 'c cred_store =
  cs_init :: "string \<Rightarrow> string \<Rightarrow> 'c res"
  cs_save :: "'c \<Rightarrow> string \<Rightarrow> (string \<rightharpoonup> string, unit) io"

definition parse_path_arg :: "string list \<Rightarrow> string option" where
  "parse_path_arg args = option_value ''--path'' args"

partial_function (option) read_passphrase_confirmed :: "string \<Rightarrow> (string res \<times> string) option" where
  "read_passphrase_confirmed input =
     (case prompt input of
        (Inl e, rest) \<Rightarrow> Some (Inl e, rest)
      | (Inr p1, rest) \<Rightarrow>
          (if length p1 < MIN_LENGTH then read_passphrase_confirmed rest
           else (case prompt rest of
             (Inl e, rest2) \<Rightarrow> Some (Inl e, rest2)
           | (Inr p2, rest2) \<Rightarrow> (if p1 \<noteq> p2 then read_passphrase_confirmed rest2 else Some (Inr p1, rest2)))))"

text \<open>The second half of \<open>main\<close>: both passphrases, then the file.\<close>

definition set_up :: "'c cred_store \<Rightarrow> string \<Rightarrow> string \<Rightarrow> (string \<rightharpoonup> string) \<Rightarrow> (unit res \<times> string \<times> (string \<rightharpoonup> string)) option" where
  "set_up C path input files =
     Option.bind (read_passphrase_confirmed input) (\<lambda>(r1, rest1).
       (case r1 of
          Inl e \<Rightarrow> Some (Inl e, rest1, files)
        | Inr passphrase1 \<Rightarrow>
            Option.bind (read_passphrase_confirmed rest1) (\<lambda>(r2, rest2).
              (case r2 of
                 Inl e \<Rightarrow> Some (Inl e, rest2, files)
               | Inr passphrase2 \<Rightarrow>
                   (if passphrase1 = passphrase2 then Some (Inl (Err ''Passphrases must be different''), rest2, files)
                    else (case with_context ''Failed to initialize credentials'' (cs_init C passphrase1 passphrase2) of
                      Inl e \<Rightarrow> Some (Inl e, rest2, files)
                    | Inr credentials \<Rightarrow>
                        (case io_context ''Failed to save credentials'' (cs_save C credentials path) files of (r, files') \<Rightarrow>
                          Some (r, rest2, files'))))))))"

definition init_credentials_main ::
  "'c cred_store \<Rightarrow> string list \<Rightarrow> string \<Rightarrow> (string \<rightharpoonup> string) \<Rightarrow> (unit res \<times> string \<times> (string \<rightharpoonup> string)) option" where
  "init_credentials_main C args input files =
     (let path = unwrap_or DEFAULT_PATH (parse_path_arg args) in
      if files path \<noteq> None then
        (case prompt input of
           (Inl e, rest) \<Rightarrow> Some (Inl e, rest, files)
         | (Inr answer, rest) \<Rightarrow>
             (if to_lowercase answer \<noteq> ''yes'' then Some (Inr (), rest, files) else set_up C path rest files))
      else set_up C path input files)"

section \<open>What the loop accepts\<close>

text \<open>The first passphrase of twelve bytes that is typed twice in a row, and the lines behind it.\<close>

fun confirmed :: "string list \<Rightarrow> (string \<times> string list) option" where
  "confirmed (l # l' # ls) =
     (if length (str_trim l) < MIN_LENGTH then confirmed (l' # ls)
      else if str_trim l = str_trim l' then Some (str_trim l, ls) else confirmed ls)"
| "confirmed _ = None"

lemma confirmed_sound:
  "confirmed ls = Some (p, rest) \<Longrightarrow>
     MIN_LENGTH \<le> length p \<and> (\<exists>us l l'. ls = us @ l # l' # rest \<and> str_trim l = p \<and> str_trim l' = p)"
proof (induction ls rule: confirmed.induct)
  case (1 l l' ls)
  then show ?case by (fastforce split: if_splits intro: exI [of _ "[]"] simp: append_Cons [symmetric] simp del: append_Cons)
qed simp_all

lemma end_of_input: "read_passphrase_confirmed [] = None"
proof -
  have "x \<noteq> []" if "read_passphrase_confirmed x = Some y" for x y
    by (rule read_passphrase_confirmed.raw_induct [OF _ that]) (auto simp: MIN_LENGTH_def split: prod.splits if_splits, blast)
  then show ?thesis by (cases "read_passphrase_confirmed []") auto
qed

lemma read_confirmed:
  "list_all typed ls \<Longrightarrow> read_passphrase_confirmed (file_of ls) = map_option (\<lambda>(p, rest). (Inr p, file_of rest)) (confirmed ls)"
proof (induction ls rule: confirmed.induct)
  case (1 l l' ls)
  then show ?case
    by (subst read_passphrase_confirmed.simps) (simp add: file_of_Cons prompt_typed)
next
  case "2_2"
  then show ?case
    by (subst read_passphrase_confirmed.simps) (auto simp: file_of_Cons prompt_typed end_of_input MIN_LENGTH_def)
qed (simp add: end_of_input)

lemma confirmed_typed: "confirmed ls = Some (p, rest) \<Longrightarrow> list_all typed ls \<Longrightarrow> list_all typed rest"
  by (drule confirmed_sound) auto

lemma set_up_typed:
  assumes "list_all typed ls"
  shows "set_up C path (file_of ls) files =
    (case confirmed ls of None \<Rightarrow> None | Some (p1, ls1) \<Rightarrow>
      (case confirmed ls1 of None \<Rightarrow> None | Some (p2, ls2) \<Rightarrow>
        (if p1 = p2 then Some (Inl (Err ''Passphrases must be different''), file_of ls2, files)
         else (case with_context ''Failed to initialize credentials'' (cs_init C p1 p2) of
           Inl e \<Rightarrow> Some (Inl e, file_of ls2, files)
         | Inr c \<Rightarrow> (case io_context ''Failed to save credentials'' (cs_save C c path) files of (r, files') \<Rightarrow>
             Some (r, file_of ls2, files'))))))"
proof (cases "confirmed ls")
  case (Some found)
  then obtain p1 ls1 where c: "confirmed ls = Some (p1, ls1)" by (cases found) simp
  show ?thesis using c confirmed_typed [OF c assms] assms by (auto simp: set_up_def read_confirmed split: option.splits)
qed (use assms in \<open>simp add: set_up_def read_confirmed\<close>)

definition demo_store :: "string cred_store" where
  "demo_store = \<lparr>cs_init = (\<lambda>p q. Inr (p @ q)), cs_save = (\<lambda>c path files. (Inr (), files(path \<mapsto> c)))\<rparr>"

definition demo_phrase :: "char \<Rightarrow> string" where "demo_phrase c = replicate 12 c"

lemma demo_phrase_typed: "c \<in> {CHR ''a'', CHR ''b''} \<Longrightarrow> typed (demo_phrase c)"
  unfolding typed_def by (intro conjI utf8_ascii) (auto simp: demo_phrase_def byte_in_def list_all_iff)

lemma demo_phrase_facts [simp]:
  "str_trim (demo_phrase CHR ''a'') = demo_phrase CHR ''a''" "str_trim (demo_phrase CHR ''b'') = demo_phrase CHR ''b''"
  "length (demo_phrase c) = MIN_LENGTH" "demo_phrase CHR ''a'' \<noteq> demo_phrase CHR ''b''"
  by (simp_all add: demo_phrase_def typed_def str_trim_def is_space_def MIN_LENGTH_def numeral_eq_Suc)

section \<open>Properties\<close>

text \<open>
  C23.  When credentials are stored: the file changes only after two passphrases of at least twelve bytes that differ were
  each typed twice in a row, and an existing file only after the answer \<open>yes\<close>.  The tool returns exactly when it was
  given such lines (or the answer was another one): when the input ends before, it asks for ever.
\<close>

theorem credentials_set_up:
  fixes C :: "'c cred_store"
  assumes "list_all typed ls" and "path = unwrap_or DEFAULT_PATH (parse_path_arg args)"
    and "ls' = (if files path = None then ls else tl ls)"
    and "asked \<longleftrightarrow> files path = None \<or> (ls \<noteq> [] \<and> to_lowercase (str_trim (hd ls)) = ''yes'')"
  shows "((\<exists>out. init_credentials_main C args (file_of ls) files = Some out) \<longleftrightarrow>
      \<not> asked \<or> (\<exists>p1 ls1 p2 ls2. confirmed ls' = Some (p1, ls1) \<and> confirmed ls1 = Some (p2, ls2))) \<and>
    (\<forall>r rest files'. init_credentials_main C args (file_of ls) files = Some (r, rest, files') \<and> files' \<noteq> files \<longrightarrow>
      asked \<and> (\<exists>p1 p2 us l l' vs m m' ws c. ls' = us @ l # l' # vs @ m # m' # ws \<and>
        str_trim l = p1 \<and> str_trim l' = p1 \<and> str_trim m = p2 \<and> str_trim m' = p2 \<and> 12 \<le> length p1 \<and> 12 \<le> length p2 \<and>
        p1 \<noteq> p2 \<and> cs_init C p1 p2 = Inr c \<and> files' = snd (cs_save C c path files)))"
proof -
  let ?main = "init_credentials_main C args (file_of ls) files"
  have typed': "list_all typed ls'" using assms(1,3) by (cases ls) auto
  have asked: "?main = set_up C path (file_of ls') files" if asked
    using that assms by (cases ls) (auto simp: init_credentials_main_def Let_def file_of_Cons prompt_typed)
  have other: "\<exists>rest. ?main = Some (Inr (), rest, files)" if "\<not> asked"
    using that assms by (cases ls) (auto simp: init_credentials_main_def Let_def file_of_Cons prompt_typed to_lowercase_def)
  have ends: "(\<exists>out. set_up C path (file_of ls') files = Some out) \<longleftrightarrow>
      (\<exists>p1 ls1 p2 ls2. confirmed ls' = Some (p1, ls1) \<and> confirmed ls1 = Some (p2, ls2))"
    unfolding set_up_typed [OF typed'] by (auto split: option.splits prod.splits sum.splits)
  have stored: "\<exists>p1 ls1 p2 ls2 c. confirmed ls' = Some (p1, ls1) \<and> confirmed ls1 = Some (p2, ls2) \<and> p1 \<noteq> p2 \<and>
      cs_init C p1 p2 = Inr c \<and> files' = snd (cs_save C c path files)"
    if "set_up C path (file_of ls') files = Some (r, rest, files')" "files' \<noteq> files" for r rest files'
    using that unfolding set_up_typed [OF typed']
    by (auto simp: io_context_def split: option.splits prod.splits sum.splits if_splits)
  have explicit: "\<exists>us l l' vs m m' ws. ls' = us @ l # l' # vs @ m # m' # ws \<and> str_trim l = p1 \<and> str_trim l' = p1 \<and>
      str_trim m = p2 \<and> str_trim m' = p2 \<and> 12 \<le> length p1 \<and> 12 \<le> length p2"
    if "confirmed ls' = Some (p1, ls1)" "confirmed ls1 = Some (p2, ls2)" for p1 ls1 p2 ls2
    using confirmed_sound [OF that(1)] confirmed_sound [OF that(2)] by (auto simp: MIN_LENGTH_def) blast
  show ?thesis
  proof (cases asked)
    case True
    then show ?thesis using asked ends stored explicit by (simp only: simp_thms) metis
  next
    case False
    then show ?thesis using other by auto
  qed
qed

theorem credentials_set_up_witness:
  "\<exists>out. init_credentials_main demo_store []
     (file_of [demo_phrase CHR ''a'', demo_phrase CHR ''a'', demo_phrase CHR ''b'', demo_phrase CHR ''b'']) Map.empty = Some out"
  using credentials_set_up [of "[demo_phrase CHR ''a'', demo_phrase CHR ''a'', demo_phrase CHR ''b'', demo_phrase CHR ''b'']"
      DEFAULT_PATH "[]" "[demo_phrase CHR ''a'', demo_phrase CHR ''a'', demo_phrase CHR ''b'', demo_phrase CHR ''b'']"
      Map.empty True demo_store]
  by (simp add: demo_phrase_typed parse_path_arg_def)

end
