(* ===== verification/Machine.thy ===== *)
theory Machine
  imports Attest_Types Utf8 "HOL-Library.List_Lexorder" "HOL-Library.Char_ord" "HOL-Library.Product_Lexorder"
begin

text \<open>
  The files of a machine as the collectors of \<open>mfa-agent/src/ebpf/mod.rs\<close> read them, and the further parts of the
  standard library they use: sorting and sets of strings, white space, hexadecimal numbers.  Strings are ordered by their
  bytes.  One collection sees one state of the files: a file read twice has the same content both times.  Names in
  \<open>/proc\<close> and kernel text files are ASCII, so that \<open>is_numeric\<close> and \<open>split_whitespace\<close> meet ASCII digits and white space only.
\<close>

section \<open>Files\<close>

datatype file_kind = Block_Device | Char_Device | Symlink | Other_Kind

text \<open>
  An entry of a directory: its name, and what \<open>file_type()\<close> and \<open>metadata().is_file()\<close> give.  A listing may fail as a
  whole, or in single entries.
\<close>

record dir_entry =
  de_name :: string
  de_file_type :: "file_kind option"
  de_is_file :: "bool option"

record machine =
  mc_file :: "string \<Rightarrow> string option"
  mc_dir :: "string \<Rightarrow> dir_entry option list option"
  mc_link :: "string \<Rightarrow> string option"
  mc_pid :: u32
  mc_role :: "string option"
  mc_now :: u64
  mc_os_error :: string

text \<open>\<open>fs::read\<close>, \<open>fs::read_to_string\<close>, \<open>fs::read_dir(..).flatten()\<close>, \<open>fs::read_link(..).to_string_lossy()\<close>.\<close>

definition read_to_string :: "machine \<Rightarrow> string \<Rightarrow> string option" where
  "read_to_string M path =
     (case mc_file M path of None \<Rightarrow> None | Some s \<Rightarrow> (if utf8_valid s then Some s else None))"

fun flatten :: "'a option list \<Rightarrow> 'a list" where
  "flatten [] = []"
| "flatten (None # xs) = flatten xs"
| "flatten (Some x # xs) = x # flatten xs"

definition read_dir :: "machine \<Rightarrow> string \<Rightarrow> dir_entry list option" where
  "read_dir M path = map_option flatten (mc_dir M path)"

definition read_link :: "machine \<Rightarrow> string \<Rightarrow> string option" where
  "read_link M path = map_option from_utf8_lossy (mc_link M path)"

definition lossy_name :: "dir_entry \<Rightarrow> string" where
  "lossy_name e = from_utf8_lossy (de_name e)"

section \<open>Text\<close>

definition starts_with :: "string \<Rightarrow> string \<Rightarrow> bool" where
  "starts_with p s = prefix p s"

definition ends_with :: "string \<Rightarrow> string \<Rightarrow> bool" where
  "ends_with p s = suffix p s"

text \<open>\<open>trim_end_matches(p)\<close> removes every copy at the end, for a non-empty pattern.\<close>

function trim_end_matches :: "string \<Rightarrow> string \<Rightarrow> string" where
  "trim_end_matches p s = (if p \<noteq> [] \<and> suffix p s then trim_end_matches p (take (length s - length p) s) else s)"
  by pat_completeness auto
termination
  by (relation "measure (\<lambda>(p, s). length s)") (auto simp: suffix_def)

declare trim_end_matches.simps [simp del]

fun space_pieces :: "string \<Rightarrow> string list" where
  "space_pieces [] = [[]]"
| "space_pieces (x # xs) =
     (if is_space x then [] # space_pieces xs
      else (case space_pieces xs of [] \<Rightarrow> [[x]] | y # ys \<Rightarrow> (x # y) # ys))"

definition split_whitespace :: "string \<Rightarrow> string list" where
  "split_whitespace s = filter (\<lambda>w. w \<noteq> []) (space_pieces s)"

definition nth_of :: "nat \<Rightarrow> 'a list \<Rightarrow> 'a option" where
  "nth_of n xs = (if n < length xs then Some (xs ! n) else None)"

text \<open>\<open>from_str_radix(s, 16)\<close> for an unsigned integer of \<open>w\<close> bits.\<close>

definition hex_value :: "char \<Rightarrow> nat option" where
  "hex_value c =
     (let n = of_char c :: nat in
      if 48 \<le> n \<and> n \<le> 57 then Some (n - 48)
      else if 65 \<le> n \<and> n \<le> 70 then Some (n - 55)
      else if 97 \<le> n \<and> n \<le> 102 then Some (n - 87)
      else None)"

fun hex_digits :: "nat \<Rightarrow> string \<Rightarrow> nat option" where
  "hex_digits v [] = Some v"
| "hex_digits v (c # cs) = (case hex_value c of None \<Rightarrow> None | Some d \<Rightarrow> hex_digits (16 * v + d) cs)"

definition parse_hex :: "nat \<Rightarrow> string \<Rightarrow> nat option" where
  "parse_hex w s =
     (let ds = (case s of c # cs \<Rightarrow> (if c = CHR ''+'' then cs else s) | [] \<Rightarrow> []) in
      if ds = [] then None
      else (case hex_digits 0 ds of None \<Rightarrow> None | Some n \<Rightarrow> (if n < 2 ^ w then Some n else None)))"

text \<open>\<open>Path::extension\<close> of a file name: what follows the last dot, unless nothing precedes it.\<close>

definition extension :: "string \<Rightarrow> string option" where
  "extension name =
     (let r = rev name; after = takeWhile (\<lambda>c. c \<noteq> CHR ''.'') r; before = drop (Suc (length after)) r in
      if name = ''..'' \<or> before = [] then None else Some (rev after))"

text \<open>A sorted vector without repetitions: the elements of a \<open>BTreeSet\<close>, or \<open>sort\<close> and \<open>dedup\<close>.\<close>

definition sort_dedup :: "'a::linorder list \<Rightarrow> 'a list" where
  "sort_dedup xs = remdups_adj (sort xs)"

text \<open>\<open>if !v.contains(&x) { v.push(x) }\<close>\<close>

definition push_absent :: "'a list \<Rightarrow> 'a \<Rightarrow> 'a list" where
  "push_absent xs x = (if x \<in> set xs then xs else xs @ [x])"

text \<open>A \<open>BTreeMap\<close> is the list of its entries in key order; \<open>insert\<close> replaces.\<close>

fun btree_insert :: "'k::linorder \<Rightarrow> 'v \<Rightarrow> ('k \<times> 'v) list \<Rightarrow> ('k \<times> 'v) list" where
  "btree_insert k v [] = [(k, v)]"
| "btree_insert k v ((k', v') # kvs) =
     (if k < k' then (k, v) # (k', v') # kvs
      else if k = k' then (k, v) # kvs
      else (k', v') # btree_insert k v kvs)"

text \<open>A loop whose body may fail, over the elements of a list.\<close>

fun res_map :: "('a \<Rightarrow> 'b res) \<Rightarrow> 'a list \<Rightarrow> 'b list res" where
  "res_map f [] = Inr []"
| "res_map f (x # xs) = res_bind (f x) (\<lambda>y. res_bind (res_map f xs) (\<lambda>ys. Inr (y # ys)))"

section \<open>Lemmas\<close>

lemma res_map_Inr: "(\<And>x. x \<in> set xs \<Longrightarrow> f x = Inr (g x)) \<Longrightarrow> res_map f xs = Inr (map g xs)"
  by (induction xs) simp_all

lemma res_map_is_inr: "is_inr (res_map f xs) \<longleftrightarrow> list_all (\<lambda>x. is_inr (f x)) xs"
proof (induction xs)
  case (Cons x xs)
  then show ?case by (cases "f x"; cases "res_map f xs") simp_all
qed simp

lemma set_map_filter_eq: "set (List.map_filter f xs) = {y. \<exists>x \<in> set xs. f x = Some y}"
  by (induction xs) (auto simp: List.map_filter_simps split: option.splits)


lemma trim_end_id: "\<not> suffix p s \<Longrightarrow> trim_end_matches p s = s"
  by (subst trim_end_matches.simps) simp

lemma flatten_set [simp]: "x \<in> set (flatten xs) \<longleftrightarrow> Some x \<in> set xs"
  by (induction xs rule: flatten.induct) auto

lemma flatten_map_Some [simp]: "flatten (map Some xs) = xs"
  by (induction xs) auto

lemma set_sort_dedup [simp]: "set (sort_dedup xs) = set xs"
  by (simp add: sort_dedup_def)

lemma sorted_sort_dedup [simp]: "sorted (sort_dedup xs)"
  by (simp add: sort_dedup_def sorted_remdups_adj)

lemma distinct_remdups_adj_sorted: "sorted xs \<Longrightarrow> distinct (remdups_adj xs)"
  by (induction xs rule: remdups_adj.induct) auto

lemma distinct_sort_dedup [simp]: "distinct (sort_dedup xs)"
  by (simp add: sort_dedup_def distinct_remdups_adj_sorted)

lemma sort_dedup_eqI: "set xs = set ys \<Longrightarrow> sort_dedup xs = sort_dedup ys"
  by (intro sorted_distinct_set_unique) simp_all

lemma sort_distinct: "distinct xs \<Longrightarrow> sort xs = sort_dedup xs"
  by (intro sorted_distinct_set_unique) simp_all

lemma push_absent_set: "set (foldl push_absent acc xs) = set acc \<union> set xs"
  by (induction xs arbitrary: acc) (auto simp: push_absent_def)

lemma push_absent_distinct: "distinct acc \<Longrightarrow> distinct (foldl push_absent acc xs)"
  by (induction xs arbitrary: acc) (auto simp: push_absent_def)

lemma sort_push_absent: "sort (foldl push_absent [] xs) = sort_dedup xs"
  by (intro sorted_distinct_set_unique) (simp_all add: push_absent_set push_absent_distinct)

text \<open>The entries of a map stay sorted, each key once, and \<open>insert\<close> updates.\<close>

definition btree_ok :: "('k::linorder \<times> 'v) list \<Rightarrow> bool" where
  "btree_ok kvs \<longleftrightarrow> sorted_wrt (<) (map fst kvs)"

lemma btree_insert_keys: "fst ` set (btree_insert k v kvs) = insert k (fst ` set kvs)"
  by (induction k v kvs rule: btree_insert.induct) auto

lemma btree_ok_insert: "btree_ok kvs \<Longrightarrow> btree_ok (btree_insert k v kvs)"
proof (induction k v kvs rule: btree_insert.induct)
  case (2 k v k' v' kvs)
  then have "btree_ok kvs" and less: "\<forall>x \<in> fst ` set kvs. k' < x" by (auto simp: btree_ok_def)
  with 2 show ?case
    using btree_insert_keys [of k v kvs] by (auto simp: btree_ok_def simp flip: image_iff dest: less_trans)
qed (simp add: btree_ok_def)

lemma map_of_btree_insert: "btree_ok kvs \<Longrightarrow> map_of (btree_insert k v kvs) = (map_of kvs)(k \<mapsto> v)"
proof (induction k v kvs rule: btree_insert.induct)
  case (2 k v k' v' kvs)
  then have "btree_ok kvs" by (simp add: btree_ok_def)
  with 2 show ?case by (auto simp: fun_eq_iff)
qed auto

lemma btree_ok_distinct: "btree_ok kvs \<Longrightarrow> distinct (map fst kvs)"
  by (simp add: btree_ok_def strict_sorted_iff)

lemma btree_fold:
  assumes "btree_ok acc"
  shows "btree_ok (foldl (\<lambda>t x. btree_insert (f x) (g x) t) acc xs) \<and>
    map_of (foldl (\<lambda>t x. btree_insert (f x) (g x) t) acc xs) = foldl (\<lambda>m x. m(f x \<mapsto> g x)) (map_of acc) xs"
  using assms by (induction xs arbitrary: acc) (simp_all add: btree_ok_insert map_of_btree_insert)

lemma foldl_upd_keys: "foldl (\<lambda>m x. m(x \<mapsto> g x)) m xs = (\<lambda>x. if x \<in> set xs then Some (g x) else m x)"
  by (induction xs arbitrary: m) (auto simp: fun_eq_iff)

lemma read_to_string_Some: "read_to_string M p = Some s \<longleftrightarrow> mc_file M p = Some s \<and> utf8_valid s"
  by (auto simp: read_to_string_def split: option.splits)

lemma digit_no_space: "is_digit c \<Longrightarrow> \<not> is_space c"
  by (auto simp: is_digit_def is_space_def)

lemma show_nat_no_space: "list_all (\<lambda>c. \<not> is_space c) (show_nat n)"
  using show_nat_digits [of n] by (auto simp: list_all_iff digit_no_space)

text \<open>Words between white space are recovered.\<close>

lemma space_pieces_nonempty: "space_pieces s \<noteq> []"
  by (cases s) (auto split: list.splits)

lemma space_pieces_word:
  "list_all (\<lambda>c. \<not> is_space c) w \<Longrightarrow> space_pieces (w @ s) = (w @ hd (space_pieces s)) # tl (space_pieces s)"
proof (induction w)
  case Nil
  then show ?case using space_pieces_nonempty by simp
qed simp

lemma space_pieces_spaces:
  "list_all is_space b \<Longrightarrow> b \<noteq> [] \<Longrightarrow> space_pieces (b @ s) = replicate (length b) [] @ space_pieces s"
proof (induction b)
  case (Cons c b)
  then show ?case by (cases "b = []") auto
qed simp

lemma split_whitespace_word:
  assumes "list_all (\<lambda>c. \<not> is_space c) w" and "w \<noteq> []" and "s = [] \<or> is_space (hd s)"
  shows "split_whitespace (w @ s) = w # split_whitespace s"
proof -
  have "hd (space_pieces s) = []" using assms(3) by (cases s) auto
  moreover obtain y ys where "space_pieces s = y # ys" using space_pieces_nonempty by (meson neq_Nil_conv)
  ultimately show ?thesis using assms(1,2) by (simp add: split_whitespace_def space_pieces_word)
qed

lemma split_whitespace_spaces: "list_all is_space b \<Longrightarrow> split_whitespace (b @ s) = split_whitespace s"
  by (cases "b = []") (simp_all add: split_whitespace_def space_pieces_spaces)

lemma split_whitespace_Nil [simp]: "split_whitespace [] = []"
  by (simp add: split_whitespace_def)

text \<open>Hexadecimal numbers as the kernel prints them.\<close>

fun upper_hex :: "nat \<Rightarrow> nat \<Rightarrow> string" where
  "upper_hex 0 n = []"
| "upper_hex (Suc k) n = upper_hex k (n div 16) @ [if n mod 16 < 10 then char_of (48 + n mod 16) else char_of (55 + n mod 16)]"

lemma upper_hex_length [simp]: "length (upper_hex k n) = k"
  by (induction k arbitrary: n) auto

lemma hex_value_digit: "d < 16 \<Longrightarrow> hex_value (if d < 10 then char_of (48 + d) else char_of (55 + d)) = Some d"
  by (auto simp: hex_value_def Let_def)

lemma hex_digits_append: "hex_digits v (s @ t) = Option.bind (hex_digits v s) (\<lambda>u. hex_digits u t)"
  by (induction v s rule: hex_digits.induct) (auto split: option.splits)

lemma hex_digits_upper_hex: "hex_digits v (upper_hex k n) = Some (v * 16 ^ k + n mod 16 ^ k)"
proof (induction k arbitrary: n)
  case 0
  show ?case by simp
next
  case (Suc k)
  have "hex_digits v (upper_hex (Suc k) n) = Some (16 * (v * 16 ^ k + n div 16 mod 16 ^ k) + n mod 16)"
    using Suc.IH [of "n div 16"] hex_value_digit [of "n mod 16"] by (simp add: hex_digits_append)
  also have "16 * (v * 16 ^ k + n div 16 mod 16 ^ k) + n mod 16 = v * 16 ^ Suc k + n mod 16 ^ Suc k"
    using mod_mult2_eq [of n 16 "16 ^ k"] by (simp add: algebra_simps)
  finally show ?case .
qed

lemma hex_value_no_plus: "hex_value c = Some d \<Longrightarrow> c \<noteq> CHR ''+''"
  by (auto simp: hex_value_def)

lemma upper_hex_no_plus: "c \<in> set (upper_hex k n) \<Longrightarrow> c \<noteq> CHR ''+''"
proof (induction k arbitrary: n)
  case (Suc k)
  have "(if n mod 16 < 10 then char_of (48 + n mod 16) else char_of (55 + n mod 16)) \<noteq> CHR ''+''"
    by (rule hex_value_no_plus [OF hex_value_digit]) simp
  then show ?case using Suc by auto
qed simp

lemma parse_hex_upper_hex:
  assumes "n < 2 ^ w" and "n < 16 ^ k" and "0 < k"
  shows "parse_hex w (upper_hex k n) = Some n"
proof -
  obtain c cs where c: "upper_hex k n = c # cs" using assms(3) by (cases "upper_hex k n") (auto dest: arg_cong [where f = length])
  then have "c \<noteq> CHR ''+''" using upper_hex_no_plus [of c k n] by simp
  then show ?thesis using assms hex_digits_upper_hex [of 0 k n] c by (simp add: parse_hex_def)
qed

text \<open>Text without a zero byte.\<close>

definition no_nul :: "string \<Rightarrow> bool" where
  "no_nul s \<longleftrightarrow> CHR 0x00 \<notin> set s"

lemma as_bytes_nul: "no_nul s \<Longrightarrow> 0 \<notin> set (as_bytes s)"
proof
  assume s: "no_nul s" and "0 \<in> set (as_bytes s)"
  then obtain c where c: "c \<in> set s" "word_of_nat (of_char c) = (0 :: u8)" by (auto simp: as_bytes_def)
  then have "as_bytes [c] = as_bytes [CHR 0x00]" by (simp add: as_bytes_def)
  then have "c = CHR 0x00" unfolding as_bytes_inject by simp
  with s c(1) show False by (simp add: no_nul_def)
qed

lemma text_of_bytes: "map (\<lambda>b. char_of (unat b)) (as_bytes s) = s"
proof -
  have "char_of (unat (word_of_nat (of_char c) :: u8)) = c" for c :: char
    using nat_of_char_less_256 [of c] by (simp add: unat_of_nat)
  then show ?thesis by (simp add: as_bytes_def comp_def)
qed

end
