(* ===== verification/Processes.thy ===== *)
theory Processes
  imports Machine
begin

text \<open>
  Processes and sockets as an agent measures them (\<open>mfa-agent/src/ebpf/mod.rs\<close>): the manifest of user processes and
  kernel threads, the process list, and the listening ports, all parsed out of \<open>/proc\<close>.  Lemmas: on a \<open>/proc\<close> in the
  format of the kernel, the manifest is the one of the process table and the ports are those of the socket tables.
\<close>

section \<open>The manifest\<close>

definition KERNEL_THREAD_PREFIXES :: "string list" where
  "KERNEL_THREAD_PREFIXES =
     [''kworker/'', ''kworker/R-'', ''cpuhp/'', ''ksoftirqd/'', ''migration/'', ''scsi_eh_'', ''scsi_tmf_'',
      ''kthreadd'', ''kswapd'', ''kcompactd'', ''kdevtmpfs'', ''kauditd'', ''oom_reaper'', ''rcu_'', ''hwrng'', ''irq/'',
      ''jbd2/'', ''pool_workqueue'', ''ksoftirqd'', ''kblockd'']"

definition looks_like_kernel_thread :: "string \<Rightarrow> bool" where
  "looks_like_kernel_thread comm = list_ex (\<lambda>p. starts_with p comm) KERNEL_THREAD_PREFIXES"

text \<open>The threads of one kind carry a CPU or host number, which is dropped.\<close>

definition per_cpu_prefix :: "string \<Rightarrow> string \<Rightarrow> bool" where
  "per_cpu_prefix comm p = (starts_with p comm \<and> take 1 (drop (length p) comm) = ''/'')"

definition per_host_prefix :: "string \<Rightarrow> string \<Rightarrow> bool" where
  "per_host_prefix comm p =
     (starts_with p comm \<and> starts_with ''_'' (drop (length p) comm) \<and> list_all is_digit (drop (length p + 1) comm))"

definition normalize_kernel_thread :: "string \<Rightarrow> string" where
  "normalize_kernel_thread comm =
     (if starts_with ''kworker/'' comm then ''kworker''
      else (case find (per_cpu_prefix comm) [''cpuhp'', ''ksoftirqd'', ''migration''] of
          Some p \<Rightarrow> p
        | None \<Rightarrow>
            (if starts_with ''rcu_exp_par_gp_kthread_worker/'' comm then ''rcu_exp_par_gp_kthread_worker''
             else (case find (per_host_prefix comm) [''scsi_eh'', ''scsi_tmf''] of
                 Some p \<Rightarrow> p
               | None \<Rightarrow> comm))))"

definition status_field :: "string \<Rightarrow> string \<Rightarrow> u32 option" where
  "status_field key status =
     Option.bind (find (starts_with key) (str_lines status)) (\<lambda>line.
     Option.bind (nth_of 1 (split_whitespace line)) (\<lambda>v. map_option word_of_nat (parse_unsigned 32 v)))"

definition read_ppid :: "machine \<Rightarrow> string \<Rightarrow> u32 option" where
  "read_ppid M pid_path = Option.bind (read_to_string M (pid_path @ ''/status'')) (status_field ''PPid:'')"

definition pid_path :: "u32 \<Rightarrow> string" where
  "pid_path pid = ''/proc/'' @ show_word pid"

instantiation ProcessIdentity_ext :: (linorder) linorder
begin

definition less_eq_ProcessIdentity_ext :: "'a ProcessIdentity_scheme \<Rightarrow> 'a ProcessIdentity_scheme \<Rightarrow> bool" where
  "less_eq_ProcessIdentity_ext p q =
     ((pi_comm p, pi_exe_path p, ProcessIdentity.more p) \<le> (pi_comm q, pi_exe_path q, ProcessIdentity.more q))"

definition less_ProcessIdentity_ext :: "'a ProcessIdentity_scheme \<Rightarrow> 'a ProcessIdentity_scheme \<Rightarrow> bool" where
  "less_ProcessIdentity_ext p q =
     ((pi_comm p, pi_exe_path p, ProcessIdentity.more p) < (pi_comm q, pi_exe_path q, ProcessIdentity.more q))"

instance
proof
  fix p q r :: "'a ProcessIdentity_scheme"
  show "p < q \<longleftrightarrow> p \<le> q \<and> \<not> q \<le> p"
    unfolding less_eq_ProcessIdentity_ext_def less_ProcessIdentity_ext_def by (rule less_le_not_le)
  show "p \<le> p" by (simp add: less_eq_ProcessIdentity_ext_def)
  show "p \<le> q \<Longrightarrow> q \<le> r \<Longrightarrow> p \<le> r" unfolding less_eq_ProcessIdentity_ext_def by (rule order_trans)
  show "p \<le> q \<Longrightarrow> q \<le> p \<Longrightarrow> p = q"
    unfolding less_eq_ProcessIdentity_ext_def by (drule (1) antisym) simp
  show "p \<le> q \<or> q \<le> p" unfolding less_eq_ProcessIdentity_ext_def by (rule linear)
qed

end

text \<open>What one entry of \<open>/proc\<close> adds.\<close>

datatype observation = Nothing | Kernel_Thread string | User_Process ProcessIdentity "MasqueradeAlert option"

definition observe :: "machine \<Rightarrow> bool \<Rightarrow> dir_entry \<Rightarrow> observation" where
  "observe M exclude_self entry =
     (let name_str = lossy_name entry in
      if \<not> list_all is_digit name_str then Nothing
      else (case parse_unsigned 32 name_str of
        None \<Rightarrow> Nothing
      | Some n \<Rightarrow>
          (let pid = word_of_nat n in
           if exclude_self \<and> pid = mc_pid M then Nothing
           else (case read_to_string M (pid_path pid @ ''/comm'') of
             None \<Rightarrow> Nothing
           | Some c \<Rightarrow>
               (let comm = str_trim c;
                    ppid = unwrap_or 0 (read_ppid M (pid_path pid));
                    exe_path = read_link M (pid_path pid @ ''/exe'')
                in
                if ppid = 0 \<or> ppid = 2 then Kernel_Thread (normalize_kernel_thread comm)
                else
                  (let exe_clean = trim_end_matches '' (deleted)'' (unwrap_or ''[none]'' exe_path) in
                   if ppid \<noteq> 1 \<and> \<not> ends_with ''/mfa-agent'' exe_clean then Nothing
                   else User_Process \<lparr>pi_comm = comm, pi_exe_path = exe_clean\<rparr>
                     (if looks_like_kernel_thread comm
                      then Some \<lparr>ma_pid = pid, ma_comm = comm, ma_exe_path = exe_clean, ma_ppid = ppid\<rparr> else None)))))))"

definition users_of :: "observation list \<Rightarrow> ProcessIdentity list" where
  "users_of os = List.map_filter (\<lambda>ob. case ob of User_Process p _ \<Rightarrow> Some p | _ \<Rightarrow> None) os"

definition kthreads_of :: "observation list \<Rightarrow> string list" where
  "kthreads_of os = List.map_filter (\<lambda>ob. case ob of Kernel_Thread t \<Rightarrow> Some t | _ \<Rightarrow> None) os"

definition alerts_of :: "observation list \<Rightarrow> MasqueradeAlert list" where
  "alerts_of os = List.map_filter (\<lambda>ob. case ob of User_Process _ a \<Rightarrow> a | _ \<Rightarrow> None) os"

definition excludes_self :: "machine \<Rightarrow> bool" where
  "excludes_self M = (\<not> ends_with ''/mfa-agent'' (unwrap_or [] (read_link M ''/proc/self/exe'')))"

definition collect_process_manifest :: "machine \<Rightarrow> (ProcessIdentity list \<times> string list \<times> MasqueradeAlert list) res" where
  "collect_process_manifest M =
     (case read_dir M ''/proc'' of
        None \<Rightarrow> Inl (Err (mc_os_error M))
      | Some entries \<Rightarrow>
          (let os = map (observe M (excludes_self M)) entries in
           Inr (sort_dedup (users_of os), sort_dedup (kthreads_of os), alerts_of os)))"

definition get_userspace_pids :: "machine \<Rightarrow> (u32 \<times> string) list" where
  "get_userspace_pids M =
     (case read_dir M ''/proc'' of
        None \<Rightarrow> []
      | Some entries \<Rightarrow> List.map_filter (\<lambda>entry.
          (let name_str = lossy_name entry in
           if \<not> list_all is_digit name_str then None
           else Option.bind (parse_unsigned 32 name_str) (\<lambda>n.
             (let pid = word_of_nat n :: u32;
                  kernel = (case read_to_string M (pid_path pid @ ''/stat'') of
                    None \<Rightarrow> False
                  | Some stat \<Rightarrow>
                      (let parts = split_whitespace stat in
                       3 < length parts \<and> (unwrap_or 0 (parse_unsigned 32 (parts ! 3)) = 2 \<or> pid = 2)));
                  comm = unwrap_or [] (map_option str_trim (read_to_string M (pid_path pid @ ''/comm'')))
              in if kernel then None else if comm = [] then None else Some (pid, comm))))) entries)"

definition count_processes :: "machine \<Rightarrow> u64 res" where
  "count_processes M =
     (case read_dir M ''/proc'' of
        None \<Rightarrow> Inl (Err (mc_os_error M))
      | Some entries \<Rightarrow> Inr (word_of_nat (length (filter (\<lambda>e. list_all is_digit (lossy_name e)) entries))))"

text \<open>The process list is hashed up to the first entry that cannot be read, which is an error.\<close>

fun process_list_bytes :: "machine \<Rightarrow> dir_entry option list \<Rightarrow> bytes res" where
  "process_list_bytes M [] = Inr []"
| "process_list_bytes M (None # es) = Inl (Err (mc_os_error M))"
| "process_list_bytes M (Some e # es) =
     (let name_str = lossy_name e;
          here = (if \<not> list_all is_digit name_str then []
                  else (case read_to_string M (''/proc/'' @ de_name e @ ''/comm'') of
                    None \<Rightarrow> []
                  | Some comm \<Rightarrow> as_bytes (name_str @ '','' @ str_trim comm @ [CHR 0x0A])))
      in res_bind (process_list_bytes M es) (\<lambda>rest. Inr (here @ rest)))"

definition hash_process_list :: "crypto_ext \<Rightarrow> machine \<Rightarrow> bytes res" where
  "hash_process_list X M =
     (case mc_dir M ''/proc'' of
        None \<Rightarrow> Inl (Err (mc_os_error M))
      | Some entries \<Rightarrow> res_bind (process_list_bytes M entries) (\<lambda>bs. Inr (sha256 X bs)))"

text \<open>The hashes over the manifest, of \<open>collect_state\<close>.\<close>

definition TRANSIENT_CONSOLE :: "string list" where
  "TRANSIENT_CONSOLE = [''bash'', ''agetty'']"

definition stable_processes :: "ProcessIdentity list \<Rightarrow> ProcessIdentity list" where
  "stable_processes ps = filter (\<lambda>p. pi_comm p \<notin> set TRANSIENT_CONSOLE) ps"

definition userspace_bytes :: "ProcessIdentity list \<Rightarrow> bytes" where
  "userspace_bytes ps = concat (map (\<lambda>p. as_bytes (pi_comm p) @ [0] @ as_bytes (pi_exe_path p) @ [0]) ps)"

definition hash_userspace :: "crypto_ext \<Rightarrow> ProcessIdentity list \<Rightarrow> bytes" where
  "hash_userspace X ps = sha256 X (userspace_bytes (stable_processes ps))"

definition hash_kernel_threads :: "crypto_ext \<Rightarrow> string list \<Rightarrow> bytes" where
  "hash_kernel_threads X ts = sha256 X (concat (map (\<lambda>t. as_bytes t @ [0]) ts))"

section \<open>Sockets\<close>

definition tcp_tables :: "string list" where
  "tcp_tables = [''/proc/net/tcp'', ''/proc/net/tcp6'']"

definition tcp_lines :: "machine \<Rightarrow> string list" where
  "tcp_lines M = concat (map (\<lambda>path. case read_to_string M path of None \<Rightarrow> [] | Some c \<Rightarrow> drop 1 (str_lines c)) tcp_tables)"

definition parse_hex_port :: "string \<Rightarrow> u16 option" where
  "parse_hex_port addr =
     Option.bind (nth_of 1 (str_split (CHR '':'') addr)) (\<lambda>port_hex. map_option word_of_nat (parse_hex 16 port_hex))"

definition parse_tcp_line_normalized :: "string \<Rightarrow> string option" where
  "parse_tcp_line_normalized line =
     (let fields = split_whitespace line in
      if length fields < 4 then None
      else Option.bind (parse_hex_port (fields ! 1)) (\<lambda>local_port.
        (if fields ! 3 = ''0A'' then Some (''LISTEN:'' @ show_word local_port) else None)))"

definition collect_connection_tuples :: "crypto_ext \<Rightarrow> machine \<Rightarrow> string list \<times> bytes" where
  "collect_connection_tuples X M =
     (let tuples = sort_dedup (List.map_filter parse_tcp_line_normalized (tcp_lines M)) in
      (tuples, sha256 X (if tuples = [] then as_bytes ''empty''
                         else concat (map (\<lambda>t. as_bytes (t @ [CHR 0x0A])) tuples))))"

definition count_network_connections :: "machine \<Rightarrow> u64" where
  "count_network_connections M =
     sum_list (map (\<lambda>path. case read_to_string M path of None \<Rightarrow> 0 | Some c \<Rightarrow> word_of_nat (length (str_lines c) - 1)) tcp_tables)"

definition line_port :: "string \<Rightarrow> u16 option" where
  "line_port line =
     (let fields = split_whitespace line in
      if 4 \<le> length fields \<and> fields ! 3 = ''0A'' then
        Option.bind (nth_of 1 (str_split (CHR '':'') (fields ! 1))) (\<lambda>port_hex. map_option word_of_nat (parse_hex 16 port_hex))
      else None)"

definition get_listening_ports :: "machine \<Rightarrow> u16 list" where
  "get_listening_ports M = sort (foldl push_absent [] (List.map_filter line_port (tcp_lines M)))"

section \<open>The process table\<close>

text \<open>
  A process as the kernel knows it, and what the kernel shows of it in \<open>/proc\<close>: a directory named by its number, with its name
  in \<open>comm\<close>, its parent in a line of \<open>status\<close>, and the path of its program as the link \<open>exe\<close>.
\<close>

record process =
  pr_pid :: u32
  pr_ppid :: u32
  pr_comm :: string
  pr_exe :: "string option"

definition ppid_line :: "u32 \<Rightarrow> string" where
  "ppid_line ppid = ''PPid:'' @ [CHR 0x09] @ show_word ppid"

definition shows_process :: "machine \<Rightarrow> process \<Rightarrow> bool" where
  "shows_process M p \<longleftrightarrow>
     read_to_string M (pid_path (pr_pid p) @ ''/comm'') = Some (pr_comm p @ [CHR 0x0A]) \<and> str_trim (pr_comm p) = pr_comm p \<and>
     (\<exists>before after. read_to_string M (pid_path (pr_pid p) @ ''/status'') = Some (file_of (before @ [ppid_line (pr_ppid p)] @ after)) \<and>
        list_all one_line (before @ after) \<and> list_all (\<lambda>l. \<not> starts_with ''PPid:'' l) before) \<and>
     read_link M (pid_path (pr_pid p) @ ''/exe'') = pr_exe p"

definition shows_processes :: "machine \<Rightarrow> process list \<Rightarrow> bool" where
  "shows_processes M ps \<longleftrightarrow>
     (\<exists>es. read_dir M ''/proc'' = Some es \<and> list_all (shows_process M) ps \<and>
        map lossy_name (filter (\<lambda>e. list_all is_digit (lossy_name e)) es) = map (\<lambda>p. show_word (pr_pid p)) ps)"

definition exe_of :: "process \<Rightarrow> string" where
  "exe_of p = trim_end_matches '' (deleted)'' (unwrap_or ''[none]'' (pr_exe p))"

definition identity :: "process \<Rightarrow> ProcessIdentity" where
  "identity p = \<lparr>pi_comm = pr_comm p, pi_exe_path = exe_of p\<rparr>"

definition looked_at :: "machine \<Rightarrow> process \<Rightarrow> bool" where
  "looked_at M p \<longleftrightarrow> \<not> (excludes_self M \<and> pr_pid p = mc_pid M)"

definition is_kthread :: "process \<Rightarrow> bool" where
  "is_kthread p \<longleftrightarrow> pr_ppid p = 0 \<or> pr_ppid p = 2"

definition listed :: "machine \<Rightarrow> process \<Rightarrow> bool" where
  "listed M p \<longleftrightarrow> looked_at M p \<and> \<not> is_kthread p \<and> (pr_ppid p = 1 \<or> ends_with ''/mfa-agent'' (exe_of p))"

definition alert_for :: "process \<Rightarrow> MasqueradeAlert" where
  "alert_for p = \<lparr>ma_pid = pr_pid p, ma_comm = pr_comm p, ma_exe_path = exe_of p, ma_ppid = pr_ppid p\<rparr>"

definition expected_observation :: "machine \<Rightarrow> process \<Rightarrow> observation" where
  "expected_observation M p =
     (if \<not> looked_at M p then Nothing
      else if is_kthread p then Kernel_Thread (normalize_kernel_thread (pr_comm p))
      else if listed M p then User_Process (identity p) (if looks_like_kernel_thread (pr_comm p) then Some (alert_for p) else None)
      else Nothing)"

lemma shows_processI:
  assumes "read_to_string M (pid_path (pr_pid p) @ ''/comm'') = Some (pr_comm p @ [CHR 0x0A])" and "str_trim (pr_comm p) = pr_comm p"
    and "read_to_string M (pid_path (pr_pid p) @ ''/status'') = Some (file_of (before @ [ppid_line (pr_ppid p)] @ after))"
    and "list_all one_line (before @ after)" and "list_all (\<lambda>l. \<not> starts_with ''PPid:'' l) before"
    and "read_link M (pid_path (pr_pid p) @ ''/exe'') = pr_exe p"
  shows "shows_process M p"
  using assms unfolding shows_process_def by blast

lemma show_word_no_space: "list_all (\<lambda>c. \<not> is_space c) (show_word w)"
  by (simp add: show_word_def show_nat_no_space)

lemma one_line_ppid: "one_line (ppid_line ppid)"
  using show_word_no_space [of ppid] by (auto simp: one_line_def ppid_line_def list_all_iff is_space_def)

lemma status_field_finds:
  assumes "list_all one_line (before @ after)" and "list_all (\<lambda>l. \<not> starts_with ''PPid:'' l) before"
  shows "status_field ''PPid:'' (file_of (before @ [ppid_line ppid] @ after)) = Some ppid"
proof -
  have lines: "str_lines (file_of (before @ [ppid_line ppid] @ after)) = before @ [ppid_line ppid] @ after"
    using assms(1) one_line_ppid by (intro str_lines_whole) simp
  have "find (starts_with ''PPid:'') (before @ [ppid_line ppid] @ after) = Some (ppid_line ppid)"
    using assms(2) by (induction before) (simp_all add: starts_with_def ppid_line_def)
  moreover have "split_whitespace (ppid_line ppid) = [''PPid:'', show_word ppid]"
  proof -
    have "split_whitespace (ppid_line ppid) = ''PPid:'' # split_whitespace ([CHR 0x09] @ show_word ppid)"
      unfolding ppid_line_def by (rule split_whitespace_word) (simp_all add: is_space_def)
    also have "split_whitespace ([CHR 0x09] @ show_word ppid) = split_whitespace (show_word ppid)"
      by (rule split_whitespace_spaces) (simp add: is_space_def)
    also have "split_whitespace (show_word ppid) = [show_word ppid]"
      using split_whitespace_word [OF show_word_no_space [of ppid], of "[]"] by (simp add: show_word_def)
    finally show ?thesis .
  qed
  ultimately show ?thesis
    unfolding status_field_def lines using unsigned_less [of ppid] by (simp add: nth_of_def show_word_def parse_unsigned_show)
qed

lemma observe_process:
  assumes "lossy_name e = show_word (pr_pid p)" and "shows_process M p"
  shows "observe M (excludes_self M) e = expected_observation M p"
proof -
  have n: "list_all is_digit (show_word (pr_pid p))" "parse_unsigned 32 (show_word (pr_pid p)) = Some (unat (pr_pid p))"
    using unsigned_less [of "pr_pid p"] by (simp_all add: show_word_def show_nat_digits parse_unsigned_show)
  have "read_ppid M (pid_path (pr_pid p)) = Some (pr_ppid p)"
    using assms(2) status_field_finds by (auto simp: shows_process_def read_ppid_def)
  then show ?thesis
    using assms n by (simp add: observe_def shows_process_def str_trim_newline expected_observation_def looked_at_def
        is_kthread_def listed_def identity_def alert_for_def exe_of_def Let_def)
qed

lemma observe_other: "\<not> list_all is_digit (lossy_name e) \<Longrightarrow> observe M b e = Nothing"
  by (simp add: observe_def)

lemma map_filter_observe:
  assumes "f Nothing = None" and "list_all (shows_process M) ps"
    and "map lossy_name (filter (\<lambda>e. list_all is_digit (lossy_name e)) es) = map (\<lambda>p. show_word (pr_pid p)) ps"
  shows "List.map_filter f (map (observe M (excludes_self M)) es) = List.map_filter f (map (expected_observation M) ps)"
  using assms(2,3)
proof (induction es arbitrary: ps)
  case Nil
  then show ?case by simp
next
  case (Cons e es)
  show ?case
  proof (cases "list_all is_digit (lossy_name e)")
    case True
    with Cons.prems obtain p qs where ps: "ps = p # qs" "lossy_name e = show_word (pr_pid p)" by (cases ps) auto
    with Cons.prems have "observe M (excludes_self M) e = expected_observation M p" by (intro observe_process) simp_all
    moreover have "List.map_filter f (map (observe M (excludes_self M)) es) = List.map_filter f (map (expected_observation M) qs)"
      using Cons.prems ps True by (intro Cons.IH) simp_all
    ultimately show ?thesis using ps(1) by (simp add: List.map_filter_simps split: option.splits)
  next
    case False
    with Cons show ?thesis by (simp add: List.map_filter_simps observe_other assms(1))
  qed
qed

lemma observed_users: "users_of (map (expected_observation M) ps) = map identity (filter (listed M) ps)"
  by (induction ps) (auto simp: users_of_def List.map_filter_simps expected_observation_def listed_def)

lemma observed_kthreads:
  "kthreads_of (map (expected_observation M) ps) =
     map (\<lambda>p. normalize_kernel_thread (pr_comm p)) (filter (\<lambda>p. looked_at M p \<and> is_kthread p) ps)"
  by (induction ps) (auto simp: kthreads_of_def List.map_filter_simps expected_observation_def listed_def)

lemma observed_alerts:
  "alerts_of (map (expected_observation M) ps) = map alert_for (filter (\<lambda>p. listed M p \<and> looks_like_kernel_thread (pr_comm p)) ps)"
  by (induction ps) (auto simp: alerts_of_def List.map_filter_simps expected_observation_def listed_def)

lemma manifest_shown:
  assumes "shows_processes M ps"
  shows "collect_process_manifest M =
    Inr (sort_dedup (map identity (filter (listed M) ps)),
         sort_dedup (map (\<lambda>p. normalize_kernel_thread (pr_comm p)) (filter (\<lambda>p. looked_at M p \<and> is_kthread p) ps)),
         map alert_for (filter (\<lambda>p. listed M p \<and> looks_like_kernel_thread (pr_comm p)) ps))"
proof -
  obtain es where es: "read_dir M ''/proc'' = Some es" "list_all (shows_process M) ps"
    "map lossy_name (filter (\<lambda>e. list_all is_digit (lossy_name e)) es) = map (\<lambda>p. show_word (pr_pid p)) ps"
    using assms by (auto simp: shows_processes_def)
  note same = map_filter_observe [OF _ es(2,3)]
  show ?thesis
    unfolding collect_process_manifest_def es(1) option.case Let_def
    using observed_users [of M ps] observed_kthreads [of M ps] observed_alerts [of M ps]
    by (simp add: users_of_def kthreads_of_def alerts_of_def same)
qed

section \<open>Lemmas on the hashes\<close>

lemma terminated_split:
  assumes "x \<notin> set a" and "x \<notin> set b" shows "a @ x # r = b @ x # t \<longleftrightarrow> a = b \<and> r = t"
  using assms by (auto simp: append_eq_append_conv2 Cons_eq_append_conv append_eq_Cons_conv)

text \<open>Texts without a zero byte, each ended by one, can be told apart.\<close>

lemma terminated_inject:
  assumes "list_all no_nul xs" and "list_all no_nul ys"
  shows "concat (map (\<lambda>t. as_bytes t @ [0]) xs) = concat (map (\<lambda>t. as_bytes t @ [0]) ys) \<longleftrightarrow> xs = ys"
  using assms
proof (induction xs arbitrary: ys)
  case Nil
  then show ?case by (cases ys) auto
next
  case (Cons x xs)
  show ?case
  proof (cases ys)
    case Nil
    then show ?thesis by simp
  next
    case ys: (Cons y zs)
    have "0 \<notin> set (as_bytes x)" "0 \<notin> set (as_bytes y)" using Cons.prems ys by (simp_all add: as_bytes_nul)
    moreover have "concat (map (\<lambda>t. as_bytes t @ [0]) xs) = concat (map (\<lambda>t. as_bytes t @ [0]) zs) \<longleftrightarrow> xs = zs"
      using Cons.prems ys by (intro Cons.IH) simp_all
    ultimately show ?thesis using ys by (simp add: terminated_split as_bytes_inject)
  qed
qed

lemma userspace_bytes_terminated:
  "userspace_bytes ps = concat (map (\<lambda>t. as_bytes t @ [0]) (concat (map (\<lambda>p. [pi_comm p, pi_exe_path p]) ps)))"
  by (induction ps) (simp_all add: userspace_bytes_def)

lemma identities_inject:
  "concat (map (\<lambda>p. [pi_comm p, pi_exe_path p]) ps) = concat (map (\<lambda>p. [pi_comm p, pi_exe_path p]) qs) \<longleftrightarrow> ps = (qs :: ProcessIdentity list)"
proof (induction ps arbitrary: qs)
  case Nil
  show ?case by (cases qs) simp_all
next
  case (Cons p ps)
  have "p = q \<longleftrightarrow> pi_comm p = pi_comm q \<and> pi_exe_path p = pi_exe_path q" for q by (cases p; cases q) simp
  with Cons.IH show ?case by (cases qs) simp_all
qed

definition nul_free :: "ProcessIdentity \<Rightarrow> bool" where
  "nul_free p \<longleftrightarrow> no_nul (pi_comm p) \<and> no_nul (pi_exe_path p)"

lemma userspace_bytes_inject:
  assumes "list_all nul_free ps" and "list_all nul_free qs"
  shows "userspace_bytes ps = userspace_bytes qs \<longleftrightarrow> ps = qs"
proof -
  have "list_all no_nul (concat (map (\<lambda>p. [pi_comm p, pi_exe_path p]) rs))" if "list_all nul_free rs" for rs :: "ProcessIdentity list"
    using that by (induction rs) (auto simp: nul_free_def)
  with assms show ?thesis by (simp add: userspace_bytes_terminated terminated_inject identities_inject)
qed

lemma stable_sort_dedup:
  "stable_processes (sort_dedup ps) = stable_processes (sort_dedup qs) \<longleftrightarrow>
     {p \<in> set ps. pi_comm p \<notin> set TRANSIENT_CONSOLE} = {p \<in> set qs. pi_comm p \<notin> set TRANSIENT_CONSOLE}"
proof
  assume "stable_processes (sort_dedup ps) = stable_processes (sort_dedup qs)"
  then have "set (stable_processes (sort_dedup ps)) = set (stable_processes (sort_dedup qs))" by simp
  then show "{p \<in> set ps. pi_comm p \<notin> set TRANSIENT_CONSOLE} = {p \<in> set qs. pi_comm p \<notin> set TRANSIENT_CONSOLE}"
    by (simp add: stable_processes_def)
next
  assume "{p \<in> set ps. pi_comm p \<notin> set TRANSIENT_CONSOLE} = {p \<in> set qs. pi_comm p \<notin> set TRANSIENT_CONSOLE}"
  then show "stable_processes (sort_dedup ps) = stable_processes (sort_dedup qs)"
    by (intro sorted_distinct_set_unique) (simp_all add: stable_processes_def sorted_filter [where f = "\<lambda>x. x", simplified])
qed

section \<open>The socket tables\<close>

text \<open>A socket as the kernel prints it in a line of \<open>/proc/net/tcp\<close>: number, local address and port, peer, state, and more.\<close>

record tcp_socket =
  sk_slot :: string
  sk_addr :: string
  sk_port :: u16
  sk_peer :: string
  sk_state :: u8
  sk_rest :: string

definition word_like :: "string \<Rightarrow> bool" where
  "word_like w \<longleftrightarrow> w \<noteq> [] \<and> list_all (\<lambda>c. \<not> is_space c) w"

definition socket_ok :: "tcp_socket \<Rightarrow> bool" where
  "socket_ok k \<longleftrightarrow> word_like (sk_slot k) \<and> word_like (sk_addr k) \<and> CHR '':'' \<notin> set (sk_addr k) \<and> word_like (sk_peer k) \<and> one_line (sk_rest k)"

definition tcp_line :: "tcp_socket \<Rightarrow> string" where
  "tcp_line k = ''   '' @ sk_slot k @ '' '' @ (sk_addr k @ '':'' @ upper_hex 4 (unat (sk_port k))) @ '' '' @ sk_peer k @ '' '' @
     upper_hex 2 (unat (sk_state k)) @ '' '' @ sk_rest k"

definition is_listening :: "tcp_socket \<Rightarrow> bool" where
  "is_listening k \<longleftrightarrow> sk_state k = 10"

definition shows_table :: "machine \<Rightarrow> string \<Rightarrow> tcp_socket list \<Rightarrow> bool" where
  "shows_table M path ks \<longleftrightarrow> list_all socket_ok ks \<and>
     (\<exists>header. one_line header \<and> read_to_string M path = Some (file_of (header # map tcp_line ks)))"

definition shows_sockets :: "machine \<Rightarrow> tcp_socket list \<Rightarrow> tcp_socket list \<Rightarrow> bool" where
  "shows_sockets M ks ks6 \<longleftrightarrow> shows_table M ''/proc/net/tcp'' ks \<and> shows_table M ''/proc/net/tcp6'' ks6"

lemma upper_hex_chars: "c \<in> set (upper_hex k n) \<Longrightarrow> hex_value c \<noteq> None"
proof (induction k arbitrary: n)
  case (Suc k)
  then show ?case using hex_value_digit [of "n mod 16"] by (auto split: if_splits)
qed simp

lemma hex_value_no_space: "hex_value c \<noteq> None \<Longrightarrow> \<not> is_space c \<and> c \<noteq> CHR '':''"
  by (auto simp: hex_value_def is_space_def)

lemma word_like_hex: "0 < k \<Longrightarrow> word_like (upper_hex k n)"
proof -
  assume "0 < k"
  then have "upper_hex k n \<noteq> []" using upper_hex_length [of k n] by (metis list.size(3) less_irrefl)
  then show ?thesis using hex_value_no_space upper_hex_chars by (auto simp: word_like_def list_all_iff simp del: not_None_eq)
qed

lemma word_like_append: "word_like a \<Longrightarrow> word_like b \<Longrightarrow> word_like (a @ b)"
  by (simp add: word_like_def)

lemma one_line_word: "word_like w \<Longrightarrow> one_line w"
  by (auto simp: word_like_def one_line_def list_all_iff is_space_def)

lemma split_word_space: "word_like w \<Longrightarrow> split_whitespace (w @ '' '' @ s) = w # split_whitespace s"
  using split_whitespace_word [of w "'' '' @ s"] split_whitespace_spaces [of "'' ''" s] by (simp add: word_like_def is_space_def)

lemma tcp_line_fields:
  assumes "socket_ok k"
  shows "split_whitespace (tcp_line k) =
    [sk_slot k, sk_addr k @ '':'' @ upper_hex 4 (unat (sk_port k)), sk_peer k, upper_hex 2 (unat (sk_state k))] @ split_whitespace (sk_rest k)"
proof -
  define port where "port = sk_addr k @ '':'' @ upper_hex 4 (unat (sk_port k))"
  have "word_like port"
    using assms unfolding port_def by (intro word_like_append) (simp_all add: socket_ok_def word_like_hex, simp add: word_like_def is_space_def)
  moreover have "split_whitespace (''   '' @ s) = split_whitespace s" for s
    by (rule split_whitespace_spaces) (simp add: is_space_def)
  ultimately show ?thesis
    using assms unfolding tcp_line_def port_def [symmetric]
    by (simp only: socket_ok_def split_word_space word_like_hex append.simps) (simp add: word_like_hex split_word_space [simplified])
qed

lemma hex_pair_0A: "upper_hex 2 (unat (b :: u8)) = ''0A'' \<longleftrightarrow> b = 10"
proof
  assume "upper_hex 2 (unat b) = ''0A''"
  then have "hex_digits 0 ''0A'' = Some (unat b mod 256)" using hex_digits_upper_hex [of 0 2 "unat b"] by simp
  moreover have "hex_digits 0 ''0A'' = Some 10" by (simp add: hex_value_def)
  moreover have "unat b < 256" using unsigned_less [of b] by simp
  ultimately have "unat b = 10" by simp
  then have "word_of_nat (unat b) = (word_of_nat 10 :: u8)" by simp
  then show "b = 10" by simp
next
  assume "b = 10"
  moreover have "upper_hex 2 10 = ''0A''"
    using char_of_char [of "CHR ''0''", where 'a = nat] char_of_char [of "CHR ''A''", where 'a = nat] by (subst numeral_2_eq_2) simp
  ultimately show "upper_hex 2 (unat b) = ''0A''" by simp
qed

lemma port_of_address:
  assumes "CHR '':'' \<notin> set addr"
  shows "parse_hex_port (addr @ '':'' @ upper_hex 4 (unat port)) = Some port"
proof -
  have "CHR '':'' \<notin> set (upper_hex 4 (unat port))" using hex_value_no_space upper_hex_chars by blast
  then have "str_split (CHR '':'') (addr @ '':'' @ upper_hex 4 (unat port)) = [addr, upper_hex 4 (unat port)]"
    using assms by (simp add: str_split_run str_split_whole)
  moreover have "parse_hex 16 (upper_hex 4 (unat port)) = Some (unat port)"
    using unsigned_less [of port] by (intro parse_hex_upper_hex) simp_all
  ultimately show ?thesis by (simp add: parse_hex_port_def nth_of_def)
qed

lemma line_port_tcp_line: "socket_ok k \<Longrightarrow> line_port (tcp_line k) = (if is_listening k then Some (sk_port k) else None)"
  using port_of_address [of "sk_addr k" "sk_port k"]
  by (simp add: line_port_def tcp_line_fields hex_pair_0A is_listening_def parse_hex_port_def socket_ok_def)

lemma parse_tcp_line:
  "socket_ok k \<Longrightarrow> parse_tcp_line_normalized (tcp_line k) = (if is_listening k then Some (''LISTEN:'' @ show_word (sk_port k)) else None)"
  using port_of_address [of "sk_addr k" "sk_port k"]
  by (simp add: parse_tcp_line_normalized_def tcp_line_fields hex_pair_0A is_listening_def socket_ok_def)

lemma map_filter_lines:
  assumes "list_all socket_ok ks" and "\<And>k. socket_ok k \<Longrightarrow> f (tcp_line k) = (if is_listening k then Some (g k) else None)"
  shows "List.map_filter f (map tcp_line ks) = map g (filter is_listening ks)"
  using assms by (induction ks) (simp_all add: List.map_filter_simps)

lemma one_line_append: "one_line (a @ b) \<longleftrightarrow> one_line a \<and> one_line b"
  by (auto simp: one_line_def)

lemma one_line_tcp_line: "socket_ok k \<Longrightarrow> one_line (tcp_line k)"
  using one_line_word [OF word_like_hex [of 4]] one_line_word [OF word_like_hex [of 2]]
  by (simp add: tcp_line_def socket_ok_def one_line_append one_line_word del: append.simps) (simp add: one_line_def)

lemma table_lines:
  assumes "shows_table M path ks"
  obtains header where "read_to_string M path = Some (file_of (header # map tcp_line ks))"
    "str_lines (file_of (header # map tcp_line ks)) = header # map tcp_line ks" "list_all socket_ok ks"
proof -
  from assms obtain header where h: "one_line header" "read_to_string M path = Some (file_of (header # map tcp_line ks))" "list_all socket_ok ks"
    by (auto simp: shows_table_def)
  then have "list_all one_line (header # map tcp_line ks)" by (auto simp: list_all_iff one_line_tcp_line)
  then show ?thesis using that h str_lines_whole by blast
qed

lemma shown_lines:
  assumes "shows_sockets M ks ks6"
  shows "tcp_lines M = map tcp_line (ks @ ks6) \<and> list_all socket_ok (ks @ ks6) \<and>
    count_network_connections M = word_of_nat (length ks) + word_of_nat (length ks6)"
proof -
  obtain h h6 where "read_to_string M ''/proc/net/tcp'' = Some (file_of (h # map tcp_line ks))"
    "str_lines (file_of (h # map tcp_line ks)) = h # map tcp_line ks" "list_all socket_ok ks"
    "read_to_string M ''/proc/net/tcp6'' = Some (file_of (h6 # map tcp_line ks6))"
    "str_lines (file_of (h6 # map tcp_line ks6)) = h6 # map tcp_line ks6" "list_all socket_ok ks6"
    using assms table_lines unfolding shows_sockets_def by metis
  then show ?thesis by (simp add: tcp_lines_def tcp_tables_def count_network_connections_def)
qed

lemma listening_ports_sorted: "get_listening_ports M = sort_dedup (List.map_filter line_port (tcp_lines M))"
  by (simp add: get_listening_ports_def sort_push_absent)

section \<open>Concrete inputs\<close>

definition proc_entry :: "string \<Rightarrow> dir_entry" where
  "proc_entry name = \<lparr>de_name = name, de_file_type = Some Other_Kind, de_is_file = Some False\<rparr>"

text \<open>A kernel thread, a child of init and a shell that one started.\<close>

definition demo_kthread :: process where
  "demo_kthread = \<lparr>pr_pid = 7, pr_ppid = 2, pr_comm = ''ksoftirqd/0'', pr_exe = None\<rparr>"

definition demo_crond :: "string \<Rightarrow> process" where
  "demo_crond cron = \<lparr>pr_pid = 8, pr_ppid = 1, pr_comm = ''crond'', pr_exe = Some cron\<rparr>"

definition demo_shell :: process where
  "demo_shell = \<lparr>pr_pid = 9, pr_ppid = 8, pr_comm = ''sh'', pr_exe = Some ''/bin/sh''\<rparr>"

definition demo_processes :: "string \<Rightarrow> process list" where
  "demo_processes cron = [demo_kthread, demo_crond cron, demo_shell]"

lemmas demo_process_defs = demo_kthread_def demo_crond_def demo_shell_def

definition demo_socket :: tcp_socket where
  "demo_socket = \<lparr>sk_slot = ''0:'', sk_addr = ''00000000'', sk_port = 5000, sk_peer = ''00000000:0000'', sk_state = 10, sk_rest = ''0''\<rparr>"

definition demo_files :: "(string \<times> string) list" where
  "demo_files =
     [(''/proc/7/comm'', ''ksoftirqd/0'' @ [CHR 0x0A]), (''/proc/7/status'', file_of [''Name: ksoftirqd/0'', ppid_line 2]),
      (''/proc/8/comm'', ''crond'' @ [CHR 0x0A]), (''/proc/8/status'', file_of [ppid_line 1, ''Uid: 0'']),
      (''/proc/9/comm'', ''sh'' @ [CHR 0x0A]), (''/proc/9/status'', file_of [ppid_line 8]),
      (''/proc/net/tcp'', file_of [''  sl  local_address'', tcp_line demo_socket]),
      (''/proc/net/tcp6'', file_of [''  sl  local_address''])]"

definition demo_machine :: "string \<Rightarrow> machine" where
  "demo_machine cron = \<lparr>mc_file = map_of demo_files,
     mc_dir = (\<lambda>path. if path = ''/proc'' then Some (map (Some \<circ> proc_entry) [''7'', ''net'', ''8'', ''9'']) else None),
     mc_link = map_of [(''/proc/self/exe'', ''/opt/mfa-agent/target/release/mfa-agent''), (''/proc/8/exe'', cron), (''/proc/9/exe'', ''/bin/sh'')],
     mc_pid = 100, mc_role = None, mc_now = 0, mc_os_error = ''io''\<rparr>"

lemma demo_reads: "map_of demo_files p = Some s \<Longrightarrow> list_all (byte_in 0 0x7F) s \<Longrightarrow> read_to_string (demo_machine cron) p = Some s"
  by (simp add: read_to_string_def demo_machine_def utf8_ascii)

lemma demo_links: "mc_link (demo_machine cron) p = Some s \<Longrightarrow> list_all (byte_in 0 0x7F) s \<Longrightarrow> read_link (demo_machine cron) p = Some s"
  by (simp add: read_link_def from_utf8_lossy_valid utf8_ascii)

lemma demo_pids: "show_word (7 :: u32) = ''7''" "show_word (8 :: u32) = ''8''" "show_word (9 :: u32) = ''9''"
  using char_of_char [of "CHR ''7''", where 'a = nat] char_of_char [of "CHR ''8''", where 'a = nat] char_of_char [of "CHR ''9''", where 'a = nat]
  by (simp_all add: show_word_def show_nat.simps digit_char_def)

lemma ascii_file_of: "list_all (byte_in 0 0x7F) (file_of ls) \<longleftrightarrow> list_all (list_all (byte_in 0 0x7F)) ls"
  by (induction ls) (auto simp: file_of_def byte_in_def)

lemma ascii_ppid_line: "list_all (byte_in 0 0x7F) (ppid_line ppid)"
  using show_nat_digits [of "unat ppid"] by (auto simp: ppid_line_def show_word_def list_all_iff byte_in_def is_digit_def)

definition demo_cron :: "string \<Rightarrow> bool" where
  "demo_cron cron \<longleftrightarrow> cron = ''/usr/sbin/crond'' \<or> cron = ''/tmp/crond''"

lemma demo_shows_processes: "demo_cron cron \<Longrightarrow> shows_processes (demo_machine cron) (demo_processes cron)"
proof -
  assume cron: "demo_cron cron"
  let ?M = "demo_machine cron"
  note d = demo_files_def byte_in_def ascii_file_of ascii_ppid_line
  have comm: "read_to_string ?M ''/proc/7/comm'' = Some (''ksoftirqd/0'' @ [CHR 0x0A])"
    "read_to_string ?M ''/proc/8/comm'' = Some (''crond'' @ [CHR 0x0A])"
    "read_to_string ?M ''/proc/9/comm'' = Some (''sh'' @ [CHR 0x0A])"
    by (rule demo_reads; simp add: d)+
  have status: "read_to_string ?M ''/proc/7/status'' = Some (file_of ([''Name: ksoftirqd/0''] @ [ppid_line 2] @ []))"
    "read_to_string ?M ''/proc/8/status'' = Some (file_of ([] @ [ppid_line 1] @ [''Uid: 0'']))"
    "read_to_string ?M ''/proc/9/status'' = Some (file_of ([] @ [ppid_line 8] @ []))"
    by (rule demo_reads; simp add: d)+
  have exe: "read_link ?M ''/proc/8/exe'' = Some cron" "read_link ?M ''/proc/9/exe'' = Some ''/bin/sh''"
    using cron by (intro demo_links; auto simp: demo_machine_def byte_in_def demo_cron_def)+
  have none: "read_link ?M ''/proc/7/exe'' = None" by (simp add: read_link_def demo_machine_def)
  have "shows_process ?M demo_kthread"
    by (rule shows_processI [where before = "[''Name: ksoftirqd/0'']" and after = "[]"])
       (use comm status none in \<open>simp_all add: demo_process_defs pid_path_def demo_pids one_line_def starts_with_def str_trim_def is_space_def\<close>)
  moreover have "shows_process ?M (demo_crond cron)"
    by (rule shows_processI [where before = "[]" and after = "[''Uid: 0'']"])
       (use comm status exe in \<open>simp_all add: demo_process_defs pid_path_def demo_pids one_line_def starts_with_def str_trim_def is_space_def\<close>)
  moreover have "shows_process ?M demo_shell"
    by (rule shows_processI [where before = "[]" and after = "[]"])
       (use comm status exe in \<open>simp_all add: demo_process_defs pid_path_def demo_pids one_line_def starts_with_def str_trim_def is_space_def\<close>)
  ultimately have "list_all (shows_process ?M) (demo_processes cron)" by (simp add: demo_processes_def)
  moreover have "read_dir ?M ''/proc'' = Some (map proc_entry [''7'', ''net'', ''8'', ''9''])"
    by (simp add: read_dir_def demo_machine_def)
  moreover have "lossy_name (proc_entry n) = n" if "list_all (byte_in 0 0x7F) n" for n
    using that by (simp add: lossy_name_def proc_entry_def from_utf8_lossy_valid utf8_ascii)
  then have "map lossy_name (filter (\<lambda>e. list_all is_digit (lossy_name e)) (map proc_entry [''7'', ''net'', ''8'', ''9''])) = [''7'', ''8'', ''9'']"
    by (simp add: byte_in_def is_digit_def)
  moreover have "[''7'', ''8'', ''9''] = map (\<lambda>p. show_word (pr_pid p)) (demo_processes cron)"
    by (simp add: demo_processes_def demo_process_defs demo_pids)
  ultimately show ?thesis unfolding shows_processes_def by metis
qed

lemma demo_no_exclude: "\<not> excludes_self (demo_machine cron)"
proof -
  have "read_link (demo_machine cron) ''/proc/self/exe'' = Some ''/opt/mfa-agent/target/release/mfa-agent''"
    by (rule demo_links) (simp_all add: demo_machine_def byte_in_def)
  then show ?thesis by (simp add: excludes_self_def ends_with_def suffix_to_prefix)
qed

lemma demo_exes: "demo_cron cron \<Longrightarrow> exe_of (demo_crond cron) = cron" "exe_of demo_shell = ''/bin/sh''" "exe_of demo_kthread = ''[none]''"
  by (auto simp: exe_of_def demo_process_defs demo_cron_def suffix_to_prefix trim_end_id)

lemma demo_manifest:
  assumes "demo_cron cron"
  shows "filter (listed (demo_machine cron)) (demo_processes cron) = [demo_crond cron]"
    and "filter (\<lambda>p. looked_at (demo_machine cron) p \<and> is_kthread p) (demo_processes cron) = [demo_kthread]"
    and "filter (\<lambda>p. listed (demo_machine cron) p \<and> looks_like_kernel_thread (pr_comm p)) (demo_processes cron) = []"
proof -
  have listed: "\<not> listed (demo_machine cron) demo_kthread" "listed (demo_machine cron) (demo_crond cron)" "\<not> listed (demo_machine cron) demo_shell"
    using demo_exes(2) demo_no_exclude [of cron]
    by (simp_all add: listed_def looked_at_def is_kthread_def demo_process_defs ends_with_def suffix_to_prefix)
  then show "filter (listed (demo_machine cron)) (demo_processes cron) = [demo_crond cron]"
    "filter (\<lambda>p. listed (demo_machine cron) p \<and> looks_like_kernel_thread (pr_comm p)) (demo_processes cron) = []"
    by (simp_all add: demo_processes_def)
       (simp add: demo_process_defs looks_like_kernel_thread_def KERNEL_THREAD_PREFIXES_def starts_with_def)
  show "filter (\<lambda>p. looked_at (demo_machine cron) p \<and> is_kthread p) (demo_processes cron) = [demo_kthread]"
    using demo_no_exclude [of cron] by (simp add: demo_processes_def looked_at_def is_kthread_def demo_process_defs)
qed

lemma demo_identity: "demo_cron cron \<Longrightarrow> identity (demo_crond cron) = \<lparr>pi_comm = ''crond'', pi_exe_path = cron\<rparr>"
  by (simp add: identity_def demo_exes) (simp add: demo_process_defs)

lemma demo_shows_sockets: "shows_sockets (demo_machine cron) [demo_socket] []"
proof -
  have ok: "socket_ok demo_socket" by (simp add: socket_ok_def demo_socket_def word_like_def is_space_def one_line_def)
  have hex: "byte_in 0 0x7F c" if "c \<in> set (upper_hex k n)" for c k n
    using upper_hex_chars [OF that] by (auto simp: byte_in_def hex_value_def Let_def split: if_splits)
  have line: "list_all (byte_in 0 0x7F) (tcp_line demo_socket)"
    unfolding tcp_line_def list_all_append using hex by (auto simp: demo_socket_def list_all_iff) (auto simp: byte_in_def)
  have "read_to_string (demo_machine cron) ''/proc/net/tcp'' = Some (file_of (''  sl  local_address'' # map tcp_line [demo_socket]))"
    "read_to_string (demo_machine cron) ''/proc/net/tcp6'' = Some (file_of (''  sl  local_address'' # map tcp_line []))"
    by (rule demo_reads; simp add: demo_files_def byte_in_def ascii_file_of line)+
  moreover have "one_line ''  sl  local_address''" by (simp add: one_line_def)
  ultimately show ?thesis using ok unfolding shows_sockets_def shows_table_def by fastforce
qed

section \<open>Properties\<close>

text \<open>
  C11.  The manifest is that of the process table: when \<open>/proc\<close> shows the processes the way the kernel prints them, it
  lists exactly the identities of the children of init and of the agents, sorted and each once, the kinds of kernel
  threads, and an alert for every listed process that is named like a kernel thread.  A process of any other parent is
  not looked at.
\<close>

theorem manifest_of_process_table:
  assumes "shows_processes M ps"
  shows "collect_process_manifest M =
    Inr (sort_dedup (map identity (filter (listed M) ps)),
         sort_dedup (map (\<lambda>p. normalize_kernel_thread (pr_comm p)) (filter (\<lambda>p. looked_at M p \<and> is_kthread p) ps)),
         map alert_for (filter (\<lambda>p. listed M p \<and> looks_like_kernel_thread (pr_comm p)) ps))"
  by (rule manifest_shown [OF assms])

theorem manifest_of_process_table_witness:
  "collect_process_manifest (demo_machine ''/tmp/crond'') = Inr ([\<lparr>pi_comm = ''crond'', pi_exe_path = ''/tmp/crond''\<rparr>], [''ksoftirqd''], [])"
proof -
  have d: "demo_cron ''/tmp/crond''" by (simp add: demo_cron_def)
  have "normalize_kernel_thread (pr_comm demo_kthread) = ''ksoftirqd''"
    by (simp add: demo_process_defs normalize_kernel_thread_def starts_with_def per_cpu_prefix_def)
  then show ?thesis
    using manifest_of_process_table [OF demo_shows_processes [OF d]] by (simp add: demo_manifest [OF d] demo_identity [OF d] sort_dedup_def)
qed

text \<open>
  The hash over the user processes stands for them: two measurements of machines whose \<open>/proc\<close> shows the process
  tables \<open>ps\<close> and \<open>qs\<close> have the same hash exactly when the same programs run under the same names, shells and log-in
  prompts of the console left out, unless SHA-256 collides on the two manifests.
\<close>

theorem userspace_hash_identifies:
  assumes "shows_processes M ps" and "shows_processes M' qs"
    and "collect_process_manifest M = Inr (us, ks, as)" and "collect_process_manifest M' = Inr (us', ks', as')"
    and "list_all (\<lambda>p. nul_free (identity p)) (ps @ qs)"
    and "hash_userspace X us = hash_userspace X us' \<Longrightarrow> userspace_bytes (stable_processes us) = userspace_bytes (stable_processes us')"
  shows "hash_userspace X us = hash_userspace X us' \<longleftrightarrow>
    {identity p | p. p \<in> set ps \<and> listed M p \<and> pr_comm p \<notin> {''bash'', ''agetty''}} =
    {identity p | p. p \<in> set qs \<and> listed M' p \<and> pr_comm p \<notin> {''bash'', ''agetty''}}"
proof -
  have us: "us = sort_dedup (map identity (filter (listed M) ps))" "us' = sort_dedup (map identity (filter (listed M') qs))"
    using assms(3,4) manifest_shown [OF assms(1)] manifest_shown [OF assms(2)] by simp_all
  have "list_all nul_free (stable_processes us)" "list_all nul_free (stable_processes us')"
    using assms(5) by (auto simp: us stable_processes_def list_all_iff)
  then have "hash_userspace X us = hash_userspace X us' \<longleftrightarrow> stable_processes us = stable_processes us'"
    using assms(6) userspace_bytes_inject by (auto simp: hash_userspace_def)
  moreover have "\<dots> \<longleftrightarrow> {i \<in> identity ` {p \<in> set ps. listed M p}. pi_comm i \<notin> set TRANSIENT_CONSOLE} =
      {i \<in> identity ` {p \<in> set qs. listed M' p}. pi_comm i \<notin> set TRANSIENT_CONSOLE}"
    unfolding us stable_sort_dedup by simp
  moreover have "{i \<in> identity ` {p \<in> set rs. listed N p}. pi_comm i \<notin> set TRANSIENT_CONSOLE} =
      {identity p | p. p \<in> set rs \<and> listed N p \<and> pr_comm p \<notin> {''bash'', ''agetty''}}" for rs N
    by (auto simp: TRANSIENT_CONSOLE_def identity_def)
  ultimately show ?thesis by simp
qed

theorem userspace_hash_identifies_witness:
  "hash_userspace demo_ext [\<lparr>pi_comm = ''crond'', pi_exe_path = ''/usr/sbin/crond''\<rparr>] \<noteq>
     hash_userspace demo_ext [\<lparr>pi_comm = ''crond'', pi_exe_path = ''/tmp/crond''\<rparr>] \<and>
   {identity p | p. p \<in> set (demo_processes ''/usr/sbin/crond'') \<and> listed (demo_machine ''/usr/sbin/crond'') p \<and> pr_comm p \<notin> {''bash'', ''agetty''}} \<noteq>
   {identity p | p. p \<in> set (demo_processes ''/tmp/crond'') \<and> listed (demo_machine ''/tmp/crond'') p \<and> pr_comm p \<notin> {''bash'', ''agetty''}}"
proof -
  let ?a = "''/usr/sbin/crond''" and ?b = "''/tmp/crond''"
  let ?us = "\<lambda>cron. [\<lparr>pi_comm = ''crond'', pi_exe_path = cron\<rparr>]"
  have d: "demo_cron ?a" "demo_cron ?b" by (simp_all add: demo_cron_def)
  have man: "collect_process_manifest (demo_machine cron) = Inr (?us cron, [normalize_kernel_thread (pr_comm demo_kthread)], [])"
    if "demo_cron cron" for cron
    using manifest_shown [OF demo_shows_processes [OF that]] by (simp add: demo_manifest [OF that] demo_identity [OF that] sort_dedup_def)
  have nul: "list_all (\<lambda>p. nul_free (identity p)) (demo_processes ?a @ demo_processes ?b)"
    by (simp add: demo_processes_def nul_free_def identity_def demo_exes d) (simp add: demo_process_defs no_nul_def)
  have differ: "hash_userspace demo_ext (?us ?a) \<noteq> hash_userspace demo_ext (?us ?b)"
    by (simp add: hash_userspace_def stable_processes_def TRANSIENT_CONSOLE_def userspace_bytes_def demo_ext_def pad_to_def as_bytes_def)
  then show ?thesis
    using userspace_hash_identifies [OF demo_shows_processes [OF d(1)] demo_shows_processes [OF d(2)] man [OF d(1)] man [OF d(2)] nul, of demo_ext]
    by blast
qed

text \<open>
  The two parsers of the socket tables agree with them and with each other: when the kernel's tables hold the sockets
  \<open>ks\<close> and \<open>ks6\<close>, the listening ports and the connection tuples are those of the sockets in state \<open>LISTEN\<close>, sorted and each
  once, and the number of connections is that of all sockets.
\<close>

theorem sockets_measured:
  assumes "shows_sockets M ks ks6"
  shows "get_listening_ports M = sort_dedup (map sk_port (filter is_listening (ks @ ks6))) \<and>
    fst (collect_connection_tuples X M) = sort_dedup (map (\<lambda>k. ''LISTEN:'' @ show_word (sk_port k)) (filter is_listening (ks @ ks6))) \<and>
    count_network_connections M = word_of_nat (length (ks @ ks6))"
proof -
  have lines: "tcp_lines M = map tcp_line (ks @ ks6)" and ok: "list_all socket_ok (ks @ ks6)"
    using shown_lines [OF assms] by simp_all
  have "get_listening_ports M = sort_dedup (map sk_port (filter is_listening (ks @ ks6)))"
    unfolding listening_ports_sorted lines by (subst map_filter_lines [OF ok line_port_tcp_line]) simp_all
  moreover have "fst (collect_connection_tuples X M) = sort_dedup (map (\<lambda>k. ''LISTEN:'' @ show_word (sk_port k)) (filter is_listening (ks @ ks6)))"
    unfolding collect_connection_tuples_def lines Let_def fst_conv by (subst map_filter_lines [OF ok parse_tcp_line]) simp_all
  ultimately show ?thesis using shown_lines [OF assms] by simp
qed

theorem sockets_measured_witness:
  "get_listening_ports (demo_machine ''/tmp/crond'') = [5000]"
  using sockets_measured [OF demo_shows_sockets [of "''/tmp/crond''"], of demo_ext] by (simp add: demo_socket_def is_listening_def sort_dedup_def)

end
