(* ===== verification/Measured_Files.thy ===== *)
theory Measured_Files
  imports Machine
begin

text \<open>
  The files an agent measures (\<open>mfa-agent/src/ebpf/mod.rs\<close>): accounts, SSH set-up, init scripts, boot parameters, devices,
  mounts, settings and the programs of its role, as hashes and as contents.  Lemmas: the table of program hashes stands
  for the programs themselves, and what the other hashes identify, with two ways in which they are ambiguous.
\<close>

section \<open>Programs\<close>

text \<open>The role is set once and never changed.\<close>

definition set_node_role :: "string \<Rightarrow> machine \<Rightarrow> machine" where
  "set_node_role role M = (case mc_role M of None \<Rightarrow> M\<lparr>mc_role := Some role\<rparr> | Some _ \<Rightarrow> M)"

definition get_node_role :: "machine \<Rightarrow> string" where
  "get_node_role M = unwrap_or ''unknown'' (mc_role M)"

definition expected_binaries_for_role :: "string \<Rightarrow> string list" where
  "expected_binaries_for_role role =
     (let agent = ''/opt/mfa-agent/target/release/mfa-agent''; baseline = ''/opt/mfa-agent/target/release/baseline-tool'';
          xdp = ''/opt/mfa-agent/xdp-entropy.o'' in
      if role = ''orchestrator'' then [agent, ''/opt/mfa-agent/target/release/vm0-cli'', baseline, xdp]
      else if role = ''client'' \<or> role = ''proxy'' then [agent, baseline, xdp]
      else if role = ''zts'' \<or> role = ''da'' then [agent, baseline, ''/opt/mfa-agent/mfa-logfwd'', xdp]
      else [agent, xdp])"

definition hash_binaries_for_role :: "crypto_ext \<Rightarrow> machine \<Rightarrow> string \<Rightarrow> (string \<times> bytes) list" where
  "hash_binaries_for_role X M role =
     foldl (\<lambda>table path. btree_insert path
        (case mc_file M path of Some content \<Rightarrow> sha256 X (as_bytes content) | None \<Rightarrow> []) table)
       [] (expected_binaries_for_role role)"

definition regular_files :: "machine \<Rightarrow> string \<Rightarrow> string list" where
  "regular_files M dir =
     (case read_dir M dir of
        None \<Rightarrow> []
      | Some entries \<Rightarrow> map (\<lambda>e. dir @ ''/'' @ de_name e)
          (filter (\<lambda>e. de_is_file e = Some True \<and> utf8_valid (de_name e)) entries))"

definition hash_lines :: "crypto_ext \<Rightarrow> string list \<Rightarrow> bytes" where
  "hash_lines X ls = sha256 X (as_bytes (file_of ls))"

definition hash_binary_directory :: "crypto_ext \<Rightarrow> machine \<Rightarrow> bytes" where
  "hash_binary_directory X M =
     hash_lines X (sort_dedup (concat (map (regular_files M) [''/opt/mfa-agent/target/release'', ''/opt/mfa-agent''])))"

section \<open>Accounts and SSH\<close>

text \<open>What a readable file adds to a hash: a tag, and its content.\<close>

definition tagged :: "machine \<Rightarrow> string \<Rightarrow> string \<Rightarrow> bytes option" where
  "tagged M tag path = map_option (\<lambda>s. as_bytes (tag @ s)) (read_to_string M path)"

definition hash_some :: "crypto_ext \<Rightarrow> bytes option list \<Rightarrow> bytes option" where
  "hash_some X parts = (if flatten parts = [] then None else Some (sha256 X (concat (flatten parts))))"

definition hash_passwd :: "crypto_ext \<Rightarrow> machine \<Rightarrow> bytes option" where
  "hash_passwd X M = hash_some X [tagged M ''PASSWD:'' ''/etc/passwd'', tagged M ''SHADOW:'' ''/etc/shadow'']"

definition authorized_keys :: "string list" where
  "authorized_keys = [''/root/.ssh/authorized_keys'', ''/root/.ssh/authorized_keys2'']"

definition conf_d_files :: "machine \<Rightarrow> dir_entry list" where
  "conf_d_files M =
     (case read_dir M ''/etc/ssh/sshd_config.d'' of
        None \<Rightarrow> []
      | Some entries \<Rightarrow> sort_key de_name (filter (\<lambda>e. extension (de_name e) = Some ''conf'') entries))"

definition hash_ssh_config :: "crypto_ext \<Rightarrow> machine \<Rightarrow> bytes option" where
  "hash_ssh_config X M =
     hash_some X
       ([tagged M ''SSHD_CONFIG:'' ''/etc/ssh/sshd_config''] @
        map (\<lambda>e. tagged M (''SSHD_CONF_D:'' @ lossy_name e @ '':'') (''/etc/ssh/sshd_config.d/'' @ de_name e)) (conf_d_files M) @
        map (\<lambda>path. tagged M (''AUTH_KEYS:'' @ path @ '':'') path) authorized_keys @
        map (\<lambda>path. tagged M (''HOST_KEY:'' @ path @ '':'') path)
          [''/etc/ssh/ssh_host_ed25519_key.pub'', ''/etc/ssh/ssh_host_ecdsa_key.pub'', ''/etc/ssh/ssh_host_rsa_key.pub''])"

section \<open>Init scripts\<close>

definition runlevels :: "string list" where
  "runlevels = [''sysinit'', ''boot'', ''default'', ''nonetwork'']"

text \<open>The services of a runlevel: its entries in the order of their names, with the link each one is.\<close>

definition runlevel_services :: "machine \<Rightarrow> string \<Rightarrow> (string \<times> string \<times> string) list" where
  "runlevel_services M rl =
     (case read_dir M (''/etc/runlevels/'' @ rl) of
        None \<Rightarrow> []
      | Some entries \<Rightarrow> map (\<lambda>e. (lossy_name e, rl @ ''/'' @ lossy_name e,
            unwrap_or ''unknown'' (read_link M (''/etc/runlevels/'' @ rl @ ''/'' @ de_name e))))
          (sort_key de_name entries))"

text \<open>Named contents, as they are hashed; a file that cannot be read is left out.\<close>

definition named_content :: "machine \<Rightarrow> string \<Rightarrow> string \<Rightarrow> string option" where
  "named_content M name path = map_option (\<lambda>content. name @ '':'' @ content) (mc_file M path)"

definition local_scripts :: "machine \<Rightarrow> (string \<times> string) list" where
  "local_scripts M =
     (case read_dir M ''/etc/local.d'' of
        None \<Rightarrow> []
      | Some entries \<Rightarrow> List.map_filter (\<lambda>e. if lossy_name e = ''README'' then None
            else map_option (\<lambda>line. (lossy_name e, line)) (named_content M (lossy_name e) (''/etc/local.d/'' @ de_name e)))
          (sort_key de_name entries))"

definition installed_scripts :: "machine \<Rightarrow> string list" where
  "installed_scripts M =
     (case read_dir M ''/etc/init.d'' of
        None \<Rightarrow> []
      | Some entries \<Rightarrow> filter (\<lambda>name. name \<noteq> ''functions.sh'' \<and> \<not> starts_with ''.'' name) (map lossy_name entries))"

definition collect_init_integrity :: "crypto_ext \<Rightarrow> machine \<Rightarrow> InitIntegrity" where
  "collect_init_integrity X M =
     (let services = concat (map (runlevel_services M) runlevels);
          active_set = sort (foldl push_absent [] (map fst services));
          scripts = flatten (map (\<lambda>name. named_content M name (''/etc/init.d/'' @ name)) active_set);
          local_d = local_scripts M;
          conf_d = flatten (map (\<lambda>name. named_content M name (''/etc/conf.d/'' @ name)) [''local'', ''net'', ''iptables'', ''hwclock'', ''keymaps'']);
          all_initd = sort (installed_scripts M)
      in \<lparr>ii_init_scripts_hash = Some (hash_lines X scripts),
          ii_active_script_count = word_of_nat (length active_set),
          ii_active_scripts = active_set,
          ii_runlevel_hash = Some (hash_lines X (map (\<lambda>(name, key, target). key @ ''->'' @ target) services)),
          ii_runlevel_map = foldl (\<lambda>table (name, key, target). btree_insert key target table) [] services,
          ii_local_d_hash = Some (hash_lines X (map snd local_d)),
          ii_local_d_scripts = map fst local_d,
          ii_conf_d_hash = Some (hash_lines X conf_d),
          ii_total_initd_count = word_of_nat (length all_initd),
          ii_inactive_scripts = filter (\<lambda>name. name \<notin> set active_set) all_initd\<rparr>)"

definition check_ld_preload_file :: "machine \<Rightarrow> bool" where
  "check_ld_preload_file M =
     (case read_to_string M ''/etc/ld.so.preload'' of Some content \<Rightarrow> str_trim content = [] | None \<Rightarrow> True)"

section \<open>Kernel and devices\<close>

definition hash_boot_params :: "crypto_ext \<Rightarrow> machine \<Rightarrow> bytes option" where
  "hash_boot_params X M = map_option (\<lambda>cmdline. sha256 X (as_bytes cmdline)) (read_to_string M ''/proc/cmdline'')"

definition device_name :: "dir_entry \<Rightarrow> string option" where
  "device_name e =
     (if list_ex (\<lambda>p. starts_with p (lossy_name e)) [''pts'', ''shm'', ''mqueue'', ''hugepages'', ''fd''] then None
      else (case de_file_type e of
        Some Block_Device \<Rightarrow> Some (''b:'' @ lossy_name e)
      | Some Char_Device \<Rightarrow> Some (''c:'' @ lossy_name e)
      | Some Symlink \<Rightarrow> Some (''l:'' @ lossy_name e)
      | _ \<Rightarrow> None))"

definition collect_dev_inventory_list :: "machine \<Rightarrow> string list option" where
  "collect_dev_inventory_list M = map_option (\<lambda>entries. sort (List.map_filter device_name entries)) (read_dir M ''/dev'')"

definition hash_dev_inventory :: "crypto_ext \<Rightarrow> machine \<Rightarrow> bytes option" where
  "hash_dev_inventory X M = map_option (\<lambda>entries. hash_lines X (sort (List.map_filter device_name entries))) (read_dir M ''/dev'')"

definition significant_mount :: "string \<Rightarrow> bool" where
  "significant_mount l = list_ex (\<lambda>p. starts_with p l) [''/dev/'', ''tmpfs'', ''nfs'', ''cifs'', ''overlay'']"

definition mount_words :: "string \<Rightarrow> string" where
  "mount_words l = (let parts = split_whitespace l in if 2 \<le> length parts then parts ! 0 @ '' '' @ parts ! 1 else l)"

definition hash_mounts :: "crypto_ext \<Rightarrow> machine \<Rightarrow> bytes option" where
  "hash_mounts X M =
     map_option (\<lambda>mounts. sha256 X (as_bytes (str_join [CHR 0x0A] (map mount_words (filter significant_mount (str_lines mounts))))))
       (read_to_string M ''/proc/mounts'')"

definition collect_mount_content :: "machine \<Rightarrow> string option" where
  "collect_mount_content M =
     Option.bind (read_to_string M ''/proc/mounts'') (\<lambda>mounts.
       (let significant = str_join [CHR 0x0A] (filter significant_mount (str_lines mounts)) in
        if significant = [] then None else Some significant))"

definition config_paths :: "string list" where
  "config_paths = [''/opt/mfa-agent/node.json'', ''/etc/crontab'', ''/etc/hosts'', ''/etc/resolv.conf'', ''/etc/hostname'']"

definition config_text :: "machine \<Rightarrow> string" where
  "config_text M = concat (map (\<lambda>path. path @ unwrap_or ''ABSENT'' (mc_file M path)) config_paths)"

definition hash_config :: "crypto_ext \<Rightarrow> machine \<Rightarrow> bytes option" where
  "hash_config X M =
     (if list_ex (\<lambda>path. mc_file M path \<noteq> None) config_paths then Some (sha256 X (as_bytes (config_text M))) else None)"

definition sysctl_keys :: "string list" where
  "sysctl_keys =
     [''net.ipv4.ip_forward'', ''net.ipv4.conf.all.accept_redirects'', ''net.ipv4.conf.all.send_redirects'',
      ''net.ipv4.conf.all.accept_source_route'', ''net.ipv4.tcp_syncookies'', ''kernel.kptr_restrict'',
      ''kernel.dmesg_restrict'', ''kernel.sysrq'', ''kernel.randomize_va_space'', ''fs.suid_dumpable'']"

definition sysctl_path :: "string \<Rightarrow> string" where
  "sysctl_path key = ''/proc/sys/'' @ map (\<lambda>c. if c = CHR ''.'' then CHR ''/'' else c) key"

definition sysctl_lines :: "machine \<Rightarrow> string list" where
  "sysctl_lines M = flatten (map (\<lambda>key. map_option (\<lambda>v. key @ ''='' @ str_trim v) (read_to_string M (sysctl_path key))) sysctl_keys)"

definition collect_sysctl_content :: "machine \<Rightarrow> string option" where
  "collect_sysctl_content M = (if sysctl_lines M = [] then None else Some (file_of (sysctl_lines M)))"

definition hash_sysctl :: "crypto_ext \<Rightarrow> machine \<Rightarrow> bytes option" where
  "hash_sysctl X M = (if sysctl_lines M = [] then None else Some (hash_lines X (sysctl_lines M)))"

section \<open>Contents\<close>

definition collect_passwd_content :: "machine \<Rightarrow> string option" where
  "collect_passwd_content M = read_to_string M ''/etc/passwd''"

definition collect_shadow_content :: "machine \<Rightarrow> string option" where
  "collect_shadow_content M = read_to_string M ''/etc/shadow''"

definition collect_sshd_config_content :: "machine \<Rightarrow> string option" where
  "collect_sshd_config_content M = read_to_string M ''/etc/ssh/sshd_config''"

definition collect_authorized_keys_content :: "machine \<Rightarrow> string option" where
  "collect_authorized_keys_content M =
     (let content = concat (map (\<lambda>path. case read_to_string M path of
            None \<Rightarrow> [] | Some keys \<Rightarrow> file_of [''=== '' @ path @ '' ==='', keys]) authorized_keys)
      in if content = [] then None else Some content)"

definition collect_ld_preload_content :: "machine \<Rightarrow> string option" where
  "collect_ld_preload_content M = read_to_string M ''/etc/ld.so.preload''"

definition collect_boot_params_content :: "machine \<Rightarrow> string option" where
  "collect_boot_params_content M = map_option str_trim (read_to_string M ''/proc/cmdline'')"

definition read_entropy_available :: "machine \<Rightarrow> u32 option" where
  "read_entropy_available M =
     Option.bind (read_to_string M ''/proc/sys/kernel/random/entropy_avail'') (\<lambda>s. map_option word_of_nat (parse_unsigned 32 (str_trim s)))"

section \<open>Lemmas\<close>

lemma binaries_table:
  "btree_ok (hash_binaries_for_role X M role) \<and>
   map_of (hash_binaries_for_role X M role) = (\<lambda>path. if path \<in> set (expected_binaries_for_role role)
     then Some (case mc_file M path of Some content \<Rightarrow> sha256 X (as_bytes content) | None \<Rightarrow> []) else None)"
  using btree_fold [of "[]" "\<lambda>x. x" "\<lambda>path. case mc_file M path of Some content \<Rightarrow> sha256 X (as_bytes content) | None \<Rightarrow> []"
      "expected_binaries_for_role role"]
  by (simp add: hash_binaries_for_role_def btree_ok_def foldl_upd_keys)

text \<open>SHA-256 tells two contents apart.\<close>

definition no_collision :: "crypto_ext \<Rightarrow> string option \<Rightarrow> string option \<Rightarrow> bool" where
  "no_collision X a b \<longleftrightarrow>
     (case (a, b) of (Some s, Some t) \<Rightarrow> sha256 X (as_bytes s) = sha256 X (as_bytes t) \<longrightarrow> s = t | _ \<Rightarrow> True)"

lemma binaries_same:
  assumes "\<And>m. sha256 X m \<noteq> []"
    and "\<And>path. path \<in> set (expected_binaries_for_role role) \<Longrightarrow> no_collision X (mc_file M path) (mc_file M' path)"
  shows "map_of (hash_binaries_for_role X M role) = map_of (hash_binaries_for_role X M' role) \<longleftrightarrow>
    (\<forall>path \<in> set (expected_binaries_for_role role). mc_file M path = mc_file M' path)" (is "?same \<longleftrightarrow> ?files")
proof
  assume same: ?same
  show ?files
  proof
    fix path assume path: "path \<in> set (expected_binaries_for_role role)"
    with fun_cong [OF same, of path] have
      "(case mc_file M path of Some content \<Rightarrow> sha256 X (as_bytes content) | None \<Rightarrow> []) =
       (case mc_file M' path of Some content \<Rightarrow> sha256 X (as_bytes content) | None \<Rightarrow> [])"
      using binaries_table [of X M role] binaries_table [of X M' role] by simp
    with assms(1) assms(1) [THEN not_sym] assms(2) [OF path] show "mc_file M path = mc_file M' path"
      by (auto simp: no_collision_def split: option.splits)
  qed
next
  assume ?files
  then show ?same using binaries_table [of X M role] binaries_table [of X M' role] by (auto simp: fun_eq_iff)
qed

text \<open>The active scripts are sorted, each once; every installed script is active or listed as inactive, and none both.\<close>

lemma init_scripts_partition:
  "sorted (ii_active_scripts (collect_init_integrity X M)) \<and> distinct (ii_active_scripts (collect_init_integrity X M)) \<and>
   set (ii_active_scripts (collect_init_integrity X M)) \<inter> set (ii_inactive_scripts (collect_init_integrity X M)) = {} \<and>
   set (installed_scripts M) \<subseteq> set (ii_active_scripts (collect_init_integrity X M)) \<union> set (ii_inactive_scripts (collect_init_integrity X M)) \<and>
   ii_active_script_count (collect_init_integrity X M) = word_of_nat (length (ii_active_scripts (collect_init_integrity X M))) \<and>
   btree_ok (ii_runlevel_map (collect_init_integrity X M))"
proof -
  have "btree_ok acc \<Longrightarrow> btree_ok (foldl (\<lambda>table (name, key, target). btree_insert key target table) acc services)"
    for acc and services :: "(string \<times> string \<times> string) list"
    by (induction services arbitrary: acc) (auto simp: btree_ok_insert)
  from this [of "[]"] have "btree_ok (foldl (\<lambda>table (name, key, target). btree_insert key target table) [] services)"
    for services :: "(string \<times> string \<times> string) list" by (simp add: btree_ok_def)
  then show ?thesis
    by (auto simp: collect_init_integrity_def Let_def sort_push_absent)
qed

text \<open>
  Two ambiguities: an absent setting and one whose content is the word \<open>ABSENT\<close> have the same hash, and so have two
  pairs of account files that divide one text differently.
\<close>

lemma absent_marker_ambiguous:
  assumes "mc_file M p = None" and "mc_file M ''/etc/hosts'' \<noteq> None" and "p \<noteq> ''/etc/hosts''"
  shows "hash_config X (M\<lparr>mc_file := (mc_file M)(p \<mapsto> ''ABSENT'')\<rparr>) = hash_config X M"
proof -
  have "config_text (M\<lparr>mc_file := (mc_file M)(p \<mapsto> ''ABSENT'')\<rparr>) = config_text M"
    using assms(1) by (simp add: config_text_def config_paths_def)
  then show ?thesis using assms by (auto simp: hash_config_def config_paths_def)
qed

lemma account_files_ambiguous:
  assumes "read_to_string M ''/etc/passwd'' = Some (a @ ''SHADOW:'' @ b)" and "read_to_string M ''/etc/shadow'' = Some c"
    and "read_to_string M' ''/etc/passwd'' = Some a" and "read_to_string M' ''/etc/shadow'' = Some (b @ ''SHADOW:'' @ c)"
  shows "hash_passwd X M = hash_passwd X M'"
  using assms by (simp add: hash_passwd_def hash_some_def tagged_def as_bytes_def)

end
