(* ===== verification/Netfilter.thy ===== *)
theory Netfilter
  imports Crypto Utf8
begin

text \<open>
  The packet filter as an agent measures it (\<open>mfa-agent/src/netfilter/mod.rs\<close>): the kernel's filter table is read as raw
  bytes through a socket, hashed with its traffic counters left out, and printed; and the answer of the kernel to a
  link query is searched for an attached XDP program.  The system calls are outcomes (\<open>ipt_sock\<close>, \<open>link_sock\<close>).  Numbers
  in kernel structures are little endian, as on the machines the agent runs on; arithmetic wraps, as in its release build.  Lemmas: the hash identifies a
  well-formed table up to its counters, the printer reads no byte it does not have but in one case, and the attribute
  search finds the program a well-formed answer names.
\<close>

section \<open>Layout\<close>

definition COUNTERS_OFFSET :: nat where "COUNTERS_OFFSET = 96"
definition COUNTERS_SIZE :: nat where "COUNTERS_SIZE = 16"
definition IP_PROTO_OFFSET :: nat where "IP_PROTO_OFFSET = 72"
definition TARGET_OFFSET_FIELD :: nat where "TARGET_OFFSET_FIELD = 88"
definition NEXT_OFFSET_FIELD :: nat where "NEXT_OFFSET_FIELD = 90"

record IptGetInfo =
  ig_name :: bytes
  ig_valid_hooks :: u32
  ig_hook_entry :: "u32 list"
  ig_underflow :: "u32 list"
  ig_num_entries :: u32
  ig_size :: u32

definition u32_le :: "u32 \<Rightarrow> bytes" where
  "u32_le w = le_of_nat 4 (unat w)"

text \<open>The number of \<open>n\<close> bytes at an offset; the code reads only where it has checked the length.\<close>

definition num_at :: "nat \<Rightarrow> bytes \<Rightarrow> nat \<Rightarrow> nat" where
  "num_at n data offset = nat_of_le (take n (drop offset data))"

section \<open>Reading the table\<close>

record ipt_sock =
  is_socket :: bool
  is_info :: "IptGetInfo option"
  is_entries :: "bytes \<Rightarrow> bytes option"

definition table_name :: bytes where "table_name = as_bytes ''filter'' @ [0]"

definition read_filter_table_raw :: "ipt_sock \<Rightarrow> (IptGetInfo \<times> bytes) option" where
  "read_filter_table_raw sock =
     (if \<not> is_socket sock then None
      else Option.bind (is_info sock) (\<lambda>info.
        Option.bind (is_entries sock (table_name @ replicate 25 0 @ u32_le (ig_size info) @ replicate (4 + unat (ig_size info)) 0))
          (\<lambda>buf. Some (info, drop 40 buf))))"

section \<open>Hashing\<close>

definition skip_counters :: "bytes \<Rightarrow> bytes" where
  "skip_counters entry =
     (if COUNTERS_OFFSET + COUNTERS_SIZE < length entry
      then take COUNTERS_OFFSET entry @ replicate COUNTERS_SIZE 0 @ drop (COUNTERS_OFFSET + COUNTERS_SIZE) entry
      else entry)"

text \<open>The bytes the loop feeds to the hash.\<close>

function hash_loop :: "bytes \<Rightarrow> nat \<Rightarrow> bytes" where
  "hash_loop data offset =
     (if \<not> offset < length data then []
      else if length data < offset + NEXT_OFFSET_FIELD + 2 then []
      else
        (let next_offset = num_at 2 data (offset + NEXT_OFFSET_FIELD) in
         if next_offset = 0 \<or> length data < offset + next_offset then []
         else skip_counters (take next_offset (drop offset data)) @ hash_loop data (offset + next_offset)))"
  by pat_completeness auto
termination by (relation "measure (\<lambda>(data, offset). length data - offset)") auto

declare hash_loop.simps [simp del]

definition table_header :: "IptGetInfo \<Rightarrow> bytes" where
  "table_header info =
     u32_le (ig_valid_hooks info) @ concat (map u32_le (ig_hook_entry info)) @ concat (map u32_le (ig_underflow info)) @
     u32_le (ig_num_entries info)"

definition hash_iptables_kernel :: "crypto_ext \<Rightarrow> ipt_sock \<Rightarrow> bytes option" where
  "hash_iptables_kernel X sock =
     Option.bind (read_filter_table_raw sock) (\<lambda>(info, entry_data).
       Some (sha256 X (table_header info @ hash_loop entry_data 0)))"

section \<open>Printing\<close>

definition read_ip :: "bytes \<Rightarrow> bytes" where
  "read_ip data = (if 4 \<le> length data then take 4 data else [0, 0, 0, 0])"

definition position_zero :: "bytes \<Rightarrow> nat \<Rightarrow> nat" where
  "position_zero bs otherwise = (let n = length (takeWhile (\<lambda>b. b \<noteq> 0) bs) in if n < length bs then n else otherwise)"

definition read_iface :: "bytes \<Rightarrow> string res" where
  "read_iface data =
     (let stop = position_zero (take 16 data) 16 in
      if stop = 0 then Inr ''*'' else res_bind (slice_to data stop) (\<lambda>bs. Inr (bytes_to_text bs)))"

fun count_ones :: "nat \<Rightarrow> nat" where
  "count_ones n = (if n = 0 then 0 else n mod 2 + count_ones (n div 2))"

declare count_ones.simps [simp del]

definition dotted :: "bytes \<Rightarrow> string" where
  "dotted ip = str_join ''.'' (map show_word ip)"

definition format_addr :: "bytes \<Rightarrow> bytes \<Rightarrow> string" where
  "format_addr ip netmask =
     (if ip = [0, 0, 0, 0] \<and> netmask = [0, 0, 0, 0] then ''0.0.0.0/0''
      else
        (let cidr = sum_list (map (\<lambda>b. count_ones (unat b)) netmask) in
         if cidr = 32 then dotted ip else dotted ip @ ''/'' @ show_nat cidr))"

text \<open>The name of a target; a standard target has no name and a verdict.  A name cut off by the end of the table panics.\<close>

definition verdict_name :: "32 word \<Rightarrow> string" where
  "verdict_name verdict =
     (let v = - verdict - 1 in
      if v = 0 then ''DROP''
      else if v = 1 then ''ACCEPT''
      else if 0 \<le> sint verdict then ''JUMP''
      else ''VERDICT('' @ show_int (sint verdict) @ '')'')"

definition read_target_name :: "bytes \<Rightarrow> nat \<Rightarrow> string option res" where
  "read_target_name data entry_offset =
     (if length data < entry_offset + TARGET_OFFSET_FIELD + 2 then Inr None
      else
        (let abs_target = entry_offset + num_at 2 data (entry_offset + TARGET_OFFSET_FIELD) in
         if length data < abs_target + 4 then Inr None
         else if num_at 2 data abs_target < 4 then Inr None
         else
           (let name_start = abs_target + 2;
                name_end = min (name_start + 29) (length data);
                name_bytes = take (name_end - name_start) (drop name_start data)
            in res_bind (slice_to name_bytes (position_zero name_bytes 29)) (\<lambda>bs.
              (let name = bytes_to_text bs; verdict_offset = abs_target + 32 in
               if name \<noteq> [] then Inr (Some name)
               else if verdict_offset + 4 \<le> length data
               then Inr (Some (verdict_name (word_of_nat (num_at 4 data verdict_offset))))
               else Inr None)))))"

definition proto_name :: "nat \<Rightarrow> string" where
  "proto_name proto =
     (if proto = 6 then ''tcp'' else if proto = 17 then ''udp'' else if proto = 1 then ''icmp'' else if proto = 0 then ''all'' else ''?'')"

definition rule_text :: "bytes \<Rightarrow> nat \<Rightarrow> nat \<Rightarrow> string \<Rightarrow> string res" where
  "rule_text data offset rule_num target_name =
     (let has_counters = offset + COUNTERS_OFFSET + COUNTERS_SIZE \<le> length data;
          pkts = (if has_counters then num_at 8 data (offset + COUNTERS_OFFSET) else 0);
          byts = (if has_counters then num_at 8 data (offset + COUNTERS_OFFSET + 8) else 0);
          ip = (\<lambda>off. read_ip (drop (offset + off) data));
          proto = (if offset + IP_PROTO_OFFSET + 2 \<le> length data then num_at 2 data (offset + IP_PROTO_OFFSET) else 0)
      in res_bind (read_iface (drop (offset + 16) data)) (\<lambda>iniface.
         res_bind (read_iface (drop (offset + 32) data)) (\<lambda>outiface.
           Inr (left_in 4 (show_nat rule_num) @ '' '' @ right_in 8 (show_nat pkts) @ '' '' @ right_in 8 (show_nat byts) @ '' '' @
             left_in 8 target_name @ '' '' @ left_in 5 (proto_name proto) @ '' '' @ left_in 4 iniface @ '' '' @ left_in 4 outiface @ '' '' @
             left_in 20 (format_addr (ip 0) (ip 8)) @ '' '' @ left_in 20 (format_addr (ip 4) (ip 12)) @ [CHR 0x0A]))))"

function rules_loop :: "bytes \<Rightarrow> nat \<Rightarrow> nat \<Rightarrow> nat \<Rightarrow> string res" where
  "rules_loop data underflow offset rule_num =
     (if \<not> offset < length data then Inr []
      else if length data < offset + NEXT_OFFSET_FIELD + 2 then Inr []
      else
        (let next_offset = num_at 2 data (offset + NEXT_OFFSET_FIELD) in
         if next_offset = 0 \<or> length data < offset + next_offset then Inr []
         else
           (case read_target_name data offset of
              Inl e \<Rightarrow> Inl e
            | Inr target \<Rightarrow>
                (if target = Some ''ERROR'' then Inr []
                 else if offset = underflow then rules_loop data underflow (offset + next_offset) rule_num
                 else
                   (case rule_text data offset (rule_num + 1) (unwrap_or ''UNKNOWN'' target) of
                      Inl e \<Rightarrow> Inl e
                    | Inr line \<Rightarrow>
                        (if underflow < offset + next_offset then Inr line
                         else (case rules_loop data underflow (offset + next_offset) (rule_num + 1) of
                             Inl e \<Rightarrow> Inl e | Inr rest \<Rightarrow> Inr (line @ rest))))))))"
  by pat_completeness auto
termination by (relation "measure (\<lambda>(data, underflow, offset, rule_num). length data - offset)") auto

declare rules_loop.simps [simp del]

text \<open>One chain of the table; the hooks are INPUT, FORWARD and OUTPUT.\<close>

definition chain_text :: "IptGetInfo \<Rightarrow> bytes \<Rightarrow> nat \<Rightarrow> string \<Rightarrow> string res" where
  "chain_text info data hook_idx chain_name =
     (if \<not> bit (ig_valid_hooks info) hook_idx then Inr []
      else
        (let chain_start = unat (ig_hook_entry info ! hook_idx); chain_underflow = unat (ig_underflow info ! hook_idx) in
         res_bind (if chain_underflow < length data then read_target_name data chain_underflow else Inr None) (\<lambda>policy.
         res_bind (rules_loop data chain_underflow chain_start 0) (\<lambda>rules.
           Inr (''Chain '' @ chain_name @ '' (policy '' @ unwrap_or ''ACCEPT'' policy @ '')'' @ [CHR 0x0A] @ rules @ [CHR 0x0A])))))"

definition read_iptables_content :: "ipt_sock \<Rightarrow> string option res" where
  "read_iptables_content sock =
     (case read_filter_table_raw sock of
        None \<Rightarrow> Inr None
      | Some (info, data) \<Rightarrow>
          res_bind (chain_text info data 1 ''INPUT'') (\<lambda>a.
          res_bind (chain_text info data 2 ''FORWARD'') (\<lambda>b.
          res_bind (chain_text info data 3 ''OUTPUT'') (\<lambda>c.
            (let output = a @ b @ c in Inr (if output = [] then None else Some output))))))"

section \<open>The XDP program of an interface\<close>

text \<open>\<open>(len + 3) & !3\<close>\<close>

definition align4 :: "nat \<Rightarrow> nat" where
  "align4 n = (n + 3) - (n + 3) mod 4"

lemma align4_pos: "4 \<le> n \<Longrightarrow> 0 < align4 n"
  by (simp add: align4_def)

function nested_loop :: "bytes \<Rightarrow> nat \<Rightarrow> nat \<Rightarrow> bool" where
  "nested_loop resp nested_end noff =
     (if nested_end < noff + 4 then False
      else
        (let na_len = num_at 2 resp noff; na_type = num_at 2 resp (noff + 2) in
         if na_len < 4 then False
         else if na_type = 4 \<and> 8 \<le> na_len \<and> noff + 8 \<le> nested_end then 0 < num_at 4 resp (noff + 4)
         else nested_loop resp nested_end (noff + align4 na_len)))"
  by pat_completeness auto
termination by (relation "measure (\<lambda>(resp, nested_end, noff). nested_end - noff)") (auto dest: align4_pos simp: not_less)

declare nested_loop.simps [simp del]

function attr_loop :: "bytes \<Rightarrow> nat \<Rightarrow> nat \<Rightarrow> bool" where
  "attr_loop resp attr_end offset =
     (if attr_end < offset + 4 then False
      else
        (let attr_len = num_at 2 resp offset; attr_type = num_at 2 resp (offset + 2) in
         if attr_len < 4 then False
         else if attr_type = 43 then nested_loop resp (min (offset + attr_len) attr_end) (offset + 4)
         else attr_loop resp attr_end (offset + align4 attr_len)))"
  by pat_completeness auto
termination by (relation "measure (\<lambda>(resp, attr_end, offset). attr_end - offset)") (auto dest: align4_pos simp: not_less)

declare attr_loop.simps [simp del]

record link_sock =
  ls_ifindex :: "string \<Rightarrow> u32"
  ls_socket :: bool
  ls_answer :: "bytes \<Rightarrow> bytes option"

text \<open>The request, and the search of the first message of the answer.\<close>

definition link_request :: "u32 \<Rightarrow> bytes" where
  "link_request ifindex = u32_le 32 @ [18, 0] @ [1, 0] @ u32_le 1 @ replicate 8 0 @ u32_le ifindex @ replicate 8 0"

definition parse_link :: "bytes \<Rightarrow> bool option" where
  "parse_link resp =
     (if length resp < 32 then None
      else if num_at 2 resp 4 \<noteq> 16 then None
      else Some (attr_loop resp (min (num_at 4 resp 0) (length resp)) 32))"

definition check_xdp_kernel :: "link_sock \<Rightarrow> string \<Rightarrow> bool option" where
  "check_xdp_kernel sock interface =
     (if CHR 0x00 \<in> set interface then None
      else if ls_ifindex sock interface = 0 then None
      else if \<not> ls_socket sock then None
      else (case ls_answer sock (link_request (ls_ifindex sock interface)) of
              None \<Rightarrow> None
            | Some resp \<Rightarrow> (if resp = [] then None else parse_link (take 32768 resp))))"

section \<open>Lemmas on the hash\<close>

lemma num_at_append: "num_at n (pre @ data) (length pre + k) = num_at n data k"
  by (simp add: num_at_def)

lemma num_at_prefix: "k + n \<le> length data \<Longrightarrow> num_at n (data @ rest) k = num_at n data k"
  by (simp add: num_at_def)

text \<open>An entry of a well-formed table: it names its own length and has a target behind its counters.\<close>

definition entry_ok :: "bytes \<Rightarrow> bool" where
  "entry_ok e \<longleftrightarrow> COUNTERS_OFFSET + COUNTERS_SIZE < length e \<and> num_at 2 e NEXT_OFFSET_FIELD = length e"

lemma entry_ok_length: "entry_ok e \<Longrightarrow> 112 < length e"
  by (simp add: entry_ok_def COUNTERS_OFFSET_def COUNTERS_SIZE_def)

lemma hash_loop_entries:
  "list_all entry_ok es \<Longrightarrow> hash_loop (pre @ concat es) (length pre) = concat (map skip_counters es)"
proof (induction es arbitrary: pre)
  case Nil
  show ?case by (subst hash_loop.simps) simp
next
  case (Cons e es)
  then have e: "112 < length e" "num_at 2 e NEXT_OFFSET_FIELD = length e" using entry_ok_length by (simp_all add: entry_ok_def)
  have n: "num_at 2 (pre @ e @ concat es) (length pre + NEXT_OFFSET_FIELD) = length e"
    using e num_at_prefix [of NEXT_OFFSET_FIELD 2 e "concat es"] by (simp add: num_at_append NEXT_OFFSET_FIELD_def)
  have "hash_loop ((pre @ e) @ concat es) (length (pre @ e)) = concat (map skip_counters es)"
    using Cons.prems by (intro Cons.IH) simp
  then show ?case
    using e n by (subst hash_loop.simps) (auto simp: Let_def NEXT_OFFSET_FIELD_def)
qed

definition same_but_counters :: "bytes \<Rightarrow> bytes \<Rightarrow> bool" where
  "same_but_counters e e' \<longleftrightarrow> length e = length e' \<and> take 96 e = take 96 e' \<and> drop 112 e = drop 112 e'"

lemma skip_counters_ok:
  "entry_ok e \<Longrightarrow> skip_counters e = take 96 e @ replicate 16 0 @ drop 112 e"
  "entry_ok e \<Longrightarrow> length (skip_counters e) = length e"
  by (simp_all add: skip_counters_def entry_ok_def COUNTERS_OFFSET_def COUNTERS_SIZE_def)

lemma skip_counters_same:
  "entry_ok e \<Longrightarrow> entry_ok e' \<Longrightarrow> skip_counters e = skip_counters e' \<longleftrightarrow> same_but_counters e e'"
proof -
  assume e: "entry_ok e" "entry_ok e'"
  then have l: "112 < length e" "112 < length e'" using entry_ok_length by auto
  show ?thesis
  proof
    assume s: "skip_counters e = skip_counters e'"
    then have "length e = length e'" using skip_counters_ok(2) e by metis
    moreover from s have "take 96 e @ replicate 16 0 @ drop 112 e = take 96 e' @ replicate 16 0 @ drop 112 e'"
      using skip_counters_ok(1) e by metis
    ultimately show "same_but_counters e e'" using l by (simp add: same_but_counters_def)
  next
    assume "same_but_counters e e'"
    then show "skip_counters e = skip_counters e'" using skip_counters_ok(1) e by (simp add: same_but_counters_def)
  qed
qed

text \<open>The length of an entry can be read off what is hashed of it.\<close>

lemma skip_counters_next: "entry_ok e \<Longrightarrow> num_at 2 (skip_counters e @ rest) 90 = length e"
proof -
  assume e: "entry_ok e"
  then have l: "112 < length e" by (rule entry_ok_length)
  have "num_at 2 (skip_counters e @ rest) 90 = num_at 2 (take 96 e) 90"
    using skip_counters_ok(1) [OF e] l by (simp add: num_at_prefix)
  also have "\<dots> = num_at 2 e 90" using num_at_prefix [of 90 2 "take 96 e" "drop 96 e"] l by simp
  finally show ?thesis using e by (simp add: entry_ok_def NEXT_OFFSET_FIELD_def)
qed

lemma skipped_entries_same:
  assumes "list_all entry_ok es" and "list_all entry_ok es'"
  shows "concat (map skip_counters es) = concat (map skip_counters es') \<longleftrightarrow> list_all2 same_but_counters es es'"
  using assms
proof (induction es arbitrary: es')
  case Nil
  then show ?case using entry_ok_length skip_counters_ok(2) by (cases es') fastforce+
next
  case (Cons e es)
  show ?case
  proof (cases es')
    case Nil
    then show ?thesis using Cons.prems(1) entry_ok_length [of e] skip_counters_ok(2) [of e] by auto
  next
    case (Cons e' es2)
    have ok: "entry_ok e" "entry_ok e'" "list_all entry_ok es" "list_all entry_ok es2" using Cons.prems Cons by auto
    let ?r = "concat (map skip_counters es)" and ?r' = "concat (map skip_counters es2)"
    have "skip_counters e @ ?r = skip_counters e' @ ?r' \<longleftrightarrow> skip_counters e = skip_counters e' \<and> ?r = ?r'"
    proof
      assume eq: "skip_counters e @ ?r = skip_counters e' @ ?r'"
      then have "length e = length e'" using skip_counters_next ok(1,2) by metis
      then show "skip_counters e = skip_counters e' \<and> ?r = ?r'" using eq ok(1,2) skip_counters_ok(2) by (metis append_eq_append_conv)
    qed simp
    then show ?thesis using Cons Cons.IH [OF ok(3,4)] skip_counters_same [OF ok(1,2)] by simp
  qed
qed

lemma u32_le_inject [simp]: "u32_le a = u32_le b \<longleftrightarrow> a = b"
proof
  assume "u32_le a = u32_le b"
  then have "nat_of_le (le_of_nat 4 (unat a)) = nat_of_le (le_of_nat 4 (unat b))" by (simp add: u32_le_def)
  moreover have "unat w < 2 ^ 32" for w :: u32 using unsigned_less [of w] by simp
  ultimately have "unat a = unat b" by (simp add: nat_of_le_of_nat)
  then show "a = b" by (rule unsigned_word_eqI)
qed simp

lemma u32_le_length [simp]: "length (u32_le w) = 4"
  by (simp add: u32_le_def length_le_of_nat)

lemma u32s_inject: "length xs = length ys \<Longrightarrow> concat (map u32_le xs) @ r = concat (map u32_le ys) @ r' \<longleftrightarrow> xs = ys \<and> r = r'"
proof (induction xs ys rule: list_induct2)
  case (Cons x xs y ys)
  have "u32_le x @ (concat (map u32_le xs) @ r) = u32_le y @ (concat (map u32_le ys) @ r') \<longleftrightarrow>
      x = y \<and> concat (map u32_le xs) @ r = concat (map u32_le ys) @ r'" by (simp add: append_eq_append_conv)
  then show ?case using Cons by simp
qed simp

text \<open>A table as the kernel describes it: five hooks and entries that follow each other.\<close>

definition table_ok :: "IptGetInfo \<Rightarrow> bytes list \<Rightarrow> bool" where
  "table_ok info es \<longleftrightarrow> length (ig_hook_entry info) = 5 \<and> length (ig_underflow info) = 5 \<and> list_all entry_ok es"

definition same_structure :: "IptGetInfo \<Rightarrow> IptGetInfo \<Rightarrow> bool" where
  "same_structure i j \<longleftrightarrow> ig_valid_hooks i = ig_valid_hooks j \<and> ig_hook_entry i = ig_hook_entry j \<and>
     ig_underflow i = ig_underflow j \<and> ig_num_entries i = ig_num_entries j"

lemma table_header_inject:
  assumes "table_ok i es" and "table_ok j es'"
  shows "table_header i @ r = table_header j @ r' \<longleftrightarrow> same_structure i j \<and> r = r'"
  using assms by (auto simp: table_header_def table_ok_def same_structure_def u32s_inject append_eq_append_conv)

section \<open>Lemmas on printing\<close>

text \<open>A target whose name is not ended before the end of the table.\<close>

definition cut_off :: "bytes \<Rightarrow> nat \<Rightarrow> bool" where
  "cut_off data entry_offset \<longleftrightarrow>
     (let abs_target = entry_offset + num_at 2 data (entry_offset + 88) in
      entry_offset + 90 \<le> length data \<and> abs_target + 4 \<le> length data \<and> 4 \<le> num_at 2 data abs_target \<and>
      length data < abs_target + 31 \<and> 0 \<notin> set (drop (abs_target + 2) data))"

lemma position_zero_le: "position_zero bs d \<le> length bs \<longleftrightarrow> 0 \<in> set bs \<or> d \<le> length bs"
proof -
  have "length (takeWhile (\<lambda>b. b \<noteq> 0) bs) < length bs \<longleftrightarrow> 0 \<in> set bs"
    by (metis (mono_tags, lifting) length_takeWhile_le linorder_not_less nat_less_le takeWhile_eq_all_conv takeWhile_eq_take take_all_iff)
  then show ?thesis by (auto simp: position_zero_def Let_def length_takeWhile_le)
qed

lemma read_target_name_panics: "is_inr (read_target_name data off) \<longleftrightarrow> \<not> cut_off data off"
proof -
  let ?a = "off + num_at 2 data (off + 88)"
  show ?thesis
  proof (cases "off + 90 \<le> length data \<and> ?a + 4 \<le> length data \<and> 4 \<le> num_at 2 data ?a")
    case False
    then show ?thesis by (auto simp: read_target_name_def cut_off_def Let_def TARGET_OFFSET_FIELD_def)
  next
    case True
    let ?n = "take (min (?a + 2 + 29) (length data) - (?a + 2)) (drop (?a + 2) data)"
    have "is_inr (read_target_name data off) \<longleftrightarrow> position_zero ?n 29 \<le> length ?n"
      using True by (auto simp: read_target_name_def Let_def TARGET_OFFSET_FIELD_def slice_to_def)
    also have "\<dots> \<longleftrightarrow> 0 \<in> set ?n \<or> 29 \<le> length ?n" by (rule position_zero_le)
    also have "\<dots> \<longleftrightarrow> \<not> cut_off data off"
      using True by (auto simp: cut_off_def Let_def min_def)
    finally show ?thesis .
  qed
qed

lemma read_iface_reads: "16 \<le> length data \<Longrightarrow> is_inr (read_iface data)"
  using position_zero_le [of "take 16 data" 16] by (auto simp: read_iface_def Let_def slice_to_def)

lemma rule_text_reads: "off + 92 \<le> length data \<Longrightarrow> is_inr (rule_text data off k t)"
proof -
  assume "off + 92 \<le> length data"
  then have "is_inr (read_iface (drop (off + 16) data))" "is_inr (read_iface (drop (off + 32) data))"
    by (simp_all add: read_iface_reads)
  then show ?thesis unfolding rule_text_def Let_def
    by (cases "read_iface (drop (off + 16) data)"; cases "read_iface (drop (off + 32) data)") simp_all
qed

lemma rules_loop_reads: "(\<And>off. \<not> cut_off data off) \<Longrightarrow> is_inr (rules_loop data u off k)"
proof (induction data u off k rule: rules_loop.induct)
  case (1 data u off k)
  let ?n = "num_at 2 data (off + NEXT_OFFSET_FIELD)"
  show ?case
  proof (cases "off < length data \<and> off + 92 \<le> length data \<and> ?n \<noteq> 0 \<and> off + ?n \<le> length data")
    case False
    then show ?thesis by (subst rules_loop.simps) (auto simp: Let_def NEXT_OFFSET_FIELD_def)
  next
    case True
    obtain t where t: "read_target_name data off = Inr t"
      using read_target_name_panics [of data off] "1.prems" by (cases "read_target_name data off") auto
    obtain line where line: "rule_text data off (k + 1) (unwrap_or ''UNKNOWN'' t) = Inr line"
      using rule_text_reads [of off data "k + 1" "unwrap_or ''UNKNOWN'' t"] True by (cases "rule_text data off (k + 1) (unwrap_or ''UNKNOWN'' t)") auto
    have IH1: "off = u \<longrightarrow> t \<noteq> Some ''ERROR'' \<longrightarrow> is_inr (rules_loop data u (off + ?n) k)"
      using "1.IH"(1) [OF _ _ refl _ t] "1.prems" True by (auto simp: NEXT_OFFSET_FIELD_def)
    have IH2: "off \<noteq> u \<longrightarrow> t \<noteq> Some ''ERROR'' \<longrightarrow> \<not> u < off + ?n \<longrightarrow> is_inr (rules_loop data u (off + ?n) (k + 1))"
      using "1.IH"(2) [OF _ _ refl _ t _ _ line] "1.prems" True by (auto simp: NEXT_OFFSET_FIELD_def)
    show ?thesis
      using True t line IH1 IH2
      by (subst rules_loop.simps) (cases "t = Some ''ERROR''", auto simp: Let_def NEXT_OFFSET_FIELD_def split: sum.splits)
  qed
qed

lemma chain_text_reads: "(\<And>off. \<not> cut_off data off) \<Longrightarrow> is_inr (chain_text info data i name)"
proof -
  assume c: "\<And>off. \<not> cut_off data off"
  obtain p where p: "(if unat (ig_underflow info ! i) < length data then read_target_name data (unat (ig_underflow info ! i)) else Inr None) = Inr p"
    using read_target_name_panics c by (metis is_inr_def sum.case_eq_if sum.collapse(2) sum.disc_eq_case(1))
  obtain r where "rules_loop data (unat (ig_underflow info ! i)) (unat (ig_hook_entry info ! i)) 0 = Inr r"
    using rules_loop_reads [OF c] by (metis is_inr_def sum.case_eq_if sum.collapse(2))
  with p show ?thesis by (simp add: chain_text_def Let_def)
qed

section \<open>Lemmas on attributes\<close>

text \<open>Netlink attributes: length, type, payload and padding.\<close>

definition attribute :: "nat \<times> bytes \<Rightarrow> bytes" where
  "attribute = (\<lambda>(kind, payload). le_of_nat 2 (4 + length payload) @ le_of_nat 2 kind @ payload @
     replicate (align4 (4 + length payload) - (4 + length payload)) 0)"

definition attribute_ok :: "nat \<times> bytes \<Rightarrow> bool" where
  "attribute_ok a \<longleftrightarrow> fst a < 2 ^ 16 \<and> 4 + length (snd a) < 2 ^ 16"

definition prog_attached :: "(nat \<times> bytes) list \<Rightarrow> bool" where
  "prog_attached nested =
     (case find (\<lambda>(kind, payload). kind = 4 \<and> 4 \<le> length payload) nested of
        None \<Rightarrow> False
      | Some (_, payload) \<Rightarrow> 0 < num_at 4 payload 0)"

lemma align4_ge: "n \<le> align4 n"
  unfolding align4_def by presburger

lemma attribute_length: "length (attribute a) = align4 (4 + length (snd a))"
  using align4_ge [of "4 + length (snd a)"] by (simp add: attribute_def case_prod_beta length_le_of_nat)

lemma attribute_reads:
  assumes "attribute_ok (kind, payload)"
  shows "num_at 2 (pre @ attribute (kind, payload) @ rest) (length pre) = 4 + length payload"
    "num_at 2 (pre @ attribute (kind, payload) @ rest) (length pre + 2) = kind"
    "4 \<le> length payload \<Longrightarrow> num_at 4 (pre @ attribute (kind, payload) @ rest) (length pre + 4) = num_at 4 payload 0"
proof -
  have 2: "take 2 (le_of_nat 2 x @ y) = le_of_nat 2 x" "drop 2 (le_of_nat 2 x @ y) = y" for x y
    by (simp_all add: length_le_of_nat)
  have 4: "drop 4 (le_of_nat 2 x @ le_of_nat 2 y @ z) = z" for x y z
    using 2(2) [of x] 2(2) [of y] by (metis add_2_eq_Suc' drop_drop numeral_Bit0 numeral_eq_Suc numerals(2) one_add_one)
  show "num_at 2 (pre @ attribute (kind, payload) @ rest) (length pre) = 4 + length payload"
    "num_at 2 (pre @ attribute (kind, payload) @ rest) (length pre + 2) = kind"
    using assms by (simp_all add: num_at_def attribute_def attribute_ok_def 2 nat_of_le_of_nat)
  show "num_at 4 (pre @ attribute (kind, payload) @ rest) (length pre + 4) = num_at 4 payload 0" if "4 \<le> length payload"
    using that by (simp add: num_at_def attribute_def 4)
qed

lemma nested_loop_finds:
  assumes "list_all attribute_ok ns" and "nested_end = length pre + length (concat (map attribute ns))"
  shows "nested_loop (pre @ concat (map attribute ns) @ rest) nested_end (length pre) = prog_attached ns"
  using assms
proof (induction ns arbitrary: pre)
  case Nil
  then show ?case by (subst nested_loop.simps) (simp add: prog_attached_def)
next
  case (Cons n ns)
  obtain kind payload where n: "n = (kind, payload)" by fastforce
  let ?resp = "pre @ attribute n @ concat (map attribute ns) @ rest"
  have ok: "attribute_ok (kind, payload)" using Cons.prems(1) n by simp
  note r = attribute_reads [OF ok, of pre "concat (map attribute ns) @ rest", folded n]
  have len: "length (attribute n) = align4 (4 + length payload)" using n by (simp add: attribute_length)
  then have ge: "4 + length payload \<le> length (attribute n)" using align4_ge by metis
  have IH: "nested_loop ((pre @ attribute n) @ concat (map attribute ns) @ rest) nested_end (length (pre @ attribute n)) = prog_attached ns"
    using Cons.prems by (intro Cons.IH) simp_all
  show ?case
    using Cons.prems(2) r ge IH len n
    by (subst nested_loop.simps) (auto simp: Let_def prog_attached_def)
qed

lemma attr_loop_finds:
  assumes "list_all attribute_ok as"
    and "\<And>payload. (43, payload) \<in> set as \<Longrightarrow> payload = concat (map attribute (nested payload)) \<and> list_all attribute_ok (nested payload)"
  shows "attr_loop (pre @ concat (map attribute as)) (length pre + length (concat (map attribute as))) (length pre) =
     (case find (\<lambda>(kind, _). kind = 43) as of None \<Rightarrow> False | Some (_, payload) \<Rightarrow> prog_attached (nested payload))"
  using assms
proof (induction as arbitrary: pre)
  case Nil
  then show ?case by (subst attr_loop.simps) simp
next
  case (Cons a as)
  obtain kind payload where a: "a = (kind, payload)" by fastforce
  have ok: "attribute_ok (kind, payload)" using Cons.prems(1) a by simp
  note r = attribute_reads [OF ok, of pre "concat (map attribute as)", folded a]
  have len: "length (attribute a) = align4 (4 + length payload)" using a by (simp add: attribute_length)
  then have ge: "4 + length payload \<le> length (attribute a)" using align4_ge by metis
  let ?resp = "pre @ attribute a @ concat (map attribute as)" and ?stop = "length pre + (length (attribute a) + length (concat (map attribute as)))"
  show ?case
  proof (cases "kind = 43")
    case True
    have p: "payload = concat (map attribute (nested payload))" "list_all attribute_ok (nested payload)"
      using Cons.prems(2) a True by auto
    define h where "h = pre @ le_of_nat 2 (4 + length payload) @ le_of_nat 2 kind"
    obtain rest where resp: "?resp = h @ concat (map attribute (nested payload)) @ rest"
    proof
      show "?resp = h @ concat (map attribute (nested payload)) @ replicate (align4 (4 + length payload) - (4 + length payload)) 0 @ concat (map attribute as)"
        unfolding p(1) [symmetric] by (simp add: a attribute_def h_def)
    qed
    have "length h = length pre + 4" by (simp add: h_def length_le_of_nat)
    moreover have "nested_loop (h @ concat (map attribute (nested payload)) @ rest) (length h + length payload) (length h) = prog_attached (nested payload)"
      by (rule nested_loop_finds [OF p(2)]) (use p(1) in metis)
    ultimately have "nested_loop ?resp (length pre + 4 + length payload) (length pre + 4) = prog_attached (nested payload)"
      unfolding resp by simp
    moreover have "min (length pre + (4 + length payload)) ?stop = length pre + 4 + length payload" using ge by simp
    ultimately show ?thesis
      using r ge True a by (subst attr_loop.simps) (auto simp: Let_def add.assoc)
  next
    case False
    have "attr_loop ((pre @ attribute a) @ concat (map attribute as)) (length (pre @ attribute a) + length (concat (map attribute as))) (length (pre @ attribute a)) =
       (case find (\<lambda>(kind, _). kind = 43) as of None \<Rightarrow> False | Some (_, payload) \<Rightarrow> prog_attached (nested payload))"
      using Cons.prems by (intro Cons.IH) auto
    then show ?thesis
      using r ge len False a by (subst attr_loop.simps) (auto simp: Let_def add.assoc)
  qed
qed

section \<open>Concrete inputs\<close>

definition demo_rule :: "u8 \<Rightarrow> u8 \<Rightarrow> bytes" where
  "demo_rule counter verdict = replicate 88 0 @ [112, 0, 152, 0] @ replicate 4 0 @ replicate 16 counter @
     [40, 0] @ replicate 30 0 @ [verdict, 255, 255, 255] @ replicate 4 0"

definition demo_info :: IptGetInfo where
  "demo_info = \<lparr>ig_name = table_name @ replicate 25 0, ig_valid_hooks = 2, ig_hook_entry = [0, 0, 0, 0, 0], ig_underflow = [0, 0, 0, 0, 0], ig_num_entries = 1, ig_size = 152\<rparr>"

definition demo_sock :: "u8 \<Rightarrow> u8 \<Rightarrow> ipt_sock" where
  "demo_sock counter verdict = \<lparr>is_socket = True, is_info = Some demo_info, is_entries = (\<lambda>_. Some (replicate 40 0 @ demo_rule counter verdict))\<rparr>"

lemma demo_rule_ok: "table_ok demo_info [demo_rule counter verdict]"
  by (simp add: table_ok_def demo_info_def entry_ok_def demo_rule_def num_at_def COUNTERS_OFFSET_def COUNTERS_SIZE_def NEXT_OFFSET_FIELD_def)

lemma demo_sock_reads: "read_filter_table_raw (demo_sock counter verdict) = Some (demo_info, concat [demo_rule counter verdict])"
  by (simp add: read_filter_table_raw_def demo_sock_def)

section \<open>Properties\<close>

text \<open>
  C35.  The hash of the packet filter stands for its rules: for tables as the kernel describes them, two readings give the
  same hash exactly when hooks, policies and entries are the same but for the traffic counters, unless SHA-256
  collides on the two tables.
\<close>

theorem iptables_hash_identifies_rules:
  assumes "read_filter_table_raw sock = Some (info, concat es)" and "read_filter_table_raw sock' = Some (info', concat es')"
    and "table_ok info es" and "table_ok info' es'"
    and "sha256 X (table_header info @ concat (map skip_counters es)) = sha256 X (table_header info' @ concat (map skip_counters es')) \<Longrightarrow>
      table_header info @ concat (map skip_counters es) = table_header info' @ concat (map skip_counters es')"
  shows "hash_iptables_kernel X sock = hash_iptables_kernel X sock' \<longleftrightarrow> same_structure info info' \<and> list_all2 same_but_counters es es'"
proof -
  have ok: "list_all entry_ok es" "list_all entry_ok es'" using assms(3,4) by (simp_all add: table_ok_def)
  have "hash_iptables_kernel X sock = Some (sha256 X (table_header info @ concat (map skip_counters es)))"
    "hash_iptables_kernel X sock' = Some (sha256 X (table_header info' @ concat (map skip_counters es')))"
    using assms(1,2) hash_loop_entries [OF ok(1), of "[]"] hash_loop_entries [OF ok(2), of "[]"] by (simp_all add: hash_iptables_kernel_def)
  then have "hash_iptables_kernel X sock = hash_iptables_kernel X sock' \<longleftrightarrow>
      table_header info @ concat (map skip_counters es) = table_header info' @ concat (map skip_counters es')"
    using assms(5) by auto
  also have "\<dots> \<longleftrightarrow> same_structure info info' \<and> concat (map skip_counters es) = concat (map skip_counters es')"
    by (rule table_header_inject [OF assms(3,4)])
  also have "\<dots> \<longleftrightarrow> same_structure info info' \<and> list_all2 same_but_counters es es'"
    using skipped_entries_same [OF ok] by simp
  finally show ?thesis .
qed

theorem iptables_hash_identifies_rules_witness:
  "hash_iptables_kernel demo_ext (demo_sock 0 254) = hash_iptables_kernel demo_ext (demo_sock 7 254)"
proof -
  have same: "table_header demo_info @ concat (map skip_counters [demo_rule 0 254]) = table_header demo_info @ concat (map skip_counters [demo_rule 7 254])"
    by (simp add: skip_counters_def demo_rule_def COUNTERS_OFFSET_def COUNTERS_SIZE_def)
  have "same_structure demo_info demo_info \<and> list_all2 same_but_counters [demo_rule 0 254] [demo_rule 7 254]"
    by (simp add: same_structure_def same_but_counters_def demo_rule_def)
  then show ?thesis
    using iptables_hash_identifies_rules [OF demo_sock_reads demo_sock_reads demo_rule_ok demo_rule_ok same] by blast
qed

text \<open>
  Printing the packet filter reads no byte it does not have: whatever bytes the kernel returns, the printer and its
  loops end without a panic, unless the name of a target is cut off by the end of the table, and then reading that name panics.
\<close>

theorem iptables_content_reads_inside:
  "(is_inr (read_iptables_content sock) \<or>
     (\<exists>info data off. read_filter_table_raw sock = Some (info, data) \<and> cut_off data off)) \<and>
   (is_inr (read_target_name data off) \<longleftrightarrow> \<not> cut_off data off)"
proof (cases "read_filter_table_raw sock")
  case None
  then show ?thesis by (simp add: read_iptables_content_def read_target_name_panics)
next
  case (Some t)
  obtain info bs where t: "t = (info, bs)" by fastforce
  have "is_inr (read_iptables_content sock)" if "\<And>off. \<not> cut_off bs off"
  proof -
    have "\<exists>x. chain_text info bs i name = Inr x" for i name
      using chain_text_reads [OF that, of info i name] by (cases "chain_text info bs i name") simp_all
    then obtain a b c where "chain_text info bs 1 ''INPUT'' = Inr a" "chain_text info bs 2 ''FORWARD'' = Inr b" "chain_text info bs 3 ''OUTPUT'' = Inr c"
      by metis
    then show ?thesis using Some t by (simp add: read_iptables_content_def Let_def)
  qed
  then show ?thesis using Some t read_target_name_panics by blast
qed

text \<open>
  The search for an XDP program is right: in an answer of the kernel that is made of well-formed attributes, one is
  reported as attached exactly when the first XDP attribute holds a program number that is not zero.
\<close>

theorem xdp_search_finds_program:
  assumes "list_all attribute_ok as" and "length head = 32" and "num_at 2 head 4 = 16"
    and "length head + length (concat (map attribute as)) \<le> num_at 4 head 0"
    and "\<And>payload. (43, payload) \<in> set as \<Longrightarrow> payload = concat (map attribute (nested payload)) \<and> list_all attribute_ok (nested payload)"
  shows "parse_link (head @ concat (map attribute as)) =
     Some (case find (\<lambda>(kind, _). kind = 43) as of None \<Rightarrow> False | Some (_, payload) \<Rightarrow> prog_attached (nested payload))"
proof -
  let ?resp = "head @ concat (map attribute as)"
  have "num_at 2 ?resp 4 = 16" "num_at 4 ?resp 0 = num_at 4 head 0" using assms(2,3) by (simp_all add: num_at_prefix)
  moreover have "attr_loop ?resp (length head + length (concat (map attribute as))) (length head) =
      (case find (\<lambda>(kind, _). kind = 43) as of None \<Rightarrow> False | Some (_, payload) \<Rightarrow> prog_attached (nested payload))"
    by (rule attr_loop_finds [OF assms(1,5)])
  ultimately show ?thesis using assms(2,4) by (simp add: parse_link_def min_def)
qed

theorem xdp_search_finds_program_witness:
  "parse_link (u32_le 60 @ [16, 0] @ replicate 26 0 @ concat (map attribute [(3, [1]), (43, attribute (4, u32_le 9))])) = Some True"
proof -
  let ?n = "\<lambda>_ :: bytes. [(4, u32_le 9)]" and ?as = "[(3, [1]), (43, attribute (4, u32_le 9))] :: (nat \<times> bytes) list"
  have len: "length (attribute (4, u32_le 9)) = 8" by (simp add: attribute_length align4_def)
  have "parse_link ((u32_le 60 @ [16, 0] @ replicate 26 0) @ concat (map attribute ?as)) =
     Some (case find (\<lambda>(kind, _). kind = 43) ?as of None \<Rightarrow> False | Some (_, payload) \<Rightarrow> prog_attached (?n payload))"
  proof (rule xdp_search_finds_program)
    show "list_all attribute_ok ?as" using len by (simp add: attribute_ok_def)
    show "num_at 2 (u32_le 60 @ [16, 0] @ replicate 26 0) 4 = 16" by (simp add: num_at_def)
    have "num_at 4 (u32_le 60 @ [16, 0] @ replicate 26 0) 0 = 60" by (simp add: num_at_def u32_le_def length_le_of_nat nat_of_le_of_nat)
    then show "length (u32_le 60 @ [16, 0] @ replicate 26 (0 :: u8)) + length (concat (map attribute ?as)) \<le> num_at 4 (u32_le 60 @ [16, 0] @ replicate 26 0) 0"
      using len by (simp add: attribute_length [of "(3, [1])"] attribute_length [of "(43, attribute (4, u32_le 9))"] align4_def)
  qed (auto simp: attribute_ok_def)
  also have "prog_attached (?n []) = True" by (simp add: prog_attached_def num_at_def u32_le_def length_le_of_nat nat_of_le_of_nat)
  finally show ?thesis by simp
qed

end
