(* ===== verification/Bpf.thy ===== *)
theory Bpf
  imports Netfilter Machine
begin

text \<open>
  BPF programs and maps as an agent reads them: the loaded programs, kernel probes and modules and the counters of the XDP
  filter (\<open>mfa-agent/src/ebpf/mod.rs\<close>), and the counters and events of the system monitor (\<open>mfa-agent/src/sysmon/mod.rs\<close>).  The
  answers of the \<open>bpf\<close> system call are the record \<open>bpf_kernel\<close>; the open descriptors of the process are a table, so that
  what is opened and closed can be followed.  A lookup of a counter that has more values than the buffer has room for
  writes past its end, which is undefined; it is a panic here.  Lemmas: the enumeration ends and finds every program,
  every descriptor is closed again, and the buffers are large enough.
\<close>

section \<open>The system call\<close>

record prog_info =
  pk_prog_type :: u32
  pk_id :: u32
  pk_nr_map_ids :: u32
  pk_map_ids :: "u32 list"
  pk_name :: bytes

record RawSysmonEvent =
  re_timestamp_ns :: u64
  re_pid :: u32
  re_tgid :: u32
  re_event_type :: u8
  re_comm :: bytes
  re_arg :: bytes

text \<open>
  \<open>BPF_PROG_GET_NEXT_ID\<close>; a program and a map by number, which may fail to open (\<open>None\<close>) or to be described (\<open>Some None\<close>);
  a pinned map by path; a counter (one value per possible CPU) and an event of a map; and the choice of a descriptor
  that is not in use.
\<close>

record bpf_kernel =
  bk_next_id :: "u32 \<Rightarrow> u32 option"
  bk_prog :: "u32 \<Rightarrow> prog_info option option"
  bk_map_name :: "u32 \<Rightarrow> bytes option option"
  bk_pinned :: "string \<Rightarrow> u32 option"
  bk_percpu :: "u32 \<Rightarrow> u32 \<Rightarrow> u64 list option"
  bk_event :: "u32 \<Rightarrow> u32 \<Rightarrow> RawSysmonEvent option"
  bk_fresh :: "nat list \<Rightarrow> nat"

type_synonym fds = "(nat \<times> u32) list"

definition open_fd :: "bpf_kernel \<Rightarrow> u32 \<Rightarrow> fds \<Rightarrow> nat \<times> fds" where
  "open_fd K ident T = (let fd = bk_fresh K (map fst T) in (fd, (fd, ident) # T))"

definition close_fd :: "nat \<Rightarrow> fds \<Rightarrow> fds" where
  "close_fd fd T = filter (\<lambda>e. fst e \<noteq> fd) T"

definition close_if :: "nat option \<Rightarrow> fds \<Rightarrow> fds" where
  "close_if fd T = (case fd of None \<Rightarrow> T | Some f \<Rightarrow> close_fd f T)"

text \<open>A name of the kernel is a field of 16 bytes, ended by the first zero.\<close>

definition lossy_field :: "bytes \<Rightarrow> string" where
  "lossy_field name = bytes_to_text (take (position_zero name 16) name)"

definition strict_field :: "bytes \<Rightarrow> string" where
  "strict_field name =
     (let s = map (\<lambda>b. char_of (unat b)) (take (position_zero name 16) name) in if utf8_valid s then s else [])"

section \<open>Programs, probes, modules\<close>

definition EXPECTED_BPF_NAMES :: "string list" where
  "EXPECTED_BPF_NAMES =
     [''xdp_entropy'', ''sysmon_execve'', ''sysmon_ptrace'', ''sysmon_mount'', ''sysmon_socket'', ''sysmon_openat'', ''sysmon_connect'']"

definition get_bpf_prog_info :: "bpf_kernel \<Rightarrow> u32 \<Rightarrow> fds \<Rightarrow> BpfProgInfo option \<times> fds" where
  "get_bpf_prog_info K prog_id T =
     (case bk_prog K prog_id of
        None \<Rightarrow> (None, T)
      | Some answer \<Rightarrow>
          (let (fd, T) = open_fd K prog_id T; T = close_fd fd T in
           (map_option (\<lambda>info. \<lparr>bp_id = pk_id info, bp_prog_type = pk_prog_type info, bp_name = lossy_field (pk_name info)\<rparr>) answer, T)))"

partial_function (option) enumerate_loop :: "bpf_kernel \<Rightarrow> u32 \<Rightarrow> fds \<Rightarrow> (BpfProgInfo list \<times> fds) option" where
  "enumerate_loop K current_id T =
     (case bk_next_id K current_id of
        None \<Rightarrow> Some ([], T)
      | Some next_id \<Rightarrow>
          (case get_bpf_prog_info K next_id T of (info, T1) \<Rightarrow>
             Option.bind (enumerate_loop K next_id T1) (\<lambda>(rest, T2).
               Some ((case info of None \<Rightarrow> rest | Some p \<Rightarrow> p # rest), T2))))"

definition enumerate_bpf_programs :: "bpf_kernel \<Rightarrow> fds \<Rightarrow> (BpfProgInfo list \<times> fds) option" where
  "enumerate_bpf_programs K T = enumerate_loop K 0 T"

definition is_expected_bpf :: "BpfProgInfo \<Rightarrow> bool" where
  "is_expected_bpf prog = list_ex (\<lambda>expected. bp_name prog = expected) EXPECTED_BPF_NAMES"

definition bpf_prog_type_name :: "u32 \<Rightarrow> string" where
  "bpf_prog_type_name t =
     unwrap_or ''unknown'' (map_of
       [(0, ''unspec''), (1, ''socket_filter''), (2, ''kprobe''), (3, ''sched_cls''), (4, ''sched_act''), (5, ''tracepoint''),
        (6, ''xdp''), (7, ''perf_event''), (8, ''cgroup_skb''), (9, ''cgroup_sock''), (10, ''lwt_in''), (11, ''lwt_out''),
        (12, ''lwt_xmit''), (13, ''sock_ops''), (14, ''sk_skb''), (15, ''cgroup_device''), (17, ''raw_tracepoint''),
        (18, ''cgroup_sock_addr''), (20, ''tracing''), (22, ''ext''), (23, ''lsm''), (26, ''tracepoint'')] t)"

definition nonempty_lines :: "string \<Rightarrow> string list" where
  "nonempty_lines content = filter (\<lambda>l. l \<noteq> []) (str_lines content)"

definition read_kprobes :: "machine \<Rightarrow> string list" where
  "read_kprobes M =
     unwrap_or [] (find (\<lambda>probes. probes \<noteq> [])
       (map (\<lambda>path. case read_to_string M path of None \<Rightarrow> [] | Some content \<Rightarrow> nonempty_lines content)
         [''/sys/kernel/tracing/kprobe_events'', ''/sys/kernel/debug/kprobes/list'', ''/sys/kernel/debug/tracing/kprobe_events'']))"

definition read_kernel_modules :: "machine \<Rightarrow> string list" where
  "read_kernel_modules M =
     (case read_to_string M ''/proc/modules'' of
        None \<Rightarrow> []
      | Some content \<Rightarrow> map (\<lambda>l. unwrap_or ''unknown'' (nth_of 0 (split_whitespace l))) (nonempty_lines content))"

definition collect_kernel_modules :: "machine \<Rightarrow> string list" where
  "collect_kernel_modules M =
     (case read_to_string M ''/proc/modules'' of
        None \<Rightarrow> []
      | Some content \<Rightarrow> map (\<lambda>l. unwrap_or l (nth_of 0 (split_whitespace l))) (nonempty_lines content))"

definition list_loaded_bpf_programs :: "machine \<Rightarrow> BpfProgramInfo list" where
  "list_loaded_bpf_programs M =
     (case read_dir M ''/sys/fs/bpf'' of
        None \<Rightarrow> []
      | Some entries \<Rightarrow> map (\<lambda>e. \<lparr>bpi_id = 0, bpi_prog_type = ''pinned'', bpi_name = de_name e\<rparr>)
          (filter (\<lambda>e. utf8_valid (de_name e)) entries))"

definition collect_kernel_integrity :: "machine \<Rightarrow> bpf_kernel \<Rightarrow> fds \<Rightarrow> (KernelIntegrity \<times> fds) option" where
  "collect_kernel_integrity M K T =
     Option.bind (enumerate_bpf_programs K T) (\<lambda>(programs, T).
       (let unexpected = filter (\<lambda>p. \<not> is_expected_bpf p \<and> bp_name p \<noteq> []) programs;
            kprobes = read_kprobes M;
            mods = read_kernel_modules M;
            anomalies =
              map (\<lambda>p. ''unexpected BPF program: id='' @ show_word (bp_id p) @ '' type='' @ bpf_prog_type_name (bp_prog_type p) @
                '' name='' @ [CHR 0x27] @ bp_name p @ [CHR 0x27]) unexpected @
              map (\<lambda>kp. ''kprobe detected: '' @ kp) kprobes @
              map (\<lambda>m. ''kernel module loaded: '' @ m) mods
        in Some (\<lparr>ki_bpf_programs = programs, ki_bpf_program_count = word_of_nat (length programs), ki_unexpected_bpf = unexpected,
              ki_kprobes = kprobes, ki_kprobe_count = word_of_nat (length kprobes), ki_modules = mods,
              ki_module_count = word_of_nat (length mods), ki_anomalies = anomalies, ki_clean = (anomalies = [])\<rparr>, T)))"

section \<open>Counters\<close>

definition num_cpus :: "machine \<Rightarrow> nat" where
  "num_cpus M =
     (let s = unwrap_or ''0-3'' (read_to_string M ''/sys/devices/system/cpu/possible'') in
      case parse_unsigned 64 (last (str_split (CHR ''-'') (str_trim s))) of Some n \<Rightarrow> (n + 1) mod 2 ^ 64 | None \<Rightarrow> 4)"

definition read_percpu_counter :: "bpf_kernel \<Rightarrow> fds \<Rightarrow> nat \<Rightarrow> u32 \<Rightarrow> nat \<Rightarrow> u64 res" where
  "read_percpu_counter K T fd key cpus =
     (case Option.bind (map_of T fd) (\<lambda>ident. bk_percpu K ident key) of
        None \<Rightarrow> Inr 0
      | Some vals \<Rightarrow> (if cpus < length vals then Inl (Panic ''write past the end of the buffer'') else Inr (sum_list vals)))"

definition read_percpu_histogram :: "bpf_kernel \<Rightarrow> fds \<Rightarrow> nat \<Rightarrow> nat \<Rightarrow> nat \<Rightarrow> u64 list res" where
  "read_percpu_histogram K T fd entries cpus = res_map (\<lambda>key. read_percpu_counter K T fd (word_of_nat key) cpus) [0..<entries]"

section \<open>The XDP filter\<close>

record xdp_fds =
  xf_stats :: "nat option"
  xf_entropy :: "nat option"
  xf_size :: "nat option"

text \<open>One map of the program: its descriptor is kept when it is one of the three, and closed otherwise.\<close>

definition map_step :: "bpf_kernel \<Rightarrow> xdp_fds \<times> fds \<Rightarrow> u32 \<Rightarrow> xdp_fds \<times> fds" where
  "map_step K = (\<lambda>(found, T) map_id.
     (if map_id = 0 then (found, T)
      else (case bk_map_name K map_id of
        None \<Rightarrow> (found, T)
      | Some answer \<Rightarrow>
          (case open_fd K map_id T of (mfd, T) \<Rightarrow>
            (case answer of
              None \<Rightarrow> (found, close_fd mfd T)
            | Some field \<Rightarrow>
                (let mname = strict_field field in
                 if mname = ''stats'' then (found\<lparr>xf_stats := Some mfd\<rparr>, T)
                 else if mname = ''entropy_hist'' then (found\<lparr>xf_entropy := Some mfd\<rparr>, T)
                 else if mname = ''size_hist'' then (found\<lparr>xf_size := Some mfd\<rparr>, T)
                 else (found, close_fd mfd T)))))))"

text \<open>The kernel fills an array of 16 numbers and tells how many the program has.\<close>

definition seen_map_ids :: "prog_info \<Rightarrow> u32 list" where
  "seen_map_ids info = take (unat (pk_nr_map_ids info)) (take 16 (pk_map_ids info @ replicate 16 0))"

definition no_fds :: xdp_fds where "no_fds = \<lparr>xf_stats = None, xf_entropy = None, xf_size = None\<rparr>"

partial_function (option) find_xdp_maps :: "bpf_kernel \<Rightarrow> u32 \<Rightarrow> fds \<Rightarrow> (xdp_fds option \<times> fds) option" where
  "find_xdp_maps K current_id T =
     (case bk_next_id K current_id of
        None \<Rightarrow> Some (None, T)
      | Some next_id \<Rightarrow>
          (case bk_prog K next_id of
             None \<Rightarrow> find_xdp_maps K next_id T
           | Some answer \<Rightarrow>
               (case open_fd K next_id T of (prog_fd, T1) \<Rightarrow>
                 (case answer of
                    None \<Rightarrow> find_xdp_maps K next_id (close_fd prog_fd T1)
                  | Some info \<Rightarrow>
                      (if strict_field (pk_name info) \<noteq> ''xdp_entropy'' then find_xdp_maps K next_id (close_fd prog_fd T1)
                       else (case foldl (map_step K) (no_fds, close_fd prog_fd T1) (seen_map_ids info) of (found, T2) \<Rightarrow>
                         (if xf_stats found \<noteq> None then Some (Some found, T2)
                          else find_xdp_maps K next_id (close_if (xf_size found) (close_if (xf_entropy found) T2)))))))))"

definition xdp_inactive :: XdpStats where
  "xdp_inactive = \<lparr>xs_active = False, xs_passed = 0, xs_drop_entropy = 0, xs_drop_protocol = 0, xs_drop_port = 0, xs_total = 0,
     xs_exempt = 0, xs_entropy_histogram = [], xs_size_histogram = []\<rparr>"

definition histogram_if :: "bpf_kernel \<Rightarrow> fds \<Rightarrow> nat option \<Rightarrow> nat \<Rightarrow> nat \<Rightarrow> u64 list res" where
  "histogram_if K T fd entries cpus = (case fd of None \<Rightarrow> Inr [] | Some f \<Rightarrow> read_percpu_histogram K T f entries cpus)"

definition read_found :: "bpf_kernel \<Rightarrow> fds \<Rightarrow> xdp_fds \<Rightarrow> nat \<Rightarrow> nat \<Rightarrow> XdpStats res" where
  "read_found K T found stats_fd cpus =
     (let counter = (\<lambda>key. read_percpu_counter K T stats_fd key cpus) in
      res_bind (counter 0) (\<lambda>passed. res_bind (counter 1) (\<lambda>drop_entropy. res_bind (counter 2) (\<lambda>drop_protocol.
      res_bind (counter 3) (\<lambda>drop_port. res_bind (counter 4) (\<lambda>total. res_bind (counter 5) (\<lambda>exempt.
      res_bind (histogram_if K (close_if (xf_stats found) T) (xf_entropy found) 26 cpus) (\<lambda>entropy.
      res_bind (histogram_if K (close_if (xf_entropy found) (close_if (xf_stats found) T)) (xf_size found) 16 cpus) (\<lambda>size.
        Inr \<lparr>xs_active = True, xs_passed = passed, xs_drop_entropy = drop_entropy, xs_drop_protocol = drop_protocol,
          xs_drop_port = drop_port, xs_total = total, xs_exempt = exempt, xs_entropy_histogram = entropy,
          xs_size_histogram = size\<rparr>)))))))))"

definition read_xdp_stats :: "machine \<Rightarrow> bpf_kernel \<Rightarrow> fds \<Rightarrow> (XdpStats res \<times> fds) option" where
  "read_xdp_stats M K T =
     Option.bind (find_xdp_maps K 0 T) (\<lambda>(found, T1).
       (case found of
          None \<Rightarrow> Some (Inr xdp_inactive, T1)
        | Some f \<Rightarrow> Some (read_found K T1 f (unwrap_or 0 (xf_stats f)) (num_cpus M),
            close_if (xf_size f) (close_if (xf_entropy f) (close_if (xf_stats f) T1)))))"

section \<open>The system monitor\<close>

definition sum_percpu :: "u64 list \<Rightarrow> u64" where
  "sum_percpu vals = sum_list vals"

definition event_type_name :: "u8 \<Rightarrow> string" where
  "event_type_name t =
     (if t = 0 then ''execve'' else if t = 1 then ''ptrace'' else if t = 2 then ''mount'' else if t = 3 then ''socket_exotic''
      else if t = 4 then ''open_sensitive'' else if t = 5 then ''connect_unauthorized'' else ''unknown('' @ show_word t @ '')'')"

definition bytes_to_string :: "bytes \<Rightarrow> string" where
  "bytes_to_string buf = bytes_to_text (take (position_zero buf (length buf)) buf)"

definition parse_ip_arg :: "bytes \<Rightarrow> string" where
  "parse_ip_arg arg =
     (if 6 \<le> length arg
      then dotted (take 4 arg) @ '':'' @ show_nat (unat (arg ! 4) + 256 * unat (arg ! 5))
      else bytes_to_string arg)"

definition parse_event :: "RawSysmonEvent \<Rightarrow> SysmonEvent" where
  "parse_event raw =
     \<lparr>ev_timestamp_ns = re_timestamp_ns raw, ev_pid = re_pid raw, ev_tgid = re_tgid raw,
      ev_event_type = event_type_name (re_event_type raw), ev_comm = bytes_to_string (re_comm raw),
      ev_arg = (if re_event_type raw = 5 then parse_ip_arg (re_arg raw) else bytes_to_string (re_arg raw))\<rparr>"

definition sysmon_inactive :: SysmonState where
  "sysmon_inactive = \<lparr>sm_active = False, sm_execve_count = 0, sm_ptrace_count = 0, sm_mount_count = 0, sm_socket_count = 0,
     sm_sensitive_open_count = 0, sm_connect_count = 0, sm_connect_unauthorized_count = 0, sm_socket_exotic_count = 0,
     sm_total_hooks = 0, sm_anomalies_detected = False, sm_recent_events = [], sm_execve_agent_count = 0\<rparr>"

text \<open>\<open>bpf_map_lookup_percpu\<close> and the closure \<open>read_counter\<close>.\<close>

definition read_counter :: "bpf_kernel \<Rightarrow> u32 \<Rightarrow> nat \<Rightarrow> u32 \<Rightarrow> u64 res" where
  "read_counter K stats_map cpus idx =
     (case bk_percpu K stats_map idx of
        None \<Rightarrow> Inr 0
      | Some vals \<Rightarrow> (if cpus < length vals then Inl (Panic ''write past the end of the buffer'') else Inr (sum_percpu vals)))"

definition read_counters :: "bpf_kernel \<Rightarrow> u32 \<Rightarrow> nat \<Rightarrow> SysmonState res" where
  "read_counters K stats_map cpus =
     res_bind (res_map (\<lambda>idx. read_counter K stats_map cpus (word_of_nat idx)) [0..<10]) (\<lambda>v.
       Inr \<lparr>sm_active = True, sm_execve_count = v ! 0, sm_ptrace_count = v ! 1, sm_mount_count = v ! 2, sm_socket_count = v ! 3,
         sm_sensitive_open_count = v ! 4, sm_connect_count = v ! 5, sm_connect_unauthorized_count = v ! 6,
         sm_socket_exotic_count = v ! 7, sm_total_hooks = v ! 8,
         sm_anomalies_detected = (0 < v ! 0 \<or> 0 < v ! 1 \<or> 0 < v ! 2 \<or> 0 < v ! 6 \<or> 0 < v ! 7),
         sm_recent_events = [], sm_execve_agent_count = v ! 9\<rparr>)"

definition read_events :: "bpf_kernel \<Rightarrow> u32 \<Rightarrow> SysmonEvent list" where
  "read_events K events_map =
     sort_key (\<lambda>e. 2 ^ 64 - unat (ev_timestamp_ns e))
       (map parse_event (filter (\<lambda>raw. 0 < re_timestamp_ns raw) (flatten (map (\<lambda>i. bk_event K events_map (word_of_nat i)) [0..<32]))))"

text \<open>Both maps are opened by path and closed again.\<close>

definition read_sysmon_state :: "machine \<Rightarrow> bpf_kernel \<Rightarrow> fds \<Rightarrow> SysmonState res \<times> fds" where
  "read_sysmon_state M K T =
     (case bk_pinned K ''/sys/fs/bpf/sysmon/sysmon_stats'' of
        None \<Rightarrow> (Inr sysmon_inactive, T)
      | Some stats_map \<Rightarrow>
          (case open_fd K stats_map T of (stats_fd, T1) \<Rightarrow>
            (case read_counters K stats_map (num_cpus M) of
               Inl e \<Rightarrow> (Inl e, T1)
             | Inr state \<Rightarrow>
                 (let T2 = close_fd stats_fd T1 in
                  case bk_pinned K ''/sys/fs/bpf/sysmon/sysmon_events'' of
                    None \<Rightarrow> (Inr state, T2)
                  | Some events_map \<Rightarrow>
                      (case open_fd K events_map T2 of (events_fd, T3) \<Rightarrow>
                        (Inr (state\<lparr>sm_recent_events := read_events K events_map\<rparr>), close_fd events_fd T3))))))"

section \<open>Lemmas on descriptors\<close>

text \<open>The kernel hands out descriptors that are not in use.\<close>

definition fresh_fds :: "bpf_kernel \<Rightarrow> bool" where
  "fresh_fds K \<longleftrightarrow> (\<forall>used. bk_fresh K used \<notin> set used)"

lemma close_fd_unused: "fd \<notin> set (map fst T) \<Longrightarrow> close_fd fd T = T"
  by (auto simp: close_fd_def filter_id_conv)

lemma close_fd_Cons: "close_fd fd (e # T) = (if fst e = fd then close_fd fd T else e # close_fd fd T)"
  by (simp add: close_fd_def)

lemma close_open [simp]:
  "fresh_fds K \<Longrightarrow> close_fd (fst (open_fd K ident T)) (snd (open_fd K ident T)) = T"
  by (simp add: open_fd_def Let_def close_fd_Cons close_fd_unused fresh_fds_def del: set_map)

lemma get_bpf_prog_info_closes: "fresh_fds K \<Longrightarrow> snd (get_bpf_prog_info K i T) = T"
  by (simp add: get_bpf_prog_info_def case_prod_beta Let_def split: option.split)

lemma sysmon_closes:
  assumes "fresh_fds K" and "read_sysmon_state M K T = (Inr state, T')"
  shows "T' = T"
  using assms(2) close_open [OF assms(1)]
  by (auto simp: read_sysmon_state_def case_prod_beta Let_def split: option.splits sum.splits)

section \<open>Lemmas on the enumeration\<close>

text \<open>\<open>BPF_PROG_GET_NEXT_ID\<close> gives the least number in use above the one it is given.\<close>

definition kernel_ids :: "bpf_kernel \<Rightarrow> u32 set \<Rightarrow> bool" where
  "kernel_ids K S \<longleftrightarrow>
     (\<forall>i. bk_next_id K i = (if {j \<in> S. i < j} = {} then None else Some (Min {j \<in> S. i < j})))"

definition prog_at :: "bpf_kernel \<Rightarrow> u32 \<Rightarrow> BpfProgInfo option" where
  "prog_at K i = fst (get_bpf_prog_info K i [])"

lemma prog_at_table: "fst (get_bpf_prog_info K i T) = prog_at K i"
  by (simp add: prog_at_def get_bpf_prog_info_def case_prod_beta Let_def split: option.split)

definition ids_above :: "u32 set \<Rightarrow> u32 \<Rightarrow> u32 list" where
  "ids_above S i = sorted_list_of_set {j \<in> S. i < j}"

lemma above_Min:
  assumes "{j \<in> S. (i :: u32) < j} \<noteq> {}" and "m = Min {j \<in> S. i < j}"
  shows "ids_above S i = m # ids_above S m"
proof -
  have fin: "finite {j \<in> S. i < j}" by simp
  have m: "m \<in> {j \<in> S. i < j}" using Min_in [OF fin assms(1)] assms(2) by simp
  then have "{j \<in> S. i < j} - {m} = {j \<in> S. m < j}"
    using assms(2) Min_le [OF fin] by (auto simp: order.strict_iff_order)
  then show ?thesis
    using sorted_list_of_set_nonempty [OF fin assms(1)] assms(2) by (simp add: ids_above_def)
qed

lemma next_id_cases:
  assumes "kernel_ids K S"
  obtains "bk_next_id K i = None" "ids_above S i = []"
  | m where "bk_next_id K i = Some m" "ids_above S i = m # ids_above S m"
proof (cases "{j \<in> S. i < j} = {}")
  case True
  have "bk_next_id K i = None" using assms True by (simp add: kernel_ids_def)
  moreover have "ids_above S i = []" unfolding ids_above_def True by simp
  ultimately show ?thesis by (rule that(1))
next
  case False
  then have "bk_next_id K i = Some (Min {j \<in> S. i < j})" using assms by (simp add: kernel_ids_def)
  then show ?thesis using that(2) above_Min [OF False refl] by blast
qed

lemma enumerate_loop_lists:
  assumes "kernel_ids K S" and "fresh_fds K"
  shows "enumerate_loop K i T = Some (List.map_filter (prog_at K) (ids_above S i), T)"
proof (induction "length (ids_above S i)" arbitrary: i rule: less_induct)
  case less
  show ?case
  proof (rule next_id_cases [OF assms(1), of i])
    assume "bk_next_id K i = None" "ids_above S i = []"
    then show ?case by (subst enumerate_loop.simps) (simp add: List.map_filter_simps)
  next
    fix m assume m: "bk_next_id K i = Some m" "ids_above S i = m # ids_above S m"
    have "get_bpf_prog_info K m T = (prog_at K m, T)"
      using get_bpf_prog_info_closes [OF assms(2), of m T] prog_at_table [of K m T] by (cases "get_bpf_prog_info K m T") simp
    with m less [of m] show ?case
      by (subst enumerate_loop.simps) (simp add: List.map_filter_simps split: option.split)
  qed
qed

lemma ids_above_0: "set (ids_above S 0) = S - {0}"
  by (auto simp: ids_above_def word_gt_0)

section \<open>Lemmas on the maps of a program\<close>

definition wanted :: "string \<Rightarrow> bool" where
  "wanted name \<longleftrightarrow> name = ''stats'' \<or> name = ''entropy_hist'' \<or> name = ''size_hist''"

definition slot :: "xdp_fds \<Rightarrow> string \<Rightarrow> nat option" where
  "slot found name =
     (if name = ''stats'' then xf_stats found else if name = ''entropy_hist'' then xf_entropy found
      else if name = ''size_hist'' then xf_size found else None)"

text \<open>The names of the maps a program has; no two have the same wanted name.\<close>

definition map_names :: "bpf_kernel \<Rightarrow> u32 list \<Rightarrow> string list" where
  "map_names K ids = List.map_filter (\<lambda>i. if i = 0 then None
     else (case bk_map_name K i of Some (Some field) \<Rightarrow> Some (strict_field field) | _ \<Rightarrow> None)) ids"

definition names_once :: "bpf_kernel \<Rightarrow> u32 list \<Rightarrow> bool" where
  "names_once K ids \<longleftrightarrow> distinct (filter wanted (map_names K ids))"

definition put :: "xdp_fds \<Rightarrow> string \<Rightarrow> nat \<Rightarrow> xdp_fds" where
  "put found name fd =
     (if name = ''stats'' then found\<lparr>xf_stats := Some fd\<rparr> else if name = ''entropy_hist'' then found\<lparr>xf_entropy := Some fd\<rparr>
      else if name = ''size_hist'' then found\<lparr>xf_size := Some fd\<rparr> else found)"

lemma slot_put: "slot (put found n fd) m = (if m = n \<and> wanted n then Some fd else slot found m)"
proof (cases "wanted n")
  case True
  then show ?thesis unfolding wanted_def by (elim disjE; simp add: slot_def put_def wanted_def)
next
  case False
  then have "put found n fd = found" by (auto simp: put_def wanted_def)
  with False show ?thesis by simp
qed

lemma slot_wanted: "slot found n = Some fd \<Longrightarrow> wanted n"
  by (simp add: slot_def wanted_def split: if_splits)

lemma map_step_put:
  assumes "fresh_fds K"
  shows "map_step K (found, T) i =
    (case map_names K [i] of name # _ \<Rightarrow> (if wanted name then (put found name (fst (open_fd K i T)), snd (open_fd K i T)) else (found, T)) | [] \<Rightarrow> (found, T))"
proof -
  obtain fd T2 where fd: "open_fd K i T = (fd, T2)" by fastforce
  have close: "close_fd fd T2 = T" using close_open [OF assms, of i T] fd by simp
  show ?thesis
  proof (cases "bk_map_name K i")
    case None
    then show ?thesis by (simp add: map_step_def map_names_def List.map_filter_simps)
  next
    case (Some answer)
    with fd close show ?thesis
      by (cases answer) (simp_all add: map_step_def map_names_def List.map_filter_simps Let_def put_def wanted_def)
  qed
qed

definition held :: "xdp_fds \<Rightarrow> nat set" where
  "held found = {f. \<exists>n. slot found n = Some f}"

lemma held_put: "wanted n \<Longrightarrow> slot found n = None \<Longrightarrow> held (put found n fd) = insert fd (held found)"
  by (auto simp: held_def slot_put) (metis option.distinct(1))+

text \<open>Beside the table \<open>T\<close> of the start, exactly the descriptors that are kept are open.\<close>

definition only_held :: "fds \<Rightarrow> xdp_fds \<Rightarrow> fds \<Rightarrow> bool" where
  "only_held T found T' \<longleftrightarrow> (\<exists>es. T' = es @ T \<and> fst ` set es = held found \<and> fst ` set es \<inter> fst ` set T = {})"

lemma only_held_open:
  assumes "fresh_fds K" and "only_held T found T'" and "wanted n" and "slot found n = None"
  shows "only_held T (put found n (fst (open_fd K i T'))) (snd (open_fd K i T'))"
proof -
  from assms(2) obtain es where es: "T' = es @ T" "fst ` set es = held found" "fst ` set es \<inter> fst ` set T = {}"
    by (auto simp: only_held_def)
  define fd where "fd = bk_fresh K (map fst T')"
  have "fd \<notin> set (map fst T')" unfolding fd_def using assms(1) by (simp add: fresh_fds_def del: set_map)
  then show ?thesis
    unfolding only_held_def open_fd_def Let_def fst_conv snd_conv fd_def [symmetric] held_put [OF assms(3,4)]
    by (intro exI [of _ "(fd, i) # es"]) (use es in auto)
qed

lemma map_fold_holds:
  assumes "fresh_fds K" and "only_held T found T'" and "names_once K ids"
    and "\<And>n. n \<in> set (map_names K ids) \<Longrightarrow> slot found n = None"
  shows "only_held T (fst (foldl (map_step K) (found, T') ids)) (snd (foldl (map_step K) (found, T') ids))"
  using assms(2-4)
proof (induction ids arbitrary: found T')
  case Nil
  then show ?case by simp
next
  case (Cons i ids)
  have names: "map_names K (i # ids) = map_names K [i] @ map_names K ids"
    by (simp add: map_names_def List.map_filter_simps split: option.splits)
  show ?case
  proof (cases "\<exists>n. map_names K [i] = [n] \<and> wanted n")
    case True
    then obtain n where n: "map_names K [i] = [n]" "wanted n" by blast
    have "only_held T (put found n (fst (open_fd K i T'))) (snd (open_fd K i T'))"
      using Cons.prems(1,3) n names by (intro only_held_open [OF assms(1)]) simp_all
    moreover have "names_once K ids" using Cons.prems(2) names by (simp add: names_once_def)
    moreover have "slot (put found n (fst (open_fd K i T'))) m = None" if "m \<in> set (map_names K ids)" for m
      using Cons.prems(2,3) names n that by (auto simp: slot_put names_once_def)
    ultimately show ?thesis using Cons.IH n by (simp add: map_step_put [OF assms(1)])
  next
    case False
    have "map_step K (found, T') i = (found, T')"
      using False by (auto simp: map_step_put [OF assms(1)] map_names_def List.map_filter_simps split: option.splits if_splits)
    moreover have "only_held T (fst (foldl (map_step K) (found, T') ids)) (snd (foldl (map_step K) (found, T') ids))"
      using Cons.prems names by (intro Cons.IH) (auto simp: names_once_def)
    ultimately show ?thesis by simp
  qed
qed

lemma only_held_start: "only_held T no_fds T"
  by (simp add: only_held_def held_def slot_def no_fds_def)

lemma close_if_filter: "close_if fd T = filter (\<lambda>e. Some (fst e) \<noteq> fd) T"
  by (auto simp: close_if_def close_fd_def split: option.splits intro: filter_cong)

lemma close_held:
  assumes "only_held T found T'"
  shows "close_if (xf_size found) (close_if (xf_entropy found) (close_if (xf_stats found) T')) = T"
proof -
  obtain es where es: "T' = es @ T" "fst ` set es = held found" "fst ` set es \<inter> fst ` set T = {}"
    using assms by (auto simp: only_held_def)
  have held: "f \<in> held found \<longleftrightarrow> xf_stats found = Some f \<or> xf_entropy found = Some f \<or> xf_size found = Some f" for f
  proof
    assume "f \<in> held found"
    then show "xf_stats found = Some f \<or> xf_entropy found = Some f \<or> xf_size found = Some f"
      by (auto simp: held_def slot_def split: if_splits)
  next
    assume "xf_stats found = Some f \<or> xf_entropy found = Some f \<or> xf_size found = Some f"
    then have "slot found ''stats'' = Some f \<or> slot found ''entropy_hist'' = Some f \<or> slot found ''size_hist'' = Some f"
      by (simp add: slot_def)
    then show "f \<in> held found" unfolding held_def by blast
  qed
  have "filter (\<lambda>e. fst e \<notin> held found) es = []" using es(2) by (auto simp: filter_empty_conv)
  moreover have "filter (\<lambda>e. fst e \<notin> held found) T = T" using es(2,3) by (auto simp: filter_id_conv)
  ultimately have "filter (\<lambda>e. fst e \<notin> held found) T' = T" using es(1) by simp
  moreover have "close_if (xf_size found) (close_if (xf_entropy found) (close_if (xf_stats found) T')) = filter (\<lambda>e. fst e \<notin> held found) T'"
    by (auto simp: close_if_filter held intro!: filter_cong)
  ultimately show ?thesis by simp
qed

text \<open>No XDP program has two maps of one name.\<close>

definition xdp_names_once :: "bpf_kernel \<Rightarrow> bool" where
  "xdp_names_once K \<longleftrightarrow> (\<forall>i info. bk_prog K i = Some (Some info) \<longrightarrow> names_once K (seen_map_ids info))"

lemma find_xdp_maps_holds:
  assumes "kernel_ids K S" and "fresh_fds K" and "xdp_names_once K"
  shows "\<exists>found T'. find_xdp_maps K i T = Some (found, T') \<and>
    (case found of None \<Rightarrow> T' = T | Some f \<Rightarrow> only_held T f T' \<and> xf_stats f \<noteq> None)"
proof (induction "length (ids_above S i)" arbitrary: i rule: less_induct)
  case less
  show ?case
  proof (rule next_id_cases [OF assms(1), of i])
    assume "bk_next_id K i = None"
    then show ?case by (subst find_xdp_maps.simps) simp
  next
    fix m assume m: "bk_next_id K i = Some m" "ids_above S i = m # ids_above S m"
    have IH: "\<exists>found T'. find_xdp_maps K m T = Some (found, T') \<and>
        (case found of None \<Rightarrow> T' = T | Some f \<Rightarrow> only_held T f T' \<and> xf_stats f \<noteq> None)"
      using less [of m] m(2) by simp
    obtain fd T1 where fd: "open_fd K m T = (fd, T1)" by fastforce
    have close: "close_fd fd T1 = T" using close_open [OF assms(2), of m T] fd by simp
    show ?case
    proof (cases "\<exists>info. bk_prog K m = Some (Some info) \<and> strict_field (pk_name info) = ''xdp_entropy''")
      case False
      then have "find_xdp_maps K i T = find_xdp_maps K m T"
        using m(1) fd close by (subst find_xdp_maps.simps) (auto split: option.split)
      with IH show ?thesis by simp
    next
      case True
      then obtain info where info: "bk_prog K m = Some (Some info)" "strict_field (pk_name info) = ''xdp_entropy''" by blast
      obtain found T2 where fold: "foldl (map_step K) (no_fds, T) (seen_map_ids info) = (found, T2)" by fastforce
      have held: "only_held T found T2"
        using map_fold_holds [OF assms(2) only_held_start, of "seen_map_ids info" T] assms(3) info(1) fold
        by (simp add: xdp_names_once_def no_fds_def slot_def)
      show ?thesis
      proof (cases "xf_stats found")
        case None
        then have "close_if (xf_size found) (close_if (xf_entropy found) T2) = T" using close_held [OF held] by (simp add: close_if_def)
        with None IH show ?thesis using m(1) info fd close fold by (subst find_xdp_maps.simps) simp
      next
        case (Some f)
        with held show ?thesis using m(1) info fd close fold by (subst find_xdp_maps.simps) simp
      qed
    qed
  qed
qed

section \<open>Lemmas on counters\<close>

text \<open>The kernel numbers the possible CPUs from zero and stores one value per CPU.\<close>

definition shows_cpus :: "machine \<Rightarrow> nat \<Rightarrow> bool" where
  "shows_cpus M n \<longleftrightarrow> 0 < n \<and> n < 2 ^ 64 \<and>
     read_to_string M ''/sys/devices/system/cpu/possible'' = Some ((if n = 1 then ''0'' else ''0-'' @ show_nat (n - 1)) @ [CHR 0x0A])"

definition one_value_per_cpu :: "bpf_kernel \<Rightarrow> nat \<Rightarrow> bool" where
  "one_value_per_cpu K n \<longleftrightarrow> (\<forall>m key vals. bk_percpu K m key = Some vals \<longrightarrow> length vals = n)"

lemma str_trim_token:
  assumes "list_all (\<lambda>c. \<not> is_space c) s" shows "str_trim (s @ [CHR 0x0A]) = s"
proof -
  have id: "dropWhile is_space xs = xs" if "list_all (\<lambda>c. \<not> is_space c) xs" for xs using that by (cases xs) simp_all
  have "is_space (CHR 0x0A)" by (simp add: is_space_def)
  moreover have "list_all (\<lambda>c. \<not> is_space c) (rev s)" using assms by (simp add: list_all_iff)
  ultimately show ?thesis using assms by (cases s) (simp_all add: str_trim_def id)
qed

lemma num_cpus_shown: "shows_cpus M n \<Longrightarrow> num_cpus M = n"
proof -
  assume n: "shows_cpus M n"
  let ?s = "if n = 1 then ''0'' else ''0-'' @ show_nat (n - 1)"
  have digits: "list_all (\<lambda>c. \<not> is_space c) (show_nat k) \<and> CHR ''-'' \<notin> set (show_nat k)" for k
    using show_nat_no_space not_digit_show [of "CHR ''-''"] by (simp add: is_digit_def)
  then have "str_trim (?s @ [CHR 0x0A]) = ?s" by (intro str_trim_token) (auto simp: is_space_def)
  moreover have zero: "show_nat 0 = ''0''"
    using char_of_char [of "CHR ''0''", where 'a = nat] by (simp add: show_nat.simps digit_char_def)
  have "last (str_split (CHR ''-'') ?s) = show_nat (n - 1)"
    using digits [of "n - 1"] by (simp add: zero str_split_whole)
  moreover have "n - 1 < 2 ^ 64" using n by (auto simp: shows_cpus_def)
  ultimately show ?thesis using n by (auto simp: num_cpus_def shows_cpus_def parse_unsigned_show)
qed

definition counter_value :: "bpf_kernel \<Rightarrow> u32 option \<Rightarrow> u32 \<Rightarrow> u64" where
  "counter_value K m key = (case Option.bind m (\<lambda>ident. bk_percpu K ident key) of None \<Rightarrow> 0 | Some vals \<Rightarrow> sum_list vals)"

lemma read_percpu_counter_fits:
  "one_value_per_cpu K cpus \<Longrightarrow> read_percpu_counter K T fd key cpus = Inr (counter_value K (map_of T fd) key)"
  by (auto simp: read_percpu_counter_def one_value_per_cpu_def counter_value_def split: option.splits bind_splits)

lemma histogram_fits:
  assumes "one_value_per_cpu K cpus"
  shows "\<exists>h. histogram_if K T fd entries cpus = Inr h"
proof (cases fd)
  case (Some f)
  have "histogram_if K T fd entries cpus = Inr (map (\<lambda>key. counter_value K (map_of T f) (word_of_nat key)) [0..<entries])"
    unfolding histogram_if_def read_percpu_histogram_def Some option.case
    by (intro res_map_Inr) (simp add: read_percpu_counter_fits [OF assms])
  then show ?thesis by blast
qed (simp add: histogram_if_def)

lemma read_found_fits:
  assumes "one_value_per_cpu K cpus"
  shows "\<exists>stats. read_found K T found fd cpus = Inr stats \<and> xs_active stats \<and>
    xs_passed stats = counter_value K (map_of T fd) 0 \<and> xs_drop_entropy stats = counter_value K (map_of T fd) 1 \<and>
    xs_drop_protocol stats = counter_value K (map_of T fd) 2 \<and> xs_drop_port stats = counter_value K (map_of T fd) 3 \<and>
    xs_total stats = counter_value K (map_of T fd) 4 \<and> xs_exempt stats = counter_value K (map_of T fd) 5"
proof -
  obtain e z where "histogram_if K (close_if (xf_stats found) T) (xf_entropy found) 26 cpus = Inr e"
    "histogram_if K (close_if (xf_entropy found) (close_if (xf_stats found) T)) (xf_size found) 16 cpus = Inr z"
    using histogram_fits [OF assms] by metis
  then show ?thesis by (simp add: read_found_def read_percpu_counter_fits [OF assms] Let_def)
qed

lemma sysmon_fits:
  assumes "one_value_per_cpu K (num_cpus M)" and "fresh_fds K"
  shows "\<exists>state. read_sysmon_state M K T = (Inr state, T)"
proof -
  have "\<exists>state. read_counters K m (num_cpus M) = Inr state" for m
  proof -
    have "read_counter K m (num_cpus M) idx = Inr (counter_value K (Some m) idx)" for idx
      using assms(1) by (auto simp: read_counter_def one_value_per_cpu_def counter_value_def sum_percpu_def split: option.splits)
    then show ?thesis unfolding read_counters_def by (subst res_map_Inr) simp_all
  qed
  then obtain state where "\<And>m. read_counters K m (num_cpus M) = Inr (state m)" by metis
  then have "\<exists>r T'. read_sysmon_state M K T = (Inr r, T')"
    by (simp add: read_sysmon_state_def case_prod_beta Let_def split: option.split)
  then show ?thesis using sysmon_closes [OF assms(2)] by blast
qed

lemma xdp_stats_fit:
  assumes "shows_cpus M n" and "one_value_per_cpu K n" and "kernel_ids K S" and "fresh_fds K" and "xdp_names_once K"
  shows "\<exists>stats. read_xdp_stats M K T = Some (Inr stats, T)"
proof -
  obtain found T' where f: "find_xdp_maps K 0 T = Some (found, T')"
    "case found of None \<Rightarrow> T' = T | Some f \<Rightarrow> only_held T f T' \<and> xf_stats f \<noteq> None"
    using find_xdp_maps_holds [OF assms(3-5)] by blast
  show ?thesis
  proof (cases found)
    case None
    with f show ?thesis by (simp add: read_xdp_stats_def)
  next
    case (Some g)
    with f show ?thesis
      using read_found_fits [OF assms(2), of T' g "unwrap_or 0 (xf_stats g)"] close_held [of T g T']
      by (auto simp: read_xdp_stats_def num_cpus_shown [OF assms(1)])
  qed
qed

section \<open>Concrete inputs\<close>

text \<open>Two CPUs; one XDP program with two maps and one other program.\<close>

definition field_of :: "string \<Rightarrow> bytes" where
  "field_of s = as_bytes s @ replicate (16 - length s) 0"

definition demo_prog :: "u32 \<Rightarrow> string \<Rightarrow> u32 list \<Rightarrow> prog_info" where
  "demo_prog i name maps = \<lparr>pk_prog_type = 6, pk_id = i, pk_nr_map_ids = word_of_nat (length maps), pk_map_ids = maps, pk_name = field_of name\<rparr>"

definition demo_kernel :: "string \<Rightarrow> bpf_kernel" where
  "demo_kernel other = \<lparr>bk_next_id = (\<lambda>i. if i < 3 then Some 3 else if i < 5 then Some 5 else None),
     bk_prog = (\<lambda>i. if i = 3 then Some (Some (demo_prog 3 ''xdp_entropy'' [8, 9])) else if i = 5 then Some (Some (demo_prog 5 other [])) else None),
     bk_map_name = (\<lambda>i. if i = 8 then Some (Some (field_of ''stats'')) else if i = 9 then Some (Some (field_of ''other'')) else None),
     bk_pinned = (\<lambda>_. Some 8), bk_percpu = (\<lambda>m key. if m = 8 then Some [1, 2] else None), bk_event = (\<lambda>_ _. None),
     bk_fresh = (\<lambda>used. Suc (sum_list used))\<rparr>"

definition demo_cpus :: machine where
  "demo_cpus = \<lparr>mc_file = [''/sys/devices/system/cpu/possible'' \<mapsto> ''0-1'' @ [CHR 0x0A]], mc_dir = (\<lambda>_. None), mc_link = (\<lambda>_. None),
     mc_pid = 1, mc_role = None, mc_now = 0, mc_os_error = ''io''\<rparr>"

lemma demo_kernel_ids: "kernel_ids (demo_kernel other) {3, 5}"
proof -
  have "{j \<in> {3, 5 :: u32}. i < j} = (if i < 3 then {3, 5} else if i < 5 then {5} else {})" for i
    using less_trans [of i 3 5] by auto
  then show ?thesis by (simp add: kernel_ids_def demo_kernel_def)
qed

lemma demo_kernel_fresh: "fresh_fds (demo_kernel other)"
  using member_le_sum_list by (fastforce simp: fresh_fds_def demo_kernel_def)

lemma field_of_text:
  assumes "list_all (byte_in 1 0x7F) s" and "length s < 16"
  shows "strict_field (field_of s) = s \<and> lossy_field (field_of s) = s"
proof -
  have "no_nul s" using assms(1) by (auto simp: no_nul_def list_all_iff byte_in_def)
  then have "takeWhile (\<lambda>b. b \<noteq> 0) (field_of s) = as_bytes s"
    using as_bytes_nul [of s] assms(2) by (cases "16 - length s") (auto simp: field_of_def takeWhile_append)
  then have "take (position_zero (field_of s) 16) (field_of s) = as_bytes s"
    using assms(2) by (simp add: position_zero_def Let_def field_of_def)
  moreover have "utf8_valid s" using assms(1) by (intro utf8_ascii) (auto simp: list_all_iff byte_in_def)
  ultimately show ?thesis by (simp add: strict_field_def lossy_field_def bytes_to_text_def text_of_bytes from_utf8_lossy_valid)
qed

lemma demo_kernel_names: "xdp_names_once (demo_kernel other)"
  using field_of_text [of "''stats''"] field_of_text [of "''other''"]
  by (auto simp: byte_in_def xdp_names_once_def names_once_def demo_kernel_def demo_prog_def seen_map_ids_def map_names_def List.map_filter_simps split: if_splits)

lemma demo_cpus_shown: "shows_cpus demo_cpus 2"
  using char_of_char [of "CHR ''1''", where 'a = nat]
  by (simp add: shows_cpus_def demo_cpus_def read_to_string_def show_nat.simps digit_char_def utf8_tail_def byte_in_def)

section \<open>Properties\<close>

text \<open>
  Reading the counters is safe: when the kernel numbers its CPUs and programs as it does, the search for the maps of the
  XDP filter ends, no lookup writes past its buffer, and afterwards exactly the descriptors are open that were open before.
\<close>

theorem counters_read_safely:
  assumes "shows_cpus M n" and "one_value_per_cpu K n" and "kernel_ids K S" and "fresh_fds K" and "xdp_names_once K"
  shows "(\<exists>stats. read_xdp_stats M K T = Some (Inr stats, T)) \<and> (\<exists>state. read_sysmon_state M K T = (Inr state, T))"
  using xdp_stats_fit [OF assms] sysmon_fits [of K M T] assms(2,4) num_cpus_shown [OF assms(1)] by simp

theorem counters_read_safely_witness:
  "(\<exists>stats. read_xdp_stats demo_cpus (demo_kernel ''evil'') [] = Some (Inr stats, [])) \<and>
   (\<exists>state. read_sysmon_state demo_cpus (demo_kernel ''evil'') [] = (Inr state, []))"
  by (rule counters_read_safely [OF demo_cpus_shown _ demo_kernel_ids demo_kernel_fresh demo_kernel_names])
     (simp add: one_value_per_cpu_def demo_kernel_def)

text \<open>
  C24.  The kernel check looks at every program: the enumeration ends, and the kernel is called clean exactly when every
  program that can be described has an expected name or none, no probe is listed and no module is loaded.  A program
  without a name is never reported.
\<close>

theorem kernel_clean_iff:
  assumes "kernel_ids K S" and "fresh_fds K"
  shows "\<exists>ki. collect_kernel_integrity M K T = Some (ki, T) \<and>
    (ki_clean ki \<longleftrightarrow>
      (\<forall>i \<in> S - {0}. \<forall>p. prog_at K i = Some p \<longrightarrow> bp_name p \<in> set EXPECTED_BPF_NAMES \<or> bp_name p = []) \<and>
      read_kprobes M = [] \<and> read_kernel_modules M = [])"
proof -
  have "enumerate_bpf_programs K T = Some (List.map_filter (prog_at K) (ids_above S 0), T)"
    using enumerate_loop_lists [OF assms] by (simp add: enumerate_bpf_programs_def)
  moreover have "set (List.map_filter (prog_at K) (ids_above S 0)) = {p. \<exists>i \<in> S - {0}. prog_at K i = Some p}"
    by (simp add: set_map_filter_eq ids_above_0)
  ultimately show ?thesis
    unfolding collect_kernel_integrity_def Let_def
    by (simp add: filter_empty_conv is_expected_bpf_def list_ex_iff) blast
qed

theorem kernel_clean_iff_witness:
  "\<exists>ki. collect_kernel_integrity demo_cpus (demo_kernel ''evil'') [] = Some (ki, []) \<and> \<not> ki_clean ki"
proof -
  have "prog_at (demo_kernel ''evil'') 5 = Some \<lparr>bp_id = 5, bp_prog_type = 6, bp_name = ''evil''\<rparr>"
    using field_of_text [of "''evil''"]
    by (simp add: byte_in_def prog_at_def get_bpf_prog_info_def demo_kernel_def demo_prog_def case_prod_beta Let_def)
  then show ?thesis
    using kernel_clean_iff [OF demo_kernel_ids [of "''evil''"] demo_kernel_fresh, of demo_cpus "[]"] by (auto simp: EXPECTED_BPF_NAMES_def)
qed

end
