(* ===== verification/Fd_Audit.thy ===== *)
theory Fd_Audit
  imports Machine
begin

text \<open>
  The audit of open descriptors (\<open>mfa-agent/src/ebpf/mod.rs\<close>): every descriptor of every user process is classified by what
  it points to, and reported when it should not be open.  Lemmas: exactly when nothing is reported, and that the summary
  adds up what the processes have.
\<close>

section \<open>One descriptor\<close>

definition SENSITIVE_PATHS :: "string list" where
  "SENSITIVE_PATHS = [''/dev/mem'', ''/dev/kmem'', ''/proc/kcore'', ''/proc/kallsyms'', ''/etc/shadow'', ''/etc/ld.so.preload'']"

definition classify_fd :: "string \<Rightarrow> string" where
  "classify_fd target =
     (if starts_with ''socket:'' target then ''socket''
      else if starts_with ''pipe:'' target then ''pipe''
      else if starts_with ''anon_inode:'' target then ''anon_inode''
      else if starts_with ''/dev/'' target then ''device''
      else if starts_with ''/'' target then ''file''
      else ''other'')"

definition expected_file :: "string \<Rightarrow> bool" where
  "expected_file target =
     (target = ''/dev/null'' \<or>
      list_ex (\<lambda>p. starts_with p target)
        [''/proc/'', ''/sys/'', ''/opt/mfa-agent/audit.jsonl'', ''/opt/mfa-agent/node.json'', ''/opt/mfa-agent/baselines.json'',
         ''/opt/mfa-agent/credentials.json'', ''/var/log/'', ''/run/'', ''/etc/udev/''])"

definition expected_device :: "string \<Rightarrow> bool" where
  "expected_device target = (target \<in> set [''/dev/ttyS0'', ''/dev/null'', ''/dev/tpmrm0'', ''/dev/urandom''])"

definition quoted :: "string \<Rightarrow> string" where
  "quoted s = [CHR 0x27] @ s @ [CHR 0x27]"

definition fd_text :: "u32 \<Rightarrow> string \<Rightarrow> u32 \<Rightarrow> string \<Rightarrow> string \<Rightarrow> string" where
  "fd_text pid comm fd_num what target =
     ''pid '' @ show_word pid @ '' '' @ quoted comm @ '' fd '' @ show_word fd_num @ '' has '' @ what @ '' open: '' @ target"

definition check_suspicious :: "string \<Rightarrow> string \<Rightarrow> u32 \<Rightarrow> u32 \<Rightarrow> string \<Rightarrow> string list" where
  "check_suspicious target fd_type fd_num pid comm =
     map (\<lambda>_. fd_text pid comm fd_num ''sensitive file'' target) (filter (\<lambda>p. starts_with p target) SENSITIVE_PATHS) @
     (if fd_type = ''file'' \<and> \<not> expected_file target then [fd_text pid comm fd_num ''unexpected file'' target] else []) @
     (if fd_type = ''device'' \<and> \<not> expected_device target then [fd_text pid comm fd_num ''unexpected device'' target] else [])"

section \<open>One process\<close>

definition open_fds :: "machine \<Rightarrow> u32 \<Rightarrow> (u32 \<times> string) list option" where
  "open_fds M pid =
     map_option (List.map_filter (\<lambda>e.
         Option.bind (parse_unsigned 32 (lossy_name e)) (\<lambda>n.
           map_option (\<lambda>target. (word_of_nat n, target)) (read_link M (''/proc/'' @ show_word pid @ ''/fd/'' @ show_nat n)))))
       (read_dir M (''/proc/'' @ show_word pid @ ''/fd''))"

definition audit_fd :: "ProcessFdAudit \<Rightarrow> u32 \<times> string \<Rightarrow> ProcessFdAudit" where
  "audit_fd audit = (\<lambda>(fd_num, target).
     (let fd_type = classify_fd target;
          audit = (if fd_type = ''socket'' then audit\<lparr>pfa_socket_count := pfa_socket_count audit + 1\<rparr>
                   else if fd_type = ''pipe'' then audit\<lparr>pfa_pipe_count := pfa_pipe_count audit + 1\<rparr>
                   else if fd_type = ''file'' then audit\<lparr>pfa_file_count := pfa_file_count audit + 1\<rparr>
                   else audit)
      in audit\<lparr>pfa_fd_count := pfa_fd_count audit + 1,
           pfa_suspicious := pfa_suspicious audit @ check_suspicious target fd_type fd_num (pfa_pid audit) (pfa_comm audit)\<rparr>))"

definition known_process :: "string \<Rightarrow> bool" where
  "known_process comm = (comm \<in> set [''mfa-agent'', ''mfa-logfwd'', ''mfa-monitor'', ''init'', ''bash'', ''systemd-udevd'', ''vm0-cli'', ''mfa-cli'', ''agetty''])"

definition audit_process :: "u32 \<Rightarrow> string \<Rightarrow> (u32 \<times> string) list \<Rightarrow> ProcessFdAudit" where
  "audit_process pid comm fds =
     (let audit = foldl audit_fd \<lparr>pfa_pid = pid, pfa_comm = comm, pfa_fd_count = 0, pfa_socket_count = 0, pfa_pipe_count = 0,
            pfa_file_count = 0, pfa_suspicious = []\<rparr> fds;
          audit = (if known_process comm then audit
                   else audit\<lparr>pfa_suspicious := pfa_suspicious audit @
                     [''unknown process '' @ quoted comm @ '' (pid '' @ show_word pid @ '') has '' @ show_word (pfa_fd_count audit) @ '' open fds'']\<rparr>)
      in if 2 \<le> pfa_pipe_count audit
         then audit\<lparr>pfa_suspicious := pfa_suspicious audit @
           [''pid '' @ show_word pid @ '' '' @ quoted comm @ '' has '' @ show_word (pfa_pipe_count audit) @ '' pipes (potential reverse shell)'']\<rparr>
         else audit)"

section \<open>All processes\<close>

definition add_audit :: "FdAuditSummary \<Rightarrow> ProcessFdAudit \<Rightarrow> FdAuditSummary" where
  "add_audit s a =
     \<lparr>fda_processes_audited = fda_processes_audited s + 1, fda_total_fds = fda_total_fds s + pfa_fd_count a,
      fda_total_sockets = fda_total_sockets s + pfa_socket_count a, fda_total_pipes = fda_total_pipes s + pfa_pipe_count a,
      fda_total_files = fda_total_files s + pfa_file_count a, fda_anomalies = fda_anomalies s @ pfa_suspicious a,
      fda_process_details = fda_process_details s @ [a]\<rparr>"

definition collect_fd_audit :: "machine \<Rightarrow> (u32 \<times> string) list \<Rightarrow> FdAuditSummary" where
  "collect_fd_audit M userspace_pids =
     foldl (\<lambda>summary (pid, comm). case open_fds M pid of None \<Rightarrow> summary | Some fds \<Rightarrow> add_audit summary (audit_process pid comm fds))
       \<lparr>fda_processes_audited = 0, fda_total_fds = 0, fda_total_sockets = 0, fda_total_pipes = 0, fda_total_files = 0,
        fda_anomalies = [], fda_process_details = []\<rparr> userspace_pids"

section \<open>Lemmas\<close>

text \<open>A descriptor that is not reported.\<close>

definition harmless :: "string \<Rightarrow> bool" where
  "harmless target \<longleftrightarrow> \<not> list_ex (\<lambda>p. starts_with p target) SENSITIVE_PATHS \<and>
     (classify_fd target = ''file'' \<longrightarrow> expected_file target) \<and> (classify_fd target = ''device'' \<longrightarrow> expected_device target)"

lemma check_suspicious_Nil: "check_suspicious target (classify_fd target) fd_num pid comm = [] \<longleftrightarrow> harmless target"
  by (auto simp: check_suspicious_def harmless_def filter_empty_conv list_ex_iff)

definition is_pipe :: "u32 \<times> string \<Rightarrow> bool" where
  "is_pipe f \<longleftrightarrow> classify_fd (snd f) = ''pipe''"

lemma audit_fd_fields:
  "pfa_pipe_count (audit_fd a f) = pfa_pipe_count a + (if is_pipe f then 1 else 0)"
  "pfa_suspicious (audit_fd a f) = [] \<longleftrightarrow> pfa_suspicious a = [] \<and> harmless (snd f)"
  "pfa_fd_count (audit_fd a f) = pfa_fd_count a + 1"
  using check_suspicious_Nil by (auto simp: audit_fd_def is_pipe_def case_prod_beta Let_def)

lemma audit_fold_fields:
  "pfa_pipe_count (foldl audit_fd a fds) = pfa_pipe_count a + word_of_nat (length (filter is_pipe fds)) \<and>
   pfa_fd_count (foldl audit_fd a fds) = pfa_fd_count a + word_of_nat (length fds) \<and>
   (pfa_suspicious (foldl audit_fd a fds) = [] \<longleftrightarrow> pfa_suspicious a = [] \<and> list_all (\<lambda>f. harmless (snd f)) fds)"
  by (induction fds arbitrary: a) (auto simp: audit_fd_fields)

lemma audit_process_clean:
  assumes "length fds < 2 ^ 64"
  shows "pfa_suspicious (audit_process pid comm fds) = [] \<longleftrightarrow>
    known_process comm \<and> length (filter is_pipe fds) < 2 \<and> list_all (\<lambda>f. harmless (snd f)) fds"
proof -
  have "length (filter is_pipe fds) < 2 ^ 64" by (rule le_less_trans [OF length_filter_le assms])
  then have "(2 :: u64) \<le> word_of_nat (length (filter is_pipe fds)) \<longleftrightarrow> 2 \<le> length (filter is_pipe fds)"
    by (simp add: word_le_nat_alt unat_of_nat)
  then show ?thesis
    by (auto simp: audit_process_def Let_def audit_fold_fields)
qed

definition audits :: "machine \<Rightarrow> (u32 \<times> string) list \<Rightarrow> ProcessFdAudit list" where
  "audits M pids = List.map_filter (\<lambda>(pid, comm). map_option (audit_process pid comm) (open_fds M pid)) pids"

lemma collect_as_fold:
  "foldl (\<lambda>summary (pid, comm). case open_fds M pid of None \<Rightarrow> summary | Some fds \<Rightarrow> add_audit summary (audit_process pid comm fds)) s pids =
   foldl add_audit s (audits M pids)"
  by (induction pids arbitrary: s) (auto simp: audits_def List.map_filter_simps split: option.splits)

lemma summary_adds_up:
  "foldl add_audit s as =
     \<lparr>fda_processes_audited = fda_processes_audited s + word_of_nat (length as),
      fda_total_fds = fda_total_fds s + sum_list (map pfa_fd_count as),
      fda_total_sockets = fda_total_sockets s + sum_list (map pfa_socket_count as),
      fda_total_pipes = fda_total_pipes s + sum_list (map pfa_pipe_count as),
      fda_total_files = fda_total_files s + sum_list (map pfa_file_count as),
      fda_anomalies = fda_anomalies s @ concat (map pfa_suspicious as), fda_process_details = fda_process_details s @ as\<rparr>"
  by (induction as arbitrary: s) (simp_all add: add_audit_def add.assoc)

section \<open>Concrete inputs\<close>

definition demo_fd_machine :: "string \<Rightarrow> machine" where
  "demo_fd_machine target = \<lparr>mc_file = (\<lambda>_. None),
     mc_dir = (\<lambda>path. if path = ''/proc/7/fd'' then Some [Some \<lparr>de_name = ''3'', de_file_type = None, de_is_file = None\<rparr>] else None),
     mc_link = [''/proc/7/fd/3'' \<mapsto> target], mc_pid = 1, mc_role = None, mc_now = 0, mc_os_error = ''io''\<rparr>"

section \<open>Properties\<close>

text \<open>
  C36.  The audit reports what it should: it finds nothing exactly when every process whose descriptors can be listed is a
  known one, has at most one pipe, and holds no descriptor of a sensitive path, of a file other than the expected ones
  or of another device; and the totals are those of the processes it lists.
\<close>

theorem fd_audit_clean_iff:
  assumes "\<And>pid comm fds. (pid, comm) \<in> set pids \<Longrightarrow> open_fds M pid = Some fds \<Longrightarrow> length fds < 2 ^ 64"
  shows "(fda_anomalies (collect_fd_audit M pids) = [] \<longleftrightarrow>
      (\<forall>(pid, comm) \<in> set pids. \<forall>fds. open_fds M pid = Some fds \<longrightarrow>
        known_process comm \<and> length (filter is_pipe fds) < 2 \<and> list_all (\<lambda>f. harmless (snd f)) fds)) \<and>
    fda_total_fds (collect_fd_audit M pids) = sum_list (map pfa_fd_count (fda_process_details (collect_fd_audit M pids))) \<and>
    fda_total_pipes (collect_fd_audit M pids) = sum_list (map pfa_pipe_count (fda_process_details (collect_fd_audit M pids)))"
proof -
  have "(\<forall>a \<in> set (audits M pids). pfa_suspicious a = []) \<longleftrightarrow>
      (\<forall>(pid, comm) \<in> set pids. \<forall>fds. open_fds M pid = Some fds \<longrightarrow>
        known_process comm \<and> length (filter is_pipe fds) < 2 \<and> list_all (\<lambda>f. harmless (snd f)) fds)"
    using assms
  proof (induction pids)
    case (Cons p pids)
    obtain pid comm where p: "p = (pid, comm)" by fastforce
    have IH: "(\<forall>a \<in> set (audits M pids). pfa_suspicious a = []) \<longleftrightarrow>
        (\<forall>(pid, comm) \<in> set pids. \<forall>fds. open_fds M pid = Some fds \<longrightarrow>
          known_process comm \<and> length (filter is_pipe fds) < 2 \<and> list_all (\<lambda>f. harmless (snd f)) fds)"
      using Cons.prems by (intro Cons.IH) auto
    have "audits M (p # pids) = (case open_fds M pid of None \<Rightarrow> [] | Some fds \<Rightarrow> [audit_process pid comm fds]) @ audits M pids"
      by (simp add: audits_def p List.map_filter_simps split: option.split)
    then show ?case
      using IH Cons.prems [of pid comm] p by (cases "open_fds M pid") (simp_all add: audit_process_clean)
  qed (simp add: audits_def List.map_filter_simps)
  then show ?thesis
    by (simp add: collect_fd_audit_def collect_as_fold summary_adds_up concat_eq_Nil_conv)
qed

theorem fd_audit_clean_iff_witness:
  "fda_anomalies (collect_fd_audit (demo_fd_machine ''/etc/shadow'') [(7, ''init'')]) \<noteq> []"
proof -
  let ?M = "demo_fd_machine ''/etc/shadow''"
  have digits: "show_nat 7 = ''7''" "show_nat 3 = ''3''"
    using char_of_char [of "CHR ''7''", where 'a = nat] char_of_char [of "CHR ''3''", where 'a = nat]
    by (simp_all add: show_nat.simps digit_char_def)
  have "parse_unsigned 32 ''3'' = Some 3" using parse_unsigned_show [of 32 3] digits by simp
  moreover have "from_utf8_lossy ''3'' = ''3''" "from_utf8_lossy ''/etc/shadow'' = ''/etc/shadow''"
    by (rule from_utf8_lossy_valid, rule utf8_ascii, simp add: byte_in_def)+
  ultimately have fds: "open_fds ?M 7 = Some [(3, ''/etc/shadow'')]"
    using digits by (simp add: open_fds_def demo_fd_machine_def read_dir_def read_link_def lossy_name_def show_word_def List.map_filter_simps)
  then have "\<not> (\<forall>(pid, comm) \<in> set [(7, ''init'')]. \<forall>fds. open_fds ?M pid = Some fds \<longrightarrow>
      known_process comm \<and> length (filter is_pipe fds) < 2 \<and> list_all (\<lambda>f. harmless (snd f)) fds)"
    by (simp add: harmless_def SENSITIVE_PATHS_def starts_with_def)
  moreover have "length fds < 2 ^ 64" if "(pid, comm) \<in> set [(7, ''init'')]" "open_fds ?M pid = Some fds" for pid comm fds
    using that \<open>open_fds ?M 7 = _\<close> by auto
  ultimately show ?thesis using fd_audit_clean_iff [of "[(7, ''init'')]" ?M] by blast
qed

end
