(* ===== verification/Collectors.thy ===== *)
theory Collectors
  imports Processes Measured_Files Bpf Fd_Audit Attest_Verify
begin

text \<open>
  The measured state of a node (\<open>collect_state\<close> of \<open>mfa-agent/src/ebpf/mod.rs\<close>): everything the other collector theories read,
  in one record with one hash over it.  Properties: what is collected is well-formed and bound by its hash, the
  collection ends and leaves no descriptor open, and what the verifier says of the programs is true of the files.
\<close>

section \<open>Collecting\<close>

record host =
  h_machine :: machine
  h_ipt :: ipt_sock
  h_link :: link_sock
  h_bpf :: bpf_kernel

definition hash_iptables :: "crypto_ext \<Rightarrow> host \<Rightarrow> bytes option" where
  "hash_iptables X H = hash_iptables_kernel X (h_ipt H)"

definition collect_iptables_content :: "host \<Rightarrow> string option res" where
  "collect_iptables_content H = read_iptables_content (h_ipt H)"

definition check_xdp_attached :: "host \<Rightarrow> bool option" where
  "check_xdp_attached H = check_xdp_kernel (h_link H) ''enp6s18''"

text \<open>The bytes the hash over the state is computed of.\<close>

definition u16_le :: "u16 \<Rightarrow> bytes" where
  "u16_le w = le_of_nat 2 (unat w)"

definition flag :: "bool \<Rightarrow> bytes" where
  "flag b = (if b then [1] else [0])"

definition opt_bytes :: "('a \<Rightarrow> bytes) \<Rightarrow> 'a option \<Rightarrow> bytes" where
  "opt_bytes f v = (case v of None \<Rightarrow> [] | Some x \<Rightarrow> f x)"

definition sysmon_bytes :: "SysmonState \<Rightarrow> bytes" where
  "sysmon_bytes sm =
     flag (sm_active sm) @ u64_le (sm_execve_count sm) @ u64_le (sm_ptrace_count sm) @ u64_le (sm_mount_count sm) @
     u64_le (sm_connect_unauthorized_count sm) @ u64_le (sm_socket_exotic_count sm)"

definition state_bytes :: "EbpfState \<Rightarrow> bytes" where
  "state_bytes s =
     es_process_list_hash s @ u64_le (es_process_count s) @ u64_le (es_network_connections s) @
     concat (map (\<lambda>p. u32_le (bpi_id p) @ as_bytes (bpi_name p)) (es_loaded_programs s)) @
     opt_bytes id (es_iptables_hash s) @
     opt_bytes (\<lambda>table. concat (map (\<lambda>(k, v). as_bytes k @ v) table)) (es_binary_hashes s) @
     opt_bytes id (es_binary_dir_listing_hash s) @
     opt_bytes (\<lambda>ports. concat (map u16_le ports)) (es_listening_ports s) @
     opt_bytes id (es_mount_hash s) @ opt_bytes id (es_config_hash s) @ opt_bytes id (es_sysctl_hash s) @
     opt_bytes id (es_userspace_hash s) @ opt_bytes id (es_kernel_thread_types_hash s) @
     opt_bytes id (es_connection_tuples_hash s) @ opt_bytes flag (es_xdp_attached s) @
     opt_bytes id (es_passwd_hash s) @ opt_bytes id (es_ssh_config_hash s) @ opt_bytes flag (es_ld_preload_safe s) @
     opt_bytes u32_le (es_entropy_available s) @ opt_bytes sysmon_bytes (es_sysmon s) @
     opt_bytes id (es_boot_params_hash s) @ opt_bytes id (es_dev_inventory_hash s)"

text \<open>What was read, put together; the hash is added last.\<close>

definition measured :: "crypto_ext \<Rightarrow> host \<Rightarrow> bytes \<Rightarrow> u64 \<Rightarrow> KernelIntegrity \<Rightarrow>
    ProcessIdentity list \<times> string list \<times> MasqueradeAlert list \<Rightarrow> XdpStats \<Rightarrow> SysmonState \<Rightarrow> string option \<Rightarrow> EbpfState" where
  "measured X H process_list_hash process_count integ = (\<lambda>(userspace, kthreads, masquerade) xdp sysmon iptables_content.
     (let M = h_machine H in
      \<lparr>es_loaded_programs = list_loaded_bpf_programs M, es_process_count = process_count, es_process_list_hash = process_list_hash,
       es_network_connections = count_network_connections M, es_state_hash = [], es_iptables_hash = hash_iptables X H,
       es_binary_hashes = Some (hash_binaries_for_role X M (get_node_role M)),
       es_binary_dir_listing_hash = Some (hash_binary_directory X M), es_listening_ports = Some (get_listening_ports M),
       es_mount_hash = hash_mounts X M, es_config_hash = hash_config X M, es_sysctl_hash = hash_sysctl X M,
       es_userspace_processes = Some userspace, es_userspace_hash = Some (hash_userspace X userspace),
       es_kernel_thread_types = Some kthreads, es_kernel_thread_types_hash = Some (hash_kernel_threads X kthreads),
       es_masquerade_alerts = Some masquerade, es_kernel_modules = Some (collect_kernel_modules M),
       es_connection_tuples = Some (fst (collect_connection_tuples X M)),
       es_connection_tuples_hash = Some (snd (collect_connection_tuples X M)),
       es_xdp_attached = check_xdp_attached H, es_xdp_stats = Some xdp, es_passwd_hash = hash_passwd X M,
       es_ssh_config_hash = hash_ssh_config X M, es_ld_preload_safe = Some (check_ld_preload_file M),
       es_entropy_available = read_entropy_available M, es_sysmon = Some sysmon, es_boot_params_hash = hash_boot_params X M,
       es_dev_inventory_hash = hash_dev_inventory X M, es_passwd_content = collect_passwd_content M,
       es_shadow_content = collect_shadow_content M, es_sshd_config_content = collect_sshd_config_content M,
       es_authorized_keys_content = collect_authorized_keys_content M, es_ld_preload_content = collect_ld_preload_content M,
       es_boot_params_content = collect_boot_params_content M, es_dev_inventory_list = collect_dev_inventory_list M,
       es_iptables_content = iptables_content, es_mount_content = collect_mount_content M,
       es_sysctl_content = collect_sysctl_content M, es_fd_audit = Some (collect_fd_audit M (get_userspace_pids M)),
       es_kernel_integrity = Some integ, es_init_integrity = Some (collect_init_integrity X M)\<rparr>))"

definition with_hash :: "crypto_ext \<Rightarrow> EbpfState \<Rightarrow> EbpfState" where
  "with_hash X s = s\<lparr>es_state_hash := sha256 X (state_bytes s)\<rparr>"

definition collect_state :: "crypto_ext \<Rightarrow> host \<Rightarrow> fds \<Rightarrow> (EbpfState res \<times> fds) option" where
  "collect_state X H T =
     (let M = h_machine H; K = h_bpf H in
      case hash_process_list X M of Inl e \<Rightarrow> Some (Inl e, T) | Inr process_list_hash \<Rightarrow>
     (case count_processes M of Inl e \<Rightarrow> Some (Inl e, T) | Inr process_count \<Rightarrow>
      Option.bind (collect_kernel_integrity M K T) (\<lambda>(integ, T1).
     (case collect_process_manifest M of Inl e \<Rightarrow> Some (Inl e, T1) | Inr manifest \<Rightarrow>
      Option.bind (read_xdp_stats M K T1) (\<lambda>(xdp_result, T2).
     (case xdp_result of Inl e \<Rightarrow> Some (Inl e, T2) | Inr xdp \<Rightarrow>
     (case read_sysmon_state M K T2 of (Inl e, T3) \<Rightarrow> Some (Inl e, T3) | (Inr sysmon, T3) \<Rightarrow>
     (case collect_iptables_content H of Inl e \<Rightarrow> Some (Inl e, T3) | Inr iptables_content \<Rightarrow>
        Some (Inr (with_hash X (measured X H process_list_hash process_count integ manifest xdp sysmon iptables_content)), T3)))))))))"

section \<open>Lemmas\<close>

lemma collect_state_Inr:
  assumes "collect_state X H T = Some (Inr s, T')"
  obtains ph pc integ T1 manifest xdp sysmon fw where
    "s = with_hash X (measured X H ph pc integ manifest xdp sysmon fw)" "hash_process_list X (h_machine H) = Inr ph"
    "count_processes (h_machine H) = Inr pc" "collect_kernel_integrity (h_machine H) (h_bpf H) T = Some (integ, T1)"
    "collect_process_manifest (h_machine H) = Inr manifest"
  using assms
  by (auto simp: collect_state_def Let_def split: sum.splits prod.splits bind_splits option.splits)

lemma measured_binaries:
  "es_binary_hashes (with_hash X (measured X H ph pc integ manifest xdp sysmon fw)) =
     Some (hash_binaries_for_role X (h_machine H) (get_node_role (h_machine H)))"
  by (simp add: with_hash_def measured_def Let_def case_prod_beta)

lemma process_list_readable:
  "is_inr (hash_process_list X M) \<longleftrightarrow> (\<exists>es. mc_dir M ''/proc'' = Some es \<and> None \<notin> set es)"
proof -
  have bind: "is_inr (res_bind r (\<lambda>x. Inr (f x))) \<longleftrightarrow> is_inr r" for r :: "bytes res" and f :: "bytes \<Rightarrow> bytes" by (cases r) simp_all
  have list: "is_inr (process_list_bytes M es) \<longleftrightarrow> None \<notin> set es" for es
  proof (induction es)
    case (Cons e es)
    then show ?case by (cases e) (simp_all add: Let_def bind)
  qed simp
  show ?thesis by (cases "mc_dir M ''/proc''") (simp_all add: hash_process_list_def bind list)
qed

lemma proc_readable:
  "mc_dir M ''/proc'' = Some es \<Longrightarrow> is_inr (count_processes M) \<and> is_inr (collect_process_manifest M)"
  by (simp add: count_processes_def collect_process_manifest_def read_dir_def Let_def)

text \<open>What the kernel promises: CPUs, program numbers and descriptors as it hands them out.\<close>

definition kernel_ok :: "host \<Rightarrow> bool" where
  "kernel_ok H \<longleftrightarrow> (\<exists>n S. shows_cpus (h_machine H) n \<and> one_value_per_cpu (h_bpf H) n \<and> kernel_ids (h_bpf H) S) \<and>
     fresh_fds (h_bpf H) \<and> xdp_names_once (h_bpf H)"

lemma kernel_ok_reads:
  assumes "kernel_ok H"
  obtains integ xdp sysmon where "collect_kernel_integrity (h_machine H) (h_bpf H) T = Some (integ, T)"
    "read_xdp_stats (h_machine H) (h_bpf H) T = Some (Inr xdp, T)" "read_sysmon_state (h_machine H) (h_bpf H) T = (Inr sysmon, T)"
proof -
  obtain n S where k: "shows_cpus (h_machine H) n" "one_value_per_cpu (h_bpf H) n" "kernel_ids (h_bpf H) S" "fresh_fds (h_bpf H)" "xdp_names_once (h_bpf H)"
    using assms by (auto simp: kernel_ok_def)
  have "\<exists>integ. collect_kernel_integrity (h_machine H) (h_bpf H) T = Some (integ, T)"
    using enumerate_loop_lists [OF k(3,4)] by (simp add: collect_kernel_integrity_def enumerate_bpf_programs_def Let_def)
  then show ?thesis using that xdp_stats_fit [OF k] sysmon_fits [of "h_bpf H" "h_machine H" T] k(2,4) num_cpus_shown [OF k(1)] by metis
qed

text \<open>A measured state as the rest of the program may rely on it.\<close>

definition kernel_wf :: "KernelIntegrity \<Rightarrow> bool" where
  "kernel_wf ki \<longleftrightarrow> (ki_clean ki \<longleftrightarrow> ki_anomalies ki = []) \<and> ki_bpf_program_count ki = word_of_nat (length (ki_bpf_programs ki)) \<and>
     ki_kprobe_count ki = word_of_nat (length (ki_kprobes ki)) \<and> ki_module_count ki = word_of_nat (length (ki_modules ki)) \<and>
     length (ki_anomalies ki) = length (ki_unexpected_bpf ki) + length (ki_kprobes ki) + length (ki_modules ki) \<and>
     set (ki_unexpected_bpf ki) \<subseteq> set (ki_bpf_programs ki)"

definition alerts_wf :: "ProcessIdentity list \<Rightarrow> MasqueradeAlert list \<Rightarrow> bool" where
  "alerts_wf ps as \<longleftrightarrow> list_all (\<lambda>a. looks_like_kernel_thread (ma_comm a) \<and>
     \<lparr>pi_comm = ma_comm a, pi_exe_path = ma_exe_path a\<rparr> \<in> set ps) as"

definition state_wf :: "crypto_ext \<Rightarrow> string \<Rightarrow> EbpfState \<Rightarrow> bool" where
  "state_wf X role s \<longleftrightarrow>
     es_state_hash s = sha256 X (state_bytes s) \<and>
     (\<exists>ps as. es_userspace_processes s = Some ps \<and> sorted ps \<and> distinct ps \<and> es_userspace_hash s = Some (hash_userspace X ps) \<and>
        es_masquerade_alerts s = Some as \<and> alerts_wf ps as) \<and>
     (\<exists>ts. es_kernel_thread_types s = Some ts \<and> sorted ts \<and> distinct ts \<and> es_kernel_thread_types_hash s = Some (hash_kernel_threads X ts)) \<and>
     (\<exists>ports. es_listening_ports s = Some ports \<and> sorted ports \<and> distinct ports) \<and>
     (\<exists>tuples. es_connection_tuples s = Some tuples \<and> sorted tuples \<and> distinct tuples) \<and>
     (\<exists>table. es_binary_hashes s = Some table \<and> btree_ok table \<and> dom (map_of table) = set (expected_binaries_for_role role)) \<and>
     (\<exists>ki. es_kernel_integrity s = Some ki \<and> kernel_wf ki)"

lemma manifest_wf:
  assumes "collect_process_manifest M = Inr (ps, ts, as)"
  shows "sorted ps \<and> distinct ps \<and> sorted ts \<and> distinct ts \<and> alerts_wf ps as"
proof -
  from assms obtain es where "read_dir M ''/proc'' = Some es"
    by (cases "read_dir M ''/proc''") (simp_all add: collect_process_manifest_def)
  define obs where "obs = map (observe M (excludes_self M)) es"
  have obs: "ps = sort_dedup (users_of obs)" "ts = sort_dedup (kthreads_of obs)" "as = alerts_of obs"
    using assms \<open>read_dir M _ = _\<close> by (simp_all add: collect_process_manifest_def obs_def Let_def)
  have seen: "\<exists>e. ob = observe M (excludes_self M) e" if "ob \<in> set obs" for ob using that by (auto simp: obs_def)
  have "alerts_wf ps as"
    unfolding alerts_wf_def list_all_iff
  proof
    fix a assume "a \<in> set as"
    then obtain ob where "ob \<in> set obs" "(case ob of User_Process _ a \<Rightarrow> a | _ \<Rightarrow> None) = Some a"
      unfolding obs alerts_of_def set_map_filter_eq by blast
    then obtain p where p: "User_Process p (Some a) \<in> set obs" by - (cases ob, auto)
    with seen obtain e where "observe M (excludes_self M) e = User_Process p (Some a)" by fastforce
    then have "looks_like_kernel_thread (ma_comm a)" "p = \<lparr>pi_comm = ma_comm a, pi_exe_path = ma_exe_path a\<rparr>"
      by (auto simp: observe_def Let_def split: if_splits option.splits)
    moreover have "p \<in> set ps" using p unfolding obs set_sort_dedup users_of_def set_map_filter_eq by force
    ultimately show "looks_like_kernel_thread (ma_comm a) \<and> \<lparr>pi_comm = ma_comm a, pi_exe_path = ma_exe_path a\<rparr> \<in> set ps" by simp
  qed
  then show ?thesis by (simp add: obs)
qed

lemma kernel_integrity_wf: "collect_kernel_integrity M K T = Some (ki, T') \<Longrightarrow> kernel_wf ki"
  by (auto simp: collect_kernel_integrity_def kernel_wf_def Let_def bind_eq_Some_conv)

section \<open>Concrete inputs\<close>

definition demo_host :: "string \<Rightarrow> host" where
  "demo_host content = \<lparr>
     h_machine = demo_machine ''/usr/sbin/crond''\<lparr>
       mc_file := (map_of demo_files)(''/sys/devices/system/cpu/possible'' \<mapsto> ''0-1'' @ [CHR 0x0A], ''/opt/mfa-agent/xdp-entropy.o'' \<mapsto> content)\<rparr>,
     h_ipt = \<lparr>is_socket = False, is_info = None, is_entries = (\<lambda>_. None)\<rparr>,
     h_link = \<lparr>ls_ifindex = (\<lambda>_. 0), ls_socket = False, ls_answer = (\<lambda>_. None)\<rparr>,
     h_bpf = demo_kernel ''sysmon_mount''\<rparr>"

lemma demo_kernel_ok: "kernel_ok (demo_host content)"
proof -
  have "shows_cpus (h_machine (demo_host content)) 2"
    using demo_cpus_shown by (simp add: demo_host_def shows_cpus_def demo_cpus_def read_to_string_def)
  moreover have "one_value_per_cpu (h_bpf (demo_host content)) 2" by (simp add: one_value_per_cpu_def demo_host_def demo_kernel_def)
  ultimately show ?thesis
    using demo_kernel_ids demo_kernel_fresh demo_kernel_names unfolding kernel_ok_def by (auto simp: demo_host_def)
qed

lemma collection_ends:
  assumes "kernel_ok H"
  shows "\<exists>r. collect_state X H T = Some (r, T) \<and>
    (is_inr r \<longleftrightarrow> (\<exists>es. mc_dir (h_machine H) ''/proc'' = Some es \<and> None \<notin> set es) \<and> is_inr (collect_iptables_content H))"
proof -
  obtain integ xdp sysmon where k: "collect_kernel_integrity (h_machine H) (h_bpf H) T = Some (integ, T)"
    "read_xdp_stats (h_machine H) (h_bpf H) T = Some (Inr xdp, T)" "read_sysmon_state (h_machine H) (h_bpf H) T = (Inr sysmon, T)"
    by (rule kernel_ok_reads [OF assms])
  show ?thesis
  proof (cases "hash_process_list X (h_machine H)")
    case (Inl e)
    then have "\<not> (\<exists>es. mc_dir (h_machine H) ''/proc'' = Some es \<and> None \<notin> set es)"
      using process_list_readable [of X "h_machine H"] by simp
    with Inl show ?thesis by (simp add: collect_state_def Let_def)
  next
    case (Inr ph)
    then obtain es where es: "mc_dir (h_machine H) ''/proc'' = Some es" "None \<notin> set es"
      using process_list_readable [of X "h_machine H"] by auto
    obtain pc manifest where "count_processes (h_machine H) = Inr pc" "collect_process_manifest (h_machine H) = Inr manifest"
      using proc_readable [OF es(1)] by (cases "count_processes (h_machine H)"; cases "collect_process_manifest (h_machine H)") auto
    then show ?thesis
      using k Inr es by (cases "collect_iptables_content H") (simp_all add: collect_state_def Let_def)
  qed
qed

lemma demo_readable:
  "(\<exists>es. mc_dir (h_machine (demo_host content)) ''/proc'' = Some es \<and> None \<notin> set es) \<and> is_inr (collect_iptables_content (demo_host content))"
  by (simp add: demo_host_def demo_machine_def collect_iptables_content_def read_iptables_content_def read_filter_table_raw_def)

lemma demo_collects: "\<exists>s. collect_state demo_ext (demo_host content) [] = Some (Inr s, [])"
proof -
  obtain r where "collect_state demo_ext (demo_host content) [] = Some (r, [])" "is_inr r"
    using collection_ends [OF demo_kernel_ok, of demo_ext content "[]"] demo_readable [of content] by blast
  then show ?thesis by (cases r) simp_all
qed

lemma demo_role: "get_node_role (h_machine (demo_host content)) = ''unknown''"
  by (simp add: demo_host_def demo_machine_def get_node_role_def)

text \<open>The tables of two collections on machines of the same role.\<close>

lemma programs_compared:
  assumes "collect_state X H T = Some (Inr cur, T1)" and "collect_state X H0 T0 = Some (Inr base, T2)"
    and "get_node_role (h_machine H) = role" and "get_node_role (h_machine H0) = role" and "\<And>m. sha256 X m \<noteq> []"
    and "\<And>path. path \<in> set (expected_binaries_for_role role) \<Longrightarrow> no_collision X (mc_file (h_machine H) path) (mc_file (h_machine H0) path)"
  shows "(\<exists>n. check_binaries cur base = [''BIN:OK('' @ show_nat n @ '')'']) \<longleftrightarrow>
    (\<forall>path \<in> set (expected_binaries_for_role role). mc_file (h_machine H) path = mc_file (h_machine H0) path)"
proof -
  have tables: "es_binary_hashes cur = Some (hash_binaries_for_role X (h_machine H) role)"
    "es_binary_hashes base = Some (hash_binaries_for_role X (h_machine H0) role)"
    using assms(1-4) by (auto elim!: collect_state_Inr simp: measured_binaries)
  have "distinct (map fst (hash_binaries_for_role X (h_machine H0) role))"
    using binaries_table [of X "h_machine H0" role] btree_ok_distinct by blast
  then have "binary_mismatches (hash_binaries_for_role X (h_machine H) role) (hash_binaries_for_role X (h_machine H0) role) = [] \<longleftrightarrow>
      (\<forall>path \<in> set (expected_binaries_for_role role). mc_file (h_machine H) path = mc_file (h_machine H0) path)"
    using binary_mismatches_Nil binaries_same [OF assms(5,6)] by metis
  then show ?thesis by (auto simp: check_binaries_def tables Let_def)
qed

section \<open>Properties\<close>



text \<open>
  C10.  What is collected is well-formed: its hash is the one of its parts, processes, kernel threads, ports and connections
  are sorted and each listed once, with their hashes, every alert is about a listed process named like a kernel thread,
  the table of programs has exactly the paths of the role, and the kernel report counts what it lists.
\<close>

theorem collected_state_wf:
  assumes "collect_state X H T = Some (Inr s, T')"
  shows "state_wf X (get_node_role (h_machine H)) s"
proof (rule collect_state_Inr [OF assms])
  fix ph pc integ T1 manifest xdp sysmon fw
  assume s: "s = with_hash X (measured X H ph pc integ manifest xdp sysmon fw)"
    and ki: "collect_kernel_integrity (h_machine H) (h_bpf H) T = Some (integ, T1)"
    and man: "collect_process_manifest (h_machine H) = Inr manifest"
  obtain ps ts as where m: "manifest = (ps, ts, as)" by (cases manifest)
  have "state_bytes s = state_bytes (measured X H ph pc integ manifest xdp sysmon fw)"
    unfolding s with_hash_def by (simp add: state_bytes_def)
  moreover have "dom (map_of (hash_binaries_for_role X M role)) = set (expected_binaries_for_role role)" for M role
    using binaries_table [of X M role] by (auto simp: dom_def)
  ultimately show ?thesis
    using manifest_wf [of "h_machine H" ps ts as] man kernel_integrity_wf [OF ki] binaries_table
    unfolding state_wf_def s
    by (simp add: with_hash_def measured_def m Let_def listening_ports_sorted collect_connection_tuples_def)
qed

theorem collected_state_wf_witness:
  "\<exists>s. collect_state demo_ext (demo_host ''elf'') [] = Some (Inr s, []) \<and> state_wf demo_ext ''unknown'' s"
  using demo_collects [of "''elf''"] collected_state_wf [of demo_ext "demo_host ''elf''" "[]"] demo_role [of "''elf''"] by metis



end
