(* ===== verification/Baseline_Tool.thy ===== *)
theory Baseline_Tool
  imports Config Collectors
begin

text \<open>
  The tool that captures and merges baselines (\<open>mfa-agent/src/bin/baseline-tool.rs\<close>), over a file system: \<open>init\<close>,
  \<open>capture\<close>, \<open>show\<close> and \<open>merge\<close>.  JSON is a pair of a printer and a parser for each type, as is the order in which the
  entries of a database are listed; the texts printed along the way are left out but for the summary of a baseline.
  The last part follows a node from its capture to the verdict of a verifier.
\<close>

section \<open>Environment\<close>

type_synonym files = "string \<rightharpoonup> string"

record tool_env =
  bt_x :: crypto_ext
  bt_config_of_json :: "string \<Rightarrow> NodeConfig res"
  bt_db_to_json :: "BaselineDatabase \<Rightarrow> string res"
  bt_db_of_json :: "string \<Rightarrow> BaselineDatabase res"
  bt_to_json :: "PcrBaseline \<Rightarrow> string res"
  bt_of_json :: "string \<Rightarrow> PcrBaseline res"
  bt_entries :: "BaselineDatabase \<Rightarrow> (string \<times> PcrBaseline) list"

text \<open>What the tool relies on of \<open>serde_json\<close>.\<close>

definition json_roundtrips :: "tool_env \<Rightarrow> bool" where
  "json_roundtrips B \<longleftrightarrow>
     (\<forall>db json. bt_db_to_json B db = Inr json \<longrightarrow> bt_db_of_json B json = Inr db) \<and>
     (\<forall>b json. bt_to_json B b = Inr json \<longrightarrow> bt_of_json B json = Inr b)"

definition read_file :: "files \<Rightarrow> string \<Rightarrow> string res" where
  "read_file fs path = ok_or_else ''No such file or directory'' (fs path)"

section \<open>Commands\<close>

definition cmd_init :: "tool_env \<Rightarrow> u64 \<Rightarrow> string \<Rightarrow> (files, unit) io" where
  "cmd_init B now path = save_to_file (bt_db_to_json B) (database_new now) path"

definition capture_file :: "string \<Rightarrow> string" where
  "capture_file vm_identity = ''baseline-'' @ vm_identity @ ''.json''"

text \<open>
  \<open>platform role\<close> is what the TPM stack and the collectors answer once the role of the node is set, \<open>tpm_init\<close> the outcome of
  \<open>tpm::init\<close> and \<open>now\<close> the clock.
\<close>

definition cmd_capture ::
  "tool_env \<Rightarrow> (string \<Rightarrow> tpm_env) \<Rightarrow> unit res \<Rightarrow> u64 res \<Rightarrow> string \<Rightarrow> string \<Rightarrow> (files, unit) io" where
  "cmd_capture B platform tpm_init now vm_identity description fs =
     io_bind (io_res (with_context
         ''Failed to load node config, baseline-tool needs node.json to determine this node's role''
         (load (read_file fs) (bt_config_of_json B) None))) (\<lambda>config.
     io_bind (io_res tpm_init) (\<lambda>_.
     io_bind (io_res (capture_baseline (bt_x B) (platform (role_name (cfg_role config))) now vm_identity description)) (\<lambda>baseline.
     io_bind (io_res (bt_to_json B baseline)) (\<lambda>json.
       (\<lambda>fs. (Inr (), fs(capture_file vm_identity \<mapsto> json))))))) fs"

text \<open>\<open>{:02}\<close>.\<close>

definition two_digits :: "u8 \<Rightarrow> string" where
  "two_digits n = (if n < 10 then CHR ''0'' # show_word n else show_word n)"

definition print_baseline_summary :: "string \<Rightarrow> PcrBaseline \<Rightarrow> string list res" where
  "print_baseline_summary vm_id baseline =
     res_bind (res_map (\<lambda>pcr. res_bind (slice_to (pcr_value pcr) 8) (\<lambda>start.
         Inr (''     PCR'' @ two_digits (pcr_index pcr) @ '': '' @ hex_encode start))) (bl_pcr_values baseline)) (\<lambda>pcrs.
       Inr ([vm_id, ''   Description: '' @ bl_description baseline, ''   Captured: '' @ show_word (bl_timestamp baseline),
             ''   PCRs: '' @ show_nat (length (bl_pcr_values baseline))] @
            (case bl_ima_baseline baseline of None \<Rightarrow> [] | Some ima \<Rightarrow> [''   IMA: '' @ show_word (ima_count ima) @ '' measurements'']) @
            (case bl_ebpf_baseline baseline of
               Some ebpf \<Rightarrow> [''   eBPF: '' @ show_word (es_process_count ebpf) @ '' processes, '' @ show_word (es_network_connections ebpf) @ '' connections'']
             | None \<Rightarrow> [''   eBPF: not captured'']) @
            (case bl_ak_public baseline of
               Some ak \<Rightarrow> [''   AK: '' @ show_nat (length ak) @ '' bytes (signature verification enabled)'']
             | None \<Rightarrow> [''   AK: not captured'']) @
            [''   PCR values:''] @ pcrs))"

text \<open>A file that is no database is shown as a single baseline.\<close>

definition cmd_show :: "tool_env \<Rightarrow> string \<Rightarrow> files \<Rightarrow> string list res" where
  "cmd_show B path fs =
     (case fst (load_from_file (bt_db_of_json B) path fs) of
        Inr db \<Rightarrow> res_bind (res_map (\<lambda>(vm_id, baseline). print_baseline_summary vm_id baseline) (bt_entries B db)) (\<lambda>texts. Inr (concat texts))
      | Inl _ \<Rightarrow>
          res_bind (read_file fs path) (\<lambda>json.
          res_bind (bt_of_json B json) (\<lambda>baseline. print_baseline_summary (bl_vm_identity baseline) baseline)))"

text \<open>One file of \<open>merge\<close>: added, or counted as an error.  The clock is read for the new database and at every addition.\<close>

definition merge_file ::
  "tool_env \<Rightarrow> (nat \<Rightarrow> u64) \<Rightarrow> files \<Rightarrow> BaselineDatabase \<times> nat \<times> nat \<Rightarrow> string \<Rightarrow> BaselineDatabase \<times> nat \<times> nat" where
  "merge_file B clock fs = (\<lambda>(db, merged_count, error_count) file.
     (case res_bind (read_file fs file) (bt_of_json B) of
        Inr baseline \<Rightarrow> (add_baseline (clock (Suc merged_count)) baseline db, Suc merged_count, error_count)
      | Inl _ \<Rightarrow> (db, merged_count, Suc error_count)))"

definition cmd_merge :: "tool_env \<Rightarrow> (nat \<Rightarrow> u64) \<Rightarrow> string \<Rightarrow> string list \<Rightarrow> (files, nat \<times> nat) io" where
  "cmd_merge B clock db_path baseline_files fs =
     io_bind (if fs db_path \<noteq> None then load_from_file (bt_db_of_json B) db_path else io_return (database_new (clock 0))) (\<lambda>db fs.
       (case foldl (merge_file B clock fs) (db, 0, 0) baseline_files of (db, merged_count, error_count) \<Rightarrow>
          io_bind (save_to_file (bt_db_to_json B) db db_path) (\<lambda>_. io_return (merged_count, error_count)) fs)) fs"

text \<open>\<open>main\<close>: the exit status.\<close>

definition baseline_tool_main ::
  "tool_env \<Rightarrow> (string \<Rightarrow> tpm_env) \<Rightarrow> unit res \<Rightarrow> (nat \<Rightarrow> u64) \<Rightarrow> string list \<Rightarrow> (files, nat) io" where
  "baseline_tool_main B platform tpm_init clock args =
     (if length args < 2 then io_return 1
      else if args ! 1 = ''init'' then
        (if length args < 3 then io_return 1 else io_bind (cmd_init B (clock 0) (args ! 2)) (\<lambda>_. io_return 0))
      else if args ! 1 = ''capture'' then
        (if length args < 4 then io_return 1
         else io_bind (cmd_capture B platform tpm_init (Inr (clock 0)) (args ! 2) (args ! 3)) (\<lambda>_. io_return 0))
      else if args ! 1 = ''show'' then
        (if length args < 3 then io_return 1 else (\<lambda>fs. io_bind (io_res (cmd_show B (args ! 2) fs)) (\<lambda>_. io_return 0) fs))
      else if args ! 1 = ''merge'' then
        (if length args < 4 then io_return 1 else io_bind (cmd_merge B clock (args ! 2) (drop 3 args)) (\<lambda>_. io_return 0))
      else io_return 1)"

section \<open>Lemmas on merging\<close>

text \<open>The baselines the readable files hold, in order.\<close>

definition readable :: "tool_env \<Rightarrow> files \<Rightarrow> string list \<Rightarrow> PcrBaseline list" where
  "readable B fs names =
     List.map_filter (\<lambda>name. case res_bind (read_file fs name) (bt_of_json B) of Inr b \<Rightarrow> Some b | Inl _ \<Rightarrow> None) names"

lemma readable_simps [simp]:
  "readable B fs [] = []"
  "readable B fs (name # names) =
     (case res_bind (read_file fs name) (bt_of_json B) of Inr b \<Rightarrow> b # readable B fs names | Inl _ \<Rightarrow> readable B fs names)"
  by (simp_all add: readable_def List.map_filter_simps split: sum.split)

lemma readable_append: "readable B fs (names @ others) = readable B fs names @ readable B fs others"
  by (induction names) (simp_all split: sum.split)

lemma merge_fold:
  "foldl (merge_file B clock fs) (db, m, e) names =
     (fold (\<lambda>(t, b). add_baseline t b) (zip (map (\<lambda>i. clock (Suc (m + i))) [0..<length (readable B fs names)]) (readable B fs names)) db,
      m + length (readable B fs names), e + (length names - length (readable B fs names)))"
proof (induction names arbitrary: db m e)
  case (Cons name names)
  have le: "length (readable B fs names) \<le> length names" by (induction names) (auto split: sum.split)
  have shift: "map (\<lambda>i. clock (Suc (m + i))) [0..<Suc k] = clock (Suc m) # map (\<lambda>i. clock (Suc (Suc m + i))) [0..<k]" for k
    by (simp add: upt_conv_Cons map_Suc_upt [symmetric] del: upt_Suc)
  show ?case
  proof (cases "res_bind (read_file fs name) (bt_of_json B)")
    case (Inl err)
    then have "merge_file B clock fs (db, m, e) name = (db, m, Suc e)" by (simp add: merge_file_def)
    then show ?thesis using le Inl by (simp add: Cons)
  next
    case (Inr b)
    then have "merge_file B clock fs (db, m, e) name = (add_baseline (clock (Suc m)) b db, Suc m, e)" by (simp add: merge_file_def)
    then show ?thesis using Inr by (simp add: Cons shift del: upt_Suc)
  qed
qed simp

lemma find_zip_rev:
  assumes "length ts = length bs"
  shows "map_option snd (find (\<lambda>(t, b). P b) (rev (zip ts bs))) = find P (rev bs)"
proof -
  have "map_option snd (find (\<lambda>(t, b). P b) (zip us cs)) = find P cs" if "length us = length cs" for us :: "'a list" and cs
    using that by (induction us cs rule: list_induct2) simp_all
  from this [of "rev ts" "rev bs"] assms show ?thesis by (simp add: zip_rev)
qed

text \<open>What a database file says of a node.\<close>

definition stored :: "tool_env \<Rightarrow> files \<Rightarrow> string \<Rightarrow> string \<Rightarrow> PcrBaseline option" where
  "stored B fs db_path vm =
     (case fs db_path of None \<Rightarrow> None
      | Some json \<Rightarrow> (case bt_db_of_json B json of Inl _ \<Rightarrow> None | Inr db \<Rightarrow> get_baseline db vm))"

text \<open>The baseline of a node in a list of them: the last one.\<close>

definition last_baseline :: "string \<Rightarrow> PcrBaseline list \<Rightarrow> PcrBaseline option" where
  "last_baseline vm bs = find (\<lambda>b. bl_vm_identity b = vm) (rev bs)"

lemma get_fold_readable:
  assumes "length ts = length bs"
  shows "get_baseline (fold (\<lambda>(t, b). add_baseline t b) (zip ts bs) db) vm =
    (case last_baseline vm bs of Some b \<Rightarrow> Some b | None \<Rightarrow> get_baseline db vm)"
  using find_zip_rev [OF assms, of "\<lambda>b. bl_vm_identity b = vm"]
  by (auto simp: bdb.get_fold_add last_baseline_def split: option.splits)

lemma saved_Inr:
  "io_bind (save_to_file f db path) (\<lambda>_. io_return x) fs = (Inr y, fs') \<longleftrightarrow> (\<exists>json. f db = Inr json \<and> fs' = fs(path \<mapsto> json) \<and> y = x)"
  by (auto simp: save_to_file_def io_bind_eq_Inr)

lemma merge_outcome:
  assumes "json_roundtrips B" and "cmd_merge B clock db_path names fs = (Inr (merged, errors), fs')"
  obtains db where "fs' = fs(db_path \<mapsto> db)" "is_inr (bt_db_of_json B db)"
    "\<And>vm. stored B fs' db_path vm = (case last_baseline vm (readable B fs names) of Some b \<Rightarrow> Some b | None \<Rightarrow> stored B fs db_path vm)"
    "merged = length (readable B fs names)" "errors = length names - length (readable B fs names)"
proof -
  obtain db0 where db0: "if fs db_path \<noteq> None then load_from_file (bt_db_of_json B) db_path fs = (Inr db0, fs) else db0 = database_new (clock 0)"
    and run: "(case foldl (merge_file B clock fs) (db0, 0, 0) names of (db, m, e) \<Rightarrow>
        io_bind (save_to_file (bt_db_to_json B) db db_path) (\<lambda>_. io_return (m, e)) fs) = (Inr (merged, errors), fs')"
    using assms(2) by (auto simp: cmd_merge_def io_bind_eq_Inr load_from_file_def split: if_splits option.splits)
  let ?bs = "readable B fs names" and ?ts = "map (\<lambda>i. clock (Suc (0 + i))) [0..<length (readable B fs names)]"
  let ?db = "fold (\<lambda>(t, b). add_baseline t b) (zip ?ts ?bs) db0"
  obtain json where json: "bt_db_to_json B ?db = Inr json" "fs' = fs(db_path \<mapsto> json)"
      "(merged, errors) = (0 + length ?bs, 0 + (length names - length ?bs))"
    using run unfolding merge_fold prod.case saved_Inr by blast
  have parsed: "bt_db_of_json B json = Inr ?db" using assms(1) json(1) unfolding json_roundtrips_def by blast
  have before: "get_baseline db0 vm = stored B fs db_path vm" for vm
    using db0 by (auto simp: stored_def load_from_file_def bdb.get_fresh split: if_splits option.splits)
  show thesis
  proof (rule that [OF json(2)])
    show "stored B fs' db_path vm = (case last_baseline vm ?bs of Some b \<Rightarrow> Some b | None \<Rightarrow> stored B fs db_path vm)" for vm
    proof -
      have "stored B fs' db_path vm = get_baseline ?db vm" by (simp add: stored_def json(2) parsed)
      then show ?thesis by (simp add: get_fold_readable before split: option.split)
    qed
  qed (use json(3) parsed in simp_all)
qed

lemma merge_error: "cmd_merge B clock db_path names fs = (Inl e, fs') \<Longrightarrow> fs' = fs"
  by (auto simp: cmd_merge_def io_bind_def load_from_file_def save_to_file_def io_return_def io_res_def
      split: if_splits option.splits sum.splits prod.splits)

lemma capture_outcome:
  assumes "cmd_capture B platform tpm_init now vm desc fs = (Inr (), fs')"
  obtains config b json where "load (read_file fs) (bt_config_of_json B) None = Inr config"
    "capture_baseline (bt_x B) (platform (role_name (cfg_role config))) now vm desc = Inr b"
    "bt_to_json B b = Inr json" "fs' = fs(capture_file vm \<mapsto> json)"
  using assms by (auto simp: cmd_capture_def io_bind_eq_Inr)

lemma last_baseline_here:
  "last_baseline vm later = None \<Longrightarrow> bl_vm_identity b = vm \<Longrightarrow> last_baseline vm (earlier @ b # later) = Some b"
proof -
  assume later: "last_baseline vm later = None" and b: "bl_vm_identity b = vm"
  have "find P (xs @ b # ys) = Some b" if "find P xs = None" "P b" for P xs ys
    using that by (induction xs) (auto split: if_splits)
  from this [of "\<lambda>b. bl_vm_identity b = vm" "rev later" "rev earlier"] later b show ?thesis
    by (simp add: last_baseline_def)
qed

text \<open>From the capture on the node over the copied file and the merge to the database a verifier loads.\<close>

lemma enrolled:
  assumes "json_roundtrips B" and "cmd_capture B platform tpm_init now vm desc nfs = (Inr (), nfs')"
    and "load (read_file nfs) (bt_config_of_json B) None = Inr config"
    and "fs name = nfs' (capture_file vm)" and "cmd_merge B clock db_path (earlier @ name # later) fs = (Inr counts, fs')"
    and "last_baseline vm (readable B fs later) = None" and "load_from_file (bt_db_of_json B) db_path fs' = (Inr db, fs'')"
  obtains b where "capture_baseline (bt_x B) (platform (role_name (cfg_role config))) now vm desc = Inr b" "get_baseline db vm = Some b"
proof -
  obtain b json where b: "capture_baseline (bt_x B) (platform (role_name (cfg_role config))) now vm desc = Inr b"
    "bt_to_json B b = Inr json" "nfs' = nfs(capture_file vm \<mapsto> json)"
    using capture_outcome [OF assms(2)] assms(3) by (metis sum.inject(2))
  have "bl_vm_identity b = vm" using b(1) by (auto simp: capture_baseline_Inr)
  moreover have "res_bind (read_file fs name) (bt_of_json B) = Inr b"
    using b(2,3) assms(1,4) by (auto simp: read_file_def json_roundtrips_def)
  ultimately have "last_baseline vm (readable B fs (earlier @ name # later)) = Some b"
    using last_baseline_here [OF assms(6)] by (simp add: readable_append)
  then have "stored B fs' db_path vm = Some b"
    by (cases counts) (rule merge_outcome [OF assms(1)], use assms(5) in auto)
  moreover have "stored B fs' db_path vm = get_baseline db vm"
    using assms(7) by (auto simp: load_from_file_def stored_def split: option.splits)
  ultimately show thesis using that b(1) by simp
qed

section \<open>A concrete run\<close>

definition demo_node_config :: NodeConfig where
  "demo_node_config = \<lparr>cfg_node_id = ''pr1'', cfg_role = Proxy, cfg_listen_port = 9000, cfg_circuit = [], cfg_chain2_circuit = [],
     cfg_log_mode = 0, cfg_unix_socket_path = None, cfg_vm1_address = None, cfg_credentials_path = None, cfg_baselines_path = None,
     cfg_initiate_port = None, cfg_vm4_address = None, cfg_vm0_address = None, cfg_vm3_address = None, cfg_da_listen_port = None,
     cfg_mutual_attest_port = None, cfg_vm0_ak_public_path = None\<rparr>"

text \<open>A JSON library that knows one baseline and one database.\<close>

definition demo_tool :: "PcrBaseline \<Rightarrow> tool_env" where
  "demo_tool b = \<lparr>bt_x = demo_ext, bt_config_of_json = (\<lambda>_. Inr demo_node_config),
     bt_db_to_json = (\<lambda>db. if db = add_baseline 1 b (database_new 0) then Inr ''db'' else Inl (Err ''unused'')),
     bt_db_of_json = (\<lambda>_. Inr (add_baseline 1 b (database_new 0))),
     bt_to_json = (\<lambda>x. if x = b then Inr ''one'' else Inl (Err ''unused'')), bt_of_json = (\<lambda>_. Inr b), bt_entries = (\<lambda>_. [])\<rparr>"

lemma demo_tool_json: "json_roundtrips (demo_tool b)"
  by (simp add: json_roundtrips_def demo_tool_def)

lemma demo_merge:
  assumes "fs ''db'' = None" and "fs file = Some json"
  shows "cmd_merge (demo_tool b) word_of_nat ''db'' [file] fs = (Inr (1, 0), fs(''db'' \<mapsto> ''db''))"
  using assms
  by (simp add: cmd_merge_def merge_file_def read_file_def demo_tool_def io_bind_def save_to_file_def)

definition demo_env_of :: "nat \<Rightarrow> EbpfState \<Rightarrow> tpm_env" where
  "demo_env_of n state = (demo_env n)\<lparr>te_collect_state := Inr state\<rparr>"

definition demo_quote_of :: "nat \<Rightarrow> EbpfState \<Rightarrow> TpmQuote" where
  "demo_quote_of n state = (demo_quote n)\<lparr>tq_ebpf_state := state\<rparr>"

definition demo_baseline_of :: "EbpfState \<Rightarrow> PcrBaseline" where
  "demo_baseline_of state = (demo_baseline ''pr1'')\<lparr>bl_ebpf_baseline := Some state\<rparr>"

lemma demo_generate_of: "n < 2 ^ 64 \<Longrightarrow> generate_quote demo_ext (demo_env_of n state) = Inr (demo_quote_of n state)"
  by (simp add: generate_quote_def read_pcrs_def create_ak_and_sign_quote_def read_ima_measurements_def
      read_pcr10_def demo_env_def demo_env_of_def demo_quote_def demo_quote_of_def str_trim_show parse_unsigned_show Let_def
      del: of_nat_numeral)

lemma demo_capture_of:
  "capture_baseline demo_ext (demo_env_of 200 state) (Inr 7) ''pr1'' ''golden'' = Inr (demo_baseline_of state)"
  by (simp add: capture_baseline_def demo_generate_of demo_baseline_of_def demo_baseline_def Let_def) (simp add: demo_quote_of_def demo_quote_def)

definition demo_proxy :: "string \<Rightarrow> host" where
  "demo_proxy content = (demo_host content)\<lparr>h_machine := set_node_role ''proxy'' (h_machine (demo_host content))\<rparr>"

lemma demo_proxy_machine: "h_machine (demo_proxy content) = (h_machine (demo_host content))\<lparr>mc_role := Some ''proxy''\<rparr>"
  by (simp add: demo_proxy_def set_node_role_def demo_host_def demo_machine_def)

lemma demo_proxy_collects: "\<exists>s. collect_state demo_ext (demo_proxy content) [] = Some (Inr s, [])"
proof -
  have "kernel_ok (demo_proxy content)" using demo_kernel_ok [of content] unfolding kernel_ok_def demo_proxy_machine
    by (simp add: demo_proxy_def shows_cpus_def read_to_string_def)
  moreover have "(\<exists>es. mc_dir (h_machine (demo_proxy content)) ''/proc'' = Some es \<and> None \<notin> set es) \<and> is_inr (collect_iptables_content (demo_proxy content))"
    using demo_readable [of content] unfolding demo_proxy_machine by (simp add: collect_iptables_content_def demo_proxy_def)
  ultimately obtain r where "collect_state demo_ext (demo_proxy content) [] = Some (r, [])" "is_inr r"
    using collection_ends [of "demo_proxy content" demo_ext "[]"] by blast
  then show ?thesis by (cases r) simp_all
qed

lemma demo_proxy_role: "get_node_role (h_machine (demo_proxy content)) = ''proxy''"
  by (simp add: demo_proxy_machine get_node_role_def)

lemma demo_capture_run:
  "cmd_capture (demo_tool (demo_baseline_of s)) (\<lambda>_. demo_env_of 200 s) (Inr ()) (Inr 7) ''pr1'' ''golden'' [''node.json'' \<mapsto> ''conf''] =
     (Inr (), [''node.json'' \<mapsto> ''conf'', capture_file ''pr1'' \<mapsto> ''one''])"
  by (simp add: cmd_capture_def io_bind_def load_def read_file_def demo_tool_def demo_node_config_def validate_def demo_capture_of Let_def)

section \<open>Properties\<close>

text \<open>
  Merging: afterwards the database holds for every node the baseline of the last readable file of that node, and for
  the other nodes what it held before; every file counts as merged or as an error.  No other file changes, and none at
  all when the tool fails.
\<close>

theorem merged_database:
  assumes "json_roundtrips B" and "cmd_merge B clock db_path names fs = (result, fs')"
  shows "(\<forall>merged errors. result = Inr (merged, errors) \<longrightarrow>
      (\<forall>vm. stored B fs' db_path vm = (case last_baseline vm (readable B fs names) of Some b \<Rightarrow> Some b | None \<Rightarrow> stored B fs db_path vm)) \<and>
      merged = length (readable B fs names) \<and> errors = length names - merged \<and> (\<forall>path. path \<noteq> db_path \<longrightarrow> fs' path = fs path)) \<and>
    (\<forall>e. result = Inl e \<longrightarrow> fs' = fs)"
proof (intro conjI allI impI, goal_cases)
  case (1 merged errors vm)
  show ?case by (rule merge_outcome [OF assms(1), of clock db_path names fs merged errors fs']) (use 1 assms(2) in simp_all)
next
  case (2 merged errors)
  show ?case by (rule merge_outcome [OF assms(1), of clock db_path names fs merged errors fs']) (use 2 assms(2) in simp_all)
next
  case (3 merged errors)
  show ?case by (rule merge_outcome [OF assms(1), of clock db_path names fs merged errors fs']) (use 3 assms(2) in simp_all)
next
  case (4 merged errors path)
  show ?case by (rule merge_outcome [OF assms(1), of clock db_path names fs merged errors fs']) (use 4 assms(2) in simp_all)
next
  case (5 e)
  then show ?case using assms(2) merge_error by blast
qed

theorem merged_database_witness:
  "stored (demo_tool (demo_baseline ''pr1'')) (snd (cmd_merge (demo_tool (demo_baseline ''pr1'')) word_of_nat ''db'' [''f''] [''f'' \<mapsto> ''one''])) ''db'' ''pr1'' =
     Some (demo_baseline ''pr1'')"
proof -
  let ?B = "demo_tool (demo_baseline ''pr1'')"
  have run: "cmd_merge ?B word_of_nat ''db'' [''f''] [''f'' \<mapsto> ''one''] = (Inr (1, 0), [''f'' \<mapsto> ''one'', ''db'' \<mapsto> ''db''])"
    by (rule demo_merge) simp_all
  have "stored ?B [''f'' \<mapsto> ''one'', ''db'' \<mapsto> ''db''] ''db'' ''pr1'' =
      (case last_baseline ''pr1'' (readable ?B [''f'' \<mapsto> ''one''] [''f'']) of Some b \<Rightarrow> Some b | None \<Rightarrow> stored ?B [''f'' \<mapsto> ''one''] ''db'' ''pr1'')"
    using merged_database [OF demo_tool_json run] by blast
  moreover have "readable ?B [''f'' \<mapsto> ''one''] [''f''] = [demo_baseline ''pr1'']" by (simp add: read_file_def demo_tool_def)
  moreover have "last_baseline ''pr1'' [demo_baseline ''pr1''] = Some (demo_baseline ''pr1'')" by (simp add: last_baseline_def demo_baseline_def)
  ultimately show ?thesis by (simp only: run snd_conv option.case)
qed



end
