(* ===== verification/Log_Forwarder.thy ===== *)
theory Log_Forwarder
  imports Secure_Channel Audit_Log Terminal
begin

text \<open>
  The log forwarder (\<open>mfa-monitor/src/bin/logfwd.rs\<close>) and its wire protocol (\<open>mfa-monitor/src/lib.rs\<close>): encrypted
  big-endian frames, the key exchange, the tailing of the audit log and the forwarding loop.  The file is given
  by its content at each poll; a run is observed after any number of polls.  Lemmas: the protocol is a message
  channel in both directions, and what the tailer returns over a sequence of polls.
\<close>

section \<open>Wire protocol\<close>

datatype LogFwdMessage = LmHello string | LmEntry string | LmPing

datatype LogFwdResponse = LrWelcome | LrAck | LrReject string

record fwd_env =
  fe_agent :: agent_env
  fe_messages :: "LogFwdMessage codec"
  fe_answers :: "LogFwdResponse codec"
  fe_inits :: "KeyExchangeInit codec"
  fe_responses :: "KeyExchangeResponse codec"

abbreviation fe_x where "fe_x F \<equiv> ae_x (fe_agent F)"

definition send_raw :: "nat \<Rightarrow> bytes \<Rightarrow> (node, unit) io" where
  "send_raw stream data = on_chan stream (write_frame put_be32 data)"

definition receive_raw :: "nat \<Rightarrow> (node, bytes) io" where
  "receive_raw stream =
     on_chan stream (read_frame nat_of_be (\<lambda>len. ''Message too large: '' @ show_nat len @ '' bytes''))"

definition send_fwd_message :: "fwd_env \<Rightarrow> nat \<Rightarrow> bytes \<Rightarrow> LogFwdMessage \<Rightarrow> (node, unit) io" where
  "send_fwd_message F stream key msg =
     io_bind (io_res (ser (fe_messages F) msg)) (\<lambda>plaintext.
     io_bind (encrypt_io (fe_agent F) key plaintext) (\<lambda>encrypted. send_raw stream encrypted))"

definition receive_fwd_message :: "fwd_env \<Rightarrow> nat \<Rightarrow> bytes \<Rightarrow> (node, LogFwdMessage) io" where
  "receive_fwd_message F stream key =
     io_bind (receive_raw stream) (\<lambda>encrypted.
     io_bind (io_res (decrypt (fe_x F) key encrypted)) (\<lambda>plaintext. io_res (de (fe_messages F) plaintext)))"

definition send_fwd_response :: "fwd_env \<Rightarrow> nat \<Rightarrow> bytes \<Rightarrow> LogFwdResponse \<Rightarrow> (node, unit) io" where
  "send_fwd_response F stream key msg =
     io_bind (io_res (ser (fe_answers F) msg)) (\<lambda>plaintext.
     io_bind (encrypt_io (fe_agent F) key plaintext) (\<lambda>encrypted. send_raw stream encrypted))"

definition receive_fwd_response :: "fwd_env \<Rightarrow> nat \<Rightarrow> bytes \<Rightarrow> (node, LogFwdResponse) io" where
  "receive_fwd_response F stream key =
     io_bind (receive_raw stream) (\<lambda>encrypted.
     io_bind (io_res (decrypt (fe_x F) key encrypted)) (\<lambda>plaintext. io_res (de (fe_answers F) plaintext)))"

definition establish_session_initiator :: "fwd_env \<Rightarrow> nat \<Rightarrow> string \<Rightarrow> (node, bytes) io" where
  "establish_session_initiator F stream node_id =
     io_bind (key_exchange_init_io (fe_agent F) node_id) (\<lambda>(init, kyber_sk, x25519_secret, nonce).
     io_bind (io_res (ser (fe_inits F) init)) (\<lambda>init_bytes.
     io_bind (send_raw stream init_bytes) (\<lambda>_.
     io_bind (receive_raw stream) (\<lambda>resp_bytes.
     io_bind (io_res (de (fe_responses F) resp_bytes)) (\<lambda>response.
     io_bind (io_res (complete_key_exchange (fe_x F) init response kyber_sk x25519_secret nonce)) (\<lambda>keys.
       io_return (session_key keys)))))))"

definition establish_session_responder :: "fwd_env \<Rightarrow> nat \<Rightarrow> string \<Rightarrow> (node, bytes) io" where
  "establish_session_responder F stream node_id =
     io_bind (receive_raw stream) (\<lambda>init_bytes.
     io_bind (io_res (de (fe_inits F) init_bytes)) (\<lambda>init.
     io_bind (key_exchange_response_io (fe_agent F) node_id init) (\<lambda>(response, keys).
     io_bind (io_res (ser (fe_responses F) response)) (\<lambda>resp_bytes.
     io_bind (send_raw stream resp_bytes) (\<lambda>_.
       io_return (session_key keys))))))"

section \<open>Tailing a file\<close>

record FileTailer =
  ft_path :: string
  ft_position :: nat

text \<open>The read loop on the rest of the file: the lines found and how far the position moves.\<close>

function tail_loop :: "string \<Rightarrow> string list \<times> nat" where
  "tail_loop [] = ([], 0)"
| "tail_loop (c # s) =
     (case split_line (c # s) of (line, rest) \<Rightarrow>
        if \<not> utf8_valid line then ([], 0)
        else case tail_loop rest of (ls, n) \<Rightarrow>
          (let trimmed = str_trim line in (if trimmed = [] then ls else trimmed # ls, length line + n)))"
  by pat_completeness auto
termination by (relation "measure length") (simp_all del: split_line.simps, metis length_Cons split_line_shorter)

definition tailer_new :: "string \<Rightarrow> string option \<Rightarrow> FileTailer" where
  "tailer_new path file = \<lparr>ft_path = path, ft_position = (case file of None \<Rightarrow> 0 | Some content \<Rightarrow> length content)\<rparr>"

text \<open>The metadata of an open file can be read, and it can be positioned.\<close>

definition read_new_lines :: "string option \<Rightarrow> FileTailer \<Rightarrow> string list \<times> FileTailer" where
  "read_new_lines file t =
     (case file of
        None \<Rightarrow> ([], t)
      | Some content \<Rightarrow>
          (let position = (if length content < ft_position t then 0 else ft_position t) in
           case tail_loop (drop position content) of (ls, n) \<Rightarrow> (ls, t\<lparr>ft_position := position + n\<rparr>)))"

section \<open>Forwarding\<close>

record LogFwdConfig =
  lc_node_id :: string
  lc_audit_log_path :: string
  lc_monitor_address :: string
  lc_reconnect_interval_secs :: u64
  lc_poll_interval_ms :: u64

definition fwd_load :: "(string \<Rightarrow> LogFwdConfig res) \<Rightarrow> (string \<rightharpoonup> string) \<Rightarrow> string \<Rightarrow> LogFwdConfig res" where
  "fwd_load from_json files path =
     res_bind (with_context (''Failed to read config: '' @ path) (case files path of None \<Rightarrow> Inl (Err ''No such file'') | Some json \<Rightarrow> Inr json)) (\<lambda>json.
       with_context (''Failed to parse config: '' @ path) (from_json json))"

text \<open>The same loop as \<open>connect\<close> of the agent.\<close>

definition connect_with_retry :: "'c option list \<Rightarrow> ('c \<times> u32 \<times> u64 list) option" where
  "connect_with_retry outs = connect_loop 0 1 outs"

record forwarder =
  fw_tailer :: FileTailer
  fw_entries_sent :: u64
  fw_ping_counter :: u64

fun forward_lines :: "fwd_env \<Rightarrow> nat \<Rightarrow> bytes \<Rightarrow> string list \<Rightarrow> u64 \<Rightarrow> (node, u64) io" where
  "forward_lines F stream key [] entries_sent = io_return entries_sent"
| "forward_lines F stream key (line # lines) entries_sent =
     io_bind (send_fwd_message F stream key (LmEntry line)) (\<lambda>_.
     io_bind (receive_fwd_response F stream key) (\<lambda>ack.
       forward_lines F stream key lines (case ack of LrAck \<Rightarrow> entries_sent + 1 | _ \<Rightarrow> entries_sent)))"

definition forward_poll :: "fwd_env \<Rightarrow> nat \<Rightarrow> bytes \<Rightarrow> string option \<Rightarrow> forwarder \<Rightarrow> (node, forwarder) io" where
  "forward_poll F stream key file w =
     (case read_new_lines file (fw_tailer w) of (new_lines, tailer) \<Rightarrow>
        io_bind (forward_lines F stream key new_lines (fw_entries_sent w)) (\<lambda>sent.
          (let w' = \<lparr>fw_tailer = tailer, fw_entries_sent = sent, fw_ping_counter = fw_ping_counter w + 1\<rparr> in
           if new_lines = [] \<and> fw_ping_counter w' mod 120 = 0
           then io_bind (send_fwd_message F stream key LmPing) (\<lambda>_.
                io_bind (receive_fwd_response F stream key) (\<lambda>_. io_return w'))
           else io_return w')))"

text \<open>The loop ends only with an error; this is the run up to the last of the given polls.\<close>

fun forward_polls :: "fwd_env \<Rightarrow> nat \<Rightarrow> bytes \<Rightarrow> string option list \<Rightarrow> forwarder \<Rightarrow> (node, forwarder) io" where
  "forward_polls F stream key [] w = io_return w"
| "forward_polls F stream key (file # files) w =
     io_bind (forward_poll F stream key file w) (\<lambda>w'. forward_polls F stream key files w')"

text \<open>Connect, exchange keys, say hello and wait for the welcome.\<close>

definition fwd_handshake :: "fwd_env \<Rightarrow> LogFwdConfig \<Rightarrow> (node, nat \<times> bytes) io" where
  "fwd_handshake F config =
     io_bind (open_chan (lc_monitor_address config)) (\<lambda>stream.
     io_bind (io_context ''Key exchange failed'' (establish_session_initiator F stream (lc_node_id config))) (\<lambda>key.
     io_bind (send_fwd_message F stream key (LmHello (lc_node_id config))) (\<lambda>_.
     io_bind (receive_fwd_response F stream key) (\<lambda>response.
       (case response of
          LrWelcome \<Rightarrow> io_return (stream, key)
        | LrReject reason \<Rightarrow> io_res (Inl (Err (''Monitor rejected: '' @ reason)))
        | LrAck \<Rightarrow> io_res (Inl (Err ''Unexpected response to Hello'')))))))"

definition run_forwarding ::
  "fwd_env \<Rightarrow> LogFwdConfig \<Rightarrow> string option \<Rightarrow> string option list \<Rightarrow> (node, forwarder) io" where
  "run_forwarding F config file files =
     io_bind (fwd_handshake F config) (\<lambda>(stream, key).
       forward_polls F stream key files
         \<lparr>fw_tailer = tailer_new (lc_audit_log_path config) file, fw_entries_sent = 0, fw_ping_counter = 0\<rparr>)"

text \<open>The retry loop of \<open>main\<close>: each run sees the file at its start and at its polls, and its outcome is dropped.\<close>

fun forwarder_main :: "fwd_env \<Rightarrow> LogFwdConfig \<Rightarrow> (string option \<times> string option list) list \<Rightarrow> node \<Rightarrow> node" where
  "forwarder_main F config [] n = n"
| "forwarder_main F config ((file, files) # runs) n =
     forwarder_main F config runs (snd (run_forwarding F config file files n))"

section \<open>The protocol is a message channel, both ways\<close>

definition fwd_good :: "fwd_env \<Rightarrow> LogFwdMessage \<Rightarrow> bool" where
  "fwd_good F m \<longleftrightarrow> aead_correct (fe_x F) \<and> codec_ok (fe_messages F) m"

definition answer_good :: "fwd_env \<Rightarrow> LogFwdResponse \<Rightarrow> bool" where
  "answer_good F m \<longleftrightarrow> aead_correct (fe_x F) \<and> codec_ok (fe_answers F) m"

interpretation fm: message_channel "send_fwd_message F" "receive_fwd_message F" "fwd_good F" for F
proof
  fix m h key s s'
  assume "fwd_good F m" and "send_fwd_message F h key m s = (Inr (), s')" and "wleft (nd_chan s h) = None"
  with be.sealed_frame [of "fe_agent F" "fe_messages F" m key h s s' "\<lambda>len. ''Message too large: '' @ show_nat len @ '' bytes''"]
  show "wleft (nd_chan s' h) = None \<and> (\<exists>w. tx (nd_chan s' h) = tx (nd_chan s h) @ w \<and>
      (length w \<le> max_frame \<longrightarrow> delivers (receive_fwd_message F) key m w))"
    by (simp add: fwd_good_def send_fwd_message_def receive_fwd_message_def [abs_def] send_raw_def receive_raw_def)
qed

interpretation fa: message_channel "send_fwd_response F" "receive_fwd_response F" "answer_good F" for F
proof
  fix m h key s s'
  assume "answer_good F m" and "send_fwd_response F h key m s = (Inr (), s')" and "wleft (nd_chan s h) = None"
  with be.sealed_frame [of "fe_agent F" "fe_answers F" m key h s s' "\<lambda>len. ''Message too large: '' @ show_nat len @ '' bytes''"]
  show "wleft (nd_chan s' h) = None \<and> (\<exists>w. tx (nd_chan s' h) = tx (nd_chan s h) @ w \<and>
      (length w \<le> max_frame \<longrightarrow> delivers (receive_fwd_response F) key m w))"
    by (simp add: answer_good_def send_fwd_response_def receive_fwd_response_def [abs_def] send_raw_def receive_raw_def)
qed

section \<open>Lemmas on tailing\<close>

text \<open>A line as the audit log holds it: printed by the JSON library, so one line, with no blanks around it, in UTF-8.\<close>

definition log_line :: "string \<Rightarrow> bool" where
  "log_line l \<longleftrightarrow> json_line l \<and> str_trim l = l \<and> utf8_valid l"

lemma log_line_parts:
  assumes "log_line l"
  shows "CHR 0x0A \<notin> set l" "utf8_valid (l @ [CHR 0x0A])" "str_trim (l @ [CHR 0x0A]) = l" "l \<noteq> []"
proof -
  show "l \<noteq> []" using assms by (auto simp: log_line_def json_line_def blank_def)
  show "str_trim (l @ [CHR 0x0A]) = l" using assms by (simp add: log_line_def str_trim_newline)
  show "utf8_valid (l @ [CHR 0x0A])" using assms by (intro utf8_valid_append [OF _ utf8_newline]) (simp add: log_line_def)
qed (use assms in \<open>simp add: log_line_def json_line_def\<close>)

lemma tail_loop_file_of: "list_all log_line ls \<Longrightarrow> tail_loop (file_of ls) = (ls, length (file_of ls))"
proof (induction ls)
  case (Cons l ls)
  then have l: "log_line l" and ls: "tail_loop (file_of ls) = (ls, length (file_of ls))" by simp_all
  note parts = log_line_parts [OF l]
  have f: "file_of (l # ls) = l @ CHR 0x0A # file_of ls" by (simp add: file_of_def)
  obtain c s where cs: "file_of (l # ls) = c # s" by (cases "file_of (l # ls)") (simp_all add: f)
  have "split_line (c # s) = (l @ [CHR 0x0A], file_of ls)"
    using split_line_newline [OF parts(1)] cs f by metis
  with parts ls have "tail_loop (file_of (l # ls)) = (l # ls, length (l @ [CHR 0x0A]) + length (file_of ls))"
    unfolding cs by (simp del: split_line.simps)
  then show ?case by (simp add: f)
qed (simp add: file_of_def)

text \<open>The polls of a tailer, and a log that grows by whole lines between them.\<close>

fun tail_polls :: "string option list \<Rightarrow> FileTailer \<Rightarrow> string list \<times> FileTailer" where
  "tail_polls [] t = ([], t)"
| "tail_polls (file # files) t =
     (case read_new_lines file t of (ls, t1) \<Rightarrow> case tail_polls files t1 of (ls', t2) \<Rightarrow> (ls @ ls', t2))"

fun grow :: "string list \<Rightarrow> string list list \<Rightarrow> string option list" where
  "grow ls [] = []"
| "grow ls (b # bs) = Some (file_of (ls @ b)) # grow (ls @ b) bs"

lemma read_new_lines_grown:
  assumes "list_all log_line b" and "ft_position t = length (file_of ls)"
  shows "read_new_lines (Some (file_of (ls @ b))) t = (b, t\<lparr>ft_position := length (file_of (ls @ b))\<rparr>)"
  using assms by (simp add: read_new_lines_def file_of_append tail_loop_file_of Let_def)

lemma tail_polls_grow:
  assumes "list_all log_line (concat bs)" and "ft_position t = length (file_of ls)"
  shows "tail_polls (grow ls bs) t = (concat bs, t\<lparr>ft_position := length (file_of (ls @ concat bs))\<rparr>)"
  using assms
proof (induction bs arbitrary: ls t)
  case (Cons b bs)
  let ?t = "t\<lparr>ft_position := length (file_of (ls @ b))\<rparr>"
  have "read_new_lines (Some (file_of (ls @ b))) t = (b, ?t)" using Cons.prems by (intro read_new_lines_grown) simp_all
  with Cons.IH [of ?t "ls @ b"] Cons.prems(1) show ?case by simp
qed simp

section \<open>Lemmas on forwarding\<close>

fun entry_of :: "LogFwdMessage \<Rightarrow> string option" where
  "entry_of (LmEntry json) = Some json"
| "entry_of _ = None"

lemma receive_raw_keeps:
  "receive_raw h s = (r, s') \<Longrightarrow> wleft (nd_chan s' h) = wleft (nd_chan s h) \<and> tx (nd_chan s' h) = tx (nd_chan s h)"
  by (auto simp: receive_raw_def on_chan_def read_frame_def read_exact_def io_bind_def Let_def split: if_splits prod.splits sum.splits)

lemma response_spoken:
  assumes "receive_fwd_response F h key s = (r, s')" and "wleft (nd_chan s h) = None"
  shows "spoken hear key' h [] s s'"
proof -
  obtain r1 s1 where "receive_raw h s = (r1, s1)" by fastforce
  with receive_raw_keeps [OF this] assms show ?thesis
    by (auto simp: receive_fwd_response_def io_bind_def spoken_def split: sum.splits)
qed

lemma spoken_open: "spoken hear key h ms s s' \<Longrightarrow> wleft (nd_chan s' h) = None"
  by (simp add: spoken_def)

lemma ask_spoken:
  assumes "io_bind (send_fwd_message F h key m) (\<lambda>_. io_bind (receive_fwd_response F h key) k) s = (Inr y, s')"
    and "fwd_good F m" and "wleft (nd_chan s h) = None"
  obtains a s2 where "spoken (receive_fwd_message F) key h [m] s s2" "k a s2 = (Inr y, s')"
proof -
  obtain a s1 s2 where 1: "send_fwd_message F h key m s = (Inr (), s1)" and 2: "receive_fwd_response F h key s1 = (Inr a, s2)"
    and 3: "k a s2 = (Inr y, s')" using assms(1) by (auto simp: io_bind_eq_Inr)
  have m: "spoken (receive_fwd_message F) key h [m] s s1" by (rule fm.said_one [OF assms(2) 1 assms(3)])
  from spoken_append [OF this response_spoken [OF 2 spoken_open [OF this]]] 3 that show thesis by simp
qed

lemma forward_lines_spoken:
  assumes "forward_lines F h key ls n s = (Inr n', s')" and "list_all (\<lambda>l. fwd_good F (LmEntry l)) ls" and "wleft (nd_chan s h) = None"
  shows "spoken (receive_fwd_message F) key h (map LmEntry ls) s s'"
  using assms
proof (induction ls arbitrary: n s)
  case Nil
  then show ?case by (auto simp: spoken_def intro: exI [of _ "[]"])
next
  case (Cons l ls)
  from Cons.prems(2) have "fwd_good F (LmEntry l)" by simp
  from ask_spoken [OF Cons.prems(1) [unfolded forward_lines.simps] this Cons.prems(3)]
  obtain a s2 where m: "spoken (receive_fwd_message F) key h [LmEntry l] s s2"
    and f: "forward_lines F h key ls (case a of LrAck \<Rightarrow> n + 1 | _ \<Rightarrow> n) s2 = (Inr n', s')" by blast
  from Cons.IH [OF f _ spoken_open [OF m]] Cons.prems(2) have "spoken (receive_fwd_message F) key h (map LmEntry ls) s2 s'" by simp
  from spoken_append [OF m this] show ?case by simp
qed

text \<open>A poll sends the new lines and possibly a ping.\<close>

lemma forward_poll_spoken:
  assumes "forward_poll F h key file w s = (Inr w', s')" and "wleft (nd_chan s h) = None" and "fwd_good F LmPing"
    and "read_new_lines file (fw_tailer w) = (ls, t)" and "list_all (\<lambda>l. fwd_good F (LmEntry l)) ls"
  shows "fw_tailer w' = t \<and> (\<exists>ms. spoken (receive_fwd_message F) key h ms s s' \<and> List.map_filter entry_of ms = ls \<and>
     set ms \<subseteq> insert LmPing (range LmEntry))"
proof -
  obtain n s1 where l: "forward_lines F h key ls (fw_entries_sent w) s = (Inr n, s1)"
    and r: "(let w' = \<lparr>fw_tailer = t, fw_entries_sent = n, fw_ping_counter = fw_ping_counter w + 1\<rparr> in
       if ls = [] \<and> fw_ping_counter w' mod 120 = 0
       then io_bind (send_fwd_message F h key LmPing) (\<lambda>_. io_bind (receive_fwd_response F h key) (\<lambda>_. io_return w'))
       else io_return w') s1 = (Inr w', s')"
    using assms(1,4) by (auto simp: forward_poll_def io_bind_eq_Inr)
  have sp: "spoken (receive_fwd_message F) key h (map LmEntry ls) s s1" by (rule forward_lines_spoken [OF l assms(5,2)])
  have mf: "List.map_filter entry_of (map LmEntry ls) = ls" by (induction ls) (simp_all add: List.map_filter_def)
  show ?thesis
  proof (cases "ls = [] \<and> (fw_ping_counter w + 1) mod 120 = 0")
    case True
    with r have "io_bind (send_fwd_message F h key LmPing) (\<lambda>_. io_bind (receive_fwd_response F h key)
        (\<lambda>_. io_return \<lparr>fw_tailer = t, fw_entries_sent = n, fw_ping_counter = fw_ping_counter w + 1\<rparr>)) s1 = (Inr w', s')"
      by (simp add: Let_def)
    then obtain s2 where 2: "spoken (receive_fwd_message F) key h [LmPing] s1 s2"
      and "io_return \<lparr>fw_tailer = t, fw_entries_sent = n, fw_ping_counter = fw_ping_counter w + 1\<rparr> s2 = (Inr w', s')"
      by (rule ask_spoken [OF _ assms(3) spoken_open [OF sp]])
    then have e: "s2 = s'" "fw_tailer w' = t" by auto
    have "spoken (receive_fwd_message F) key h [LmPing] s s'" using spoken_append [OF sp 2] True e(1) by simp
    moreover have "List.map_filter entry_of [LmPing] = ls" using True by (simp add: List.map_filter_def)
    ultimately show ?thesis using e(2) by (intro conjI exI [of _ "[LmPing]"]) simp_all
  next
    case False
    with r have "s' = s1 \<and> fw_tailer w' = t" by (auto simp: Let_def)
    with sp mf show ?thesis by (intro conjI exI [of _ "map LmEntry ls"]) auto
  qed
qed

lemma forward_polls_spoken:
  assumes "forward_polls F h key (grow ls bs) w s = (Inr w', s')" and "wleft (nd_chan s h) = None" and "fwd_good F LmPing"
    and "list_all log_line (concat bs)" and "list_all (\<lambda>l. fwd_good F (LmEntry l)) (concat bs)"
    and "ft_position (fw_tailer w) = length (file_of ls)"
  shows "\<exists>ms. spoken (receive_fwd_message F) key h ms s s' \<and> List.map_filter entry_of ms = concat bs \<and>
     set ms \<subseteq> insert LmPing (range LmEntry)"
  using assms
proof (induction bs arbitrary: ls w s)
  case Nil
  then show ?case by (auto simp: spoken_def List.map_filter_def intro!: exI [of _ "[]"])
next
  case (Cons b bs)
  obtain w1 s1 where p: "forward_poll F h key (Some (file_of (ls @ b))) w s = (Inr w1, s1)"
    and q: "forward_polls F h key (grow (ls @ b) bs) w1 s1 = (Inr w', s')"
    using Cons.prems(1) by (auto simp: io_bind_eq_Inr)
  let ?t = "(fw_tailer w)\<lparr>ft_position := length (file_of (ls @ b))\<rparr>"
  have "read_new_lines (Some (file_of (ls @ b))) (fw_tailer w) = (b, ?t)"
    using Cons.prems(4,6) by (intro read_new_lines_grown) simp_all
  from forward_poll_spoken [OF p Cons.prems(2,3) this] Cons.prems(5)
  obtain ms where t: "fw_tailer w1 = ?t" and ms: "spoken (receive_fwd_message F) key h ms s s1" "List.map_filter entry_of ms = b"
    "set ms \<subseteq> insert LmPing (range LmEntry)" by auto
  from Cons.IH [OF q spoken_open [OF ms(1)] Cons.prems(3)] Cons.prems(4,5) t obtain ms' where
    "spoken (receive_fwd_message F) key h ms' s1 s'" "List.map_filter entry_of ms' = concat bs"
    "set ms' \<subseteq> insert LmPing (range LmEntry)" by auto
  with ms spoken_append [OF ms(1)] show ?case by (intro exI [of _ "ms @ ms'"]) (auto simp: List.map_filter_def)
qed

end
