(* ===== verification/Session_Tracker.thy ===== *)
theory Session_Tracker
  imports Audit_Log
begin

text \<open>
  The session tracker of the monitor (\<open>mfa-monitor/src/session_tracker.rs\<close>): it groups the audit entries that
  arrive from each source into sessions, and stores a completed session with an index that holds the hash of
  its file.  JSON printing and parsing are arguments, the disk is a map of files whose writes may fail.  The
  abstract specification keeps only the list of entries of each source; lemmas: the incrementally updated
  record is the summary of that list, and a stored session verifies against the index.
\<close>

section \<open>JSON values\<close>

text \<open>\<open>JOther\<close> is a number that is not a \<open>u64\<close>.\<close>

datatype json =
    JNull
  | JBool bool
  | JU64 u64
  | JOther string
  | JStr string
  | JArr "json list"
  | JObj "(string \<times> json) list"

fun json_get :: "string \<Rightarrow> json \<Rightarrow> json option" where
  "json_get k (JObj kvs) = map_of kvs k"
| "json_get k _ = None"

fun as_u64 :: "json \<Rightarrow> u64 option" where
  "as_u64 (JU64 n) = Some n"
| "as_u64 _ = None"

fun as_bool :: "json \<Rightarrow> bool option" where
  "as_bool (JBool b) = Some b"
| "as_bool _ = None"

fun as_str :: "json \<Rightarrow> string option" where
  "as_str (JStr s) = Some s"
| "as_str _ = None"

fun as_array :: "json \<Rightarrow> json list option" where
  "as_array (JArr xs) = Some xs"
| "as_array _ = None"

definition json_field :: "(json \<Rightarrow> 'a option) \<Rightarrow> string \<Rightarrow> json \<Rightarrow> 'a option" where
  "json_field as k v = Option.bind (json_get k v) as"

definition json_present :: "string \<Rightarrow> json \<Rightarrow> bool" where
  "json_present k v = (case json_get k v of None \<Rightarrow> False | Some x \<Rightarrow> x \<noteq> JNull)"

section \<open>Data\<close>

definition SESSIONS_DIR :: string where "SESSIONS_DIR = ''/opt/mfa-monitor/sessions''"

record ChainIntegrity =
  ci_first_hash :: string
  ci_last_hash :: string
  ci_entry_count :: nat
  ci_all_hashes_valid :: bool

record SessionSummary =
  sm_nodes_seen :: "string list"
  sm_failing_nodes :: "string list"
  sm_forensic_captures :: nat
  sm_tpm_checkpoints :: nat
  sm_avg_verification_ms :: u64
  sm_max_verification_ms :: u64
  sm_denial_reason :: "string option"

record CompletedSession =
  cs_session_id :: string
  cs_source :: string
  cs_start_time :: u64
  cs_end_time :: u64
  cs_duration_secs :: u64
  cs_heartbeat_count :: u64
  cs_all_authorized :: bool
  cs_total_nodes_verified :: u64
  cs_chain_integrity :: ChainIntegrity
  cs_entries :: "json list"
  cs_summary :: SessionSummary

record SessionIndexEntry =
  sx_session_id :: string
  sx_source :: string
  sx_start_time :: u64
  sx_end_time :: u64
  sx_duration_secs :: u64
  sx_heartbeats :: u64
  sx_all_authorized :: bool
  sx_node_count :: nat
  sx_filename :: string
  sx_file_hash :: string

record SessionIndex =
  si_sessions :: "SessionIndexEntry list"
  si_index_hash :: string

record ActiveSession =
  as_source :: string
  as_start_time :: u64
  as_last_time :: u64
  as_last_heartbeat :: u64
  as_all_authorized :: bool
  as_entries :: "json list"
  as_prev_hashes :: "string list"
  as_nodes_seen :: "string list"
  as_forensic_count :: nat
  as_checkpoint_count :: nat
  as_verification_times :: "u64 list"
  as_total_nodes :: u64
  as_denial_reason :: "string option"

record tracker_env =
  tr_x :: crypto_ext
  tr_parse :: "string \<Rightarrow> json res"
  tr_print :: "json \<Rightarrow> string res"
  tr_print_session :: "CompletedSession \<Rightarrow> string res"
  tr_parse_session :: "string \<Rightarrow> CompletedSession res"
  tr_print_index :: "SessionIndex \<Rightarrow> string res"
  tr_parse_index :: "string \<Rightarrow> SessionIndex res"

text \<open>The disk: the \<open>k\<close>-th write succeeds, fails before it changes anything, or leaves the first characters.\<close>

datatype write_outcome = Written | NotWritten | Torn nat

record disk =
  dk_files :: "string \<rightharpoonup> string"
  dk_outcome :: "nat \<Rightarrow> write_outcome"
  dk_writes :: nat

definition write_file :: "string \<Rightarrow> string \<Rightarrow> (disk, unit) io" where
  "write_file path content d =
     (let d' = d\<lparr>dk_writes := Suc (dk_writes d)\<rparr> in
      case dk_outcome d (dk_writes d) of
        Written \<Rightarrow> (Inr (), d'\<lparr>dk_files := (dk_files d)(path \<mapsto> content)\<rparr>)
      | NotWritten \<Rightarrow> (Inl (Err ''write failed''), d')
      | Torn n \<Rightarrow> (Inl (Err ''write failed''), d'\<lparr>dk_files := (dk_files d)(path \<mapsto> take n content)\<rparr>))"

definition in_dir :: "string \<Rightarrow> string" where
  "in_dir filename = SESSIONS_DIR @ ''/'' @ filename"

section \<open>Fields of an entry\<close>

definition heartbeat_of :: "json \<Rightarrow> u64" where
  "heartbeat_of entry = unwrap_or 0 (json_field as_u64 ''heartbeat'' entry)"

definition authorized_of :: "json \<Rightarrow> bool" where
  "authorized_of entry = unwrap_or False (json_field as_bool ''authorized'' entry)"

definition timestamp_of :: "u64 \<Rightarrow> json \<Rightarrow> u64" where
  "timestamp_of now entry = unwrap_or now (json_field as_u64 ''timestamp'' entry)"

definition prev_hash_of :: "json \<Rightarrow> string" where
  "prev_hash_of entry = unwrap_or [] (json_field as_str ''prev_hash'' entry)"

definition event_of :: "json \<Rightarrow> string" where
  "event_of entry = unwrap_or [] (json_field as_str ''event'' entry)"

definition status_of :: "json \<Rightarrow> string" where
  "status_of entry = unwrap_or [] (json_field as_str ''session_status'' entry)"

definition total_nodes_of :: "json \<Rightarrow> u64" where
  "total_nodes_of entry = unwrap_or 0 (json_field as_u64 ''total_nodes_verified'' entry)"

definition entry_nodes :: "json \<Rightarrow> json list" where
  "entry_nodes entry = unwrap_or [] (json_field as_array ''nodes'' entry)"

definition node_names :: "json \<Rightarrow> string list" where
  "node_names entry = List.map_filter (json_field as_str ''node'') (entry_nodes entry)"

definition is_new_session :: "json \<Rightarrow> bool" where
  "is_new_session entry \<longleftrightarrow> heartbeat_of entry = 1 \<and> event_of entry \<in> {''ChainVerified'', ''ChainDenied''}"

definition is_session_end :: "json \<Rightarrow> bool" where
  "is_session_end entry \<longleftrightarrow> event_of entry = ''SessionEnded'' \<or> event_of entry = ''SESSION_ENDED''"

definition is_failure :: "json \<Rightarrow> bool" where
  "is_failure entry \<longleftrightarrow> \<not> authorized_of entry \<and> event_of entry \<in> {''ChainDenied'', ''HeartbeatFail''}"

section \<open>Completing a session\<close>

definition verify_internal_chain :: "tracker_env \<Rightarrow> json list \<Rightarrow> bool" where
  "verify_internal_chain E entries =
     (length entries \<le> 1 \<or>
      list_all (\<lambda>i. prev_hash_of (entries ! i) =
         sha256_hex (tr_x E) (case tr_print E (entries ! (i - 1)) of Inr s \<Rightarrow> s | Inl _ \<Rightarrow> []))
        [1..<length entries])"

text \<open>\<open>if !list.contains(x) { list.push(x) }\<close>\<close>

definition push_new :: "string list \<Rightarrow> string \<Rightarrow> string list" where
  "push_new xs x = (if x \<in> set xs then xs else xs @ [x])"

definition node_failed :: "json \<Rightarrow> bool" where
  "node_failed n = (\<not> unwrap_or True (json_field as_bool ''pass'' n))"

definition failing_nodes :: "json list \<Rightarrow> string list" where
  "failing_nodes entries =
     foldl (\<lambda>acc entry. foldl (\<lambda>acc n. if node_failed n
          then push_new acc (unwrap_or ''?'' (json_field as_str ''node'' n)) else acc) acc (entry_nodes entry)) [] entries"

definition complete_session :: "tracker_env \<Rightarrow> ActiveSession \<Rightarrow> CompletedSession" where
  "complete_session E a =
     (let first_hash = (case as_prev_hashes a of [] \<Rightarrow> [] | h # _ \<Rightarrow> h);
          last_hash = (if as_prev_hashes a = [] then [] else last (as_prev_hashes a));
          times = as_verification_times a
      in \<lparr>cs_session_id = hex_encode (take 8 (sha256 (tr_x E)
             (as_bytes (as_source a) @ u64_le (as_start_time a) @ as_bytes first_hash))),
          cs_source = as_source a, cs_start_time = as_start_time a, cs_end_time = as_last_time a,
          cs_duration_secs = saturating_sub (as_last_time a) (as_start_time a),
          cs_heartbeat_count = as_last_heartbeat a, cs_all_authorized = as_all_authorized a,
          cs_total_nodes_verified = as_total_nodes a,
          cs_chain_integrity = \<lparr>ci_first_hash = first_hash, ci_last_hash = last_hash,
             ci_entry_count = length (as_entries a), ci_all_hashes_valid = verify_internal_chain E (as_entries a)\<rparr>,
          cs_entries = as_entries a,
          cs_summary = \<lparr>sm_nodes_seen = as_nodes_seen a, sm_failing_nodes = failing_nodes (as_entries a),
             sm_forensic_captures = as_forensic_count a, sm_tpm_checkpoints = as_checkpoint_count a,
             sm_avg_verification_ms = (if times = [] then 0 else sum_list times div word_of_nat (length times)),
             sm_max_verification_ms = foldl max 0 times, sm_denial_reason = as_denial_reason a\<rparr>\<rparr>)"

definition index_hash_of :: "crypto_ext \<Rightarrow> SessionIndexEntry list \<Rightarrow> string" where
  "index_hash_of X es = hex_encode (sha256 X (concat (map (\<lambda>e. as_bytes (sx_file_hash e)) es)))"

definition session_filename :: "CompletedSession \<Rightarrow> string" where
  "session_filename s = ''session_'' @ cs_source s @ ''_'' @ cs_session_id s @ ''.json''"

definition current_index :: "tracker_env \<Rightarrow> (string \<rightharpoonup> string) \<Rightarrow> SessionIndex" where
  "current_index E files =
     (case files (in_dir ''index.json'') of
        None \<Rightarrow> \<lparr>si_sessions = [], si_index_hash = []\<rparr>
      | Some content \<Rightarrow> (case tr_parse_index E content of
            Inr index \<Rightarrow> index | Inl _ \<Rightarrow> \<lparr>si_sessions = [], si_index_hash = []\<rparr>))"

definition index_entry :: "crypto_ext \<Rightarrow> CompletedSession \<Rightarrow> string \<Rightarrow> SessionIndexEntry" where
  "index_entry X s body =
     \<lparr>sx_session_id = cs_session_id s, sx_source = cs_source s, sx_start_time = cs_start_time s,
      sx_end_time = cs_end_time s, sx_duration_secs = cs_duration_secs s, sx_heartbeats = cs_heartbeat_count s,
      sx_all_authorized = cs_all_authorized s, sx_node_count = length (sm_nodes_seen (cs_summary s)),
      sx_filename = session_filename s, sx_file_hash = sha256_hex X body\<rparr>"

definition indexed :: "crypto_ext \<Rightarrow> SessionIndexEntry list \<Rightarrow> SessionIndex" where
  "indexed X sessions = \<lparr>si_sessions = sessions, si_index_hash = index_hash_of X sessions\<rparr>"

definition write_session :: "tracker_env \<Rightarrow> CompletedSession \<Rightarrow> (disk, unit) io" where
  "write_session E s =
     io_bind (io_res (tr_print_session E s)) (\<lambda>body.
     io_bind (write_file (in_dir (session_filename s)) body) (\<lambda>_.
     io_bind (\<lambda>d. (Inr (current_index E (dk_files d)), d)) (\<lambda>index.
     io_bind (io_res (tr_print_index E (indexed (tr_x E) (si_sessions index @ [index_entry (tr_x E) s body])))) (\<lambda>index_body.
       write_file (in_dir ''index.json'') index_body))))"

text \<open>An error of \<open>write_session\<close> is only printed.\<close>

definition finalize_session :: "tracker_env \<Rightarrow> ActiveSession \<Rightarrow> disk \<Rightarrow> string \<times> disk" where
  "finalize_session E a d =
     (let completed = complete_session E a in (cs_session_id completed, snd (write_session E completed d)))"

section \<open>Processing an entry\<close>

type_synonym tracker = "string \<rightharpoonup> ActiveSession"

definition fresh_session :: "string \<Rightarrow> u64 \<Rightarrow> ActiveSession" where
  "fresh_session source timestamp =
     \<lparr>as_source = source, as_start_time = timestamp, as_last_time = timestamp, as_last_heartbeat = 0,
      as_all_authorized = True, as_entries = [], as_prev_hashes = [], as_nodes_seen = [],
      as_forensic_count = 0, as_checkpoint_count = 0, as_verification_times = [], as_total_nodes = 0,
      as_denial_reason = None\<rparr>"

definition extend_session :: "u64 \<Rightarrow> json \<Rightarrow> json \<Rightarrow> ActiveSession \<Rightarrow> ActiveSession" where
  "extend_session now entry stored a =
     \<lparr>as_source = as_source a, as_start_time = as_start_time a, as_last_time = timestamp_of now entry,
      as_last_heartbeat = heartbeat_of entry, as_all_authorized = (as_all_authorized a \<and> authorized_of entry),
      as_entries = as_entries a @ [stored], as_prev_hashes = as_prev_hashes a @ [prev_hash_of entry],
      as_nodes_seen = foldl push_new (as_nodes_seen a) (node_names entry),
      as_forensic_count = (if json_present ''forensic'' entry then as_forensic_count a + 1 else as_forensic_count a),
      as_checkpoint_count = (if json_present ''tpm_checkpoint'' entry then as_checkpoint_count a + 1 else as_checkpoint_count a),
      as_verification_times = as_verification_times a @
        (case json_field as_u64 ''verification_duration_ms'' entry of None \<Rightarrow> [] | Some ms \<Rightarrow> [ms]),
      as_total_nodes = max (as_total_nodes a) (total_nodes_of entry),
      as_denial_reason = (if \<not> authorized_of entry \<and> as_denial_reason a = None then Some (status_of entry)
                          else as_denial_reason a)\<rparr>"

text \<open>\<open>if let Some(old) = self.active.remove(source) { ... self.finalize_session(old) ... }\<close>\<close>

definition finish_open :: "tracker_env \<Rightarrow> string \<Rightarrow> tracker \<times> disk \<Rightarrow> string option \<times> tracker \<times> disk" where
  "finish_open E source = (\<lambda>(active, d).
     (case active source of
        Some old \<Rightarrow> (case finalize_session E old d of (sid, d') \<Rightarrow> (Some sid, active(source := None), d'))
      | None \<Rightarrow> (None, active, d)))"

definition process_entry ::
  "tracker_env \<Rightarrow> u64 \<Rightarrow> string \<Rightarrow> string \<Rightarrow> json \<Rightarrow> tracker \<times> disk \<Rightarrow> string option \<times> tracker \<times> disk" where
  "process_entry E now source entry_json entry ts =
     (if is_session_end entry then finish_open E source ts
      else
        (let (completed_id, active, d) = (if is_new_session entry then finish_open E source ts else (None, ts));
             session = unwrap_or (fresh_session source (timestamp_of now entry)) (active source);
             stored = (case tr_parse E entry_json of Inr val \<Rightarrow> val | Inl _ \<Rightarrow> entry);
             active = active(source \<mapsto> extend_session now entry stored session)
         in if is_failure entry then finish_open E source (active, d) else (completed_id, active, d)))"

section \<open>Reading back\<close>

definition load_index :: "tracker_env \<Rightarrow> (string \<rightharpoonup> string) \<Rightarrow> SessionIndex option" where
  "load_index E files = Option.bind (files (in_dir ''index.json''))
     (\<lambda>content. case tr_parse_index E content of Inr i \<Rightarrow> Some i | Inl _ \<Rightarrow> None)"

definition load_session :: "tracker_env \<Rightarrow> string \<Rightarrow> (string \<rightharpoonup> string) \<Rightarrow> CompletedSession option" where
  "load_session E filename files = Option.bind (files (in_dir filename))
     (\<lambda>content. case tr_parse_session E content of Inr s \<Rightarrow> Some s | Inl _ \<Rightarrow> None)"

definition verify_session_integrity :: "tracker_env \<Rightarrow> string \<Rightarrow> (string \<rightharpoonup> string) \<Rightarrow> bool option" where
  "verify_session_integrity E filename files =
     Option.bind (load_index E files) (\<lambda>index.
     Option.bind (find (\<lambda>s. sx_filename s = filename) (si_sessions index)) (\<lambda>entry.
     Option.bind (files (in_dir filename)) (\<lambda>content.
       Some (sha256_hex (tr_x E) content = sx_file_hash entry))))"

text \<open>What the monitor does with a line of a source: the value is the parsed line, or null.\<close>

definition line_value :: "tracker_env \<Rightarrow> string \<Rightarrow> json" where
  "line_value E line = (case tr_parse E line of Inr v \<Rightarrow> v | Inl _ \<Rightarrow> JNull)"

definition track_line :: "tracker_env \<Rightarrow> u64 \<times> string \<times> string \<Rightarrow> tracker \<times> disk \<Rightarrow> tracker \<times> disk" where
  "track_line E = (\<lambda>(now, source, line) ts. snd (process_entry E now source line (line_value E line) ts))"

definition track_lines :: "tracker_env \<Rightarrow> (u64 \<times> string \<times> string) list \<Rightarrow> tracker \<times> disk \<Rightarrow> tracker \<times> disk" where
  "track_lines E = fold (track_line E)"

section \<open>Abstract specification\<close>

text \<open>
  For every source the entries of its open session, with the time each arrived, and the sessions completed so
  far.  The summary of a list of entries is the record the tracker should hold for it.
\<close>

type_synonym arrivals = "(u64 \<times> json) list"

record sessions =
  op_open :: "string \<Rightarrow> arrivals"
  op_done :: "(string \<times> arrivals) list"

definition complete_open :: "string \<Rightarrow> sessions \<Rightarrow> sessions" where
  "complete_open src \<sigma> =
     (if op_open \<sigma> src = [] then \<sigma>
      else \<lparr>op_open = (op_open \<sigma>)(src := []), op_done = op_done \<sigma> @ [(src, op_open \<sigma> src)]\<rparr>)"

definition arrive :: "u64 \<Rightarrow> string \<Rightarrow> json \<Rightarrow> sessions \<Rightarrow> sessions" where
  "arrive now src entry \<sigma> =
     (if is_session_end entry then complete_open src \<sigma>
      else
        (let \<sigma>1 = (if is_new_session entry then complete_open src \<sigma> else \<sigma>);
             \<sigma>2 = \<sigma>1\<lparr>op_open := (op_open \<sigma>1)(src := op_open \<sigma>1 src @ [(now, entry)])\<rparr>
         in if is_failure entry then complete_open src \<sigma>2 else \<sigma>2))"

definition arrive_lines :: "tracker_env \<Rightarrow> (u64 \<times> string \<times> string) list \<Rightarrow> sessions \<Rightarrow> sessions" where
  "arrive_lines E = fold (\<lambda>(now, src, line). arrive now src (line_value E line))"

definition no_sessions :: sessions where
  "no_sessions = \<lparr>op_open = (\<lambda>_. []), op_done = []\<rparr>"

definition summarize :: "string \<Rightarrow> arrivals \<Rightarrow> ActiveSession" where
  "summarize src es =
     \<lparr>as_source = src, as_start_time = timestamp_of (fst (hd es)) (snd (hd es)),
      as_last_time = timestamp_of (fst (last es)) (snd (last es)), as_last_heartbeat = heartbeat_of (snd (last es)),
      as_all_authorized = list_all authorized_of (map snd es), as_entries = map snd es,
      as_prev_hashes = map prev_hash_of (map snd es),
      as_nodes_seen = foldl push_new [] (concat (map node_names (map snd es))),
      as_forensic_count = length (filter (json_present ''forensic'') (map snd es)),
      as_checkpoint_count = length (filter (json_present ''tpm_checkpoint'') (map snd es)),
      as_verification_times = List.map_filter (json_field as_u64 ''verification_duration_ms'') (map snd es),
      as_total_nodes = foldl max 0 (map total_nodes_of (map snd es)),
      as_denial_reason = map_option status_of (find (\<lambda>e. \<not> authorized_of e) (map snd es))\<rparr>"

definition tracker_of :: "sessions \<Rightarrow> tracker" where
  "tracker_of \<sigma> src = (if op_open \<sigma> src = [] then None else Some (summarize src (op_open \<sigma> src)))"

definition store_all :: "tracker_env \<Rightarrow> (string \<times> arrivals) list \<Rightarrow> disk \<Rightarrow> disk" where
  "store_all E = fold (\<lambda>(src, es) d. snd (finalize_session E (summarize src es) d))"

section \<open>Lemmas\<close>

lemma map_filter_snoc: "List.map_filter f (xs @ [x]) = List.map_filter f xs @ (case f x of None \<Rightarrow> [] | Some y \<Rightarrow> [y])"
  by (auto simp: List.map_filter_def split: option.splits)

lemma find_snoc: "find P (xs @ [x]) = (case find P xs of Some y \<Rightarrow> Some y | None \<Rightarrow> if P x then Some x else None)"
  by (induction xs) auto

lemma find_None_list_all: "find (\<lambda>e. \<not> P e) xs = None \<longleftrightarrow> list_all P xs"
  by (auto simp: find_None_iff list_all_iff)

lemma extend_fresh: "extend_session now e e (fresh_session src (timestamp_of now e)) = summarize src [(now, e)]"
  by (simp add: extend_session_def fresh_session_def summarize_def List.map_filter_def split: option.splits)

lemma extend_summarize:
  assumes "es \<noteq> []"
  shows "extend_session now e e (summarize src es) = summarize src (es @ [(now, e)])"
  using assms
  by (simp add: extend_session_def summarize_def map_filter_snoc find_snoc split: option.splits)

lemma tracker_of_complete: "tracker_of (complete_open src \<sigma>) = (tracker_of \<sigma>)(src := None)"
  by (auto simp: tracker_of_def complete_open_def)

lemma store_all_snoc: "store_all E (xs @ [(src, es)]) d = snd (finalize_session E (summarize src es) (store_all E xs d))"
  by (simp add: store_all_def)

text \<open>A tracker and a disk that agree with the abstract sessions.\<close>

definition concrete :: "tracker_env \<Rightarrow> disk \<Rightarrow> sessions \<Rightarrow> tracker \<times> disk" where
  "concrete E d \<sigma> = (tracker_of \<sigma>, store_all E (op_done \<sigma>) d)"

lemma finish_open_refines: "snd (finish_open E src (concrete E d \<sigma>)) = concrete E d (complete_open src \<sigma>)"
  by (simp add: concrete_def finish_open_def tracker_of_complete split: option.splits prod.splits)
     (auto simp: complete_open_def tracker_of_def store_all_snoc)

lemma process_entry_refines:
  assumes "(case tr_parse E entry_json of Inr v \<Rightarrow> v | Inl _ \<Rightarrow> entry) = entry"
  shows "snd (process_entry E now src entry_json entry (concrete E d \<sigma>)) = concrete E d (arrive now src entry \<sigma>)"
proof (cases "is_session_end entry")
  case True
  then show ?thesis by (simp add: process_entry_def arrive_def finish_open_refines)
next
  case False
  define \<sigma>1 where "\<sigma>1 = (if is_new_session entry then complete_open src \<sigma> else \<sigma>)"
  define \<sigma>2 where "\<sigma>2 = \<sigma>1\<lparr>op_open := (op_open \<sigma>1)(src := op_open \<sigma>1 src @ [(now, entry)])\<rparr>"
  obtain cid where a1: "(if is_new_session entry then finish_open E src (concrete E d \<sigma>) else (None, concrete E d \<sigma>))
      = (cid, concrete E d \<sigma>1)"
    by (rule that [of "if is_new_session entry then fst (finish_open E src (concrete E d \<sigma>)) else None"])
       (simp add: \<sigma>1_def prod_eq_iff finish_open_refines del: prod.collapse)
  have "extend_session now entry entry (unwrap_or (fresh_session src (timestamp_of now entry)) (tracker_of \<sigma>1 src))
      = summarize src (op_open \<sigma>2 src)"
    by (simp add: tracker_of_def \<sigma>2_def extend_fresh extend_summarize unwrap_or_def)
  then have t2: "((tracker_of \<sigma>1)(src \<mapsto> extend_session now entry entry
      (unwrap_or (fresh_session src (timestamp_of now entry)) (tracker_of \<sigma>1 src))), store_all E (op_done \<sigma>1) d) = concrete E d \<sigma>2"
    by (auto simp: concrete_def tracker_of_def \<sigma>2_def)
  have "arrive now src entry \<sigma> = (if is_failure entry then complete_open src \<sigma>2 else \<sigma>2)"
    using False by (simp add: arrive_def \<sigma>1_def \<sigma>2_def Let_def)
  then show ?thesis
    using False by (simp add: process_entry_def assms a1 Let_def concrete_def [of E d \<sigma>1] t2 finish_open_refines)
qed

lemma track_lines_refines: "track_lines E ls (concrete E d \<sigma>) = concrete E d (arrive_lines E ls \<sigma>)"
proof (induction ls arbitrary: \<sigma>)
  case Nil
  show ?case by (simp add: track_lines_def arrive_lines_def)
next
  case (Cons l ls)
  obtain now src line where l: "l = (now, src, line)" by (cases l)
  have "track_line E l (concrete E d \<sigma>) = concrete E d (arrive now src (line_value E line) \<sigma>)"
    unfolding l track_line_def by (simp add: process_entry_refines line_value_def split: sum.splits)
  then show ?case using Cons by (simp add: track_lines_def arrive_lines_def l)
qed

text \<open>Completed sessions of a source, in order, followed by the open one.\<close>

definition history :: "sessions \<Rightarrow> string \<Rightarrow> arrivals" where
  "history \<sigma> src = concat (map snd (filter (\<lambda>(s, es). s = src) (op_done \<sigma>))) @ op_open \<sigma> src"

lemma history_complete [simp]: "history (complete_open s \<sigma>) src = history \<sigma> src"
  by (simp add: history_def complete_open_def)

lemma history_arrive:
  "history (arrive now s entry \<sigma>) src = history \<sigma> src @ (if s = src \<and> \<not> is_session_end entry then [(now, entry)] else [])"
proof -
  have snoc: "history (\<tau>\<lparr>op_open := (op_open \<tau>)(s := op_open \<tau> s @ [(now, entry)])\<rparr>) src
      = history \<tau> src @ (if s = src then [(now, entry)] else [])" for \<tau>
    by (simp add: history_def)
  show ?thesis by (simp only: arrive_def Let_def snoc history_complete if_distrib [of "\<lambda>\<tau>. history \<tau> src"] split: if_split) simp
qed

definition entries_from :: "tracker_env \<Rightarrow> (u64 \<times> string \<times> string) list \<Rightarrow> string \<Rightarrow> arrivals" where
  "entries_from E ls src =
     map (\<lambda>(now, s, line). (now, line_value E line))
       (filter (\<lambda>(now, s, line). s = src \<and> \<not> is_session_end (line_value E line)) ls)"

lemma history_arrive_lines: "history (arrive_lines E ls \<sigma>) src = history \<sigma> src @ entries_from E ls src"
proof (induction ls arbitrary: \<sigma>)
  case Nil
  show ?case by (simp add: arrive_lines_def entries_from_def)
next
  case (Cons l ls)
  obtain now s line where l: "l = (now, s, line)" by (cases l)
  show ?case
    using Cons [of "arrive now s (line_value E line) \<sigma>"]
    by (simp add: arrive_lines_def entries_from_def l history_arrive)
qed

lemma index_name_differs: "in_dir (session_filename s) \<noteq> in_dir ''index.json''"
  by (simp add: in_dir_def session_filename_def)

lemma write_file_Inr:
  "write_file p c d = (Inr (), d') \<longleftrightarrow> dk_outcome d (dk_writes d) = Written \<and>
     d' = d\<lparr>dk_writes := Suc (dk_writes d), dk_files := (dk_files d)(p \<mapsto> c)\<rparr>"
  by (auto simp: write_file_def Let_def split: write_outcome.splits)

lemma write_session_Inr:
  assumes "write_session E s d = (Inr (), d')"
  shows "\<exists>body index_body. tr_print_session E s = Inr body \<and>
     tr_print_index E (indexed (tr_x E) (si_sessions (current_index E (dk_files d)) @ [index_entry (tr_x E) s body])) = Inr index_body \<and>
     dk_files d' = (dk_files d)(in_dir (session_filename s) \<mapsto> body, in_dir ''index.json'' \<mapsto> index_body)"
proof -
  have "current_index E ((dk_files d)(in_dir (session_filename s) \<mapsto> t)) = current_index E (dk_files d)" for t
    using index_name_differs [of s] by (simp add: current_index_def)
  then show ?thesis
    using assms by (auto simp: write_session_def io_bind_eq_Inr write_file_Inr)
qed

section \<open>Concrete inputs\<close>

definition demo_value :: "nat \<Rightarrow> json" where
  "demo_value n = JObj [(''event'', JStr ''HeartbeatOk''), (''heartbeat'', JU64 (word_of_nat n)), (''authorized'', JBool True),
     (''prev_hash'', JStr (if n = 1 then [] else sha256_hex demo_ext ''{1}''))]"

text \<open>A printer that does not give the line back that was parsed, as one that sorts the keys.\<close>

definition demo_tracker :: tracker_env where
  "demo_tracker = \<lparr>tr_x = demo_ext,
     tr_parse = (\<lambda>l. if l = ''{1}'' then Inr (demo_value 1) else if l = ''{2}'' then Inr (demo_value 2) else Inl (Err ''syntax'')),
     tr_print = (\<lambda>v. Inr ''{sorted}''), tr_print_session = (\<lambda>s. Inr ''session''), tr_parse_session = (\<lambda>_. Inl (Err [])),
     tr_print_index = (\<lambda>i. Inr ''index''), tr_parse_index = (\<lambda>_. Inl (Err []))\<rparr>"

definition demo_completed :: CompletedSession where
  "demo_completed = complete_session demo_tracker (summarize ''vm2'' [(7, demo_value 1)])"

definition demo_index :: SessionIndex where
  "demo_index = indexed demo_ext [index_entry demo_ext demo_completed ''session'']"

definition demo_disk :: disk where
  "demo_disk = \<lparr>dk_files = Map.empty, dk_outcome = (\<lambda>_. Written), dk_writes = 0\<rparr>"

text \<open>Printers and parsers for that one session and the index that holds it.\<close>

definition store_tracker :: tracker_env where
  "store_tracker = demo_tracker
     \<lparr>tr_x := demo_ext, tr_print_session := (\<lambda>s. if s = demo_completed then Inr ''session'' else Inl (Err ''unsupported'')),
      tr_parse_session := (\<lambda>t. if t = ''session'' then Inr demo_completed else Inl (Err ''syntax'')),
      tr_print_index := (\<lambda>i. if i = demo_index then Inr ''index'' else Inl (Err ''unsupported'')),
      tr_parse_index := (\<lambda>t. if t = ''index'' then Inr demo_index else Inl (Err ''syntax''))\<rparr>"

lemma sha_distinct: "sha256_hex demo_ext ''{sorted}'' \<noteq> sha256_hex demo_ext ''{1}''"
  by (simp add: sha256_hex_def hex_encode_def demo_ext_def pad_to_def sum_bytes_def as_bytes_def hex_digit_def)

section \<open>Properties\<close>

text \<open>
  C32.  The tracker implements its specification: after any lines from any sources, what it holds for a source
  is the summary of the entries of that source's open session, what it has written are the summaries of
  the completed sessions in order, and together they are all the entries that arrived from the source, in
  order, none lost and none counted twice (the entry that announces the end of a session is not kept).
\<close>

theorem tracker_refines_sessions:
  "track_lines E ls (Map.empty, d) =
     (tracker_of (arrive_lines E ls no_sessions), store_all E (op_done (arrive_lines E ls no_sessions)) d) \<and>
   concat (map snd (filter (\<lambda>(s, es). s = src) (op_done (arrive_lines E ls no_sessions)))) @
     op_open (arrive_lines E ls no_sessions) src = entries_from E ls src"
proof -
  have "concrete E d no_sessions = (Map.empty, d)"
    by (simp add: concrete_def tracker_of_def no_sessions_def store_all_def fun_eq_iff)
  moreover have "history no_sessions src = []" by (simp add: history_def no_sessions_def)
  ultimately show ?thesis
    using track_lines_refines [of E ls d no_sessions] history_arrive_lines [of E ls no_sessions src]
    by (simp add: concrete_def history_def)
qed

text \<open>
  C33.  A session that was stored can be checked: when the write succeeds and no stored session has its file
  name, the integrity check of the file succeeds, the file loads as the session, the index keeps what it
  had and gains one entry, and the check reports any later content with another hash.
\<close>

theorem stored_session_verifies:
  assumes index_json: "\<And>i t. tr_print_index E i = Inr t \<Longrightarrow> tr_parse_index E t = Inr i"
    and session_json: "\<And>c t. tr_print_session E c = Inr t \<Longrightarrow> tr_parse_session E t = Inr c"
    and stored: "write_session E s d = (Inr (), d')"
    and new_name: "session_filename s \<notin> sx_filename ` set (si_sessions (current_index E (dk_files d)))"
  shows "verify_session_integrity E (session_filename s) (dk_files d') = Some True \<and>
     load_session E (session_filename s) (dk_files d') = Some s \<and>
     (\<exists>e. load_index E (dk_files d') = Some (indexed (tr_x E) (si_sessions (current_index E (dk_files d)) @ [e]))) \<and>
     (\<forall>body content. tr_print_session E s = Inr body \<longrightarrow> sha256_hex (tr_x E) content \<noteq> sha256_hex (tr_x E) body \<longrightarrow>
        verify_session_integrity E (session_filename s) ((dk_files d')(in_dir (session_filename s) \<mapsto> content)) = Some False)"
proof -
  let ?old = "si_sessions (current_index E (dk_files d))"
  obtain body index_body where b: "tr_print_session E s = Inr body"
    and i: "tr_print_index E (indexed (tr_x E) (?old @ [index_entry (tr_x E) s body])) = Inr index_body"
    and f: "dk_files d' = (dk_files d)(in_dir (session_filename s) \<mapsto> body, in_dir ''index.json'' \<mapsto> index_body)"
    using write_session_Inr [OF stored] by blast
  note differ = index_name_differs [of s] index_name_differs [of s, symmetric]
  have load: "load_index E files = Some (indexed (tr_x E) (?old @ [index_entry (tr_x E) s body]))"
    if "files (in_dir ''index.json'') = Some index_body" for files
    using index_json [OF i] that by (simp add: load_index_def)
  have "find (\<lambda>x. sx_filename x = session_filename s) ?old = None"
    using new_name by (auto simp: find_None_iff image_iff)
  then have "find (\<lambda>x. sx_filename x = session_filename s) (?old @ [index_entry (tr_x E) s body])
      = Some (index_entry (tr_x E) s body)"
    by (simp add: find_snoc index_entry_def)
  then have verify: "verify_session_integrity E (session_filename s) files = Some (sha256_hex (tr_x E) c = sha256_hex (tr_x E) body)"
    if "files (in_dir ''index.json'') = Some index_body" "files (in_dir (session_filename s)) = Some c" for files c
    using that load by (simp add: verify_session_integrity_def indexed_def index_entry_def)
  have at: "dk_files d' (in_dir (session_filename s)) = Some body" "dk_files d' (in_dir ''index.json'') = Some index_body"
    by (simp_all add: f differ)
  moreover have "load_session E (session_filename s) (dk_files d') = Some s"
    by (simp add: load_session_def at session_json [OF b])
  ultimately show ?thesis using verify load b differ by auto
qed

theorem stored_session_verifies_witness:
  "verify_session_integrity store_tracker (session_filename demo_completed) (dk_files (snd (write_session store_tracker demo_completed demo_disk)))
     = Some True"
proof -
  have w: "write_session store_tracker demo_completed demo_disk = (Inr (), snd (write_session store_tracker demo_completed demo_disk))"
    by (simp add: write_session_def io_bind_def write_file_def demo_disk_def store_tracker_def demo_index_def
        current_index_def Let_def index_name_differs)
  have empty: "session_filename demo_completed \<notin> sx_filename ` set (si_sessions (current_index store_tracker (dk_files demo_disk)))"
    by (simp add: current_index_def demo_disk_def)
  have index: "tr_parse_index store_tracker t = Inr i" if "tr_print_index store_tracker i = Inr t" for i t
    using that by (simp add: store_tracker_def split: if_splits)
  have session: "tr_parse_session store_tracker t = Inr c" if "tr_print_session store_tracker c = Inr t" for c t
    using that by (simp add: store_tracker_def split: if_splits)
  from stored_session_verifies [OF index session w empty] show ?thesis by blast
qed

text \<open>
  The stored flag on the hash chain compares with a reprint: for the lines of a genuine chain it says
  whether printing each parsed line (but the last) gives back a text with the hash of the line, so a printer
  that orders the keys differently marks every session of two or more entries as broken.
\<close>

theorem chain_flag_needs_identical_reprint:
  assumes "length vs = length ls" and "\<And>i. i < length ls \<Longrightarrow> tr_parse E (ls ! i) = Inr (vs ! i)"
    and "\<And>i. Suc i < length ls \<Longrightarrow> prev_hash_of (vs ! Suc i) = sha256_hex (tr_x E) (ls ! i)"
    and "\<And>v. \<exists>t. tr_print E v = Inr t"
  shows "verify_internal_chain E vs \<longleftrightarrow>
     (\<forall>i t. Suc i < length ls \<longrightarrow> tr_print E (vs ! i) = Inr t \<longrightarrow> sha256_hex (tr_x E) t = sha256_hex (tr_x E) (ls ! i))"
proof -
  have "verify_internal_chain E vs \<longleftrightarrow> (\<forall>i. Suc i < length vs \<longrightarrow> prev_hash_of (vs ! Suc i) =
      sha256_hex (tr_x E) (case tr_print E (vs ! i) of Inr s \<Rightarrow> s | Inl _ \<Rightarrow> []))"
    by (auto simp: verify_internal_chain_def list_all_iff Suc_le_eq gr0_conv_Suc)
  moreover have "\<exists>t. tr_print E (vs ! i) = Inr t" for i by (rule assms(4))
  ultimately show ?thesis using assms(1,3) by (metis sum.case(2) sum.inject(2))
qed

theorem chain_flag_needs_identical_reprint_witness:
  "\<not> verify_internal_chain demo_tracker [demo_value 1, demo_value 2]"
proof -
  have "verify_internal_chain demo_tracker [demo_value 1, demo_value 2] \<longleftrightarrow>
      (\<forall>i t. Suc i < length [''{1}'', ''{2}''] \<longrightarrow> tr_print demo_tracker ([demo_value 1, demo_value 2] ! i) = Inr t \<longrightarrow>
        sha256_hex (tr_x demo_tracker) t = sha256_hex (tr_x demo_tracker) ([''{1}'', ''{2}''] ! i))"
    by (rule chain_flag_needs_identical_reprint)
       (auto simp: demo_tracker_def nth_Cons' demo_value_def prev_hash_of_def json_field_def unwrap_or_def)
  then show ?thesis using sha_distinct by (auto simp: demo_tracker_def)
qed

end
