(* ===== verification/Monitor.thy ===== *)
theory Monitor
  imports Log_Forwarder Session_Tracker
begin

text \<open>
  The receiving side of the monitor (\<open>mfa-monitor/src/bin/monitor.rs\<close>): the state shown on the dashboard, the
  connection of a source, its hash chain check, the cross check of vm2 and vm3, and the text helpers of the pages.
  The sources are handled by tasks that share the state; \<open>mon_run\<close> interleaves their messages.  In the code the
  critical sections of one entry can alternate with those of another source, which changes the order of alerts
  only: what the check reads and writes belongs to one source.
\<close>

section \<open>Configuration\<close>

record AuthorizedSource =
  so_node_id :: string
  so_ip :: string
  so_chain :: u8

record MonitorConfig =
  mc_node_id :: string
  mc_log_receiver_port :: u16
  mc_dashboard_port :: u16
  mc_attestation_port :: u16
  mc_authorized_sources :: "AuthorizedSource list"
  mc_verified_log_path :: string
  mc_baselines_path :: string
  mc_cross_verify :: bool
  mc_reconnect_timeout_secs :: u64

definition monitor_load :: "(string \<Rightarrow> MonitorConfig res) \<Rightarrow> (string \<rightharpoonup> string) \<Rightarrow> string \<Rightarrow> MonitorConfig res" where
  "monitor_load from_json files path =
     res_bind (with_context (''Failed to read config: '' @ path) (case files path of None \<Rightarrow> Inl (Err ''No such file'') | Some json \<Rightarrow> Inr json)) (\<lambda>json.
       with_context (''Failed to parse config: '' @ path) (from_json json))"

definition is_authorized :: "MonitorConfig \<Rightarrow> string \<Rightarrow> AuthorizedSource option" where
  "is_authorized config ip = find (\<lambda>s. so_ip s = ip) (mc_authorized_sources config)"

section \<open>State\<close>

definition MAX_RECENT_ENTRIES :: nat where "MAX_RECENT_ENTRIES = 200"
definition MAX_FULL_ENTRIES :: nat where "MAX_FULL_ENTRIES = 200"
definition MAX_ALERTS :: nat where "MAX_ALERTS = 50"

record SourceState =
  ss_node_id :: string
  ss_connected :: bool
  ss_last_seq :: u64
  ss_last_heartbeat :: u64
  ss_last_timestamp :: u64
  ss_prev_hash :: string
  ss_entries_received :: u64
  ss_chain_intact :: bool

record DashboardEntry =
  db_seq :: u64
  db_timestamp :: u64
  db_source :: string
  db_heartbeat :: u64
  db_authorized :: bool
  db_tier :: string
  db_node_count :: nat
  db_all_pass :: bool
  db_has_checkpoint :: bool
  db_verification_ms :: "u64 option"
  db_has_forensic :: bool

record NodeStatus =
  ns_node_id :: string
  ns_chain :: u8
  ns_pass :: bool
  ns_pcr_match :: bool
  ns_pcr_mismatch_indices :: "bytes option"
  ns_ima_valid :: bool
  ns_ima_count :: u64
  ns_ima_delta :: "int option"
  ns_userspace_ok :: bool
  ns_userspace_count :: u64
  ns_kernel_threads_ok :: bool
  ns_kernel_thread_count :: u64
  ns_masquerade_detected :: bool
  ns_kernel_modules_empty :: bool
  ns_kernel_modules_loaded :: "string list option"
  ns_connections_ok :: bool
  ns_connection_count :: u64
  ns_fw_ok :: bool
  ns_bin_ok :: bool
  ns_ports_ok :: bool
  ns_ports :: "u16 list"
  ns_mnt_ok :: bool
  ns_cfg_ok :: bool
  ns_sys_ok :: bool
  ns_xdp_attached :: bool
  ns_passwd_ok :: bool
  ns_ssh_ok :: bool
  ns_ld_preload_safe :: bool
  ns_boot_params_ok :: bool
  ns_dev_inventory_ok :: bool
  ns_entropy_available :: "u32 option"
  ns_sysmon_active :: bool
  ns_sysmon_hooks :: "u64 option"
  ns_sysmon_anomaly :: bool
  ns_sysmon_unloaded :: bool
  ns_sysmon_exec_delta :: "u64 option"
  ns_sysmon_ptrace_delta :: "u64 option"
  ns_sysmon_mount_delta :: "u64 option"
  ns_sysmon_conn_delta :: "u64 option"
  ns_sysmon_sock_delta :: "u64 option"
  ns_fd_ok :: bool
  ns_fd_count :: u64
  ns_kern_ok :: bool
  ns_kern_details :: "string option"
  ns_init_ok :: bool
  ns_init_count :: u64
  ns_init_unused :: u64
  ns_sig_valid :: bool
  ns_ak_match :: bool
  ns_raw_details :: string
  ns_last_seen :: u64
  ns_tpm_signed :: "bool option"
  ns_ima_aggregate_hash :: "string option"
  ns_process_count :: "u64 option"
  ns_full_meta :: "AttestationMeta option"

record Alert =
  at_timestamp :: u64
  at_severity :: string
  at_message :: string
  at_seq :: "u64 option"

record SystemState =
  sy_sources :: "string \<rightharpoonup> SourceState"
  sy_cross_verified :: bool
  sy_cross_verify_details :: string
  sy_recent_entries :: "DashboardEntry list"
  sy_full_entries :: "AuditEntryV2 list"
  sy_alerts :: "Alert list"
  sy_node_status :: "string \<rightharpoonup> NodeStatus"
  sy_total_entries_received :: u64
  sy_total_chain_breaks :: u64
  sy_total_cross_mismatches :: u64
  sy_total_forensic_snapshots :: u64
  sy_uptime_secs :: u64
  sy_start_time :: u64
  sy_avg_verification_ms :: u64

definition system_new :: "u64 \<Rightarrow> SystemState" where
  "system_new now =
     \<lparr>sy_sources = Map.empty, sy_cross_verified = False, sy_cross_verify_details = ''Waiting for both sources'',
      sy_recent_entries = [], sy_full_entries = [], sy_alerts = [], sy_node_status = Map.empty,
      sy_total_entries_received = 0, sy_total_chain_breaks = 0, sy_total_cross_mismatches = 0,
      sy_total_forensic_snapshots = 0, sy_uptime_secs = 0, sy_start_time = now, sy_avg_verification_ms = 0\<rparr>"

text \<open>
  The JSON library as the receiver uses it: reading an entry, printing one, and reading and printing the list of
  the forensic index.
\<close>

record mon_env =
  me_fwd :: fwd_env
  me_entry :: "string \<Rightarrow> AuditEntryV2 res"
  me_pretty :: "AuditEntryV2 \<Rightarrow> string res"
  me_parse_list :: "string \<Rightarrow> json list res"
  me_print_list :: "json list \<Rightarrow> string res"
  me_tracker :: tracker_env

abbreviation me_x where "me_x E \<equiv> ae_x (fe_agent (me_fwd E))"

record monitor =
  mo_state :: SystemState
  mo_tracker :: tracker
  mo_disk :: disk

text \<open>\<open>OpenOptions::new().create(true).append(true)\<close> and \<open>writeln!\<close>; errors are ignored.\<close>

definition append_line :: "string \<Rightarrow> string \<Rightarrow> disk \<Rightarrow> disk" where
  "append_line path line d =
     (let d' = d\<lparr>dk_writes := Suc (dk_writes d)\<rparr>; old = unwrap_or [] (dk_files d path); new = line @ [CHR 0x0A] in
      case dk_outcome d (dk_writes d) of
        Written \<Rightarrow> d'\<lparr>dk_files := (dk_files d)(path \<mapsto> old @ new)\<rparr>
      | NotWritten \<Rightarrow> d'
      | Torn n \<Rightarrow> d'\<lparr>dk_files := (dk_files d)(path \<mapsto> old @ take n new)\<rparr>)"

section \<open>Receiving an entry\<close>

text \<open>\<open>push\<close> and, when the list is too long, \<open>remove(0)\<close>.\<close>

definition push_capped :: "nat \<Rightarrow> 'a \<Rightarrow> 'a list \<Rightarrow> 'a list" where
  "push_capped cap x xs = (let ys = xs @ [x] in if cap < length ys then tl ys else ys)"

fun tier_debug :: "ForensicTier \<Rightarrow> string" where
  "tier_debug Info = ''Info''"
| "tier_debug Warning = ''Warning''"
| "tier_debug Critical = ''Critical''"

definition source_new :: "string \<Rightarrow> SourceState" where
  "source_new source =
     \<lparr>ss_node_id = source, ss_connected = True, ss_last_seq = 0, ss_last_heartbeat = 0, ss_last_timestamp = 0,
      ss_prev_hash = [], ss_entries_received = 0, ss_chain_intact = True\<rparr>"

definition links_up :: "SystemState \<Rightarrow> string \<Rightarrow> AuditEntryV2 \<Rightarrow> bool" where
  "links_up st source entry =
     (case sy_sources st source of
        Some src \<Rightarrow> (if ss_entries_received src = 0 then True else ae2_prev_hash entry = ss_prev_hash src)
      | None \<Rightarrow> True)"

definition update_source :: "string \<Rightarrow> (SourceState \<Rightarrow> SourceState) \<Rightarrow> SystemState \<Rightarrow> SystemState" where
  "update_source source f st =
     (case sy_sources st source of None \<Rightarrow> st | Some src \<Rightarrow> st\<lparr>sy_sources := (sy_sources st)(source \<mapsto> f src)\<rparr>)"

definition note_break :: "u64 \<Rightarrow> string \<Rightarrow> AuditEntryV2 \<Rightarrow> SystemState \<Rightarrow> SystemState" where
  "note_break now source entry st =
     (let st = update_source source (\<lambda>src. src\<lparr>ss_chain_intact := False\<rparr>)
            (st\<lparr>sy_total_chain_breaks := sy_total_chain_breaks st + 1\<rparr>);
          alert = \<lparr>at_timestamp = now, at_severity = ''CRITICAL'',
             at_message = ''Hash chain BROKEN from '' @ source @ '' at seq '' @ show_word (ae2_seq entry), at_seq = Some (ae2_seq entry)\<rparr>
      in st\<lparr>sy_alerts := push_capped MAX_ALERTS alert (sy_alerts st)\<rparr>)"

definition note_tier :: "u64 \<Rightarrow> string \<Rightarrow> AuditEntryV2 \<Rightarrow> SystemState \<Rightarrow> SystemState" where
  "note_tier now source entry st =
     (let alert = \<lparr>at_timestamp = now, at_severity = tier_debug (ae2_tier entry),
         at_message = event_name (ae2_event entry) @ '' from '' @ source @ '' HB#'' @ show_word (ae2_heartbeat entry) @ '': '' @
           (if ae2_authorized entry then ''authorized'' else ''DENIED''), at_seq = Some (ae2_seq entry)\<rparr>
      in st\<lparr>sy_alerts := push_capped MAX_ALERTS alert (sy_alerts st)\<rparr>)"

text \<open>What a node's card shows: the newest record, and the newest metadata there was for it.\<close>

definition node_status :: "AuditEntryV2 \<Rightarrow> NodeStatus option \<Rightarrow> NodeAuditRecord \<Rightarrow> NodeStatus" where
  "node_status entry existing n =
     (let meta = Option.bind (ae2_attestation_meta entry) (find (\<lambda>m. am_node_id m = na_node n))
      in \<lparr>ns_node_id = na_node n,
        ns_chain = na_chain n, ns_pass = na_pass n, ns_pcr_match = na_pcr_match n,
        ns_pcr_mismatch_indices = na_pcr_mismatch_indices n, ns_ima_valid = na_ima_valid n,
        ns_ima_count = na_ima_count n, ns_ima_delta = na_ima_delta n, ns_userspace_ok = na_userspace_ok n,
        ns_userspace_count = na_userspace_count n, ns_kernel_threads_ok = na_kernel_threads_ok n,
        ns_kernel_thread_count = na_kernel_thread_count n, ns_masquerade_detected = na_masquerade_detected n,
        ns_kernel_modules_empty = na_kernel_modules_empty n, ns_kernel_modules_loaded = na_kernel_modules_loaded n,
        ns_connections_ok = na_connections_ok n, ns_connection_count = na_connection_count n, ns_fw_ok = na_fw_ok n,
        ns_bin_ok = na_bin_ok n, ns_ports_ok = na_ports_ok n, ns_ports = na_ports n, ns_mnt_ok = na_mnt_ok n,
        ns_cfg_ok = na_cfg_ok n, ns_sys_ok = na_sys_ok n, ns_xdp_attached = na_xdp_attached n,
        ns_passwd_ok = na_passwd_ok n, ns_ssh_ok = na_ssh_ok n, ns_ld_preload_safe = na_ld_preload_safe n,
        ns_boot_params_ok = na_boot_params_ok n, ns_dev_inventory_ok = na_dev_inventory_ok n,
        ns_entropy_available = na_entropy_available n, ns_sysmon_active = na_sysmon_active n,
        ns_sysmon_hooks = na_sysmon_hooks n, ns_sysmon_anomaly = na_sysmon_anomaly n,
        ns_sysmon_unloaded = na_sysmon_unloaded n, ns_sysmon_exec_delta = na_sysmon_exec_delta n,
        ns_sysmon_ptrace_delta = na_sysmon_ptrace_delta n, ns_sysmon_mount_delta = na_sysmon_mount_delta n,
        ns_sysmon_conn_delta = na_sysmon_conn_delta n, ns_sysmon_sock_delta = na_sysmon_sock_delta n,
        ns_fd_ok = na_fd_ok n, ns_fd_count = na_fd_count n, ns_kern_ok = na_kern_ok n,
        ns_kern_details = na_kern_details n, ns_init_ok = na_init_ok n, ns_init_count = na_init_count n,
        ns_init_unused = na_init_unused n, ns_sig_valid = na_sig_valid n, ns_ak_match = na_ak_match n,
        ns_raw_details = na_raw_details n,
        ns_last_seen = ae2_timestamp entry,
        ns_tpm_signed = (case meta of Some m \<Rightarrow> Some (am_tpm_signed m) | None \<Rightarrow> Option.bind existing ns_tpm_signed),
        ns_ima_aggregate_hash =
          (case meta of Some m \<Rightarrow> Some (am_ima_aggregate_hash m) | None \<Rightarrow> Option.bind existing ns_ima_aggregate_hash),
        ns_process_count = (case meta of Some m \<Rightarrow> Some (am_process_count m) | None \<Rightarrow> Option.bind existing ns_process_count),
        ns_full_meta = (case meta of Some m \<Rightarrow> Some m | None \<Rightarrow> Option.bind existing ns_full_meta)\<rparr>)"

definition update_nodes :: "AuditEntryV2 \<Rightarrow> (string \<rightharpoonup> NodeStatus) \<Rightarrow> (string \<rightharpoonup> NodeStatus)" where
  "update_nodes entry status =
     foldl (\<lambda>status n. status(na_node n \<mapsto> node_status entry (status (na_node n)) n)) status (unwrap_or [] (ae2_nodes entry))"

definition smooth :: "u64 \<Rightarrow> u64 option \<Rightarrow> u64" where
  "smooth avg ms = (case ms of None \<Rightarrow> avg | Some ms \<Rightarrow> if avg = 0 then ms else (avg * 3 + ms) div 4)"

definition check_mark :: string where "check_mark = [CHR 0xE2, CHR 0x9C, CHR 0x93]"

text \<open>\<open>(a as i64 - b as i64).abs()\<close>, wrapping.\<close>

definition heartbeat_gap :: "u64 \<Rightarrow> u64 \<Rightarrow> int" where
  "heartbeat_gap a b = (let d = a - b in if sint d < 0 then sint (- d) else sint d)"

definition cross_verify_sources :: "SystemState \<Rightarrow> SystemState" where
  "cross_verify_sources st =
     (case (sy_sources st ''vm2'', sy_sources st ''vm3'') of
        (Some s2, Some s3) \<Rightarrow>
          (let gap = heartbeat_gap (ss_last_heartbeat s2) (ss_last_heartbeat s3) in
           if \<not> ss_connected s2 \<or> \<not> ss_connected s3 then
             st\<lparr>sy_cross_verified := False, sy_cross_verify_details :=
               ''VM2:'' @ (if ss_connected s2 then ''connected'' else ''DISCONNECTED'') @
               '' VM3:'' @ (if ss_connected s3 then ''connected'' else ''DISCONNECTED'')\<rparr>
           else if \<not> ss_chain_intact s2 \<or> \<not> ss_chain_intact s3 then
             st\<lparr>sy_cross_verified := False, sy_cross_verify_details :=
               ''CHAIN: VM2:'' @ (if ss_chain_intact s2 then ''OK'' else ''BROKEN'') @
               '' VM3:'' @ (if ss_chain_intact s3 then ''OK'' else ''BROKEN''),
               sy_total_cross_mismatches := sy_total_cross_mismatches st + 1\<rparr>
           else if 2 < gap then
             st\<lparr>sy_cross_verified := False, sy_cross_verify_details :=
               ''DRIFT: VM2=HB#'' @ show_word (ss_last_heartbeat s2) @ '' VM3=HB#'' @ show_word (ss_last_heartbeat s3) @
               '' gap='' @ show_int gap\<rparr>
           else
             st\<lparr>sy_cross_verified := True, sy_cross_verify_details :=
               ''VM2:HB#'' @ show_word (ss_last_heartbeat s2) @ ''/seq'' @ show_word (ss_last_seq s2) @
               '' VM3:HB#'' @ show_word (ss_last_heartbeat s3) @ ''/seq'' @ show_word (ss_last_seq s3) @ '' '' @ check_mark\<rparr>)
      | _ \<Rightarrow> st\<lparr>sy_cross_verified := False, sy_cross_verify_details := ''Waiting for both sources''\<rparr>)"

definition forensic_file :: "string \<Rightarrow> AuditEntryV2 \<Rightarrow> string" where
  "forensic_file source entry = ''forensic_'' @ source @ ''_'' @ show_word (ae2_seq entry) @ ''.json''"

text \<open>A forensic capture goes to a file of its own and into the index; the keys of an object are sorted.\<close>

definition store_forensic :: "mon_env \<Rightarrow> string \<Rightarrow> AuditEntryV2 \<Rightarrow> disk \<Rightarrow> disk" where
  "store_forensic E source entry d =
     (case me_pretty E entry of
        Inl _ \<Rightarrow> d
      | Inr pretty \<Rightarrow>
          (let dir = ''/opt/mfa-monitor/forensics/'';
               d = snd (write_file (dir @ forensic_file source entry) pretty d);
               idx = (case dk_files d (dir @ ''index.json'') of None \<Rightarrow> []
                  | Some content \<Rightarrow> (case me_parse_list E content of Inr idx \<Rightarrow> idx | Inl _ \<Rightarrow> []));
               item = JObj [(''authorized'', JBool (ae2_authorized entry)), (''file_hash'', JStr (sha256_hex (me_x E) pretty)),
                  (''filename'', JStr (forensic_file source entry)), (''heartbeat'', JU64 (ae2_heartbeat entry)),
                  (''seq'', JU64 (ae2_seq entry)), (''source'', JStr source), (''tier'', JStr (tier_debug (ae2_tier entry))),
                  (''timestamp'', JU64 (ae2_timestamp entry))]
           in snd (write_file (dir @ ''index.json'')
                (case me_print_list E (idx @ [item]) of Inr text \<Rightarrow> text | Inl _ \<Rightarrow> []) d)))"

definition dashboard_entry :: "string \<Rightarrow> AuditEntryV2 \<Rightarrow> DashboardEntry" where
  "dashboard_entry source entry =
     \<lparr>db_seq = ae2_seq entry, db_timestamp = ae2_timestamp entry, db_source = source, db_heartbeat = ae2_heartbeat entry,
      db_authorized = ae2_authorized entry, db_tier = tier_debug (ae2_tier entry),
      db_node_count = (case ae2_nodes entry of None \<Rightarrow> 0 | Some nodes \<Rightarrow> length nodes),
      db_all_pass = (case ae2_nodes entry of None \<Rightarrow> False | Some nodes \<Rightarrow> list_all na_pass nodes),
      db_has_checkpoint = (ae2_tpm_checkpoint entry \<noteq> None), db_verification_ms = ae2_verification_duration_ms entry,
      db_has_forensic = (ae2_forensic entry \<noteq> None)\<rparr>"

text \<open>The main update of the shared state; \<open>several\<close> says whether at least two sources are known.\<close>

definition several :: "(string \<rightharpoonup> SourceState) \<Rightarrow> bool" where
  "several sources \<longleftrightarrow> 2 \<le> card (dom sources)"

definition record_entry :: "mon_env \<Rightarrow> MonitorConfig \<Rightarrow> u64 \<Rightarrow> string \<Rightarrow> string \<Rightarrow> AuditEntryV2 \<Rightarrow> SystemState \<Rightarrow> SystemState" where
  "record_entry E config now source json entry st =
     (let st = st\<lparr>sy_total_entries_received := sy_total_entries_received st + 1,
            sy_total_forensic_snapshots := sy_total_forensic_snapshots st + (if ae2_forensic entry \<noteq> None then 1 else 0)\<rparr>;
          st = update_source source (\<lambda>src. src\<lparr>ss_last_seq := ae2_seq entry, ss_last_heartbeat := ae2_heartbeat entry,
            ss_last_timestamp := ae2_timestamp entry, ss_prev_hash := sha256_hex (me_x E) json,
            ss_entries_received := ss_entries_received src + 1\<rparr>) st;
          st = st\<lparr>sy_node_status := update_nodes entry (sy_node_status st),
            sy_avg_verification_ms := smooth (sy_avg_verification_ms st) (ae2_verification_duration_ms entry),
            sy_recent_entries := push_capped MAX_RECENT_ENTRIES (dashboard_entry source entry) (sy_recent_entries st),
            sy_full_entries := push_capped MAX_FULL_ENTRIES entry (sy_full_entries st)\<rparr>;
          st = (if mc_cross_verify config \<and> several (sy_sources st) then cross_verify_sources st else st)
      in st\<lparr>sy_uptime_secs := now - sy_start_time st\<rparr>)"

text \<open>An entry that parses, with the readings of the clock the handler may take.\<close>

definition take_entry ::
  "mon_env \<Rightarrow> MonitorConfig \<Rightarrow> (nat \<Rightarrow> u64) \<Rightarrow> string \<Rightarrow> string \<Rightarrow> AuditEntryV2 \<Rightarrow> monitor \<Rightarrow> monitor" where
  "take_entry E config clock source json entry m =
     (let st = mo_state m;
          st = (if links_up st source entry then st else note_break (clock 0) source entry st);
          st = (if tier_debug (ae2_tier entry) \<noteq> ''Info'' then note_tier (clock 1) source entry st else st);
          d = (if ae2_forensic entry \<noteq> None then store_forensic E source entry (mo_disk m) else mo_disk m);
          st = record_entry E config (clock 2) source json entry st;
          d = append_line (source @ ''-stream.jsonl'') json d;
          d = append_line (mc_verified_log_path config) json d;
          (active, d) = track_line (me_tracker E) (clock 3, source, json) (mo_tracker m, d)
      in \<lparr>mo_state = st, mo_tracker = active, mo_disk = d\<rparr>)"

definition error_text :: "error \<Rightarrow> string" where
  "error_text e = (case e of Err t \<Rightarrow> t | Panic t \<Rightarrow> t)"

definition take_json ::
  "mon_env \<Rightarrow> MonitorConfig \<Rightarrow> (nat \<Rightarrow> u64) \<Rightarrow> string \<Rightarrow> string \<Rightarrow> monitor \<Rightarrow> LogFwdResponse \<times> monitor" where
  "take_json E config clock source json m =
     (case me_entry E json of
        Inl e \<Rightarrow> (LrReject (''Parse error: '' @ error_text e), m)
      | Inr entry \<Rightarrow> (LrAck, take_entry E config clock source json entry m))"

section \<open>The connection of a source\<close>

definition on_state :: "(SystemState \<Rightarrow> SystemState) \<Rightarrow> monitor \<Rightarrow> monitor" where
  "on_state f m = m\<lparr>mo_state := f (mo_state m)\<rparr>"

definition source_connected :: "string \<Rightarrow> SystemState \<Rightarrow> SystemState" where
  "source_connected source st = st\<lparr>sy_sources := (sy_sources st)(source \<mapsto> source_new source)\<rparr>"

definition source_gone :: "string \<Rightarrow> SystemState \<Rightarrow> SystemState" where
  "source_gone source = update_source source (\<lambda>src. src\<lparr>ss_connected := False\<rparr>)"

type_synonym 'a mon = "(node \<times> monitor, 'a) io"

definition on_mon :: "(node, 'a) io \<Rightarrow> 'a mon" where
  "on_mon f = (\<lambda>(n, m). case f n of (r, n') \<Rightarrow> (r, n', m))"

text \<open>Key exchange and hello.\<close>

definition greet :: "mon_env \<Rightarrow> MonitorConfig \<Rightarrow> AuthorizedSource \<Rightarrow> nat \<Rightarrow> (node, string \<times> bytes) io" where
  "greet E config source_info stream =
     io_bind (io_context ''Key exchange failed'' (establish_session_responder (me_fwd E) stream (mc_node_id config))) (\<lambda>key.
     io_bind (receive_fwd_message (me_fwd E) stream key) (\<lambda>hello.
       (case hello of
          LmHello node_id \<Rightarrow>
            (if node_id \<noteq> so_node_id source_info then
               (let reason = ''Expected '' @ so_node_id source_info @ '' got '' @ node_id in
                io_bind (send_fwd_response (me_fwd E) stream key (LrReject reason)) (\<lambda>_.
                  io_res (Inl (Err (''Identity mismatch: '' @ reason)))))
             else io_bind (send_fwd_response (me_fwd E) stream key LrWelcome) (\<lambda>_. io_return (node_id, key)))
        | _ \<Rightarrow> io_bind (send_fwd_response (me_fwd E) stream key (LrReject ''Expected Hello'')) (\<lambda>_.
            io_res (Inl (Err ''Expected Hello message''))))))"

text \<open>The clock readings of one entry are the next four of the machine's clock.\<close>

definition source_message :: "mon_env \<Rightarrow> MonitorConfig \<Rightarrow> string \<Rightarrow> nat \<Rightarrow> bytes \<Rightarrow> LogFwdMessage \<Rightarrow> unit mon" where
  "source_message E config source stream key msg =
     (case msg of
        LmEntry json \<Rightarrow> (\<lambda>(n, m).
          (case take_json E config (\<lambda>i. nd_clock n (nd_clock_pos n + i)) source json m of (answer, m') \<Rightarrow>
             on_mon (send_fwd_response (me_fwd E) stream key answer) (n\<lparr>nd_clock_pos := nd_clock_pos n + 4\<rparr>, m')))
      | LmPing \<Rightarrow> on_mon (send_fwd_response (me_fwd E) stream key LrAck)
      | LmHello _ \<Rightarrow> io_return ())"

text \<open>The loop ends with the error that ended it; \<open>None\<close> when the rounds ran out.\<close>

primrec source_loop ::
  "nat \<Rightarrow> mon_env \<Rightarrow> MonitorConfig \<Rightarrow> string \<Rightarrow> nat \<Rightarrow> bytes \<Rightarrow> node \<times> monitor \<Rightarrow> (error \<times> node \<times> monitor) option" where
  "source_loop 0 E config source stream key s = None"
| "source_loop (Suc fuel) E config source stream key s =
     (case on_mon (receive_fwd_message (me_fwd E) stream key) s of
        (Inl e, n, m) \<Rightarrow> Some (e, n, on_state (source_gone source) m)
      | (Inr msg, s1) \<Rightarrow>
          (case source_message E config source stream key msg s1 of
             (Inl e, s2) \<Rightarrow> Some (e, s2)
           | (Inr _, s2) \<Rightarrow> source_loop fuel E config source stream key s2))"

definition handle_source ::
  "mon_env \<Rightarrow> MonitorConfig \<Rightarrow> AuthorizedSource \<Rightarrow> nat \<Rightarrow> node \<times> monitor \<Rightarrow> (error \<times> node \<times> monitor) option" where
  "handle_source E config source_info stream s =
     (case on_mon (greet E config source_info stream) s of
        (Inl e, s1) \<Rightarrow> Some (e, s1)
      | (Inr (source, key), n1, m1) \<Rightarrow>
          source_loop (Suc (length (rx (nd_chan n1 stream)))) E config source stream key
            (n1, on_state (source_connected source) m1))"

text \<open>One round of the accept loop: connections from other addresses are dropped.\<close>

definition accept_source ::
  "mon_env \<Rightarrow> MonitorConfig \<Rightarrow> string \<Rightarrow> nat \<Rightarrow> node \<times> monitor \<Rightarrow> (error \<times> node \<times> monitor) option" where
  "accept_source E config peer_ip stream s =
     (case is_authorized config peer_ip of
        None \<Rightarrow> Some (Err ''Unauthorized'', s)
      | Some source_info \<Rightarrow> handle_source E config source_info stream s)"

section \<open>Text of the pages\<close>

definition icon :: "bool \<Rightarrow> string" where
  "icon ok = (if ok then ''PASS'' else ''FAIL'')"

definition replace_char :: "char \<Rightarrow> string \<Rightarrow> string \<Rightarrow> string" where
  "replace_char c t s = concat (map (\<lambda>x. if x = c then t else [x]) s)"

definition html_escape :: "string \<Rightarrow> string" where
  "html_escape s =
     replace_char (CHR 0x22) ''&quot;'' (replace_char (CHR ''>'') ''&gt;''
       (replace_char (CHR ''<'') ''&lt;'' (replace_char (CHR ''&'') ''&amp;'' s)))"

definition pad_number :: "nat \<Rightarrow> nat \<Rightarrow> string" where
  "pad_number width n = (let s = show_nat n in replicate (width - length s) (CHR ''0'') @ s)"

fun month_loop :: "nat \<Rightarrow> nat list \<Rightarrow> nat \<Rightarrow> nat \<times> nat" where
  "month_loop i [] day = (0, day)"
| "month_loop i (md # mds) day = (if day < md then (i + 1, day) else month_loop (i + 1) mds (day - md))"

definition format_timestamp :: "u64 \<Rightarrow> string" where
  "format_timestamp ts =
     (let t = unat ts; secs = t mod 60; mins = (t div 60) mod 60; hours = (t div 3600) mod 24; days = t div 86400;
          year = 1970 + days div 365;
          (month, day) = month_loop 0 [31,28,31,30,31,30,31,31,30,31,30,31] (days mod 365);
          month = (if month = 0 then 12 else month)
      in pad_number 4 year @ ''-'' @ pad_number 2 month @ ''-'' @ pad_number 2 (day + 1) @ '' '' @
         pad_number 2 hours @ '':'' @ pad_number 2 mins @ '':'' @ pad_number 2 secs)"

end
