(* ===== verification/Pages.thy ===== *)
theory Pages
  imports Monitor Machine
begin

text \<open>
  Pages of the monitor (\<open>mfa-monitor/src/bin/monitor.rs\<close>): the session history, the differences of a node to its
  baseline, the list of forensic events, the page of an event and the page of a node with its traffic statistics.  A
  page is text; a slice that leaves the text or cuts a character panics, which is an error here.  In the markup written
  with \<open>mk\<close> a circumflex stands for the quotation mark.  The style sheet and the width of a histogram bar, which is
  computed in floating point, are arguments.
\<close>

section \<open>Text\<close>

definition mk :: "string \<Rightarrow> string" where "mk s = map (\<lambda>c. if c = CHR ''^'' then CHR 0x22 else c) s"

definition nl :: string where "nl = [CHR 0x0A]"

definition text_lines :: "string list \<Rightarrow> string" where "text_lines ls = str_join nl ls"

text \<open>\<open>str::is_char_boundary\<close>, \<open>&s[..n]\<close> and \<open>&s[n..]\<close>.\<close>

definition char_boundary :: "string \<Rightarrow> nat \<Rightarrow> bool" where
  "char_boundary s n \<longleftrightarrow> n = 0 \<or> n = length s \<or> n < length s \<and> \<not> byte_in 0x80 0xBF (s ! n)"

definition str_slice_to :: "string \<Rightarrow> nat \<Rightarrow> string res" where
  "str_slice_to s n = (if char_boundary s n then Inr (take n s) else Inl (Panic ''byte index is not a char boundary''))"

definition str_slice_from :: "string \<Rightarrow> nat \<Rightarrow> string res" where
  "str_slice_from s n = (if char_boundary s n then Inr (drop n s) else Inl (Panic ''byte index is not a char boundary''))"

text \<open>\<open>if s.len() >= n { &s[..n] } else { s }\<close>\<close>

definition shorten :: "nat \<Rightarrow> string \<Rightarrow> string res" where
  "shorten n s = (if n \<le> length s then str_slice_to s n else Inr s)"

definition show_signed :: "int \<Rightarrow> string" where
  "show_signed d = (if d < 0 then show_int d else ''+'' @ show_int d)"

definition or_dashes :: "('a \<Rightarrow> string) \<Rightarrow> 'a option \<Rightarrow> string" where
  "or_dashes f x = (case x of None \<Rightarrow> ''--'' | Some y \<Rightarrow> f y)"

definition nav_bar :: string where
  "nav_bar = text_lines [mk ''<div class=^nav^>'', mk ''    <a href=^/^>Overview</a>'', mk ''    <a href=^/sessions^>Sessions</a>'',
     mk ''    <a href=^/forensics^>Forensics</a>'', mk ''    <a href=^/api/state^>API</a>'', ''</div>'']"

definition head_of :: "string \<Rightarrow> string \<Rightarrow> string list \<Rightarrow> string list" where
  "head_of styles title extra =
     [''<!DOCTYPE html>'', ''<html><head>'', ''<title>'' @ title @ ''</title>''] @ extra @ [''<style>'' @ styles @ ''</style>'', ''</head><body>'']"

section \<open>Session history\<close>

definition session_row :: "SessionIndexEntry \<Rightarrow> string res" where
  "session_row s =
     res_bind (str_slice_to (sx_session_id s) 8) (\<lambda>short_id.
     res_bind (str_slice_to (sx_file_hash s) 16) (\<lambda>short_hash.
       Inr (mk ''<tr><td><a href=^/api/session/'' @ sx_session_id s @ mk ''^>'' @ short_id @ ''</a></td><td>'' @ sx_source s @
         mk ''</td><td class=^'' @ (if sx_all_authorized s then ''p'' else ''f'') @ mk ''^>'' @
         (if sx_all_authorized s then ''PASS'' else ''FAIL'') @ ''</td><td>'' @ show_word (sx_heartbeats s) @ ''</td><td>'' @
         show_word (sx_duration_secs s div 60) @ ''m '' @ show_word (sx_duration_secs s mod 60) @ ''s</td><td>'' @
         show_nat (sx_node_count s) @ ''</td><td>'' @ format_timestamp (sx_start_time s) @ mk ''</td><td class=^hash^>'' @
         short_hash @ ''</td></tr>'' @ nl)))"

definition sessions_html :: "string \<Rightarrow> nat \<Rightarrow> string \<Rightarrow> string \<Rightarrow> string" where
  "sessions_html styles count idx_hash rows =
     text_lines (head_of styles ''Session History'' [mk ''<meta http-equiv=^refresh^ content=^30^>''] @
       ['' '', mk ''<div class=^header^>'', ''    <h1>Session History</h1>'', mk ''    <div class=^hstats^>'',
       mk ''        <span>Sessions: <span class=^v^>'' @ show_nat count @ ''</span></span>'',
       mk ''        <span>Index hash: <span class=^hash^>'' @ idx_hash @ ''...</span></span>'', ''    </div>'', ''</div>'', '' '',
       nav_bar, '' '', mk ''<div class=^pnl^>'',
       mk ''    <div class=^pnl-h^><span>Completed Sessions</span><span class=^ct^>'' @ show_nat count @ ''</span></div>'',
       ''    <table>'',
       ''    <tr><th>ID</th><th>Source</th><th>Result</th><th>Heartbeats</th><th>Duration</th><th>Nodes</th><th>File Hash</th></tr>'',
       ''    '' @ rows,
       ''    '' @ (if count = 0 then mk ''<tr><td colspan=^7^ style=^color:#444^>'' @
         ''No completed sessions yet. Run an authentication session and wait for it to complete.</td></tr>'' else ''''),
       ''    </table>'', ''</div>'', '' '', mk ''<div style=^padding:8px;^>'', mk ''    <div class=^api^>'',
       mk ''        API: <a href=^/api/sessions^>/api/sessions</a>'', ''    </div>'', ''</div>'', '' '', ''</body></html>''])"

definition render_sessions :: "string \<Rightarrow> SessionIndex option \<Rightarrow> string res" where
  "render_sessions styles index =
     (let sessions = (case index of None \<Rightarrow> [] | Some idx \<Rightarrow> si_sessions idx) in
      res_bind (res_map session_row (rev sessions)) (\<lambda>rows.
      res_bind (case index of None \<Rightarrow> Inr ''--'' | Some idx \<Rightarrow> str_slice_to (si_index_hash idx) 16) (\<lambda>idx_hash.
        Inr (sessions_html styles (length sessions) idx_hash (concat rows)))))"

section \<open>Differences to the baseline\<close>

definition message_page :: "string \<Rightarrow> string \<Rightarrow> string" where
  "message_page styles message =
     text_lines [''<!DOCTYPE html><html><head><style>'' @ styles @ ''</style></head><body>'',
       nav_bar @ mk ''<div class=^pnl^><div style=^padding:10px;color:#555;^>'' @ message @ ''</div></div>'', ''</body></html>'']"

definition diff_cell :: "string \<Rightarrow> string \<Rightarrow> string" where
  "diff_cell title content =
     mk ''    <td style=^width:50%;vertical-align:top;padding:4px;^><div style=^font-size:9px;color:#555;margin-bottom:2px;^>'' @
       title @ mk ''</div><div class=^cb^>'' @ html_escape content @ ''</div></td>''"

definition diff_row :: "string \<Rightarrow> string \<Rightarrow> string \<Rightarrow> string" where
  "diff_row label bl_content cur_content =
     (let same = (bl_content = cur_content) in
      text_lines ['''', mk ''<div class=^pnl^ style=^margin-bottom:8px;^>'',
        mk ''    <div class=^pnl-h^><span>'' @ label @ mk ''</span><span class=^'' @ (if same then ''p'' else ''f'') @ mk ''^>'' @
          (if same then ''IDENTICAL'' else ''CHANGED'') @ ''</span></div>'',
        ''    <table><tr>'', diff_cell ''BASELINE'' bl_content, diff_cell ''CURRENT'' cur_content, ''    </tr></table>'', ''</div>''])"

text \<open>The nine things compared, each with the text that stands for a missing one.\<close>

definition diff_items :: "EbpfState \<Rightarrow> AttestationMeta \<Rightarrow> (string \<times> string \<times> string) list" where
  "diff_items bl current =
     [(''/etc/passwd'', unwrap_or ''(missing)'' (es_passwd_content bl), unwrap_or ''(missing)'' (am_passwd_content current)),
      (''sshd_config'', unwrap_or ''(missing)'' (es_sshd_config_content bl), unwrap_or ''(missing)'' (am_sshd_config_content current)),
      (''authorized_keys'', unwrap_or ''(none)'' (es_authorized_keys_content bl), unwrap_or ''(none)'' (am_authorized_keys_content current)),
      (''ld.so.preload'', unwrap_or ''(empty)'' (es_ld_preload_content bl), unwrap_or ''(empty)'' (am_ld_preload_content current)),
      (''/proc/cmdline'', unwrap_or ''(missing)'' (es_boot_params_content bl), unwrap_or ''(missing)'' (am_boot_params_content current)),
      (''iptables'', unwrap_or ''(missing)'' (es_iptables_content bl), unwrap_or ''(missing)'' (am_iptables_content current)),
      (''mounts'', unwrap_or ''(missing)'' (es_mount_content bl), unwrap_or ''(missing)'' (am_mount_content current)),
      (''sysctl'', unwrap_or ''(missing)'' (es_sysctl_content bl), unwrap_or ''(missing)'' (am_sysctl_content current)),
      (''/dev inventory'', unwrap_or ''(missing)'' (map_option (str_join nl) (es_dev_inventory_list bl)),
        unwrap_or ''(missing)'' (map_option (str_join nl) (am_dev_inventory_list current)))]"

definition render_diff :: "string \<Rightarrow> NodeStatus \<Rightarrow> PcrBaseline option \<Rightarrow> string" where
  "render_diff styles node bl =
     (case bl of
        None \<Rightarrow> message_page styles ''No baseline loaded for this node.''
      | Some baseline \<Rightarrow>
          (case ns_full_meta node of
             None \<Rightarrow> message_page styles ''No attestation metadata available.''
           | Some current \<Rightarrow>
               (let diffs = (case bl_ebpf_baseline baseline of
                     Some b \<Rightarrow> concat (map (\<lambda>(label, old, new). diff_row label old new) (diff_items b current))
                   | None \<Rightarrow> mk ''<div class=^pnl^><div style=^padding:10px;color:#f44336;^>No eBPF baseline data available.</div></div>'')
                in text_lines (head_of styles (''Diff: '' @ ns_node_id node) [] @
                  ['' '', mk ''<div class=^header^>'',
                  ''    <h1>Baseline vs Current: '' @ ns_node_id node @ ''</h1>'', mk ''    <div class=^hstats^>'',
                  mk ''        <span>Baseline: <span class=^v^>'' @ show_word (bl_timestamp baseline) @ '' (unix)</span></span>'',
                  mk ''        <span>Current: <span class=^v^>'' @ show_word (ns_last_seen node) @ '' (unix)</span></span>'',
                  mk ''        <span><a class=^btn^ href=^/node/'' @ ns_node_id node @ mk ''^>Back to Node</a></span>'',
                  ''    </div>'', ''</div>'', '' '', nav_bar, '' '', diffs, '' '', ''</body></html>'']))))"

section \<open>Forensic events\<close>

definition forensic_row :: "json \<Rightarrow> string res" where
  "forensic_row entry =
     (let seq = show_word (unwrap_or 0 (json_field as_u64 ''seq'' entry));
          tier = unwrap_or ''Info'' (json_field as_str ''tier'' entry);
          src = unwrap_or ''?'' (json_field as_str ''source'' entry);
          hb = unwrap_or 0 (json_field as_u64 ''heartbeat'' entry);
          auth = unwrap_or False (json_field as_bool ''authorized'' entry);
          fhash = unwrap_or [] (json_field as_str ''file_hash'' entry);
          ts = unwrap_or 0 (json_field as_u64 ''timestamp'' entry);
          tc = (if tier = ''Critical'' then ''tc'' else if tier = ''Warning'' then ''tw'' else ''ti'')
      in res_bind (shorten 16 fhash) (\<lambda>hash.
        Inr (''<tr><td>'' @ seq @ mk ''</td><td><span class=^tier '' @ tc @ mk ''^>'' @ tier @ ''</span></td><td>#'' @ show_word hb @
          ''</td><td>'' @ src @ mk ''</td><td class=^'' @ (if auth then ''cp'' else ''cf'') @ mk ''^>'' @ (if auth then ''YES'' else ''NO'') @
          ''</td><td>'' @ format_timestamp ts @ mk ''</td><td class=^hash^>'' @ hash @ mk ''..</td><td><a class=^btn^ href=^/forensics/'' @
          seq @ mk ''^>View</a> <a class=^btn^ href=^/forensics/'' @ seq @ mk ''/download^>JSON</a></td></tr>'' @ nl)))"

definition forensics_html :: "string \<Rightarrow> nat \<Rightarrow> string \<Rightarrow> string" where
  "forensics_html styles count rows =
     text_lines (head_of styles ''Forensic Events'' [] @
       [mk ''<div class=^header^>'', ''    <h1>Forensic Events</h1>'',
       mk ''    <div class=^hstats^><span>Total: <span class=^v^>'' @ show_nat count @ ''</span></span></div>'', ''</div>'',
       nav_bar, mk ''<div class=^pnl^>'',
       mk ''    <div class=^pnl-h^><span>Stored Forensic Snapshots</span><span class=^ct^>'' @ show_nat count @ '' events</span></div>'',
       ''    <table>'',
       ''    <tr><th>Seq</th><th>Tier</th><th>HB</th><th>Source</th><th>Auth</th><th>Time</th><th>File Hash</th><th>Actions</th></tr>'',
       ''    '' @ rows,
       ''    '' @ (if count = 0 then mk ''<tr><td colspan=^8^ style=^color:#555^>'' @
         ''No forensic events captured. Forensic snapshots trigger automatically on Warning or Critical tier integrity failures.</td></tr>'' else ''''),
       ''    </table>'', ''</div>'', ''</body></html>''])"

definition forensic_index :: string where "forensic_index = ''/opt/mfa-monitor/forensics/index.json''"

definition stored_events :: "mon_env \<Rightarrow> (string \<rightharpoonup> string) \<Rightarrow> json list" where
  "stored_events E files =
     (case files forensic_index of None \<Rightarrow> [] | Some s \<Rightarrow> (case me_parse_list E s of Inr entries \<Rightarrow> entries | Inl _ \<Rightarrow> []))"

definition render_forensics_list :: "mon_env \<Rightarrow> string \<Rightarrow> (string \<rightharpoonup> string) \<Rightarrow> string res" where
  "render_forensics_list E styles files =
     (let disk_index = stored_events E files in
      res_bind (res_map forensic_row (rev disk_index)) (\<lambda>rows. Inr (forensics_html styles (length disk_index) (concat rows))))"

section \<open>When a page returns\<close>

named_theorems renders \<open>when a step of a page returns\<close>

lemma is_inr_bind [renders]: "is_inr (res_bind m f) \<longleftrightarrow> is_inr m \<and> is_inr (f (projr m))"
  by (cases m) simp_all

lemma str_slice_inr [renders]:
  "is_inr (str_slice_to s n) \<longleftrightarrow> char_boundary s n" "is_inr (str_slice_from s n) \<longleftrightarrow> char_boundary s n"
  by (simp_all add: str_slice_to_def str_slice_from_def)

definition short_ok :: "nat \<Rightarrow> string \<Rightarrow> bool" where
  "short_ok n s \<longleftrightarrow> (n \<le> length s \<longrightarrow> char_boundary s n)"

lemma shorten_inr [renders]: "is_inr (shorten n s) \<longleftrightarrow> short_ok n s"
  by (simp add: shorten_def short_ok_def str_slice_inr)

lemmas [renders] = res_map_is_inr

definition session_shown :: "SessionIndexEntry \<Rightarrow> bool" where
  "session_shown s \<longleftrightarrow> char_boundary (sx_session_id s) 8 \<and> char_boundary (sx_file_hash s) 16"

lemma session_row_inr [renders]: "is_inr (session_row s) \<longleftrightarrow> session_shown s"
  by (simp add: session_row_def session_shown_def renders)

definition index_shown :: "SessionIndex \<Rightarrow> bool" where
  "index_shown i \<longleftrightarrow> list_all session_shown (si_sessions i) \<and> char_boundary (si_index_hash i) 16"

lemma render_sessions_inr [renders]:
  "is_inr (render_sessions styles index) \<longleftrightarrow> (case index of None \<Rightarrow> True | Some i \<Rightarrow> index_shown i)"
  by (cases index) (simp_all add: render_sessions_def index_shown_def Let_def renders)

definition stored_hash :: "json \<Rightarrow> string" where
  "stored_hash entry = unwrap_or [] (json_field as_str ''file_hash'' entry)"

lemma forensics_list_inr [renders]:
  "is_inr (render_forensics_list E styles files) \<longleftrightarrow> list_all (\<lambda>j. short_ok 16 (stored_hash j)) (stored_events E files)"
  by (simp add: render_forensics_list_def forensic_row_def stored_hash_def Let_def renders)

subsection \<open>Plain text\<close>

text \<open>ASCII text can be cut anywhere.\<close>

definition plain :: "string \<Rightarrow> bool" where "plain s \<longleftrightarrow> list_all (byte_in 0 0x7F) s"

lemma plain_boundary: "plain s \<Longrightarrow> n \<le> length s \<Longrightarrow> char_boundary s n"
  by (cases "n = length s") (auto simp: plain_def char_boundary_def list_all_length byte_in_def dest!: spec [of _ n])

lemma plain_short [simp]: "plain s \<Longrightarrow> short_ok n s"
  by (simp add: short_ok_def plain_boundary)

lemma plain_append [simp]: "plain (s @ t) \<longleftrightarrow> plain s \<and> plain t"
  by (simp add: plain_def)

lemma plain_drop: "plain s \<Longrightarrow> plain (drop n s)"
  by (auto simp: plain_def list_all_iff dest: in_set_dropD)

lemma plain_hex_digit: "d < 16 \<Longrightarrow> byte_in 0 0x7F (hex_digit d)"
  by (auto simp: byte_in_def hex_digit_def)

lemma plain_hex [simp]: "plain (hex_encode bs)"
proof -
  have "unat b div 16 < 16" for b :: u8
    using unsigned_less [of b, where 'a = nat] by simp
  then show ?thesis by (simp add: plain_def hex_encode_def list_all_iff plain_hex_digit)
qed

lemma plain_sha256_hex [simp]: "plain (sha256_hex X s)"
  by (simp add: sha256_hex_def)

end
