(* ===== verification/Node_Page.thy ===== *)
theory Node_Page
  imports Pages
begin

text \<open>
  The two detail pages of the monitor (\<open>mfa-monitor/src/bin/monitor.rs\<close>): a forensic event with the snapshot of the
  verifier, and a node with its checks, metadata, traffic statistics, runtime state and raw files.  Lemmas: exactly when
  the page of a node panics, and that the metadata a verifier extracts from an attestation is shown when the paths of the
  measured programs are plain.
\<close>

section \<open>Page of a forensic event\<close>

definition process_row :: "ProcessDetail \<Rightarrow> string" where
  "process_row p =
     ''<tr><td>'' @ show_word (pd_pid p) @ ''</td><td>'' @ show_word (pd_ppid p) @ ''</td><td>'' @ html_escape (pd_comm p) @
     ''</td><td>'' @ html_escape (pd_exe_path p) @ ''</td><td>'' @ show_word (pd_uid p) @ ''</td><td>'' @ pd_start_time p @ ''</td></tr>''"

definition volatile_block :: "ProcessVolatileEvidence \<Rightarrow> string" where
  "volatile_block pv =
     text_lines ['''', ''<details>'',
       ''<summary>PID '' @ show_word (pv_pid pv) @ '' ('' @ html_escape (pv_comm pv) @ '') -- '' @ show_nat (length (pv_memory_maps pv)) @
         '' maps, '' @ show_nat (length (pv_open_fds pv)) @ '' fds, '' @ show_nat (length (pv_environment pv)) @ '' env</summary>'',
       mk ''<div class=^cb^>'' @ html_escape (str_join nl (pv_open_fds pv)) @ ''</div>'',
       mk ''<div class=^cb^>'' @ html_escape (str_join nl (pv_memory_maps pv)) @ ''</div>'', ''</details>'']"

definition listing :: "string \<Rightarrow> string \<Rightarrow> string list \<Rightarrow> string list" where
  "listing title unit ls =
     [''    <details><summary>'' @ title @ '' ('' @ show_nat (length ls) @ '' '' @ unit @ '')</summary>'',
      mk ''    <div class=^cb^>'' @ html_escape (str_join nl ls) @ ''</div>'', ''    </details>'']"

definition snapshot_block :: "NodeForensicData \<Rightarrow> string" where
  "snapshot_block snap =
     text_lines (['''', mk ''<div class=^pnl^>'',
       mk ''    <div class=^pnl-h^><span>Local System Snapshot (Verifier Node)</span></div>'', mk ''    <div style=^padding:8px;^>'',
       ''    <table><tr><td>Timestamp</td><td>'' @ show_word (nf_timestamp snap) @ ''</td></tr><tr><td>Uptime</td><td>'' @
         show_word (nf_uptime_seconds snap) @ ''s</td></tr><tr><td>Load</td><td>'' @ html_escape (nf_load_average snap) @ ''</td></tr></table>'',
       '' '', ''    <details><summary>Process Tree ('' @ show_nat (length (nf_process_tree snap)) @ '' processes)</summary>'',
       ''    <table>'', ''    <tr><th>PID</th><th>PPID</th><th>Comm</th><th>Exe</th><th>UID</th><th>Start</th></tr>'',
       ''    '' @ str_join nl (map process_row (nf_process_tree snap)), ''    </table>'', ''    </details>'', '' '',
       ''    <details><summary>Per-Process Volatile Evidence ('' @ show_nat (length (nf_process_volatile snap)) @ '' processes)</summary>'',
       ''    '' @ str_join nl (map volatile_block (nf_process_volatile snap)), ''    </details>'', '' ''] @
       listing ''TCP Connections'' ''entries'' (nf_tcp_connections snap) @ ['' ''] @
       listing ''ARP Table'' ''entries'' (nf_arp_table snap) @ ['' ''] @
       listing ''dmesg'' ''lines'' (nf_dmesg_tail snap) @ ['' ''] @
       listing ''IMA Measurements'' ''entries'' (nf_ima_tail snap) @ [''    </div>'', ''</div>''])"

definition summary_line :: "string \<Rightarrow> string \<Rightarrow> string" where
  "summary_line label content = ''    <tr><td>'' @ label @ ''</td><td>'' @ content @ ''</td></tr>''"

definition event_html :: "string \<Rightarrow> AuditEntryV2 \<Rightarrow> ForensicCapture \<Rightarrow> string" where
  "event_html styles entry f =
     (let seq = show_word (ae2_seq entry);
          tc = (if fc_tier f = ''CRITICAL'' then ''tc'' else if fc_tier f = ''WARNING'' then ''tw'' else ''ti'');
          trigger_list = str_join nl (map (\<lambda>c. ''<li>'' @ html_escape c @ ''</li>'') (fc_trigger_checks f));
          node_details = (case fc_node_details f of None \<Rightarrow> []
            | Some ds \<Rightarrow> str_join nl (map (\<lambda>d. mk ''<div class=^cb^ style=^margin:4px 0;^>'' @ html_escape d @ ''</div>'') ds))
      in text_lines (head_of styles (''Forensic Event #'' @ seq) [] @
        ['' '', mk ''<div class=^header^>'', ''    <h1>Forensic Event #'' @ seq @ ''</h1>'', mk ''    <div class=^hstats^>'',
         mk ''        <span><span class=^tier '' @ tc @ mk ''^>'' @ fc_tier f @ ''</span></span>'',
         mk ''        <span><a class=^btn^ href=^/forensics/'' @ seq @ mk ''/download^>Download JSON</a></span>'', ''    </div>'', ''</div>'',
         '' '', nav_bar, '' '', mk ''<div class=^pnl^>'', mk ''    <div class=^pnl-h^><span>Event Summary</span></div>'',
         mk ''    <table style=^padding:8px;^>'', summary_line ''Sequence'' seq,
         summary_line ''Timestamp'' (show_word (ae2_timestamp entry) @ '' (unix)''), summary_line ''Verifier'' (ae2_node_id entry),
         summary_line ''Heartbeat'' (''#'' @ show_word (ae2_heartbeat entry)), summary_line ''Event'' (event_name (ae2_event entry)),
         summary_line ''Session Status'' (ae2_session_status entry),
         mk ''    <tr><td>Authorized</td><td class=^'' @ (if ae2_authorized entry then ''p'' else ''f'') @ mk ''^>'' @
           (if ae2_authorized entry then ''Yes'' else ''No'') @ ''</td></tr>'',
         summary_line ''Verification'' (or_dashes (\<lambda>m. show_word m @ ''ms'') (ae2_verification_duration_ms entry)),
         mk ''    <tr><td>Previous Hash</td><td class=^hash^>'' @ ae2_prev_hash entry @ ''</td></tr>'', ''    </table>'', ''</div>'', '' '',
         mk ''<div class=^pnl^>'', mk ''    <div class=^pnl-h^><span>Trigger Analysis</span></div>'', mk ''    <div style=^padding:8px;^>'',
         ''    <p>Failing nodes: <b>'' @ str_join '', '' (fc_trigger_nodes f) @ ''</b></p>'',
         ''    <p>Failed checks ('' @ show_nat (length (fc_trigger_checks f)) @ ''):</p>'',
         mk ''    <ul style=^margin:4px 0 4px 20px;^>'' @ trigger_list @ ''</ul>'', ''    </div>'', ''</div>'', '' '',
         mk ''<div class=^pnl^>'', mk ''    <div class=^pnl-h^><span>Failing Node Details</span></div>'', mk ''    <div style=^padding:8px;^>'',
         ''    '' @ node_details, ''    </div>'', ''</div>'', '' '',
         (case fc_local_snapshot f of None \<Rightarrow> [] | Some snap \<Rightarrow> snapshot_block snap), '' '', ''</body></html>'']))"

definition render_forensic_detail :: "string \<Rightarrow> AuditEntryV2 \<Rightarrow> string" where
  "render_forensic_detail styles entry =
     (case ae2_forensic entry of
        None \<Rightarrow> ''<!DOCTYPE html><html><head><style>'' @ styles @ ''</style></head><body>'' @ nav_bar @
          mk ''<div class=^pnl^><div style=^padding:10px;^>No forensic data in this entry.</div></div></body></html>''
      | Some f \<Rightarrow> event_html styles entry f)"

section \<open>Traffic statistics\<close>

text \<open>Percentages wrap like the counters; the divisors are at least one.\<close>

definition percent :: "u64 \<Rightarrow> u64 \<Rightarrow> u64" where "percent n whole = (n * 100) div whole"

definition max_of :: "u64 list \<Rightarrow> u64" where "max_of hist = max 1 (foldl max 0 hist)"

definition hist_bar :: "(u64 \<Rightarrow> u64 \<Rightarrow> u32) \<Rightarrow> string \<Rightarrow> string \<Rightarrow> u64 list \<Rightarrow> u64 \<Rightarrow> string" where
  "hist_bar bar color label hist count =
     text_lines [mk ''<div style=^display:flex;align-items:center;margin:1px 0;^>'',
       mk ''                <span style=^width:60px;text-align:right;color:#666;font-size:10px;^>'' @ label @ '':</span>'',
       mk ''                <div style=^background:'' @ color @ '';height:12px;width:'' @ show_word (bar count (max_of hist)) @
         mk ''px;margin:0 6px;border-radius:1px;^></div>'',
       mk ''                <span style=^color:#888;font-size:10px;^>'' @ show_word count @ '' ('' @
         show_word (percent count (max 1 (sum_list hist))) @ ''%)</span>'', ''                </div>'']"

definition histogram_html ::
  "(u64 \<Rightarrow> u64 \<Rightarrow> u32) \<Rightarrow> string \<Rightarrow> (nat \<Rightarrow> string) \<Rightarrow> string \<Rightarrow> u64 list option \<Rightarrow> string" where
  "histogram_html bar color label none_yet h =
     (case h of
        None \<Rightarrow> mk ''<div style=^color:#555;padding:4px;^>Histogram data not available.</div>''
      | Some hist \<Rightarrow>
          (let bars = concat (map (\<lambda>(i, count). if count = 0 then [] else hist_bar bar color (label i) hist count) (enumerate 0 hist))
           in if bars = [] then mk ''<div style=^color:#555;padding:4px;^>'' @ none_yet @ ''</div>'' else bars))"

definition entropy_label :: "nat \<Rightarrow> string" where
  "entropy_label i = show_nat (i * 10) @ ''-'' @ show_nat (i * 10 + 9)"

definition size_label :: "nat \<Rightarrow> string" where
  "size_label i = (if i = 15 then show_nat (i * 100) @ ''+'' else show_nat (i * 100) @ ''-'' @ show_nat (i * 100 + 99))"

definition counter_row :: "string \<Rightarrow> string \<Rightarrow> string \<Rightarrow> string \<Rightarrow> string \<Rightarrow> string" where
  "counter_row cls label value pct description =
     ''        <tr><td'' @ cls @ ''>'' @ label @ ''</td><td'' @ cls @ ''>'' @ value @ ''</td><td>'' @ pct @ ''</td><td>'' @ description @ ''</td></tr>''"

definition xdp_stats_panel :: "(u64 \<Rightarrow> u64 \<Rightarrow> u32) \<Rightarrow> AttestationMeta \<Rightarrow> string" where
  "xdp_stats_panel bar meta =
     (case am_xdp_passed meta of
        None \<Rightarrow> mk ''<div class=^pnl^><div class=^pnl-h^><span>XDP Traffic Statistics</span></div><div style=^padding:10px;color:#555;^>No XDP statistics available for this node.</div></div>''
      | Some passed \<Rightarrow>
          (let drop_ent = unwrap_or 0 (am_xdp_drop_entropy meta); drop_pro = unwrap_or 0 (am_xdp_drop_protocol meta);
               drop_prt = unwrap_or 0 (am_xdp_drop_port meta); total = max 1 (unwrap_or 1 (am_xdp_total meta));
               exempt = unwrap_or 0 (am_xdp_exempt meta);
               dec = mk '' class=^'' @ (if 0 < drop_ent then ''f'' else ''p'') @ mk ''^'';
               title = mk ''            <div style=^color:#4a9eff;font-weight:600;font-size:10px;text-transform:uppercase;margin-bottom:4px;^>'';
               note = mk ''            <div style=^font-size:9px;color:#555;margin-bottom:4px;^>''
           in text_lines ['''', mk ''<div class=^pnl^>'',
             mk ''    <div class=^pnl-h^><span>XDP Traffic Statistics</span><span class=^ct^>Layer 1 Defense</span></div>'',
             mk ''    <div style=^padding:10px;^>'', '' '', mk ''    <div style=^margin-bottom:12px;^>'',
             mk ''        <div style=^color:#4a9eff;font-weight:600;font-size:10px;text-transform:uppercase;margin-bottom:4px;^>Traffic Counters</div>'',
             ''        <table>'', ''        <tr><th>Counter</th><th>Value</th><th>%</th><th>Description</th></tr>'',
             counter_row [] ''Total Packets'' (show_word total) ''100%'' ''All TCP packets received'',
             counter_row (mk '' class=^p^'') ''Passed'' (show_word passed) (show_word (percent passed total) @ ''%'')
               ''Packets verified as encrypted (high entropy) or authorized bypass'',
             counter_row dec ''Dropped (Entropy)'' (show_word drop_ent) (show_word (percent drop_ent total) @ ''%'')
               ''Packets with insufficient randomness. (blocked) '',
             counter_row [] ''Dropped (Protocol)'' (show_word drop_pro) [] ''Non-TCP traffic (ICMP, UDP). ONLY TCP is permitted'',
             counter_row [] ''Dropped (Port)'' (show_word drop_prt) [] (''Traffic on unauthorized ports for this node'' @ [CHR 0x27] @ ''s role''),
             counter_row [] ''Exempt'' (show_word exempt) (show_word (percent exempt total) @ ''%'')
               ''Small packets (&lt;128 bytes) bypassing entropy check, such as TCP control segments (ACK, FIN, RST)'',
             ''        </table>'', ''    </div>'', '' '', mk ''    <div style=^display:grid;grid-template-columns:1fr 1fr;gap:12px;^>'',
             ''        <div>'', title, ''                Entropy Distribution (unique bytes per payload)'', ''            </div>'', note,
             ''                Encrypted traffic produces 250+ unique byte values per 1500-byte payload.'',
             ''                Plaintext typically shows 40-70. Threshold: 85 (authenticated), 80 (handshake).'', ''            </div>'',
             ''            '' @ histogram_html bar ''#4a9eff'' entropy_label ''No entropy-checked packets recorded.'' (am_xdp_entropy_histogram meta),
             ''        </div>'', ''        <div>'', title, ''                Packet Size Distribution (bytes)'', ''            </div>'', note,
             ''                Encrypted relay traffic clusters at MTU size (1400-1499 bytes).'',
             ''                Small packets (0-99) are TCP control segments. Anomalous size distributions'',
             ''                may indicate traffic manipulation.'', ''            </div>'',
             ''            '' @ histogram_html bar ''#ff9800'' size_label ''No size data recorded.'' (am_xdp_size_histogram meta),
             ''        </div>'', ''    </div>'', '' '', ''    </div>'', ''</div>'']))"

section \<open>Page of a node\<close>

definition check_line :: "string \<Rightarrow> bool \<Rightarrow> string \<Rightarrow> string" where
  "check_line name ok detail =
     ''<tr><td>'' @ name @ mk ''</td><td class=^'' @ (if ok then ''p'' else ''f'') @ mk ''^>'' @ (if ok then ''PASS'' else ''FAIL'') @
     ''</td><td>'' @ detail @ ''</td></tr>'' @ nl"

definition group_line :: "string \<Rightarrow> string" where
  "group_line title = mk ''    <tr><td colspan=^3^ style=^color:#4a9eff; font-weight:600; padding-top:8px;^>'' @ title @ ''</td></tr>''"

definition sysmon_text :: "NodeStatus \<Rightarrow> string" where
  "sysmon_text node =
     (if ns_sysmon_unloaded node then ''UNLOADED'' else if ns_sysmon_anomaly node then ''ANOMALY DETECTED''
      else show_word (unwrap_or 0 (ns_sysmon_hooks node)) @ '' hooks active'')"

definition node_checks :: "NodeStatus \<Rightarrow> string" where
  "node_checks node =
     text_lines ['''', group_line ''IDENTITY'',
       ''    '' @ check_line ''PCR Match'' (ns_pcr_match node) ''Platform Configuration Registers 0-7'' @
         check_line ''AK Match'' (ns_ak_match node) ''Attestation Key identity'' @
         check_line ''Signature'' (ns_sig_valid node) ''TPM quote signature verification'' @
         check_line ''TPM Checkpoint'' (unwrap_or False (ns_tpm_signed node)) ''TPM-signed audit chain'',
       group_line ''CODE INTEGRITY'',
       ''    '' @ check_line ''IMA'' (ns_ima_valid node) (show_word (ns_ima_count node) @ '' measurements'' @
           (case ns_ima_delta node of None \<Rightarrow> [] | Some d \<Rightarrow> '', delta '' @ show_signed d)) @
         check_line ''Binary Hashes'' (ns_bin_ok node) ''Agent binary integrity'',
       group_line ''RUNTIME BEHAVIOR'',
       ''    '' @ check_line ''Syscall Monitor'' (ns_sysmon_active node \<and> \<not> ns_sysmon_anomaly node \<and> \<not> ns_sysmon_unloaded node) (sysmon_text node) @
         check_line ''File Descriptors'' (ns_fd_ok node) (show_word (ns_fd_count node) @ '' open descriptors'') @
         check_line ''Kernel Integrity'' (ns_kern_ok node) (unwrap_or ''--'' (ns_kern_details node)),
       group_line ''NETWORK'',
       ''    '' @ check_line ''XDP Entropy Filter'' (ns_xdp_attached node) ''eBPF packet encryption verification'' @
         check_line ''Firewall Rules'' (ns_fw_ok node) ''iptables rule hash'' @
         check_line ''Connections'' (ns_connections_ok node) (show_word (ns_connection_count node) @ '' tuples'') @
         check_line ''Listening Ports'' (ns_ports_ok node)
           (if ns_ports node = [] then ''--'' else str_join '', '' (map show_word (ns_ports node))),
       group_line ''FILESYSTEM &amp; CONFIG'',
       ''    '' @ check_line ''/etc/passwd'' (ns_passwd_ok node) ''User account integrity'' @
         check_line ''sshd_config'' (ns_ssh_ok node) ''SSH daemon configuration'' @
         check_line ''ld.so.preload'' (ns_ld_preload_safe node) ''Library injection detection'' @
         check_line ''Boot Parameters'' (ns_boot_params_ok node) ''/proc/cmdline'' @
         check_line ''/dev Inventory'' (ns_dev_inventory_ok node) ''Device node enumeration'' @
         check_line ''Mounts'' (ns_mnt_ok node) ''/proc/mounts hash'' @
         check_line ''Config'' (ns_cfg_ok node) ''Configuration file hashes'' @
         check_line ''Sysctl'' (ns_sys_ok node) ''Kernel parameter hash'' @
         check_line ''Init Scripts'' (ns_init_ok node) (show_word (ns_init_count node) @ '' active, '' @ show_word (ns_init_unused node) @ '' unused''),
       group_line ''SYSTEM HEALTH'',
       ''    '' @ check_line ''Entropy Pool'' (case ns_entropy_available node of None \<Rightarrow> False | Some e \<Rightarrow> 128 \<le> e)
           (or_dashes (\<lambda>e. show_word e @ '' bits'') (ns_entropy_available node)) @
         check_line ''Process Masquerade'' (\<not> ns_masquerade_detected node)
           (if ns_masquerade_detected node then ''MASQUERADE DETECTED'' else ''No masquerade'') @
         check_line ''Kernel Modules'' (ns_kernel_modules_empty node) ''No loadable modules'' @
         check_line ''Userspace Manifest'' (ns_userspace_ok node) (show_word (ns_userspace_count node) @ '' processes'') @
         check_line ''Kernel Threads'' (ns_kernel_threads_ok node) (show_word (ns_kernel_thread_count node) @ '' types''), '''']"

text \<open>\<open>s.splitn(2, ": ")\<close> and the first sixteen bytes of the second part.\<close>

definition binary_row :: "string \<Rightarrow> string res" where
  "binary_row s =
     (case str_find '': '' s of
        Some i \<Rightarrow>
          (let hash = drop (i + 2) s in
           res_bind (str_slice_to hash (min 16 (length hash))) (\<lambda>short.
             Inr (mk ''<tr><td style=^color:#999;font-size:9px;^>'' @ html_escape (take i s) @ mk ''</td><td class=^hash^>'' @ short @ ''</td></tr>'')))
      | None \<Rightarrow> Inr (''<tr><td>'' @ html_escape s @ ''</td></tr>''))"

definition cell_row :: "string \<Rightarrow> string" where
  "cell_row s = ''<tr><td>'' @ html_escape s @ ''</td></tr>''"

definition tag :: "string \<Rightarrow> string \<Rightarrow> string" where
  "tag style s = mk ''<span style=^display:inline-block;padding:1px 4px;margin:1px;'' @ style @ mk ''^>'' @ html_escape s @ ''</span>''"

definition missing_row :: string where "missing_row = mk ''<tr><td style=^color:#555^>Not available</td></tr>''"

definition missing_tag :: string where "missing_tag = mk ''<span style=^color:#555^>Not available</span>''"

definition rows_or_missing :: "string list option \<Rightarrow> string" where
  "rows_or_missing xs = (case xs of None \<Rightarrow> missing_row | Some l \<Rightarrow> str_join nl (map cell_row l))"

definition tags_or_missing :: "string \<Rightarrow> string list option \<Rightarrow> string" where
  "tags_or_missing style xs = (case xs of None \<Rightarrow> missing_tag | Some l \<Rightarrow> concat (map (tag style) l))"

definition count_of :: "'a list option \<Rightarrow> string" where
  "count_of xs = show_nat (case xs of None \<Rightarrow> 0 | Some l \<Rightarrow> length l)"

definition small_title :: string where
  "small_title = mk ''        <div style=^font-size:10px;color:#4a9eff;font-weight:600;margin-bottom:4px;^>''"

definition runtime_block :: "AttestationMeta \<Rightarrow> string \<Rightarrow> string" where
  "runtime_block meta binaries =
     text_lines ['''', mk ''<div class=^pnl^>'',
       mk ''    <div class=^pnl-h^><span>Runtime State</span><span class=^ct^>Live process manifest, kernel threads, network connections</span></div>'',
       mk ''    <div style=^display:grid;grid-template-columns:1fr 1fr 1fr;gap:12px;padding:8px;^>'', ''    <div>'',
       small_title @ ''Userspace Processes ('' @ show_word (unwrap_or 0 (am_userspace_process_count meta)) @ '')</div>'',
       ''        <table>'' @ rows_or_missing (am_userspace_processes meta) @ ''</table>'', ''        '', ''    </div>'', ''    <div>'',
       small_title @ ''Kernel Thread Types ('' @ show_word (unwrap_or 0 (am_kernel_thread_type_count meta)) @ '')</div>'',
       ''        <div>'' @ tags_or_missing ''background:#1a1a1a;border:1px solid #2a2a2a;font-size:10px;'' (am_kernel_thread_types meta) @ ''</div>'',
       '''', ''    </div>'', ''    <div>'',
       small_title @ ''Connection Tuples ('' @ show_word (unwrap_or 0 (am_connection_tuple_count meta)) @ '')</div>'',
       ''        <table>'' @ rows_or_missing (am_connection_tuples meta) @ ''</table>'', '''', ''    </div>'', ''    </div>'', ''</div>'',
       mk ''<div class=^pnl^>'',
       mk ''    <div class=^pnl-h^><span>Binary &amp; Init Integrity</span><span class=^ct^>File hashes and boot services</span></div>'',
       mk ''    <div style=^display:grid;grid-template-columns:1fr 1fr;gap:16px;padding:8px;^>'', ''    <div>'',
       small_title @ ''Binary Integrity ('' @ count_of (am_binary_hashes meta) @ '' files)</div>'',
       ''        <table>'' @ binaries @ ''</table>'',
       mk ''        <div style=^font-size:8px;color:#888;margin-top:4px;^>SHA-256 hashes of critical binaries compared against TPM-sealed baseline every heartbeat.</div>'',
       ''    </div>'', ''    <div>'',
       small_title @ ''Init Scripts (active: '' @ count_of (am_init_active_scripts meta) @ '', unused: '' @
         count_of (am_init_inactive_scripts meta) @ '')</div>'',
       mk ''        <div style=^font-size:9px;color:#999;margin-bottom:2px;^>Active (boot-enabled):</div>'',
       ''        <div>'' @ tags_or_missing ''background:#0a1a0a;border:1px solid #1a3a1a;font-size:9px;color:#3ddc84;'' (am_init_active_scripts meta) @ ''</div>'',
       mk ''        <div style=^font-size:9px;color:#999;margin-top:4px;margin-bottom:2px;^>Unused (present but not enabled):</div>'',
       ''        <div>'' @ (if am_init_inactive_scripts meta = Some [] then mk ''<span style=^color:#3ddc84;font-size:9px;^>None</span>''
         else tags_or_missing ''background:#1a1408;border:1px solid #4a3a1a;font-size:9px;color:#ff9800;'' (am_init_inactive_scripts meta)) @ ''</div>'',
       mk ''        <div style=^font-size:8px;color:#888;margin-top:4px;^>Covers /etc/init.d/, /etc/runlevels/, /etc/local.d/. Hash: <span class=^hash^>'' @
         unwrap_or ''--'' (am_init_scripts_hash meta) @ ''</span></div>'', ''    </div>'', ''    </div>'', ''</div>'']"

definition runtime_html :: "AttestationMeta \<Rightarrow> string res" where
  "runtime_html meta =
     res_bind (case am_binary_hashes meta of None \<Rightarrow> Inr missing_row
        | Some b \<Rightarrow> res_bind (res_map binary_row b) (\<lambda>rows. Inr (str_join nl rows))) (\<lambda>binaries.
       Inr (runtime_block meta binaries))"

definition meta_html :: "AttestationMeta option \<Rightarrow> string" where
  "meta_html full_meta =
     (case full_meta of
        None \<Rightarrow> mk ''<div class=^pnl^><div class=^pnl-h^><span>Attestation Metadata</span></div><div style=^padding:10px;color:#555;^>No attestation metadata received yet.</div></div>''
      | Some meta \<Rightarrow>
          text_lines ['''', mk ''<div class=^pnl^>'', mk ''    <div class=^pnl-h^><span>Attestation Metadata</span></div>'',
            mk ''    <table style=^padding: 8px;^>'', ''    <tr><th>Field</th><th>Value</th></tr>'',
            summary_line ''TPM Quote'' (show_word (am_tpm_quote_bytes meta) @ '' bytes''),
            summary_line ''TPM Signature'' (show_word (am_tpm_signature_bytes meta) @ '' bytes''),
            summary_line ''AK Public Key'' (show_word (am_ak_public_bytes meta) @ '' bytes''),
            summary_line ''PCR Values'' (show_word (am_pcr_count meta) @ '' registers''),
            summary_line ''IMA Measurements'' (show_word (am_ima_count meta)),
            mk ''    <tr><td>IMA Aggregate Hash</td><td class=^hash^>'' @ am_ima_aggregate_hash meta @ ''</td></tr>'',
            mk ''    <tr><td>IMA PCR10</td><td class=^hash^>'' @ am_ima_pcr10 meta @ ''</td></tr>'',
            summary_line ''Userspace Processes'' (or_dashes show_word (am_userspace_process_count meta)),
            summary_line ''Kernel Thread Types'' (or_dashes show_word (am_kernel_thread_type_count meta)),
            summary_line ''Kernel Modules'' (or_dashes show_word (am_kernel_modules_count meta)),
            summary_line ''Network Connections'' (show_word (am_network_connections meta)),
            summary_line ''Connection Tuples'' (or_dashes show_word (am_connection_tuple_count meta)),
            summary_line ''XDP Attached'' (or_dashes (\<lambda>b. if b then ''true'' else ''false'') (am_xdp_attached meta)),
            summary_line ''Entropy Available'' (or_dashes (\<lambda>e. show_word e @ '' bits'') (am_entropy_available meta)),
            ''    </table>'', ''</div>''])"

definition byte_len :: "string option \<Rightarrow> string" where
  "byte_len content = show_nat (case content of None \<Rightarrow> 0 | Some s \<Rightarrow> length s)"

definition content_block :: "string \<Rightarrow> string option \<Rightarrow> string" where
  "content_block label content =
     ''<details><summary>'' @ label @ '' ('' @ byte_len content @ mk '' bytes)</summary><div class=^cb^>'' @
     html_escape (unwrap_or ''(not collected)'' content) @ ''</div></details>'' @ nl"

definition raw_html :: "string \<Rightarrow> AttestationMeta option \<Rightarrow> string" where
  "raw_html node_id full_meta =
     (case full_meta of
        None \<Rightarrow> []
      | Some meta \<Rightarrow>
          text_lines ['''', mk ''<div class=^pnl^>'',
            mk ''    <div class=^pnl-h^><span>Raw Content Snapshots</span><span class=^ct^>Transmitted per heartbeat</span></div>'',
            mk ''    <div style=^padding: 8px;^>'',
            ''    '' @ content_block ''/etc/passwd'' (am_passwd_content meta) @ content_block ''/etc/shadow'' (am_shadow_content meta) @
              content_block ''sshd_config'' (am_sshd_config_content meta) @ content_block ''authorized_keys'' (am_authorized_keys_content meta),
            ''    <details><summary>ld.so.preload ('' @ byte_len (am_ld_preload_content meta) @ '' bytes)'' @
              (case am_ld_preload_content meta of None \<Rightarrow> '' -- empty'' | Some s \<Rightarrow> if str_trim s \<noteq> [] then '' -- NOT EMPTY'' else '' -- empty'') @
              mk ''</summary><div class=^cb^>'' @ html_escape (unwrap_or ''(missing -- safe)'' (am_ld_preload_content meta)) @ ''</div></details>'',
            ''    '' @ content_block ''/proc/cmdline'' (am_boot_params_content meta) @ content_block ''iptables rules'' (am_iptables_content meta) @
              content_block ''/proc/mounts'' (am_mount_content meta) @ content_block ''sysctl'' (am_sysctl_content meta),
            ''    <details><summary>/dev inventory ('' @ count_of (am_dev_inventory_list meta) @ mk '' entries)</summary><div class=^cb^>'' @
              html_escape (case am_dev_inventory_list meta of None \<Rightarrow> ''(not collected)'' | Some l \<Rightarrow> str_join nl l) @ ''</div></details>'',
            mk ''    <div style=^margin-top:8px;^><a class=^btn^ href=^/diff/'' @ node_id @ mk ''^>Compare Against Baseline</a></div>'',
            ''    </div>'', ''</div>''])"

definition em_dash :: string where "em_dash = [CHR 0xE2, CHR 0x80, CHR 0x94]"

definition render_node_detail :: "string \<Rightarrow> (u64 \<Rightarrow> u64 \<Rightarrow> u32) \<Rightarrow> u64 \<Rightarrow> NodeStatus \<Rightarrow> PcrBaseline option \<Rightarrow> string res" where
  "render_node_detail styles bar now node baseline =
     res_bind (case ns_full_meta node of None \<Rightarrow> Inr [] | Some meta \<Rightarrow> runtime_html meta) (\<lambda>runtime.
       Inr (text_lines (head_of styles (''Node '' @ ns_node_id node @ '' '' @ em_dash @ '' Detail'') [mk ''<meta http-equiv=^refresh^ content=^10^>''] @
         ['' '', mk ''<div class=^header^>'', ''    <h1>Node: '' @ ns_node_id node @ ''</h1>'', mk ''    <div class=^hstats^>'',
          mk ''        <span>Chain: <span class=^v^>'' @ show_word (ns_chain node) @ ''</span></span>'',
          mk ''        <span>Status: <span class=^'' @ (if ns_pass node then ''ok'' else ''fl'') @ mk ''^>'' @
            (if ns_pass node then ''PASSING'' else ''FAILING'') @ ''</span></span>'',
          mk ''        <span>Baseline: <span class=^v^>'' @ (if baseline \<noteq> None then ''Available'' else ''Not loaded'') @ ''</span></span>'',
          mk ''        <span>Last seen: <span class=^v^>'' @ show_word (saturating_sub now (ns_last_seen node)) @ ''s ago</span></span>'',
          ''    </div>'', ''</div>'', '' '', nav_bar, '' '', mk ''<div class=^pnl^>'',
          mk ''    <div class=^pnl-h^><span>Verification Status</span><span class=^ct^>28 checks</span></div>'',
          mk ''    <table style=^padding: 8px;^>'', ''    <tr><th>Check</th><th>Result</th><th>Detail</th></tr>'',
          ''    '' @ node_checks node, ''    </table>'', ''</div>'', '' '', meta_html (ns_full_meta node), '''',
          (case ns_full_meta node of None \<Rightarrow> [] | Some meta \<Rightarrow> xdp_stats_panel bar meta), '''', runtime, '''',
          raw_html (ns_node_id node) (ns_full_meta node), '' '',
          text_lines ['''', mk ''<div class=^pnl^>'', mk ''    <div class=^pnl-h^><span>Raw Verification String</span></div>'',
            mk ''    <div class=^cb^ style=^margin:8px;^>'' @ html_escape (ns_raw_details node) @ ''</div>'', ''</div>''],
          '' '', ''</body></html>''])))"

section \<open>When the page of a node returns\<close>

definition binary_shown :: "string \<Rightarrow> bool" where
  "binary_shown s \<longleftrightarrow> (case str_find '': '' s of None \<Rightarrow> True | Some i \<Rightarrow> short_ok 16 (drop (i + 2) s))"

lemma binary_row_inr [renders]: "is_inr (binary_row s) \<longleftrightarrow> binary_shown s"
  by (auto simp: binary_row_def binary_shown_def short_ok_def char_boundary_def min_def Let_def renders split: option.splits)

definition meta_shown :: "AttestationMeta \<Rightarrow> bool" where
  "meta_shown meta \<longleftrightarrow> list_all binary_shown (unwrap_or [] (am_binary_hashes meta))"

lemma runtime_html_inr [renders]: "is_inr (runtime_html meta) \<longleftrightarrow> meta_shown meta"
  by (simp add: runtime_html_def meta_shown_def unwrap_or_def renders split: option.split)

lemma node_detail_inr [renders]:
  "is_inr (render_node_detail styles bar now node baseline) \<longleftrightarrow> (case ns_full_meta node of None \<Rightarrow> True | Some meta \<Rightarrow> meta_shown meta)"
  by (simp add: render_node_detail_def renders split: option.split)

text \<open>A path is followed by a colon, a blank and the hash in hexadecimal; a path with neither is found whole.\<close>

lemma str_find_path: "CHR '':'' \<notin> set p \<Longrightarrow> str_find '': '' (p @ '': '' @ h) = Some (length p)"
  by (induction p) (auto simp: prefix_def)

lemma binary_shown_plain: "CHR '':'' \<notin> set p \<Longrightarrow> binary_shown (p @ '': '' @ hex_encode h)"
  using str_find_path [of p "hex_encode h"] by (simp add: binary_shown_def)

lemma extracted_meta_shown:
  assumes "\<And>p h bs. es_binary_hashes (tq_ebpf_state (att_tpm_quote att)) = Some bs \<Longrightarrow> (p, h) \<in> set bs \<Longrightarrow> CHR '':'' \<notin> set p"
  shows "meta_shown (extract_attestation_meta att)"
proof (cases "es_binary_hashes (tq_ebpf_state (att_tpm_quote att))")
  case None
  then show ?thesis by (simp add: meta_shown_def extract_attestation_meta_def unwrap_or_def Let_def)
next
  case (Some bs)
  then have "binary_shown (p @ '': '' @ hex_encode h)" if "(p, h) \<in> set bs" for p h
    using assms that by (intro binary_shown_plain) auto
  then show ?thesis
    using Some by (auto simp: meta_shown_def extract_attestation_meta_def unwrap_or_def list_all_iff Let_def)
qed

text \<open>A path with a colon, a blank and a two-byte character after fifteen bytes cannot be cut.\<close>

lemma path_breaks_page:
  "\<not> binary_shown (''/opt/x: aaaaaaaaaaaaaaa'' @ [CHR 0xC3, CHR 0xA9] @ '': '' @ hex_encode h)"
  by (simp add: binary_shown_def short_ok_def char_boundary_def byte_in_def)

end
