(* ===== verification/Overview.thy ===== *)
theory Overview
  imports Node_Page "HOL-Library.Multiset"
begin

text \<open>
  The overview of the monitor (\<open>render_dashboard\<close> in \<open>mfa-monitor/src/bin/monitor.rs\<close>) and its panels: the proof of the
  circuit, the grids of checks, the anomalies, the system monitor, the traffic, the sources, alerts and heartbeats.  The
  fixed markup around them is an argument, a function of what is filled in (\<open>overview\<close>); so is the order in which a hash
  map is walked.  Lemmas: exactly when the page panics, and that the banner and the anomaly panel agree.
\<close>

section \<open>Text\<close>

text \<open>\<open>s.replace(p, "")\<close>\<close>

function str_remove :: "string \<Rightarrow> string \<Rightarrow> string" where
  "str_remove p [] = []"
| "str_remove p (c # s) =
     (if p \<noteq> [] \<and> prefix p (c # s) then str_remove p (drop (length p) (c # s)) else c # str_remove p s)"
  by pat_completeness auto
termination by (relation "measure (\<lambda>(p, s). length s)") (auto simp: neq_Nil_conv)

declare str_remove.simps [simp del]

text \<open>From the first occurrence of a pattern to the next semicolon.\<close>

definition detail_of :: "string \<Rightarrow> string \<Rightarrow> string option" where
  "detail_of pat raw = map_option (\<lambda>pos. takeWhile (\<lambda>c. c \<noteq> CHR '';'') (drop pos raw)) (str_find pat raw)"

definition td :: "string \<Rightarrow> string \<Rightarrow> string" where
  "td cls content = mk ''<td class=^'' @ cls @ mk ''^>'' @ content @ ''</td>''"

definition vc :: "bool \<Rightarrow> string \<Rightarrow> string" where "vc ok val = td (if ok then ''cp'' else ''cf'') val"

definition vc_gs :: "bool \<Rightarrow> string \<Rightarrow> string" where "vc_gs ok val = td (if ok then ''cp gs'' else ''cf gs'') val"

definition node_link :: "string \<Rightarrow> string" where
  "node_link node_id = mk ''<td class=^nn^><a href=^/node/'' @ node_id @ mk ''^>'' @ node_id @ ''</a></td>''"

definition panel :: "string \<Rightarrow> string \<Rightarrow> string \<Rightarrow> string list \<Rightarrow> string" where
  "panel title heads rows tail =
     text_lines (['''', mk ''<div class=^pnl^>'', mk ''    <div class=^pnl-h^><span>'' @ title @ ''</span></div>'', ''    <table>'', ''    '' @ heads,
       ''    '' @ rows, ''    </table>''] @ tail @ [''</div>''])"

definition th_row :: "string list \<Rightarrow> string" where
  "th_row hs = ''<tr>'' @ concat (map (\<lambda>h. ''<th>'' @ h @ ''</th>'') hs) @ ''</tr>''"

section \<open>Proof of the circuit\<close>

definition newest_of :: "string \<Rightarrow> SystemState \<Rightarrow> AuditEntryV2 option" where
  "newest_of node_id st = find (\<lambda>e. ae2_node_id e = node_id) (rev (sy_full_entries st))"

definition metas_of :: "AuditEntryV2 option \<Rightarrow> AttestationMeta list" where
  "metas_of e = unwrap_or [] (Option.bind e ae2_attestation_meta)"

definition merge_metas :: "AttestationMeta list \<Rightarrow> AttestationMeta list \<Rightarrow> AttestationMeta list" where
  "merge_metas m2 m3 =
     foldl (\<lambda>acc m. if list_ex (\<lambda>x. am_node_id x = am_node_id m) acc then acc else acc @ [m]) m2 m3"

definition node_role :: "string \<Rightarrow> string" where
  "node_role node_id =
     (if node_id = ''vm1'' then ''Client (circuit origin)'' else if node_id = ''vm2'' then ''Chain 1 Verifier (ZTS)''
      else if node_id = ''vm3'' then ''Chain 2 Verifier (DA)'' else if starts_with ''pr'' node_id then ''Relay proxy'' else [])"

definition meta_size :: "(AttestationMeta \<Rightarrow> u64) \<Rightarrow> AttestationMeta option \<Rightarrow> string" where
  "meta_size f meta = show_word (case meta of None \<Rightarrow> 0 | Some m \<Rightarrow> f m) @ ''B''"

definition render_hop ::
  "NodeAuditRecord list \<Rightarrow> AttestationMeta list \<Rightarrow> string \<Rightarrow> nat \<Rightarrow> nat \<Rightarrow> string \<Rightarrow> string res" where
  "render_hop nodes metas node_id hop layers color =
     (let nr = find (\<lambda>n. na_node n = node_id) nodes; meta = find (\<lambda>m. am_node_id m = node_id) metas;
          all_ok = (case nr of None \<Rightarrow> False | Some n \<Rightarrow> na_pcr_match n \<and> na_sig_valid n \<and> na_ak_match n);
          sc = (if all_ok then ''cp'' else ''cf'')
      in res_bind (case meta of None \<Rightarrow> Inr ''--''
           | Some m \<Rightarrow> (let h = am_ima_aggregate_hash m in
               if 8 \<le> length h then res_bind (str_slice_to h 8) (\<lambda>t. Inr (t @ ''...'')) else Inr h)) (\<lambda>ak_fp.
         Inr (mk ''<tr><td style=^color:'' @ color @ mk '';font-weight:600;^>'' @ show_nat hop @ ''</td>'' @ td ''nn'' node_id @
           mk ''<td style=^color:#888;font-size:9px;^>'' @ node_role node_id @ ''</td>'' @ td sc (show_nat layers) @
           td sc (meta_size am_tpm_quote_bytes meta) @ td sc (meta_size am_tpm_signature_bytes meta) @ td sc (meta_size am_ak_public_bytes meta) @
           td ''hash'' ak_fp @ ''</tr>'' @ nl)))"

definition chain1_order :: "string list" where "chain1_order = [''vm1'', ''pr1'', ''pr2'', ''pr3'', ''vm2'']"
definition chain2_order :: "string list" where "chain2_order = [''vm2'', ''pr4'', ''pr5'', ''pr6'', ''vm3'']"

definition hop_rows :: "NodeAuditRecord list \<Rightarrow> AttestationMeta list \<Rightarrow> string res" where
  "hop_rows nodes metas =
     res_bind (res_map (\<lambda>(i, node_id). render_hop nodes metas node_id (i + 1) i ''rgb(61,220,132)'') (enumerate 0 chain1_order)) (\<lambda>first.
     res_bind (res_map (\<lambda>(i, node_id). render_hop nodes metas node_id (5 + i) i ''rgb(255,152,0)'') (enumerate 1 (tl chain2_order))) (\<lambda>second.
       Inr (concat first @ mk ''<tr><td colspan=^8^ style=^border-top:1px solid #2a2a2a;padding:4px;color:#555;font-size:8px;^>'' @
         ''Chain 2 circuit (independent key exchange from chain 1)</td></tr>'' @ nl @ concat second)))"

definition render_circuit_proof :: "SystemState \<Rightarrow> string res" where
  "render_circuit_proof st =
     (case first_of (newest_of ''vm3'' st) (newest_of ''vm2'' st) of
        None \<Rightarrow> Inr []
      | Some latest \<Rightarrow>
          (case ae2_nodes latest of
             None \<Rightarrow> Inr []
           | Some nodes \<Rightarrow>
               res_bind (shorten 16 (ae2_chain_id latest)) (\<lambda>chain_id.
               res_bind (hop_rows nodes (merge_metas (metas_of (newest_of ''vm2'' st)) (metas_of (newest_of ''vm3'' st)))) (\<lambda>rows.
                 Inr (panel (mk ''Circuit Attestation Proof</span><span class=^ct^>'' @
                   show_nat (length (filter (\<lambda>n. na_pcr_match n \<and> na_sig_valid n \<and> na_ak_match n) nodes)) @ ''/'' @ show_nat (length nodes) @
                   '' nodes cryptographically verified'')
                   (th_row [''Hop'', ''Node'', ''Role'', ''Onion Layers'', ''TPM Quote'', ''Signature'', ''AK Public'', ''Identity'']) rows [])))))"

section \<open>Grids\<close>

definition status_ok :: "NodeStatus \<Rightarrow> bool" where
  "status_ok n \<longleftrightarrow> ns_pass n \<and> ns_fw_ok n \<and> ns_passwd_ok n \<and> ns_ssh_ok n \<and> ns_ld_preload_safe n \<and> ns_boot_params_ok n \<and>
     ns_dev_inventory_ok n \<and> ns_mnt_ok n \<and> ns_cfg_ok n \<and> ns_sys_ok n \<and> ns_init_ok n \<and> ns_xdp_attached n \<and> \<not> ns_sysmon_anomaly n \<and>
     \<not> ns_sysmon_unloaded n \<and> ns_fd_ok n \<and> ns_kern_ok n \<and> ns_userspace_ok n \<and> ns_connections_ok n \<and> ns_ports_ok n"

definition count_and_delta :: "NodeStatus \<Rightarrow> string" where
  "count_and_delta n = show_word (ns_ima_count n) @ (case ns_ima_delta n of None \<Rightarrow> [] | Some d \<Rightarrow> '' d'' @ show_signed d)"

text \<open>\<open>&raw_details[pos + 11..]\<close> assumes a character after the colon.\<close>

definition ima_cell :: "NodeStatus \<Rightarrow> string res" where
  "ima_cell n =
     (if \<not> ns_ima_valid n then
        (case str_find ''IMA SPIKE:'' (ns_raw_details n) of
           Some pos \<Rightarrow> res_bind (str_slice_from (ns_raw_details n) (pos + 11)) (\<lambda>rest.
             Inr (''SPIKE '' @ str_trim (takeWhile (\<lambda>c. c \<noteq> CHR '';'') rest)))
         | None \<Rightarrow> Inr (if str_contains ''IMA TAMPER'' (ns_raw_details n) then show_word (ns_ima_count n) @ '' TAMPER''
             else if str_contains ''IMA LOW'' (ns_raw_details n) then show_word (ns_ima_count n) @ '' LOW''
             else count_and_delta n))
      else Inr (count_and_delta n))"

definition kern_short :: "NodeStatus \<Rightarrow> string" where
  "kern_short n = trim_end_matches '')'' (str_remove ''KERN:'' (str_remove ''KERN:OK('' (unwrap_or ''--'' (ns_kern_details n))))"

definition primary_row :: "u64 \<Rightarrow> NodeStatus \<Rightarrow> string res" where
  "primary_row now n =
     (let age = saturating_sub now (ns_last_seen n);
          ent_ok = (case ns_entropy_available n of None \<Rightarrow> False | Some e \<Rightarrow> 128 \<le> e);
          sysm_ok = (ns_sysmon_active n \<and> \<not> ns_sysmon_anomaly n \<and> \<not> ns_sysmon_unloaded n);
          sysm = (if ns_sysmon_unloaded n then ''UNLOAD'' else if ns_sysmon_anomaly n then ''ANOMALY''
            else show_word (unwrap_or 0 (ns_sysmon_hooks n)) @ ''h'');
          ports = (if ns_ports n = [] then ''--'' else str_join '','' (map show_word (ns_ports n)))
      in res_bind (ima_cell n) (\<lambda>ima.
         res_bind (case ns_ima_aggregate_hash n of None \<Rightarrow> Inr ''--'' | Some h \<Rightarrow> shorten 8 h) (\<lambda>agg.
           Inr (mk ''<tr class=^'' @ (if ns_pass n then ''rp'' else ''rf'') @ mk ''^>'' @ node_link (ns_node_id n) @
             vc_gs (ns_pcr_match n) (if ns_pcr_match n then ''8/8'' else ''FAIL'') @ vc (ns_ak_match n) (if ns_ak_match n then ''280B'' else ''MISS'') @
             vc (ns_sig_valid n) (if ns_sig_valid n then ''262B'' else ''INV'') @ vc_gs (ns_ima_valid n) ima @ vc (ns_ima_valid n) agg @
             vc (ns_bin_ok n) (if ns_bin_ok n then ''OK'' else ''TAMPER'') @ vc_gs sysm_ok sysm @ vc (ns_fd_ok n) (show_word (ns_fd_count n)) @
             vc (ns_kern_ok n) (kern_short n) @ vc (ns_xdp_attached n) (if ns_xdp_attached n then ''ACTIVE'' else ''OFF'') @
             vc_gs (ns_fw_ok n) (if ns_fw_ok n then ''OK'' else ''CHANGED'') @ vc (ns_connections_ok n) (show_word (ns_connection_count n)) @
             vc (ns_ports_ok n) ports @ vc_gs ent_ok (or_dashes show_word (ns_entropy_available n)) @
             vc (\<not> ns_masquerade_detected n) (if ns_masquerade_detected n then ''ALERT'' else ''CLEAR'') @
             td (if 120 < age then ''cw'' else ''cn'') (show_word age @ ''s'') @ ''</tr>'' @ nl))))"

definition ok_or :: "string \<Rightarrow> bool \<Rightarrow> string" where "ok_or bad ok = vc ok (if ok then ''OK'' else bad)"

definition secondary_row :: "NodeStatus \<Rightarrow> string" where
  "secondary_row n =
     mk ''<tr class=^'' @ (if ns_pass n then ''rp'' else ''rf'') @ mk ''^>'' @ node_link (ns_node_id n) @
     ok_or ''CHANGED'' (ns_passwd_ok n) @ ok_or ''CHANGED'' (ns_ssh_ok n) @
     vc (ns_ld_preload_safe n) (if ns_ld_preload_safe n then ''SAFE'' else ''INJECT'') @
     ok_or ''CHANGED'' (ns_boot_params_ok n) @ ok_or ''CHANGED'' (ns_dev_inventory_ok n) @ ok_or ''CHANGED'' (ns_mnt_ok n) @
     ok_or ''TAMPER'' (ns_cfg_ok n) @ ok_or ''CHANGED'' (ns_sys_ok n) @
     vc (ns_init_ok n) (show_word (ns_init_count n) @ ''/'' @ show_word (ns_init_unused n)) @
     vc (ns_kernel_modules_empty n) (if ns_kernel_modules_empty n then ''NONE'' else ''LOADED'') @
     vc (ns_userspace_ok n) (show_word (ns_userspace_count n)) @ vc (ns_kernel_threads_ok n) (show_word (ns_kernel_thread_count n)) @
     td ''cn'' (or_dashes show_word (ns_process_count n)) @ ''</tr>'' @ nl"

section \<open>Anomalies\<close>

definition anomalous :: "NodeStatus \<Rightarrow> bool" where
  "anomalous n \<longleftrightarrow> \<not> ns_pass n \<or> \<not> ns_fw_ok n \<or> \<not> ns_passwd_ok n \<or> \<not> ns_ssh_ok n \<or> \<not> ns_ld_preload_safe n \<or> \<not> ns_boot_params_ok n \<or>
     \<not> ns_dev_inventory_ok n \<or> \<not> ns_mnt_ok n \<or> \<not> ns_cfg_ok n \<or> \<not> ns_sys_ok n \<or> \<not> ns_init_ok n \<or> \<not> ns_xdp_attached n \<or> ns_sysmon_anomaly n \<or>
     ns_sysmon_unloaded n \<or> \<not> ns_fd_ok n \<or> \<not> ns_kern_ok n \<or> \<not> ns_userspace_ok n \<or> \<not> ns_connections_ok n \<or> \<not> ns_ports_ok n"

text \<open>\<open>i64::abs\<close> wraps at the smallest value.\<close>

definition i64_abs :: "int \<Rightarrow> int" where "i64_abs d = (if d = - (2 ^ 63) then d else \<bar>d\<bar>)"

definition ima_detail :: "NodeStatus \<Rightarrow> string" where
  "ima_detail n =
     (if ns_ima_count n = 0 then ''IMA count below floor (< 200): possible reboot or measurement bypass''
      else (case ns_ima_delta n of
        None \<Rightarrow> ''IMA validation failed''
      | Some d \<Rightarrow> (if d < 0 then ''IMA TAMPER: count decreased by '' @ show_int (i64_abs d) @ '' (append-only violation)''
          else if 20 < d then ''IMA SPIKE: '' @ show_int d @ '' new measurements in one heartbeat (unusual file access)''
          else ''IMA anomaly: delta='' @ show_int d)))"

definition sysmon_deltas :: "NodeStatus \<Rightarrow> string" where
  "sysmon_deltas n =
     ''execve:+'' @ show_word (unwrap_or 0 (ns_sysmon_exec_delta n)) @ '' ptrace:+'' @ show_word (unwrap_or 0 (ns_sysmon_ptrace_delta n)) @
     '' mount:+'' @ show_word (unwrap_or 0 (ns_sysmon_mount_delta n)) @ '' connect:+'' @ show_word (unwrap_or 0 (ns_sysmon_conn_delta n)) @
     '' socket:+'' @ show_word (unwrap_or 0 (ns_sysmon_sock_delta n))"

definition push_if :: "bool \<Rightarrow> 'a \<Rightarrow> 'a list" where "push_if b x = (if b then [x] else [])"

definition anomalies :: "NodeStatus \<Rightarrow> (string \<times> string \<times> string) list" where
  "anomalies n =
     (let raw = ns_raw_details n in
      push_if (\<not> ns_pcr_match n) (''PCR'', ''CRITICAL'', case ns_pcr_mismatch_indices n of
          Some idx \<Rightarrow> ''PCR mismatch on registers: '' @ debug_list (map show_word idx) | None \<Rightarrow> ''PCR mismatch (registers unknown)'') @
      push_if (\<not> ns_ima_valid n) (''IMA'', ''CRITICAL'', ima_detail n) @
      push_if (\<not> ns_userspace_ok n) (''USR'', ''CRITICAL'', unwrap_or ''Userspace process manifest changed'' (detail_of ''USERSPACE CHANGED:'' raw)) @
      push_if (\<not> ns_connections_ok n) (''CONN'', ''CRITICAL'', unwrap_or ''Connection tuple set changed'' (detail_of ''CONN CHANGED:'' raw)) @
      push_if (\<not> ns_ports_ok n) (''PORTS'', ''CRITICAL'',
        unwrap_or (''Listening ports changed: '' @ debug_list (map show_word (ns_ports n))) (detail_of ''PORTS CHANGED:'' raw)) @
      push_if (\<not> ns_xdp_attached n) (''XDP'', ''CRITICAL'',
        ''XDP entropy filter DETACHED: Layer 1 defense disabled. Encrypted traffic enforcement inactive. Node accepting unverified packets.'') @
      push_if (ns_sysmon_anomaly n) (''SYSM'', ''CRITICAL'', sysmon_deltas n) @
      push_if (ns_sysmon_unloaded n) (''SYSM'', ''CRITICAL'',
        ''Sysmon BPF hooks UNLOADED '' @ em_dash @ '' runtime behavioral monitoring disabled. Syscall tracking inactive.'') @
      push_if (\<not> ns_fd_ok n) (''FD'', ''CRITICAL'',
        unwrap_or (''File descriptor anomaly ('' @ show_word (ns_fd_count n) @ '' open FDs)'') (detail_of ''FD:ANOMALY('' raw)) @
      push_if (\<not> ns_kern_ok n) (''KERN'', ''CRITICAL'', unwrap_or ''Kernel integrity anomaly'' (ns_kern_details n)) @
      push_if (\<not> ns_fw_ok n) (''FW'', ''CRITICAL'', ''Firewall rule hash CHANGED '' @ em_dash @
        '' iptables configuration tampered. Potential unauthorized port opening or rule deletion.'') @
      push_if (\<not> ns_passwd_ok n) (''PW'', ''CRITICAL'', ''/etc/passwd CHANGED: Potential unauthorized user account or UID escalation'') @
      push_if (\<not> ns_ssh_ok n) (''SSH'', ''WARNING'', ''sshd_config CHANGED: SSH daemon configuration modified'') @
      push_if (\<not> ns_ld_preload_safe n) (''PRE'', ''CRITICAL'', ''/etc/ld.so.preload NOT EMPTY: LD_PRELOAD rootkit injection detected'') @
      push_if (\<not> ns_boot_params_ok n) (''BOOT'', ''CRITICAL'', ''/proc/cmdline CHANGED: Kernel boot parameters modified'') @
      push_if (\<not> ns_dev_inventory_ok n) (''DEV'', ''CRITICAL'', ''/dev inventory CHANGED: New device nodes detected'') @
      push_if (\<not> ns_mnt_ok n) (''MNT'', ''CRITICAL'', ''/proc/mounts CHANGED: Filesystem mount table modified'') @
      push_if (\<not> ns_cfg_ok n) (''CFG'', ''CRITICAL'', ''Configuration file hashes CHANGED'') @
      push_if (\<not> ns_sys_ok n) (''SYS'', ''CRITICAL'', ''sysctl kernel parameters CHANGED: Runtime kernel configuration modified'') @
      push_if (\<not> ns_init_ok n) (''INIT'', ''CRITICAL'', ''Init script integrity FAILED: startup scripts tampered or unauthorized service added'') @
      push_if (\<not> ns_kernel_modules_empty n) (''MOD'', ''CRITICAL'', case ns_kernel_modules_loaded n of
          Some m \<Rightarrow> ''Kernel modules LOADED: '' @ debug_list (map debug_string m) @ '' (CONFIG_MODULES=n should prevent this)''
        | None \<Rightarrow> ''Kernel modules detected on CONFIG_MODULES=n system'') @
      push_if (ns_masquerade_detected n) (''MASQ'', ''CRITICAL'',
        ''Process masquerade detected: Userspace process impersonating kernel thread or system service'') @
      push_if (\<not> ns_sig_valid n) (''SIG'', ''CRITICAL'', ''TPM quote signature INVALID '' @ em_dash @ '' possible fabricated attestation'') @
      push_if (\<not> ns_ak_match n) (''AK'', ''CRITICAL'', ''Attestation Key MISMATCH '' @ em_dash @ '' different physical TPM responding''))"

definition anomaly_row :: "NodeStatus \<Rightarrow> string \<times> string \<times> string \<Rightarrow> string" where
  "anomaly_row n = (\<lambda>(check, severity, detail).
     (let sc = (if severity = ''CRITICAL'' then ''cf'' else if severity = ''WARNING'' then ''cw'' else ''cn'');
          tc = (if severity = ''CRITICAL'' then ''tc'' else if severity = ''WARNING'' then ''tw'' else ''ti'')
      in ''<tr>'' @ node_link (ns_node_id n) @ td sc check @ mk ''<td><span class=^tier '' @ tc @ mk ''^>'' @ severity @
         mk ''</span></td><td style=^white-space:normal;color:#ccc;^>'' @ html_escape detail @ ''</td></tr>'' @ nl))"

definition render_anomaly_panel :: "NodeStatus list \<Rightarrow> string" where
  "render_anomaly_panel nodes =
     (let failing = filter anomalous nodes in
      if failing = [] then []
      else panel (mk ''Integrity Anomalies Detected</span><span class=^ct^ style=^color:rgb(244,67,54);^>'' @ show_nat (length failing) @
        '' nodes with anomalies'') (th_row [''Node'', ''Check'', ''Severity'', ''Detail''])
        (concat (map (\<lambda>n. concat (map (anomaly_row n) (anomalies n))) failing)) [''''])"

section \<open>System monitor and traffic\<close>

definition delta_cell :: "u64 option \<Rightarrow> string" where
  "delta_cell v = td (if 0 < unwrap_or 0 v then ''cf'' else ''cp'') (or_dashes show_word v)"

definition sysmon_row :: "NodeStatus \<Rightarrow> string" where
  "sysmon_row n =
     ''<tr>'' @ node_link (ns_node_id n) @
     td (if ns_sysmon_unloaded n then ''cf'' else if ns_sysmon_anomaly n then ''cf'' else if ns_sysmon_active n then ''cp'' else ''cn'')
       (if ns_sysmon_unloaded n then ''UNLOADED'' else if ns_sysmon_anomaly n then ''ANOMALY'' else if ns_sysmon_active n then ''OK'' else ''--'') @
     ''<td>'' @ or_dashes show_word (ns_sysmon_hooks n) @ ''</td>'' @ delta_cell (ns_sysmon_exec_delta n) @ delta_cell (ns_sysmon_ptrace_delta n) @
     delta_cell (ns_sysmon_mount_delta n) @ delta_cell (ns_sysmon_conn_delta n) @ delta_cell (ns_sysmon_sock_delta n) @ ''</tr>'' @ nl"

definition render_sysmon_panel :: "NodeStatus list \<Rightarrow> string" where
  "render_sysmon_panel nodes =
     panel (mk ''Syscall Monitor (eBPF Sysmon)</span><span class=^ct^>6 tracepoint hooks per node &middot; delta tracking between heartbeats'')
       (th_row [''Node'', ''Status'', ''Hooks'', ''execve'', ''ptrace'', ''mount'', ''connect'', ''socket'']) (concat (map sysmon_row nodes)) ['''']"

text \<open>\<open>max_by_key\<close> keeps the last of the largest.\<close>

definition peak :: "u64 list \<Rightarrow> (nat \<times> u64) option" where
  "peak hist = foldl (\<lambda>b (i, v). case b of None \<Rightarrow> Some (i, v) | Some (j, w) \<Rightarrow> if w \<le> v then Some (i, v) else b) None (enumerate 0 hist)"

definition peak_text :: "(nat \<Rightarrow> string) \<Rightarrow> u64 list option \<Rightarrow> string" where
  "peak_text label hist = or_dashes (\<lambda>(i, v). label i @ '': '' @ show_word v) (Option.bind hist peak)"

definition xdp_row :: "NodeStatus \<Rightarrow> AttestationMeta \<Rightarrow> string" where
  "xdp_row n meta =
     (let whole = unwrap_or 0 (am_xdp_total meta); drop_ent = unwrap_or 0 (am_xdp_drop_entropy meta); exempt = unwrap_or 0 (am_xdp_exempt meta)
      in mk ''<tr><td><a href=^/node/'' @ ns_node_id n @ mk ''^>'' @ ns_node_id n @ ''</a></td><td>'' @ show_word whole @ ''</td>'' @
         td ''p'' (show_word (unwrap_or 0 (am_xdp_passed meta))) @ td (if 0 < drop_ent then ''f'' else ''p'') (show_word drop_ent) @
         ''<td>'' @ show_word (unwrap_or 0 (am_xdp_drop_port meta)) @ ''</td><td>'' @ show_word exempt @ ''</td><td>'' @
         show_word (if 0 < whole then percent exempt whole else 0) @ ''%</td>'' @
         td ''hash'' (peak_text entropy_label (am_xdp_entropy_histogram meta)) @ td ''hash'' (peak_text size_label (am_xdp_size_histogram meta)) @
         ''</tr>'' @ nl)"

definition render_xdp_summary :: "NodeStatus list \<Rightarrow> string" where
  "render_xdp_summary nodes =
     (let rows = List.map_filter (\<lambda>n. case ns_full_meta n of None \<Rightarrow> None
            | Some meta \<Rightarrow> if am_xdp_passed meta \<noteq> None then Some (xdp_row n meta) else None) nodes in
      if rows = [] then []
      else panel (mk ''XDP Traffic Analysis</span><span class=^ct^>Layer 1 Encryption Enforcement'')
        (th_row [''Node'', ''Total'', ''Passed'', ''Drop(Ent)'', ''Drop(Port)'', ''Exempt'', ''Exempt%'', ''Peak Entropy'', ''Peak Size''])
        (concat rows) [''''])"

section \<open>Sources, heartbeats and alerts\<close>

definition source_row :: "u64 \<Rightarrow> string \<times> SourceState \<Rightarrow> string res" where
  "source_row now = (\<lambda>(ident, src).
     res_bind (shorten 16 (ss_prev_hash src)) (\<lambda>hash_short.
       Inr (''<tr><td>'' @ ident @ ''</td>'' @ vc (ss_connected src) (if ss_connected src then ''ONLINE'' else ''OFFLINE'') @
         ''<td>#'' @ show_word (ss_last_heartbeat src) @ ''</td><td>'' @ show_word (ss_last_seq src) @ ''</td>'' @
         vc (ss_chain_intact src) (if ss_chain_intact src then ''INTACT'' else ''BROKEN'') @ ''<td>'' @ show_word (ss_entries_received src) @
         ''</td><td>'' @ show_word (saturating_sub now (ss_last_timestamp src)) @ mk ''s</td><td class=^hash^>'' @ hash_short @ ''..</td></tr>'' @ nl)))"

definition hb_row :: "u64 \<Rightarrow> DashboardEntry \<Rightarrow> string" where
  "hb_row now e =
     mk ''<tr class=^'' @ (if db_authorized e then ''hp'' else ''hf'') @ mk ''^>'' @ vc (db_authorized e) (icon (db_authorized e)) @
     ''<td>'' @ db_source e @ ''</td><td>#'' @ show_word (db_heartbeat e) @ ''</td><td>'' @ show_nat (db_node_count e) @ ''</td><td>'' @
     (if db_tier e = ''Critical'' then mk ''<span class=^tier tc^>CRITICAL</span>''
      else if db_tier e = ''Warning'' then mk ''<span class=^tier tw^>WARNING</span>'' else []) @
     ''</td><td>'' @ or_dashes (\<lambda>m. show_word m @ ''ms'') (db_verification_ms e) @ ''</td><td>'' @
     show_word (saturating_sub now (db_timestamp e)) @ ''s</td><td>'' @
     str_join '' '' (push_if (db_has_checkpoint e) ''TPM-SIGNED'' @ push_if (db_has_forensic e) ''FORENSIC'') @
     (if db_has_forensic e then mk '' <a href=^/forensics/'' @ show_word (db_seq e) @ mk ''^>view</a>'' else []) @ ''</td></tr>'' @ nl"

definition alert_row :: "u64 \<Rightarrow> Alert \<Rightarrow> string" where
  "alert_row now a =
     mk ''<tr class=^'' @ (if at_severity a \<in> {''CRITICAL'', ''Critical''} then ''ac'' else if at_severity a \<in> {''WARNING'', ''Warning''} then ''aw'' else []) @
     mk ''^><td>'' @ show_word (saturating_sub now (at_timestamp a)) @ ''s</td><td>'' @ at_severity a @ ''</td><td>'' @ html_escape (at_message a) @
     ''</td><td>'' @ (case at_seq a of None \<Rightarrow> [] | Some s \<Rightarrow> mk ''<a href=^/forensics/'' @ show_word s @ mk ''^>detail</a>'') @ ''</td></tr>'' @ nl"

text \<open>The newest entries of a source, oldest first, among the last twelve of both.\<close>

definition last_six :: "string \<Rightarrow> SystemState \<Rightarrow> AuditEntryV2 list" where
  "last_six node_id st = rev (take 6 (filter (\<lambda>e. ae2_node_id e = node_id) (take 12 (rev (sy_full_entries st)))))"

definition mini_entry :: "string \<Rightarrow> nat \<times> AuditEntryV2 \<Rightarrow> string res" where
  "mini_entry color = (\<lambda>(i, e).
     res_bind (shorten 12 (ae2_prev_hash e)) (\<lambda>prev.
       Inr ((if 0 < i then mk ''<span style=^color:#555;font-size:7px;^> SHA256 &darr; </span>'' else []) @
         mk ''<div style=^padding:2px 4px;margin:1px 0;background:#111;border-left:2px solid '' @ color @
         mk '';font-size:9px;^><span style=^color:#999;^>#'' @ show_word (ae2_seq e) @ mk ''</span> <span style=^color:'' @ color @ mk ''^>'' @
         event_name (ae2_event e) @ mk ''</span> <span class=^hash^>'' @ prev @ ''..</span>'' @
         (if ae2_tpm_checkpoint e \<noteq> None then mk '' <span style=^color:'' @ color @ mk '';font-size:7px;^>TPM-SIGNED</span>'' else []) @ ''</div>'')))"

definition render_mini :: "AuditEntryV2 list \<Rightarrow> string \<Rightarrow> string res" where
  "render_mini es color =
     res_bind (res_map (mini_entry color) (enumerate 0 es)) (\<lambda>hs.
       Inr (if hs = [] then mk ''<span style=^color:#555^>No entries</span>'' else concat hs))"

definition hash_chain_detail :: "SystemState \<Rightarrow> string res" where
  "hash_chain_detail st =
     res_bind (render_mini (last_six ''vm2'' st) ''rgb(61,220,132)'') (\<lambda>vm2_html.
     res_bind (render_mini (last_six ''vm3'' st) ''rgb(255,152,0)'') (\<lambda>vm3_html.
       Inr (text_lines [mk ''<details><summary style=^padding:4px 8px;font-size:10px;^>Hash chain entries (last 6 per source)</summary>'',
         mk ''        <div style=^display:grid;grid-template-columns:1fr 1fr;gap:12px;padding:6px 8px;^>'',
         mk ''        <div><div style=^font-size:9px;color:rgb(61,220,132);font-weight:600;margin-bottom:3px;^>VM2 chain</div>'' @ vm2_html @ ''</div>'',
         mk ''        <div><div style=^font-size:9px;color:rgb(255,152,0);font-weight:600;margin-bottom:3px;^>VM3 chain</div>'' @ vm3_html @ ''</div>'',
         ''        </div></details>''])))"

section \<open>The overview\<close>

text \<open>What is filled into the fixed markup.\<close>

record overview =
  ov_all_ok :: bool
  ov_passing :: nat
  ov_total :: nat
  ov_entries :: u64
  ov_avg_ms :: u64
  ov_breaks :: u64
  ov_cross_verified :: bool
  ov_cross_text :: string
  ov_sessions :: nat
  ov_banner :: string
  ov_primary_rows :: string
  ov_secondary_rows :: string
  ov_xdp_summary :: string
  ov_src_count :: nat
  ov_source_rows :: string
  ov_alert_count :: nat
  ov_alert_rows :: string
  ov_no_alerts :: string
  ov_hb_rows :: string
  ov_colors :: "(string \<times> string) list"
  ov_sysmon_panel :: string
  ov_anomaly_panel :: string
  ov_hash_chain_detail :: string
  ov_circuit_proof :: string

text \<open>The style sheet, the markup of the overview, the width of a bar and the order of a hash map.\<close>

record page_env =
  pe_styles :: string
  pe_layout :: "overview \<Rightarrow> string"
  pe_bar :: "u64 \<Rightarrow> u64 \<Rightarrow> u32"
  pe_keys :: "string set \<Rightarrow> string list"

definition node_list :: "page_env \<Rightarrow> SystemState \<Rightarrow> NodeStatus list" where
  "node_list P st = sort_key ns_node_id (List.map_filter (sy_node_status st) (pe_keys P (dom (sy_node_status st))))"

definition source_list :: "page_env \<Rightarrow> SystemState \<Rightarrow> (string \<times> SourceState) list" where
  "source_list P st =
     List.map_filter (\<lambda>k. map_option (Pair k) (sy_sources st k)) (pe_keys P (dom (sy_sources st)))"

definition node_color :: "SystemState \<Rightarrow> string \<Rightarrow> string \<times> string" where
  "node_color st ident =
     (ident, case sy_node_status st ident of None \<Rightarrow> ''rgb(102,102,102)''
        | Some n \<Rightarrow> if status_ok n then ''rgb(61,220,132)'' else ''rgb(244,67,54)'')"

definition banner :: "bool \<Rightarrow> nat \<Rightarrow> nat \<Rightarrow> string" where
  "banner all_ok passing whole =
     (if all_ok then ''ALL SYSTEMS NOMINAL -- '' @ show_nat whole @ '' nodes verified across dual independent verification chains''
      else ''INTEGRITY ALERT -- '' @ show_nat passing @ ''/'' @ show_nat whole @ '' nodes passing'')"

definition fill_overview :: "page_env \<Rightarrow> u64 \<Rightarrow> nat \<Rightarrow> SystemState \<Rightarrow> overview res" where
  "fill_overview P now sessions st =
     (let nodes = node_list P st; whole = length nodes; passing = length (filter status_ok nodes);
          all_ok = (list_all status_ok nodes \<and> 0 < whole)
      in res_bind (res_map (primary_row now) nodes) (\<lambda>primary_rows.
         res_bind (render_circuit_proof st) (\<lambda>circuit_proof.
         res_bind (res_map (source_row now) (source_list P st)) (\<lambda>source_rows.
         res_bind (hash_chain_detail st) (\<lambda>chain_detail.
           Inr \<lparr>ov_all_ok = all_ok, ov_passing = passing, ov_total = whole, ov_entries = sy_total_entries_received st,
             ov_avg_ms = sy_avg_verification_ms st, ov_breaks = sy_total_chain_breaks st, ov_cross_verified = sy_cross_verified st,
             ov_cross_text = (if sy_cross_verified st then ''CONSISTENT'' else ''MISMATCH''), ov_sessions = sessions,
             ov_banner = banner all_ok passing whole, ov_primary_rows = concat primary_rows,
             ov_secondary_rows = concat (map secondary_row nodes), ov_xdp_summary = render_xdp_summary nodes,
             ov_src_count = length (source_list P st), ov_source_rows = concat source_rows, ov_alert_count = length (sy_alerts st),
             ov_alert_rows = concat (map (alert_row now) (take 15 (rev (sy_alerts st)))),
             ov_no_alerts = (if sy_alerts st = [] then mk ''<tr><td colspan=^4^ style=^color:#555^>No alerts</td></tr>'' else []),
             ov_hb_rows = concat (map (hb_row now) (take 20 (rev (sy_recent_entries st)))),
             ov_colors = map (node_color st) (chain1_order @ tl chain2_order), ov_sysmon_panel = render_sysmon_panel nodes,
             ov_anomaly_panel = render_anomaly_panel nodes, ov_hash_chain_detail = chain_detail, ov_circuit_proof = circuit_proof\<rparr>)))))"

definition render_dashboard :: "tracker_env \<Rightarrow> page_env \<Rightarrow> u64 \<Rightarrow> (string \<rightharpoonup> string) \<Rightarrow> SystemState \<Rightarrow> string res" where
  "render_dashboard T P now files st =
     res_bind (fill_overview P now (case load_index T files of None \<Rightarrow> 0 | Some i \<Rightarrow> length (si_sessions i)) st) (\<lambda>ov.
       Inr (pe_layout P ov))"

section \<open>When the overview returns\<close>

definition ima_shown :: "string \<Rightarrow> bool" where
  "ima_shown raw \<longleftrightarrow> (case str_find ''IMA SPIKE:'' raw of None \<Rightarrow> True | Some pos \<Rightarrow> char_boundary raw (pos + 11))"

lemma ima_cell_inr [renders]: "is_inr (ima_cell n) \<longleftrightarrow> ns_ima_valid n \<or> ima_shown (ns_raw_details n)"
  by (simp add: ima_cell_def ima_shown_def renders split: option.split)

definition node_shown :: "NodeStatus \<Rightarrow> bool" where
  "node_shown n \<longleftrightarrow> (ns_ima_valid n \<or> ima_shown (ns_raw_details n)) \<and>
     (case ns_ima_aggregate_hash n of None \<Rightarrow> True | Some h \<Rightarrow> short_ok 8 h)"

lemma primary_row_inr [renders]: "is_inr (primary_row now n) \<longleftrightarrow> node_shown n"
  by (simp add: primary_row_def node_shown_def Let_def renders split: option.split)

lemma source_row_inr [renders]: "is_inr (source_row now src) \<longleftrightarrow> short_ok 16 (ss_prev_hash (snd src))"
  by (simp add: source_row_def renders split: prod.split)

lemma mini_entry_inr [renders]: "is_inr (mini_entry color e) \<longleftrightarrow> short_ok 12 (ae2_prev_hash (snd e))"
  by (simp add: mini_entry_def renders split: prod.split)

lemma list_all_enumerate: "list_all (\<lambda>x. P (snd x)) (enumerate n xs) \<longleftrightarrow> list_all P xs"
  by (induction xs arbitrary: n) simp_all

lemma render_mini_inr [renders]: "is_inr (render_mini es color) \<longleftrightarrow> list_all (\<lambda>e. short_ok 12 (ae2_prev_hash e)) es"
  using list_all_enumerate [of "\<lambda>e. short_ok 12 (ae2_prev_hash e)" 0 es] by (simp add: render_mini_def renders)

lemma chain_detail_inr [renders]:
  "is_inr (hash_chain_detail st) \<longleftrightarrow> list_all (\<lambda>e. short_ok 12 (ae2_prev_hash e)) (last_six ''vm2'' st @ last_six ''vm3'' st)"
  by (simp add: hash_chain_detail_def renders)

definition metas_shown :: "AttestationMeta list \<Rightarrow> string \<Rightarrow> bool" where
  "metas_shown metas node_id \<longleftrightarrow>
     (case find (\<lambda>m. am_node_id m = node_id) metas of None \<Rightarrow> True | Some m \<Rightarrow> short_ok 8 (am_ima_aggregate_hash m))"

lemma render_hop_inr [renders]: "is_inr (render_hop nodes metas node_id hop layers color) \<longleftrightarrow> metas_shown metas node_id"
  by (simp add: render_hop_def metas_shown_def short_ok_def Let_def renders split: option.split)

lemma hop_rows_inr [renders]: "is_inr (hop_rows nodes metas) \<longleftrightarrow> list_all (metas_shown metas) (chain1_order @ tl chain2_order)"
  using list_all_enumerate [of "metas_shown metas"] by (simp add: hop_rows_def renders case_prod_unfold)

lemma circuit_proof_inr [renders]:
  "is_inr (render_circuit_proof st) \<longleftrightarrow>
     (case first_of (newest_of ''vm3'' st) (newest_of ''vm2'' st) of None \<Rightarrow> True
      | Some latest \<Rightarrow> ae2_nodes latest = None \<or> short_ok 16 (ae2_chain_id latest) \<and>
          list_all (metas_shown (merge_metas (metas_of (newest_of ''vm2'' st)) (metas_of (newest_of ''vm3'' st)))) (chain1_order @ tl chain2_order))"
  by (simp add: render_circuit_proof_def renders split: option.split)

lemma fill_overview_inr [renders]:
  "is_inr (fill_overview P now k st) \<longleftrightarrow> list_all node_shown (node_list P st) \<and> is_inr (render_circuit_proof st) \<and>
     list_all (\<lambda>x. short_ok 16 (ss_prev_hash (snd x))) (source_list P st) \<and> is_inr (hash_chain_detail st)"
  by (simp add: fill_overview_def Let_def renders)

lemma render_dashboard_inr [renders]: "is_inr (render_dashboard T P now files st) \<longleftrightarrow> is_inr (fill_overview P now 0 st)"
  by (simp add: render_dashboard_def renders)

section \<open>What the overview shows\<close>

text \<open>Walking a hash map visits every key once.\<close>

definition walks :: "page_env \<Rightarrow> bool" where
  "walks P \<longleftrightarrow> (\<forall>D. finite D \<longrightarrow> distinct (pe_keys P D) \<and> set (pe_keys P D) = D)"

lemma map_filter_known: "set ks \<subseteq> dom m \<Longrightarrow> List.map_filter m ks = map (\<lambda>k. the (m k)) ks"
  by (induction ks) (auto simp: List.map_filter_simps)

lemma node_list_mset:
  assumes "walks P" and "finite (dom (sy_node_status st))"
  shows "mset (node_list P st) = mset (map (\<lambda>k. the (sy_node_status st k)) (pe_keys P (dom (sy_node_status st))))"
proof -
  have "set (pe_keys P (dom (sy_node_status st))) = dom (sy_node_status st)" using assms by (simp add: walks_def)
  then show ?thesis by (simp add: node_list_def map_filter_known)
qed

lemma node_list_set:
  assumes "walks P" and "finite (dom (sy_node_status st))"
  shows "set (node_list P st) = ran (sy_node_status st)"
proof -
  have "set (node_list P st) = (\<lambda>k. the (sy_node_status st k)) ` dom (sy_node_status st)"
    using arg_cong [OF node_list_mset [OF assms], of set_mset] assms by (simp add: walks_def)
  then show ?thesis by (force simp: ran_def dom_def)
qed

lemma node_list_count:
  assumes "walks P" and "finite (dom (sy_node_status st))"
  shows "length (filter Q (node_list P st)) = card {k. \<exists>n. sy_node_status st k = Some n \<and> Q n}"
proof -
  let ?ks = "pe_keys P (dom (sy_node_status st))"
  have ks: "distinct ?ks" "set ?ks = dom (sy_node_status st)" using assms by (simp_all add: walks_def)
  have "length (filter Q (node_list P st)) = size (filter_mset Q (mset (node_list P st)))"
    by (simp flip: size_mset)
  also have "\<dots> = length (filter (\<lambda>k. Q (the (sy_node_status st k))) ?ks)"
    by (simp only: node_list_mset [OF assms] size_mset filter_map o_def length_map flip: mset_filter)
  also have "\<dots> = card {k \<in> set ?ks. Q (the (sy_node_status st k))}"
    by (simp add: distinct_length_filter ks(1) Int_def conj_commute)
  also have "{k \<in> set ?ks. Q (the (sy_node_status st k))} = {k. \<exists>n. sy_node_status st k = Some n \<and> Q n}"
    by (auto simp: ks(2))
  finally show ?thesis .
qed

lemma source_list_set:
  assumes "walks P" and "finite (dom (sy_sources st))"
  shows "snd ` set (source_list P st) = ran (sy_sources st)"
  using assms by (force simp: source_list_def set_map_filter_eq walks_def ran_def)

lemma anomalous_iff: "anomalous n \<longleftrightarrow> \<not> status_ok n"
  by (auto simp: anomalous_def status_ok_def)

lemma anomaly_panel_empty: "render_anomaly_panel nodes = [] \<longleftrightarrow> list_all status_ok nodes"
proof -
  have "panel title heads rows tail \<noteq> []" for title heads rows tail
    by (simp add: panel_def text_lines_def nl_def)
  moreover have "filter anomalous nodes = [] \<longleftrightarrow> list_all status_ok nodes"
    by (simp add: filter_empty_conv list_all_iff anomalous_iff)
  ultimately show ?thesis by (simp add: render_anomaly_panel_def Let_def)
qed

lemma fill_overview_fields:
  assumes "fill_overview P now k st = Inr ov"
  shows "ov_total ov = length (node_list P st)" "ov_passing ov = length (filter status_ok (node_list P st))"
    "ov_all_ok ov \<longleftrightarrow> list_all status_ok (node_list P st) \<and> node_list P st \<noteq> []"
    "ov_banner ov = banner (ov_all_ok ov) (ov_passing ov) (ov_total ov)"
    "ov_anomaly_panel ov = render_anomaly_panel (node_list P st)"
    "ov_colors ov = map (node_color st) (chain1_order @ tl chain2_order)"
  using assms by (auto simp: fill_overview_def Let_def res_bind_eq_Inr)

lemma overview_tells_truth:
  assumes "walks P" and "finite (dom (sy_node_status st))" and "fill_overview P now k st = Inr ov"
  shows "ov_total ov = card (dom (sy_node_status st)) \<and>
     ov_passing ov = card {v. \<exists>n. sy_node_status st v = Some n \<and> status_ok n} \<and>
     (prefix ''ALL SYSTEMS NOMINAL'' (ov_banner ov) \<longleftrightarrow> ran (sy_node_status st) \<noteq> {} \<and> (\<forall>n \<in> ran (sy_node_status st). status_ok n)) \<and>
     (ov_anomaly_panel ov = [] \<longleftrightarrow> (\<forall>n \<in> ran (sy_node_status st). status_ok n)) \<and>
     (\<forall>v c. (v, c) \<in> set (ov_colors ov) \<longrightarrow>
        (c = ''rgb(61,220,132)'' \<longleftrightarrow> (\<exists>n. sy_node_status st v = Some n \<and> status_ok n)))"
proof -
  note ov = fill_overview_fields [OF assms(3)]
  note nodes = node_list_set [OF assms(1,2)]
  have "prefix ''ALL SYSTEMS NOMINAL'' (banner b p t) \<longleftrightarrow> b" for b p t
    by (simp add: banner_def)
  then have b: "prefix ''ALL SYSTEMS NOMINAL'' (ov_banner ov) \<longleftrightarrow> ran (sy_node_status st) \<noteq> {} \<and> (\<forall>n \<in> ran (sy_node_status st). status_ok n)"
    using ov(3,4) nodes by (auto simp: list_all_iff)
  have t: "ov_total ov = card (dom (sy_node_status st))"
    using node_list_count [OF assms(1,2), of "\<lambda>_. True"] ov(1) by (simp add: dom_def)
  have "ov_anomaly_panel ov = [] \<longleftrightarrow> (\<forall>n \<in> ran (sy_node_status st). status_ok n)"
    by (simp add: ov(5) anomaly_panel_empty list_all_iff nodes)
  moreover have "\<forall>v c. (v, c) \<in> set (ov_colors ov) \<longrightarrow> (c = ''rgb(61,220,132)'' \<longleftrightarrow> (\<exists>n. sy_node_status st v = Some n \<and> status_ok n))"
    by (auto simp: ov(6) node_color_def split: option.splits if_splits)
  ultimately show ?thesis using b t ov(2) node_list_count [OF assms(1,2)] by simp
qed

end
