(* ===== verification/Monitor_Chain.thy ===== *)
theory Monitor_Chain
  imports Monitor Dual_Authority
begin

text \<open>
  What the monitor's state says after any interleaving of the messages of its sources: its chain flag against
  the lines received and against the log they come from, its capped lists against the whole history, and what
  reaches the verified log from the forwarder's file.
\<close>

section \<open>Interleaved sources\<close>

text \<open>A source says hello, sends a line (with the clock readings of its handling), or goes away.\<close>

datatype mon_event = MeConnected string | MeEntry string string "nat \<Rightarrow> u64" | MeGone string

definition mon_step :: "mon_env \<Rightarrow> MonitorConfig \<Rightarrow> mon_event \<Rightarrow> monitor \<Rightarrow> monitor" where
  "mon_step E config ev m =
     (case ev of
        MeConnected source \<Rightarrow> on_state (source_connected source) m
      | MeEntry source json clock \<Rightarrow> snd (take_json E config clock source json m)
      | MeGone source \<Rightarrow> on_state (source_gone source) m)"

definition mon_run :: "mon_env \<Rightarrow> MonitorConfig \<Rightarrow> mon_event list \<Rightarrow> monitor \<Rightarrow> monitor" where
  "mon_run E config = fold (mon_step E config)"

lemma mon_run_simps [simp]:
  "mon_run E config [] m = m" "mon_run E config (evs @ [ev]) m = mon_step E config ev (mon_run E config evs m)"
  "mon_run E config (ev # evs) m = mon_run E config evs (mon_step E config ev m)"
  by (simp_all add: mon_run_def)

text \<open>The lines that count: those of the source since its last hello that are entries.\<close>

definition receive_step :: "mon_env \<Rightarrow> string \<Rightarrow> mon_event \<Rightarrow> string list \<Rightarrow> string list" where
  "receive_step E src ev js =
     (case ev of
        MeConnected s \<Rightarrow> (if s = src then [] else js)
      | MeEntry s json _ \<Rightarrow> (if s = src \<and> is_inr (me_entry E json) then js @ [json] else js)
      | MeGone _ \<Rightarrow> js)"

definition received :: "mon_env \<Rightarrow> string \<Rightarrow> mon_event list \<Rightarrow> string list" where
  "received E src evs = fold (receive_step E src) evs []"

lemma received_simps [simp]:
  "received E src [] = []" "received E src (evs @ [ev]) = receive_step E src ev (received E src evs)"
  by (simp_all add: received_def)

definition prev_of :: "mon_env \<Rightarrow> string \<Rightarrow> string" where
  "prev_of E json = (case me_entry E json of Inr e \<Rightarrow> ae2_prev_hash e | Inl _ \<Rightarrow> [])"

text \<open>Each line names the hash of the line before it.\<close>

definition linked :: "mon_env \<Rightarrow> string list \<Rightarrow> bool" where
  "linked E js \<longleftrightarrow> (\<forall>i. Suc i < length js \<longrightarrow> prev_of E (js ! Suc i) = sha256_hex (me_x E) (js ! i))"

lemma linked_snoc: "linked E (js @ [j]) \<longleftrightarrow> linked E js \<and> (js = [] \<or> prev_of E j = sha256_hex (me_x E) (last js))"
proof (cases js rule: rev_cases)
  case (snoc xs x)
  have "linked E (xs @ [x, j]) \<longleftrightarrow> linked E (xs @ [x]) \<and> prev_of E j = sha256_hex (me_x E) x"
    unfolding linked_def by (auto simp: nth_append less_Suc_eq split: if_splits)
  then show ?thesis using snoc by simp
qed (simp add: linked_def)

section \<open>What an entry does to the sources\<close>

definition after_entry :: "mon_env \<Rightarrow> string \<Rightarrow> AuditEntryV2 \<Rightarrow> bool \<Rightarrow> SourceState \<Rightarrow> SourceState" where
  "after_entry E json entry ok src =
     src\<lparr>ss_chain_intact := ss_chain_intact src \<and> ok, ss_last_seq := ae2_seq entry, ss_last_heartbeat := ae2_heartbeat entry,
       ss_last_timestamp := ae2_timestamp entry, ss_prev_hash := sha256_hex (me_x E) json,
       ss_entries_received := ss_entries_received src + 1\<rparr>"

lemma sources_cross [simp]: "sy_sources (cross_verify_sources st) = sy_sources st"
  by (simp add: cross_verify_sources_def Let_def split: option.splits)

lemma sources_record:
  "sy_sources (record_entry E config now source json entry st) = sy_sources (update_source source
     (\<lambda>src. src\<lparr>ss_last_seq := ae2_seq entry, ss_last_heartbeat := ae2_heartbeat entry, ss_last_timestamp := ae2_timestamp entry,
        ss_prev_hash := sha256_hex (me_x E) json, ss_entries_received := ss_entries_received src + 1\<rparr>) st)"
  by (simp add: record_entry_def update_source_def Let_def split: option.splits)

lemma sources_note_tier [simp]: "sy_sources (note_tier now source entry st) = sy_sources st"
  by (simp add: note_tier_def Let_def)

lemma sources_note_break [simp]:
  "sy_sources (note_break now source entry st) = sy_sources (update_source source (\<lambda>src. src\<lparr>ss_chain_intact := False\<rparr>) st)"
  by (simp add: note_break_def update_source_def Let_def split: option.splits)

lemma sources_take_entry:
  "sy_sources (mo_state (take_entry E config clock source json entry m)) src =
     (case sy_sources (mo_state m) src of None \<Rightarrow> None
      | Some ss \<Rightarrow> Some (if src = source then after_entry E json entry (links_up (mo_state m) source entry) ss else ss))"
  by (auto simp: take_entry_def Let_def sources_record update_source_def after_entry_def split: prod.splits option.splits)

section \<open>The chain flag\<close>

definition flag_inv :: "mon_env \<Rightarrow> string list \<Rightarrow> SourceState \<Rightarrow> bool" where
  "flag_inv E js ss \<longleftrightarrow> ss_entries_received ss = word_of_nat (length js) \<and>
     (js \<noteq> [] \<longrightarrow> ss_prev_hash ss = sha256_hex (me_x E) (last js)) \<and> (ss_chain_intact ss \<longleftrightarrow> linked E js)"

lemma chain_flag:
  assumes "sy_sources (mo_state m) src = None"
    and "sy_sources (mo_state (mon_run E config evs m)) src = Some ss" and "length (received E src evs) < 2 ^ 64"
  shows "flag_inv E (received E src evs) ss"
  using assms(2,3)
proof (induction evs arbitrary: ss rule: rev_induct)
  case Nil
  then show ?case using assms(1) by simp
next
  case (snoc ev evs)
  let ?m = "mon_run E config evs m" and ?js = "received E src evs"
  show ?case
  proof (cases ev)
    case (MeConnected s)
    then show ?thesis
      using snoc by (auto simp: mon_step_def on_state_def source_connected_def receive_step_def flag_inv_def source_new_def linked_def
          split: if_splits)
  next
    case (MeGone s)
    then show ?thesis
      using snoc by (auto simp: mon_step_def on_state_def source_gone_def update_source_def receive_step_def flag_inv_def
          split: if_splits option.splits)
  next
    case (MeEntry s json clock)
    show ?thesis
    proof (cases "me_entry E json")
      case (Inl e)
      then show ?thesis using snoc MeEntry by (simp add: mon_step_def take_json_def receive_step_def)
    next
      case (Inr entry)
      obtain ss0 where ss0: "sy_sources (mo_state ?m) src = Some ss0"
        and ss: "ss = (if src = s then after_entry E json entry (links_up (mo_state ?m) s entry) ss0 else ss0)"
        using snoc.prems(1) MeEntry Inr by (auto simp: mon_step_def take_json_def sources_take_entry split: option.splits)
      have IH: "length ?js < 2 ^ 64 \<Longrightarrow> flag_inv E ?js ss0" using snoc.IH [OF ss0] .
      show ?thesis
      proof (cases "s = src")
        case False
        then show ?thesis using IH ss snoc.prems(2) MeEntry by (simp add: receive_step_def)
      next
        case True
        then have js: "received E src (evs @ [ev]) = ?js @ [json]" using MeEntry Inr by (simp add: receive_step_def)
        then have len: "Suc (length ?js) < 2 ^ 64" using snoc.prems(2) by simp
        then have inv: "flag_inv E ?js ss0" using IH by simp
        have "ss_entries_received ss0 = 0 \<longleftrightarrow> ?js = []"
          using inv len by (auto simp: flag_inv_def word_of_nat_eq_0_iff dest!: dvd_imp_le)
        then have "links_up (mo_state ?m) s entry \<longleftrightarrow> ?js = [] \<or> prev_of E json = sha256_hex (me_x E) (last ?js)"
          using True ss0 inv Inr by (auto simp: links_up_def flag_inv_def prev_of_def)
        then show ?thesis
          using js inv ss True by (auto simp: flag_inv_def after_entry_def linked_snoc)
      qed
    qed
  qed
qed

section \<open>The flag and the log the lines come from\<close>

lemma linked_append: "linked E (xs @ js) \<Longrightarrow> linked E js"
proof (induction js rule: rev_induct)
  case (snoc j js)
  have "linked E ((xs @ js) @ [j])" using snoc.prems by simp
  then have "linked E (xs @ js)" "js \<noteq> [] \<longrightarrow> prev_of E j = sha256_hex (me_x E) (last js)"
    unfolding linked_snoc by auto
  then show ?case using snoc.IH by (auto simp: linked_snoc)
qed (simp add: linked_def)

text \<open>The writer and the reader of a log use the same hash and read the same entries.\<close>

definition same_log :: "audit_env \<Rightarrow> mon_env \<Rightarrow> bool" where
  "same_log U E \<longleftrightarrow> sha256 (au_x U) = sha256 (me_x E) \<and> au_from_json U = me_entry E"

lemma same_hash: "same_log U E \<Longrightarrow> sha256_hex (au_x U) = sha256_hex (me_x E)"
  by (simp add: same_log_def sha256_hex_def fun_eq_iff)

lemma log_prev: "same_log U E \<Longrightarrow> chain_ok U ls \<Longrightarrow> k < length ls \<Longrightarrow>
   prev_of E (ls ! k) = sha256_hex (me_x E) (if k = 0 then GENESIS_HASH else ls ! (k - 1))"
proof -
  assume a: "same_log U E" "chain_ok U ls" "k < length ls"
  then have "line_ok U (take k ls) (ls ! k)" by (simp add: chain_ok_def)
  then have "prev_of E (ls ! k) = last_hash U (take k ls)" using a(1) by (auto simp: line_ok_Inr prev_of_def same_log_def)
  moreover have "last (take k ls) = ls ! (k - 1)" if "0 < k" using that a(3) by (subst last_conv_nth) (auto simp: min_def)
  moreover have "take k ls = [] \<longleftrightarrow> k = 0" using a(3) by auto
  ultimately show ?thesis using same_hash [OF a(1)] by (auto simp: last_hash_def)
qed

lemma chain_linked: "same_log U E \<Longrightarrow> chain_ok U ls \<Longrightarrow> linked E ls"
  by (auto simp: linked_def log_prev)

lemma linked_take: "linked E js \<Longrightarrow> linked E (take n js)"
  by (simp add: linked_def)

lemma linked_genuine:
  assumes "same_log U E" and "chain_ok U ls" and "linked E js" and "js \<noteq> []" and "last js = ls ! k" and "k < length ls"
    and "\<And>a b. a \<in> set js \<Longrightarrow> b \<in> set (GENESIS_HASH # ls) \<Longrightarrow> sha256_hex (me_x E) a = sha256_hex (me_x E) b \<Longrightarrow> a = b"
    and "GENESIS_HASH \<notin> set js"
  shows "suffix js (take (Suc k) ls)"
  using assms(3-)
proof (induction js arbitrary: k rule: rev_induct)
  case (snoc j js)
  have take: "take (Suc k) ls = take k ls @ [ls ! k]" using snoc.prems(4) by (rule take_Suc_conv_app_nth)
  show ?case
  proof (cases "js = []")
    case True
    then show ?thesis using snoc.prems(3) take by (simp add: suffix_def)
  next
    case False
    let ?b = "if k = 0 then GENESIS_HASH else ls ! (k - 1)"
    have "sha256_hex (me_x E) (last js) = sha256_hex (me_x E) ?b"
      using snoc.prems(1,3) False log_prev [OF assms(1,2) snoc.prems(4)] by (auto simp: linked_snoc)
    moreover have "?b \<in> set (GENESIS_HASH # ls)" using snoc.prems(4) by auto
    ultimately have l: "last js = ?b" using snoc.prems(5) [of "last js" ?b] False by auto
    then have k: "k \<noteq> 0" using snoc.prems(6) False by (metis UnCI last_in_set set_append)
    have "suffix js (take (Suc (k - 1)) ls)"
    proof (rule snoc.IH)
      show "linked E js" using snoc.prems(1) by (simp add: linked_snoc)
      show "js \<noteq> []" "last js = ls ! (k - 1)" "k - 1 < length ls" using False l k snoc.prems(4) by auto
    qed (use snoc.prems(5,6) in auto)
    then show ?thesis using take snoc.prems(3) k by (auto simp: suffix_def)
  qed
qed simp

section \<open>The capped lists\<close>

definition last_n :: "nat \<Rightarrow> 'a list \<Rightarrow> 'a list" where
  "last_n n xs = drop (length xs - n) xs"

lemma push_capped_last: "0 < n \<Longrightarrow> push_capped n x (last_n n xs) = last_n n (xs @ [x])"
  by (auto simp: push_capped_def last_n_def Let_def tl_drop drop_Suc [symmetric] Suc_diff_le not_less)

text \<open>The entries of a run, with their sources.\<close>

fun event_entry :: "mon_env \<Rightarrow> mon_event \<Rightarrow> (string \<times> AuditEntryV2) option" where
  "event_entry E (MeEntry source json clock) = (case me_entry E json of Inr entry \<Rightarrow> Some (source, entry) | Inl _ \<Rightarrow> None)"
| "event_entry E _ = None"

definition entries :: "mon_env \<Rightarrow> mon_event list \<Rightarrow> (string \<times> AuditEntryV2) list" where
  "entries E evs = List.map_filter (event_entry E) evs"

lemma entries_snoc: "entries E (evs @ [ev]) = entries E evs @ (case event_entry E ev of None \<Rightarrow> [] | Some x \<Rightarrow> [x])"
  by (cases "event_entry E ev") (simp_all add: entries_def List.map_filter_def)

definition lists_inv :: "(string \<times> AuditEntryV2) list \<Rightarrow> SystemState \<Rightarrow> bool" where
  "lists_inv es st \<longleftrightarrow> sy_full_entries st = last_n MAX_FULL_ENTRIES (map snd es) \<and>
     sy_recent_entries st = last_n MAX_RECENT_ENTRIES (map (\<lambda>(s, e). dashboard_entry s e) es) \<and>
     length (sy_alerts st) \<le> MAX_ALERTS \<and> sy_total_entries_received st = word_of_nat (length es)"

lemma update_source_keeps [simp]:
  "sy_full_entries (update_source s f st) = sy_full_entries st" "sy_recent_entries (update_source s f st) = sy_recent_entries st"
  "sy_alerts (update_source s f st) = sy_alerts st" "sy_total_entries_received (update_source s f st) = sy_total_entries_received st"
  by (simp_all add: update_source_def split: option.splits)

lemma cross_verify_keeps [simp]:
  "sy_full_entries (cross_verify_sources st) = sy_full_entries st" "sy_recent_entries (cross_verify_sources st) = sy_recent_entries st"
  "sy_alerts (cross_verify_sources st) = sy_alerts st" "sy_total_entries_received (cross_verify_sources st) = sy_total_entries_received st"
  by (simp_all add: cross_verify_sources_def Let_def split: option.splits)

lemma push_capped_length: "length xs \<le> n \<Longrightarrow> length (push_capped n x xs) \<le> n"
  by (simp add: push_capped_def Let_def)

lemma note_keeps [simp]:
  "sy_full_entries (note_break now s e st) = sy_full_entries st" "sy_recent_entries (note_break now s e st) = sy_recent_entries st"
  "sy_total_entries_received (note_break now s e st) = sy_total_entries_received st"
  "sy_full_entries (note_tier now s e st) = sy_full_entries st" "sy_recent_entries (note_tier now s e st) = sy_recent_entries st"
  "sy_total_entries_received (note_tier now s e st) = sy_total_entries_received st"
  by (simp_all add: note_break_def note_tier_def Let_def)

lemma note_alerts:
  assumes "length (sy_alerts st) \<le> MAX_ALERTS"
  shows "length (sy_alerts (note_break now s e st)) \<le> MAX_ALERTS" "length (sy_alerts (note_tier now s e st)) \<le> MAX_ALERTS"
  using assms by (simp_all add: note_break_def note_tier_def Let_def push_capped_length)

lemma record_lists [simp]:
  "sy_full_entries (record_entry E config now s json e st) = push_capped MAX_FULL_ENTRIES e (sy_full_entries st)"
  "sy_recent_entries (record_entry E config now s json e st) = push_capped MAX_RECENT_ENTRIES (dashboard_entry s e) (sy_recent_entries st)"
  "sy_alerts (record_entry E config now s json e st) = sy_alerts st"
  "sy_total_entries_received (record_entry E config now s json e st) = sy_total_entries_received st + 1"
  by (simp_all add: record_entry_def Let_def)

lemma mo_state_take_entry:
  "mo_state (take_entry E config clock source json entry m) =
     (let st = mo_state m; st = (if links_up st source entry then st else note_break (clock 0) source entry st);
        st = (if tier_debug (ae2_tier entry) \<noteq> ''Info'' then note_tier (clock 1) source entry st else st)
      in record_entry E config (clock 2) source json entry st)"
  by (simp add: take_entry_def Let_def split: prod.splits)

lemma lists_take_entry:
  assumes "lists_inv es (mo_state m)"
  shows "lists_inv (es @ [(source, entry)]) (mo_state (take_entry E config clock source json entry m))"
proof -
  let ?st = "mo_state m"
  define st1 where "st1 = (if links_up ?st source entry then ?st else note_break (clock 0) source entry ?st)"
  define st2 where "st2 = (if tier_debug (ae2_tier entry) \<noteq> ''Info'' then note_tier (clock 1) source entry st1 else st1)"
  have "lists_inv es st1" using assms note_alerts(1) by (auto simp: lists_inv_def st1_def)
  then have "lists_inv es st2" using note_alerts(2) by (auto simp: lists_inv_def st2_def)
  then have "lists_inv (es @ [(source, entry)]) (record_entry E config (clock 2) source json entry st2)"
    by (simp add: lists_inv_def push_capped_last MAX_FULL_ENTRIES_def MAX_RECENT_ENTRIES_def)
  then show ?thesis unfolding mo_state_take_entry st2_def st1_def Let_def .
qed

lemma lists_run:
  assumes "lists_inv [] (mo_state m)" shows "lists_inv (entries E evs) (mo_state (mon_run E config evs m))"
proof (induction evs rule: rev_induct)
  case Nil
  then show ?case using assms by (simp add: entries_def List.map_filter_def)
next
  case (snoc ev evs)
  show ?case
  proof (cases ev)
    case (MeEntry s json clock)
    then show ?thesis
      using snoc lists_take_entry by (auto simp: mon_step_def take_json_def entries_snoc split: sum.splits)
  qed (use snoc in \<open>auto simp: mon_step_def on_state_def source_connected_def source_gone_def entries_snoc lists_inv_def\<close>)
qed

section \<open>A connection is a run\<close>

lemma on_mon_eq: "on_mon f (n, m) = (r, n', m') \<longleftrightarrow> f n = (r, n') \<and> m' = m"
  by (auto simp: on_mon_def split: prod.splits)

lemma send_keeps_rx: "send_fwd_response F h key a n = (r, n') \<Longrightarrow> rx (nd_chan n' h) = rx (nd_chan n h)"
  by (auto simp: send_fwd_response_def send_raw_def encrypt_io_def draw_def io_bind_def on_chan_def write_frame_def write_all_def
      split: prod.splits sum.splits option.splits if_splits)

lemma receive_takes: "receive_fwd_message F h key n = (Inr msg, n') \<Longrightarrow> length (rx (nd_chan n' h)) < length (rx (nd_chan n h))"
  by (auto simp: receive_fwd_message_def receive_raw_def io_bind_eq_Inr on_chan_def read_frame_def read_exact_def Let_def io_res_def
      split: prod.splits if_splits)

text \<open>What a message does to the monitor and to the connection.\<close>

lemma source_message_effect:
  assumes "source_message E config source h key msg (n, m) = (r, n', m')"
  shows "rx (nd_chan n' h) = rx (nd_chan n h) \<and> (\<exists>evs. m' = mon_run E config evs m)"
proof (cases msg)
  case (LmEntry json)
  obtain answer m1 where t: "take_json E config (\<lambda>i. nd_clock n (nd_clock_pos n + i)) source json m = (answer, m1)" by fastforce
  then have "m' = m1" and s: "send_fwd_response (me_fwd E) h key answer (n\<lparr>nd_clock_pos := nd_clock_pos n + 4\<rparr>) = (r, n')"
    using assms LmEntry by (simp_all add: source_message_def on_mon_eq)
  moreover have "m1 = mon_run E config [MeEntry source json (\<lambda>i. nd_clock n (nd_clock_pos n + i))] m"
    using t by (simp add: mon_step_def)
  ultimately show ?thesis using send_keeps_rx [OF s] by (auto simp del: mon_run_simps)
next
  case LmPing
  then show ?thesis using assms send_keeps_rx by (auto simp: source_message_def on_mon_eq intro!: exI [of _ "[]"])
next
  case (LmHello s)
  then show ?thesis using assms by (auto simp: source_message_def intro!: exI [of _ "[]"])
qed

lemma source_loop_total:
  "length (rx (nd_chan n h)) < fuel \<Longrightarrow> \<exists>r. source_loop fuel E config source h key (n, m) = Some r"
proof (induction fuel arbitrary: n m)
  case (Suc fuel)
  obtain r n1 where r: "receive_fwd_message (me_fwd E) h key n = (r, n1)" by fastforce
  then have o: "on_mon (receive_fwd_message (me_fwd E) h key) (n, m) = (r, n1, m)" by (simp add: on_mon_def)
  show ?case
  proof (cases r)
    case (Inl e)
    with o show ?thesis by simp
  next
    case (Inr msg)
    obtain r2 n2 m2 where s: "source_message E config source h key msg (n1, m) = (r2, n2, m2)" by (cases "source_message E config source h key msg (n1, m)") auto
    have "length (rx (nd_chan n2 h)) < fuel"
      using receive_takes [OF r [unfolded Inr]] source_message_effect [OF s] Suc.prems by simp
    with o s Inr Suc.IH show ?thesis by (auto split: sum.splits)
  qed
qed simp

lemma source_loop_run:
  assumes "source_loop fuel E config source h key (n, m) = Some (e, n', m')"
  shows "\<exists>evs. m' = mon_run E config evs m"
  using assms
proof (induction fuel arbitrary: n m)
  case (Suc fuel)
  obtain r n1 where r: "receive_fwd_message (me_fwd E) h key n = (r, n1)" by fastforce
  then have o: "on_mon (receive_fwd_message (me_fwd E) h key) (n, m) = (r, n1, m)" by (simp add: on_mon_def)
  show ?case
  proof (cases r)
    case (Inl e)
    with o Suc.prems show ?thesis by (auto simp: mon_step_def intro!: exI [of _ "[MeGone source]"])
  next
    case (Inr msg)
    obtain r2 n2 m2 where s: "source_message E config source h key msg (n1, m) = (r2, n2, m2)" by (cases "source_message E config source h key msg (n1, m)") auto
    then obtain evs where evs: "m2 = mon_run E config evs m" using source_message_effect by blast
    show ?thesis
    proof (cases r2)
      case (Inl e')
      with o s Inr Suc.prems evs show ?thesis by auto
    next
      case (Inr u)
      with o s \<open>r = Inr msg\<close> Suc.prems have "source_loop fuel E config source h key (n2, m2) = Some (e, n', m')" by simp
      from Suc.IH [OF this] obtain evs' where "m' = mon_run E config evs' m2" by blast
      with evs have "m' = mon_run E config (evs @ evs') m" by (simp add: mon_run_def)
      then show ?thesis by blast
    qed
  qed
qed simp

section \<open>From the file to the verified log\<close>

text \<open>Files under the monitor's own directories, and the verified log, which is elsewhere.\<close>

definition own_files :: string where "own_files = ''/opt/mfa-monitor/''"

lemma write_file_other: "path \<noteq> p \<Longrightarrow> dk_files (snd (write_file p content d)) path = dk_files d path"
  by (auto simp: write_file_def Let_def split: write_outcome.splits)

lemma write_file_outcome [simp]: "dk_outcome (snd (write_file p content d)) = dk_outcome d"
  by (auto simp: write_file_def Let_def split: write_outcome.splits)

lemma own_paths [simp]: "prefix own_files (in_dir f)" "prefix own_files (''/opt/mfa-monitor/forensics/'' @ f)"
  by (simp_all add: own_files_def in_dir_def SESSIONS_DIR_def)

text \<open>A step that writes only the monitor's own files.\<close>

definition tidy :: "(disk \<Rightarrow> disk) \<Rightarrow> bool" where
  "tidy f \<longleftrightarrow> (\<forall>d path. dk_outcome (f d) = dk_outcome d \<and> (\<not> prefix own_files path \<longrightarrow> dk_files (f d) path = dk_files d path))"

lemma tidy_write: "prefix own_files p \<Longrightarrow> tidy (\<lambda>d. snd (write_file p (c d) d))"
  by (auto simp: tidy_def intro!: write_file_other)

lemma tidy_bind:
  "tidy (\<lambda>d. snd (m d)) \<Longrightarrow> (\<And>x. tidy (\<lambda>d. snd (k x d))) \<Longrightarrow> tidy (\<lambda>d. snd (io_bind m k d))"
  unfolding tidy_def by (auto simp: io_bind_def split: sum.splits prod.splits) (metis snd_conv)+

lemma tidy_basic: "tidy (\<lambda>d. snd (io_res r d))" "tidy (\<lambda>d. snd (Inr (f d) :: 'a res, d))" "tidy (\<lambda>d. d)"
  by (simp_all add: tidy_def)

lemma tidy_comp: "tidy f \<Longrightarrow> tidy g \<Longrightarrow> tidy (\<lambda>d. g (f d))"
  by (simp add: tidy_def)

lemma tidy_session: "tidy (\<lambda>d. snd (write_session T s d))"
  unfolding write_session_def by (intro tidy_bind tidy_basic tidy_write own_paths)

lemma tidy_finish: "tidy (\<lambda>d. snd (snd (finish_open T source (active, d))))"
  using tidy_session [of T] by (auto simp: tidy_def finish_open_def finalize_session_def Let_def split: option.splits)

lemma tidy_track: "tidy (\<lambda>d. snd (track_line T (now, source, line) (active, d)))"
proof -
  have t: "dk_outcome (snd (snd (finish_open T source (a, d)))) = dk_outcome d"
    "\<not> prefix own_files path \<Longrightarrow> dk_files (snd (snd (finish_open T source (a, d)))) path = dk_files d path" for a d path
    using tidy_finish unfolding tidy_def by blast+
  then show ?thesis
    unfolding tidy_def track_line_def process_entry_def Let_def
    by (auto split: prod.splits if_splits) (metis snd_conv)+
qed

lemma tidy_forensic: "tidy (store_forensic E source entry)"
proof (cases "me_pretty E entry")
  case (Inl e)
  then show ?thesis by (simp add: store_forensic_def tidy_def)
next
  case (Inr pretty)
  have *: "tidy (\<lambda>d. snd (write_file (''/opt/mfa-monitor/forensics/'' @ f) (c d) d))" for f c
    by (rule tidy_write) (simp add: own_files_def)
  show ?thesis
    unfolding store_forensic_def Inr sum.case Let_def by (rule tidy_comp [OF *]) (rule *)
qed

text \<open>A disk that takes every write, and a place for the log that nothing else writes to.\<close>

definition log_place :: "MonitorConfig \<Rightarrow> string \<Rightarrow> bool" where
  "log_place config source \<longleftrightarrow> \<not> prefix own_files (mc_verified_log_path config) \<and>
     mc_verified_log_path config \<noteq> source @ ''-stream.jsonl''"

definition good_disk :: "disk \<Rightarrow> bool" where
  "good_disk d \<longleftrightarrow> dk_outcome d = (\<lambda>_. Written)"

abbreviation verified_log :: "MonitorConfig \<Rightarrow> monitor \<Rightarrow> string" where
  "verified_log config m \<equiv> unwrap_or [] (dk_files (mo_disk m) (mc_verified_log_path config))"

lemma append_line_good:
  "good_disk d \<Longrightarrow> good_disk (append_line p line d) \<and>
     dk_files (append_line p line d) = (dk_files d)(p \<mapsto> unwrap_or [] (dk_files d p) @ line @ [CHR 0x0A])"
  by (simp add: append_line_def good_disk_def Let_def)

lemma tidy_good: "tidy f \<Longrightarrow> good_disk d \<Longrightarrow> good_disk (f d)"
  by (simp add: tidy_def good_disk_def)

lemma tidy_files: "tidy f \<Longrightarrow> \<not> prefix own_files path \<Longrightarrow> dk_files (f d) path = dk_files d path"
  by (simp add: tidy_def)

lemma log_take_entry:
  assumes "log_place config source" and "good_disk (mo_disk m)"
  shows "good_disk (mo_disk (take_entry E config clock source json entry m)) \<and>
     verified_log config (take_entry E config clock source json entry m) = verified_log config m @ json @ [CHR 0x0A]"
proof -
  let ?p = "mc_verified_log_path config" and ?t = "\<lambda>d. snd (track_line (me_tracker E) (clock 3, source, json) (mo_tracker m, d))"
  define d1 where "d1 = (if ae2_forensic entry \<noteq> None then store_forensic E source entry (mo_disk m) else mo_disk m)"
  define d2 where "d2 = append_line (source @ ''-stream.jsonl'') json d1"
  define d3 where "d3 = append_line ?p json d2"
  have p: "\<not> prefix own_files ?p" "?p \<noteq> source @ ''-stream.jsonl''" using assms(1) by (simp_all add: log_place_def)
  have 1: "good_disk d1" "dk_files d1 ?p = dk_files (mo_disk m) ?p"
    using assms(2) tidy_good [OF tidy_forensic] tidy_files [OF tidy_forensic p(1)] by (auto simp: d1_def)
  have 2: "good_disk d2" "dk_files d2 ?p = dk_files d1 ?p" using append_line_good [OF 1(1)] p(2) by (simp_all add: d2_def)
  have 3: "good_disk d3" "dk_files d3 ?p = Some (unwrap_or [] (dk_files d2 ?p) @ json @ [CHR 0x0A])"
    using append_line_good [OF 2(1)] by (simp_all add: d3_def)
  have "mo_disk (take_entry E config clock source json entry m) = ?t d3"
    by (simp add: take_entry_def Let_def d1_def d2_def d3_def split: prod.splits)
  with tidy_good [OF tidy_track 3(1)] tidy_files [OF tidy_track p(1)] 1 2 3 show ?thesis by simp
qed

lemma log_run_entries:
  assumes "log_place config source" and "good_disk (mo_disk m)" and "list_all (\<lambda>j. is_inr (me_entry E j)) (map fst jcs)"
  shows "verified_log config (mon_run E config (map (\<lambda>(j, c). MeEntry source j c) jcs) m) = verified_log config m @ file_of (map fst jcs)"
  using assms(2,3)
proof (induction jcs arbitrary: m)
  case (Cons jc jcs)
  obtain j c where jc: "jc = (j, c)" by fastforce
  obtain entry where entry: "me_entry E j = Inr entry" using Cons.prems(2) jc by (auto simp: is_inr_def split: sum.splits)
  let ?m = "take_entry E config c source j entry m"
  have "mon_step E config (MeEntry source j c) m = ?m" using entry by (simp add: mon_step_def take_json_def)
  with Cons.IH [of ?m] log_take_entry [OF assms(1) Cons.prems(1)] Cons.prems(2) jc show ?case
    by (simp add: file_of_def)
qed (simp add: file_of_def)

text \<open>Answers can always be written.\<close>

definition answers_ok :: "mon_env \<Rightarrow> bytes \<Rightarrow> bool" where
  "answers_ok E key \<longleftrightarrow> (\<forall>a. is_inr (ser (fe_answers (me_fwd E)) a)) \<and> (\<forall>nonce p. aead_encrypt (me_x E) key nonce p \<noteq> None)"

lemma send_answer:
  assumes "answers_ok E key" and "wleft (nd_chan n g) = None"
  shows "\<exists>n'. send_fwd_response (me_fwd E) g key a n = (Inr (), n') \<and> wleft (nd_chan n' g) = None \<and> rx (nd_chan n' g) = rx (nd_chan n g)"
proof -
  have "is_inr (ser (fe_answers (me_fwd E)) a)" using assms(1) by (simp add: answers_ok_def)
  then obtain pt where pt: "ser (fe_answers (me_fwd E)) a = Inr pt" by (cases "ser (fe_answers (me_fwd E)) a") simp_all
  let ?nonce = "map (nd_entropy n) [nd_entropy_pos n..<nd_entropy_pos n + 12]"
  obtain ct where "aead_encrypt (me_x E) key ?nonce pt = Some ct"
    using assms(1) unfolding answers_ok_def by (meson not_None_eq)
  then have "encrypt (me_x E) ?nonce key pt = Inr (?nonce @ ct)" by (simp add: encrypt_def del: upt_rec_numeral)
  then show ?thesis
    using pt assms(2) by (simp add: send_fwd_response_def send_raw_def encrypt_io_def draw_def io_bind_def on_chan_def write_frame_open
        del: upt_rec_numeral)
qed

text \<open>The loop on what a forwarder said: every line is taken, in order, until the connection ends.\<close>

lemma eof: "rx (nd_chan n g) = [] \<Longrightarrow> \<exists>n'. receive_fwd_message F g key n = (Inl (Err ''early eof''), n')"
  by (simp add: receive_fwd_message_def receive_raw_def on_chan_def read_frame_def read_exact_def io_bind_def)

lemma source_message_takes:
  assumes "answers_ok E key" and "wleft (nd_chan n g) = None" and "msg \<in> insert LmPing (range LmEntry)"
  shows "\<exists>n' jcs. source_message E config source g key msg (n, m) =
       (Inr (), n', mon_run E config (map (\<lambda>(j, c). MeEntry source j c) jcs) m) \<and>
     map fst jcs = (case entry_of msg of None \<Rightarrow> [] | Some j \<Rightarrow> [j]) \<and> wleft (nd_chan n' g) = None \<and> rx (nd_chan n' g) = rx (nd_chan n g)"
proof (cases msg)
  case (LmEntry json)
  let ?clock = "\<lambda>i. nd_clock n (nd_clock_pos n + i)" and ?n = "n\<lparr>nd_clock_pos := nd_clock_pos n + 4\<rparr>"
  obtain answer m1 where t: "take_json E config ?clock source json m = (answer, m1)" by fastforce
  obtain n' where "send_fwd_response (me_fwd E) g key answer ?n = (Inr (), n')" "wleft (nd_chan n' g) = None"
    "rx (nd_chan n' g) = rx (nd_chan n g)" using send_answer [OF assms(1), of ?n g] assms(2) by auto
  with t LmEntry show ?thesis
    by (intro exI [of _ n'] exI [of _ "[(json, ?clock)]"]) (simp add: source_message_def on_mon_def mon_step_def)
next
  case LmPing
  obtain n' where "send_fwd_response (me_fwd E) g key LrAck n = (Inr (), n')" "wleft (nd_chan n' g) = None"
    "rx (nd_chan n' g) = rx (nd_chan n g)" using send_answer [OF assms(1,2)] by blast
  with LmPing show ?thesis by (intro exI [of _ n'] exI [of _ "[]"]) (simp add: source_message_def on_mon_def)
qed (use assms(3) in auto)

lemma source_loop_takes:
  assumes "list_all2 (delivers (receive_fwd_message (me_fwd E)) key) ms ws" and "answers_ok E key"
    and "set ms \<subseteq> insert LmPing (range LmEntry)" and "rx (nd_chan n g) = concat ws" and "wleft (nd_chan n g) = None" and "length ms < fuel"
  shows "\<exists>n' jcs. source_loop fuel E config source g key (n, m) = Some (Err ''early eof'', n',
       on_state (source_gone source) (mon_run E config (map (\<lambda>(j, c). MeEntry source j c) jcs) m)) \<and>
     map fst jcs = List.map_filter entry_of ms"
  using assms
proof (induction ms ws arbitrary: n m fuel rule: list_all2_induct)
  case Nil
  obtain f where f: "fuel = Suc f" using Nil.prems(5) by (cases fuel) auto
  obtain n' where "receive_fwd_message (me_fwd E) g key n = (Inl (Err ''early eof''), n')" using eof Nil.prems(3) by fastforce
  then show ?case using f by (intro exI [of _ n'] exI [of _ "[]"]) (simp add: on_mon_def List.map_filter_def)
next
  case (Cons msg ms w ws)
  obtain f where f: "fuel = Suc f" "length ms < f" using Cons.prems(5) by (cases fuel) auto
  let ?n1 = "set_rx g (concat ws) n"
  have r: "receive_fwd_message (me_fwd E) g key n = (Inr msg, ?n1)"
    using Cons.hyps(1) Cons.prems(3) unfolding delivers_def by simp
  have "wleft (nd_chan ?n1 g) = None" using Cons.prems(4) by (simp add: set_rx_def)
  from source_message_takes [OF Cons.prems(1) this, of msg config source m] Cons.prems(2) obtain n2 jcs where
    s: "source_message E config source g key msg (?n1, m) = (Inr (), n2, mon_run E config (map (\<lambda>(j, c). MeEntry source j c) jcs) m)"
    "map fst jcs = (case entry_of msg of None \<Rightarrow> [] | Some j \<Rightarrow> [j])" "wleft (nd_chan n2 g) = None" "rx (nd_chan n2 g) = concat ws"
    by auto
  let ?m = "mon_run E config (map (\<lambda>(j, c). MeEntry source j c) jcs) m"
  from Cons.IH [OF Cons.prems(1) _ s(4,3) f(2), of ?m] Cons.prems(2) obtain n' jcs' where
    l: "source_loop f E config source g key (n2, ?m) = Some (Err ''early eof'', n',
       on_state (source_gone source) (mon_run E config (map (\<lambda>(j, c). MeEntry source j c) jcs') ?m))"
      "map fst jcs' = List.map_filter entry_of ms" by auto
  have "mon_run E config (map (\<lambda>(j, c). MeEntry source j c) jcs') ?m = mon_run E config (map (\<lambda>(j, c). MeEntry source j c) (jcs @ jcs')) m"
    by (simp add: mon_run_def)
  with r s(1) l f have "source_loop fuel E config source g key (n, m) = Some (Err ''early eof'', n',
       on_state (source_gone source) (mon_run E config (map (\<lambda>(j, c). MeEntry source j c) (jcs @ jcs')) m))"
    by (simp add: on_mon_def)
  moreover have "map fst (jcs @ jcs') = List.map_filter entry_of (msg # ms)"
    using s(2) l(2) by (simp add: List.map_filter_simps split: option.splits)
  ultimately show ?case by blast
qed

lemma delivered_nonempty: "delivers (receive_fwd_message F) key m w \<Longrightarrow> w \<noteq> []"
proof
  assume d: "delivers (receive_fwd_message F) key m w" and w: "w = []"
  obtain t :: node and g where t: "rx (nd_chan t g) = w"
    by (rule that [of "set_rx 0 w undefined" 0]) simp
  then have "receive_fwd_message F g key t = (Inr m, set_rx g [] t)" using d unfolding delivers_def by simp
  from receive_takes [OF this] t w show False by simp
qed

lemma delivered_length: "list_all2 (delivers (receive_fwd_message F) key) ms ws \<Longrightarrow> length ms \<le> length (concat ws)"
proof (induction rule: list_all2_induct)
  case (Cons m ms w ws)
  then have "w \<noteq> []" using delivered_nonempty by blast
  with Cons.IH show ?case by (cases w) simp_all
qed simp

section \<open>Concrete inputs\<close>

definition demo_fwd :: fwd_env where
  "demo_fwd = \<lparr>fe_agent = \<lparr>ae_x = demo_ext, ae_messages = \<lparr>ser = (\<lambda>_. Inl (Err ''none'')), de = (\<lambda>_. Inl (Err ''none''))\<rparr>,
        ae_payloads = \<lparr>ser = (\<lambda>_. Inl (Err ''none'')), de = (\<lambda>_. Inl (Err ''none''))\<rparr>, ae_debug = (\<lambda>_. []), ae_debug_command = (\<lambda>_. [])\<rparr>,
     fe_messages = \<lparr>ser = (\<lambda>m. if m = LmEntry ''{1}'' then Inr [1] else if m = LmEntry ''{2}'' then Inr [2] else if m = LmPing then Inr [3] else Inl (Err ''none'')),
        de = (\<lambda>b. if b = [1] then Inr (LmEntry ''{1}'') else if b = [2] then Inr (LmEntry ''{2}'') else if b = [3] then Inr LmPing else Inl (Err ''none''))\<rparr>,
     fe_answers = \<lparr>ser = (\<lambda>m. case m of LrAck \<Rightarrow> Inr [1] | LrWelcome \<Rightarrow> Inr [2] | LrReject r \<Rightarrow> Inr (3 # as_bytes r)),
        de = (\<lambda>b. if b = [1] then Inr LrAck else if b = [2] then Inr LrWelcome else Inl (Err ''none''))\<rparr>,
     fe_inits = \<lparr>ser = (\<lambda>_. Inl (Err ''none'')), de = (\<lambda>_. Inl (Err ''none''))\<rparr>,
     fe_responses = \<lparr>ser = (\<lambda>_. Inl (Err ''none'')), de = (\<lambda>_. Inl (Err ''none''))\<rparr>\<rparr>"

definition demo_mon :: mon_env where
  "demo_mon = \<lparr>me_fwd = demo_fwd, me_entry = au_from_json (demo_audit Appended), me_pretty = (\<lambda>_. Inl (Err ''none'')),
     me_parse_list = (\<lambda>_. Inl (Err ''none'')), me_print_list = (\<lambda>_. Inl (Err ''none'')),
     me_tracker = \<lparr>tr_x = demo_ext, tr_parse = (\<lambda>_. Inl (Err ''none'')), tr_print = (\<lambda>_. Inl (Err ''none'')),
       tr_print_session = (\<lambda>_. Inl (Err ''none'')), tr_parse_session = (\<lambda>_. Inl (Err ''none'')),
       tr_print_index = (\<lambda>_. Inl (Err ''none'')), tr_parse_index = (\<lambda>_. Inl (Err ''none''))\<rparr>\<rparr>"

definition demo_mon_config :: MonitorConfig where
  "demo_mon_config = \<lparr>mc_node_id = ''vm5'', mc_log_receiver_port = 9000, mc_dashboard_port = 8080, mc_attestation_port = 0,
     mc_authorized_sources = [\<lparr>so_node_id = ''vm2'', so_ip = ''10.0.0.2'', so_chain = 1\<rparr>], mc_verified_log_path = ''verified.jsonl'',
     mc_baselines_path = [], mc_cross_verify = True, mc_reconnect_timeout_secs = 0\<rparr>"

definition demo_monitor :: monitor where
  "demo_monitor = \<lparr>mo_state = system_new 0, mo_tracker = Map.empty,
     mo_disk = \<lparr>dk_files = Map.empty, dk_outcome = (\<lambda>_. Written), dk_writes = 0\<rparr>\<rparr>"

definition demo_events :: "mon_event list" where
  "demo_events = [MeConnected ''vm2'', MeEntry ''vm2'' ''{1}'' (\<lambda>_. 1000), MeEntry ''vm2'' ''{2}'' (\<lambda>_. 1060)]"

lemma demo_parses: "me_entry demo_mon ''{1}'' = Inr demo_entry1" "me_entry demo_mon ''{2}'' = Inr demo_entry2"
  "me_x demo_mon = demo_ext"
  by (simp_all add: demo_mon_def demo_audit_def demo_fwd_def)

lemma demo_received: "received demo_mon ''vm2'' demo_events = [''{1}'', ''{2}'']"
  by (simp add: received_def demo_events_def receive_step_def demo_parses)

lemma demo_source: "\<exists>ss. sy_sources (mo_state (mon_run demo_mon demo_mon_config demo_events demo_monitor)) ''vm2'' = Some ss"
  by (simp add: demo_events_def mon_step_def take_json_def demo_parses sources_take_entry on_state_def source_connected_def)

lemma demo_same_log: "same_log (demo_audit Appended) demo_mon"
  by (simp add: same_log_def demo_mon_def demo_fwd_def demo_audit_def demo_audit0_def)

section \<open>Properties\<close>

text \<open>
  What the chain flag means: after any interleaving of hellos, lines and disconnections of any sources, the
  monitor calls the chain of a source intact exactly when every entry it took from that source since its last
  hello names the hash of the entry before it, other sources and unreadable lines notwithstanding.
\<close>

theorem monitor_chain_flag:
  assumes "mo_state m = system_new now" and "sy_sources (mo_state (mon_run E config evs m)) src = Some ss"
    and "length (received E src evs) < 2 ^ 64"
  shows "ss_chain_intact ss \<longleftrightarrow> linked E (received E src evs)"
proof -
  have "sy_sources (mo_state m) src = None" using assms(1) by (simp add: system_new_def)
  from chain_flag [OF this assms(2,3)] show ?thesis by (simp add: flag_inv_def)
qed

theorem monitor_chain_flag_witness:
  "\<exists>ss. sy_sources (mo_state (mon_run demo_mon demo_mon_config demo_events demo_monitor)) ''vm2'' = Some ss \<and> ss_chain_intact ss"
proof -
  obtain ss where ss: "sy_sources (mo_state (mon_run demo_mon demo_mon_config demo_events demo_monitor)) ''vm2'' = Some ss"
    using demo_source by blast
  have "linked demo_mon [''{1}'', ''{2}'']" using chain_linked [OF demo_same_log demo_chains(2)] .
  with ss monitor_chain_flag [OF _ ss, of 0] demo_received show ?thesis by (simp add: demo_monitor_def)
qed

text \<open>
  C16.  An intact chain vouches for everything behind its newest entry: if that entry is a line of the log the source
  really wrote, the flag is set exactly when what the monitor took since the hello is the stretch of the log that
  ends with that line, with nothing changed, dropped, inserted or reordered, unless a received line collides with one of the log.
\<close>

theorem monitor_vouches_for_log:
  assumes "mo_state m = system_new now" and "sy_sources (mo_state (mon_run E config evs m)) src = Some ss"
    and "length (received E src evs) < 2 ^ 64" and "same_log U E" and "chain_ok U log"
    and "received E src evs \<noteq> []" and "last (received E src evs) = log ! k" and "k < length log"
    and "GENESIS_HASH \<notin> set (received E src evs)"
    and "\<And>a b. a \<in> set (received E src evs) \<Longrightarrow> b \<in> set (GENESIS_HASH # log) \<Longrightarrow>
       sha256_hex (me_x E) a = sha256_hex (me_x E) b \<Longrightarrow> a = b"
  shows "ss_chain_intact ss \<longleftrightarrow> suffix (received E src evs) (take (Suc k) log)"
proof -
  have "sy_sources (mo_state m) src = None" using assms(1) by (simp add: system_new_def)
  then have flag: "ss_chain_intact ss \<longleftrightarrow> linked E (received E src evs)"
    using chain_flag [OF _ assms(2,3)] by (simp add: flag_inv_def)
  show ?thesis
  proof
    assume "ss_chain_intact ss"
    with flag linked_genuine [OF assms(4,5) _ assms(6-8,10,9)] show "suffix (received E src evs) (take (Suc k) log)" by blast
  next
    assume "suffix (received E src evs) (take (Suc k) log)"
    then obtain zs where "take (Suc k) log = zs @ received E src evs" by (auto simp: suffix_def)
    with linked_take [OF chain_linked [OF assms(4,5)], of "Suc k"] linked_append flag show "ss_chain_intact ss" by metis
  qed
qed

theorem monitor_vouches_for_log_witness:
  "\<exists>ss. sy_sources (mo_state (mon_run demo_mon demo_mon_config demo_events demo_monitor)) ''vm2'' = Some ss \<and>
     (ss_chain_intact ss \<longleftrightarrow> suffix [''{1}'', ''{2}''] (take (Suc 1) [''{1}'', ''{2}'']))"
proof -
  obtain ss where ss: "sy_sources (mo_state (mon_run demo_mon demo_mon_config demo_events demo_monitor)) ''vm2'' = Some ss"
    using demo_source by blast
  have "sha256_hex demo_ext ''{1}'' \<noteq> sha256_hex demo_ext GENESIS_HASH" "sha256_hex demo_ext ''{2}'' \<noteq> sha256_hex demo_ext GENESIS_HASH"
    by (simp_all add: sha256_hex_def demo_ext_def pad_to_def sum_bytes_def as_bytes_def hex_encode_def hex_digit_def of_char_def GENESIS_HASH_def)
  then have clash: "a = b" if "a \<in> set [''{1}'', ''{2}'']" "b \<in> set [GENESIS_HASH, ''{1}'', ''{2}'']"
      "sha256_hex demo_ext a = sha256_hex demo_ext b" for a b
    using that demo_no_collision by auto
  have "mo_state demo_monitor = system_new 0" by (simp add: demo_monitor_def)
  note v = monitor_vouches_for_log [OF this ss _ demo_same_log demo_chains(2), unfolded demo_received demo_parses(3)]
  have "ss_chain_intact ss \<longleftrightarrow> suffix [''{1}'', ''{2}''] (take (Suc 1) [''{1}'', ''{2}''])"
  proof (rule v)
    show "GENESIS_HASH \<notin> set [''{1}'', ''{2}'']" by (simp add: GENESIS_HASH_def)
  qed (use clash in \<open>simp_all del: list.set\<close>)
  with ss show ?thesis by blast
qed

text \<open>
  C34.  The dashboard shows the newest entries: whatever the sources send, the entry lists hold exactly the last 200
  entries taken, oldest first, there are never more than 50 alerts, and the total counts every entry.
\<close>

theorem dashboard_shows_newest:
  assumes "mo_state m = system_new now"
  shows "sy_full_entries (mo_state (mon_run E config evs m)) = last_n 200 (map snd (entries E evs)) \<and>
     sy_recent_entries (mo_state (mon_run E config evs m)) = last_n 200 (map (\<lambda>(s, e). dashboard_entry s e) (entries E evs)) \<and>
     length (sy_alerts (mo_state (mon_run E config evs m))) \<le> 50 \<and>
     sy_total_entries_received (mo_state (mon_run E config evs m)) = word_of_nat (length (entries E evs))"
proof -
  have "lists_inv [] (mo_state m)" using assms by (simp add: lists_inv_def system_new_def last_n_def)
  from lists_run [OF this, of E evs config] show ?thesis
    by (simp add: lists_inv_def MAX_FULL_ENTRIES_def MAX_RECENT_ENTRIES_def MAX_ALERTS_def)
qed

theorem dashboard_shows_newest_witness:
  "sy_full_entries (mo_state (mon_run demo_mon demo_mon_config demo_events demo_monitor)) = [demo_entry1, demo_entry2]"
  using dashboard_shows_newest [of demo_monitor 0 demo_mon demo_mon_config demo_events]
  by (simp add: demo_monitor_def demo_events_def entries_def List.map_filter_def demo_parses last_n_def)

text \<open>
  C17.  What the agent logs is what the monitor keeps: while the log grows by whole lines, everything a forwarder reads
  and sends over a session makes the monitor append exactly the new lines to its verified log, each once and in order,
  however the lines are spread over polls, pings included, and end with the end of the connection.
\<close>

theorem log_reaches_monitor:
  assumes "forward_polls F h key (grow ls bs) w s = (Inr w', s')" and "ft_position (fw_tailer w) = length (file_of ls)"
    and "list_all log_line (concat bs)" and "list_all (\<lambda>l. is_inr (me_entry E l)) (concat bs)" and "me_fwd E = F"
    and "aead_correct (fe_x F)" and "codec_ok (fe_messages F) LmPing" and "list_all (\<lambda>l. codec_ok (fe_messages F) (LmEntry l)) (concat bs)"
    and "answers_ok E key" and "wleft (nd_chan s h) = None" and "tx (nd_chan s' h) = tx (nd_chan s h) @ wire" and "length wire \<le> max_frame"
    and "rx (nd_chan n g) = wire" and "wleft (nd_chan n g) = None" and "log_place config source" and "good_disk (mo_disk m)"
  shows "\<exists>n' m'. source_loop (Suc (length wire)) E config source g key (n, m) = Some (Err ''early eof'', n', m') \<and>
     verified_log config m' = verified_log config m @ file_of (concat bs)"
proof -
  have "list_all (\<lambda>l. fwd_good F (LmEntry l)) (concat bs)" "fwd_good F LmPing"
    using assms(6-8) by (auto simp: fwd_good_def list_all_iff)
  from forward_polls_spoken [OF assms(1,10) this(2) assms(3) this(1) assms(2)] obtain ms where
    sp: "spoken (receive_fwd_message F) key h ms s s'" and ms: "List.map_filter entry_of ms = concat bs" "set ms \<subseteq> insert LmPing (range LmEntry)"
    by blast
  obtain ws where ws: "wire = concat ws" "list_all2 (delivers (receive_fwd_message F) key) ms ws"
    using spoken_delivers [OF sp assms(11,12)] by blast
  have "length ms < Suc (length wire)" using delivered_length [OF ws(2)] ws(1) by simp
  from source_loop_takes [OF ws(2) [folded assms(5)] assms(9) ms(2) _ assms(14) this, of config source m] ws(1) assms(13)
  obtain n' jcs where l: "source_loop (Suc (length wire)) E config source g key (n, m) = Some (Err ''early eof'', n',
       on_state (source_gone source) (mon_run E config (map (\<lambda>(j, c). MeEntry source j c) jcs) m))" "map fst jcs = concat bs"
    using ms(1) by auto
  from log_run_entries [OF assms(15,16), of E jcs] l assms(4) show ?thesis by (auto simp: on_state_def)
qed

definition demo_acks :: bytes where
  "demo_acks = concat (replicate 2 (put_be32 14 @ replicate 12 1 @ [32, 1]))"

lemma demo_lines: "log_line ''{1}''" "log_line ''{2}''"
  by (simp_all add: log_line_def json_line_def blank_def str_trim_def is_space_def utf8_tail_def byte_in_def of_char_def)

lemma demo_forwarded:
  "\<exists>w' s'. forward_polls demo_fwd 0 (replicate 32 1) (grow [] [[''{1}''], [''{2}'']])
      \<lparr>fw_tailer = \<lparr>ft_path = ''audit.jsonl'', ft_position = 0\<rparr>, fw_entries_sent = 0, fw_ping_counter = 0\<rparr> (demo_wire demo_acks) = (Inr w', s') \<and>
     length (tx (nd_chan s' 0)) = 36"
proof -
  let ?t = "\<lambda>p. \<lparr>ft_path = ''audit.jsonl'', ft_position = p\<rparr>"
  have 1: "read_new_lines (Some (file_of [''{1}''])) (?t 0) = ([''{1}''], ?t 4)"
    using read_new_lines_grown [of "[''{1}'']" "?t 0" "[]"] demo_lines by (simp add: file_of_def)
  have 2: "read_new_lines (Some (file_of [''{1}'', ''{2}''])) (?t 4) = ([''{2}''], ?t 8)"
    using read_new_lines_grown [of "[''{2}'']" "?t 4" "[''{1}'']"] demo_lines by (simp add: file_of_def)
  have bytes: "put_be32 14 = [0, 0, 0, 14]" "nat_of_be [0, 0, 0, 14] = 14" "sum_bytes (replicate 32 1) = 32"
    by code_simp+
  show ?thesis
    by (simp add: forward_poll_def 1 2 bytes io_bind_def send_fwd_message_def receive_fwd_response_def send_raw_def receive_raw_def encrypt_io_def draw_def
        on_chan_def write_frame_open encrypt_def decrypt_def read_frame_def read_exact_def max_frame_def
        demo_wire_def demo_fwd_def demo_ext_def demo_acks_def Let_def numeral_2_eq_2 be.length_put)
qed

theorem log_reaches_monitor_witness:
  "\<exists>wire n' m'. source_loop (Suc (length wire)) demo_mon demo_mon_config ''vm2'' 0 (replicate 32 1) (demo_wire wire, demo_monitor) =
       Some (Err ''early eof'', n', m') \<and> verified_log demo_mon_config m' = file_of [''{1}'', ''{2}'']"
proof -
  obtain w' s' where f: "forward_polls demo_fwd 0 (replicate 32 1) (grow [] [[''{1}''], [''{2}'']])
      \<lparr>fw_tailer = \<lparr>ft_path = ''audit.jsonl'', ft_position = 0\<rparr>, fw_entries_sent = 0, fw_ping_counter = 0\<rparr> (demo_wire demo_acks) = (Inr w', s')"
    "length (tx (nd_chan s' 0)) = 36" using demo_forwarded by blast
  let ?w = "tx (nd_chan s' 0)"
  have "\<exists>n' m'. source_loop (Suc (length ?w)) demo_mon demo_mon_config ''vm2'' 0 (replicate 32 1) (demo_wire ?w, demo_monitor) =
       Some (Err ''early eof'', n', m') \<and> verified_log demo_mon_config m' = verified_log demo_mon_config demo_monitor @ file_of (concat [[''{1}''], [''{2}'']])"
  proof (rule log_reaches_monitor [OF f(1)])
    show "list_all (\<lambda>l. is_inr (me_entry demo_mon l)) (concat [[''{1}''], [''{2}'']])" by (simp add: demo_parses)
    show "list_all log_line (concat [[''{1}''], [''{2}'']])" by (simp add: demo_lines)
    show "aead_correct (fe_x demo_fwd)" using demo_aead by (simp add: demo_fwd_def)
    show "codec_ok (fe_messages demo_fwd) LmPing" "list_all (\<lambda>l. codec_ok (fe_messages demo_fwd) (LmEntry l)) (concat [[''{1}''], [''{2}'']])"
      by (simp_all add: codec_ok_def demo_fwd_def)
    show "answers_ok demo_mon (replicate 32 1)"
      by (auto simp: answers_ok_def demo_mon_def demo_fwd_def demo_ext_def split: LogFwdResponse.splits)
    show "log_place demo_mon_config ''vm2''" by (simp add: log_place_def demo_mon_config_def own_files_def)
    show "good_disk (mo_disk demo_monitor)" by (simp add: good_disk_def demo_monitor_def)
  qed (use f(2) in \<open>simp_all add: demo_wire_def demo_mon_def max_frame_def file_of_def\<close>)
  then show ?thesis by (auto simp: demo_monitor_def)
qed

text \<open>
  The four replacements of \<open>html_escape\<close> are one: their order makes each character of the text be replaced once,
  never the characters of a replacement, and no markup character survives.
\<close>

definition escape_char :: "char \<Rightarrow> string" where
  "escape_char c =
     (if c = CHR ''&'' then ''&amp;'' else if c = CHR ''<'' then ''&lt;'' else if c = CHR ''>'' then ''&gt;''
      else if c = CHR 0x22 then ''&quot;'' else [c])"

theorem html_escape_single_pass:
  "html_escape s = concat (map escape_char s) \<and>
     {CHR ''<'', CHR ''>'', CHR 0x22} \<inter> set (html_escape s) = {}"
proof -
  have r: "replace_char c t [] = []" "replace_char c t (x # xs) = (if x = c then t else [x]) @ replace_char c t xs"
    "replace_char c t (xs @ ys) = replace_char c t xs @ replace_char c t ys" for c t x xs ys
    by (simp_all add: replace_char_def)
  have "html_escape s = concat (map escape_char s)"
    by (induction s) (auto simp: html_escape_def escape_char_def r)
  moreover have "{CHR ''<'', CHR ''>'', CHR 0x22} \<inter> set (concat (map escape_char s)) = {}"
    by (auto simp: escape_char_def split: if_splits)
  ultimately show ?thesis by simp
qed

end
