(* ===== verification/Dashboard.thy ===== *)
theory Dashboard
  imports Overview Monitor_Chain
begin

text \<open>
  The web server of the monitor (\<open>mfa-monitor/src/bin/monitor.rs\<close>): the request of a browser, the routes, and the pages
  over the state and the disk that the messages of the sources have led to.  Lemmas: what the routes read, that every
  request is answered when what the sources sent can be cut into columns, and how one record can hide the overview.
\<close>

section \<open>Baselines of the monitor\<close>

text \<open>The monitor reads its own form of the database: a list.\<close>

type_synonym baselines = "PcrBaseline list option"

definition baselines_load :: "(string \<Rightarrow> PcrBaseline list res) \<Rightarrow> (string \<rightharpoonup> string) \<Rightarrow> string \<Rightarrow> baselines" where
  "baselines_load from_json files path =
     Option.bind (files path) (\<lambda>data. case from_json data of Inr db \<Rightarrow> Some db | Inl _ \<Rightarrow> None)"

definition baselines_get :: "string \<Rightarrow> PcrBaseline list \<Rightarrow> PcrBaseline option" where
  "baselines_get node_id db = find (\<lambda>b. bl_vm_identity b = node_id) db"

section \<open>Routes\<close>

definition strip_prefix :: "string \<Rightarrow> string \<Rightarrow> string option" where
  "strip_prefix p s = (if prefix p s then Some (drop (length p) s) else None)"

definition strip_suffix :: "string \<Rightarrow> string \<Rightarrow> string option" where
  "strip_suffix p s = (if suffix p s then Some (take (length s - length p) s) else None)"

text \<open>The JSON printers of the interface.\<close>

record web_env = page_env +
  we_state_json :: "SystemState \<Rightarrow> string res"
  we_nodes_json :: "(string \<rightharpoonup> NodeStatus) \<Rightarrow> string res"
  we_entries_json :: "AuditEntryV2 list \<Rightarrow> string res"
  we_index_json :: "SessionIndex option \<Rightarrow> string res"
  we_session_json :: "CompletedSession \<Rightarrow> string res"

abbreviation pages :: "web_env \<Rightarrow> page_env" where "pages W \<equiv> page_env.truncate W"

text \<open>\<open>serde_json::to_string_pretty(..).unwrap_or(preset)\<close>\<close>

definition json_or :: "string \<Rightarrow> string res \<Rightarrow> string res" where
  "json_or preset r = Inr (case r of Inl _ \<Rightarrow> preset | Inr s \<Rightarrow> s)"

type_synonym response = "string \<times> string \<times> string res"

definition ok_json :: "string res \<Rightarrow> response" where "ok_json body = (''200 OK'', ''application/json'', body)"

definition ok_html :: "string res \<Rightarrow> response" where "ok_html body = (''200 OK'', ''text/html; charset=utf-8'', body)"

definition not_found :: "string \<Rightarrow> response" where "not_found message = (''404 Not Found'', ''text/plain'', Inr message)"

definition event_numbered :: "string \<Rightarrow> SystemState \<Rightarrow> AuditEntryV2 option" where
  "event_numbered seq_str st =
     Option.bind (parse_unsigned 64 seq_str) (\<lambda>seq. find (\<lambda>e. unat (ae2_seq e) = seq) (sy_full_entries st))"

definition api_session :: "mon_env \<Rightarrow> web_env \<Rightarrow> (string \<rightharpoonup> string) \<Rightarrow> string \<Rightarrow> response" where
  "api_session E W files ident =
     (case Option.bind (load_index (me_tracker E) files) (\<lambda>idx.
           Option.bind (find (\<lambda>s. sx_session_id s = ident) (si_sessions idx)) (\<lambda>entry.
             load_session (me_tracker E) (sx_filename entry) files)) of
        Some session \<Rightarrow> ok_json (json_or ''null'' (we_session_json W session))
      | None \<Rightarrow> (''404 Not Found'', ''application/json'', Inr (mk ''{^error^:^session not found^}'')))"

text \<open>The routes of the interface, up to the downloads.\<close>

definition api_route :: "mon_env \<Rightarrow> web_env \<Rightarrow> SystemState \<Rightarrow> (string \<rightharpoonup> string) \<Rightarrow> string \<Rightarrow> response option" where
  "api_route E W st files path =
     (if path = ''/api/state'' then Some (ok_json (json_or [] (we_state_json W st)))
      else if path = ''/api/latest'' then
        Some (ok_json (if sy_full_entries st = [] then Inr ''{}'' else json_or ''{}'' (me_pretty E (last (sy_full_entries st)))))
      else if path = ''/api/nodes'' then Some (ok_json (json_or [] (we_nodes_json W (sy_node_status st))))
      else if path = ''/api/forensics'' then
        Some (ok_json (json_or [] (we_entries_json W (filter (\<lambda>e. ae2_forensic e \<noteq> None) (sy_full_entries st)))))
      else if path = ''/api/forensic-index'' then Some (ok_json (Inr (unwrap_or ''[]'' (files forensic_index))))
      else if path = ''/api/sessions'' then Some (ok_json (json_or ''null'' (we_index_json W (load_index (me_tracker E) files))))
      else map_option (api_session E W files) (strip_prefix ''/api/session/'' path))"

definition event_route :: "mon_env \<Rightarrow> web_env \<Rightarrow> SystemState \<Rightarrow> (string \<rightharpoonup> string) \<Rightarrow> string \<Rightarrow> response option" where
  "event_route E W st files path =
     (case strip_prefix ''/forensics/'' path of
        Some rest \<Rightarrow>
          Some (case strip_suffix ''/download'' rest of
             Some seq_str \<Rightarrow>
               (case event_numbered seq_str st of
                  Some entry \<Rightarrow> ok_json (json_or [] (me_pretty E entry)) | None \<Rightarrow> not_found ''Not found'')
           | None \<Rightarrow>
               (case event_numbered rest st of
                  Some entry \<Rightarrow> ok_html (Inr (render_forensic_detail (pe_styles W) entry))
                | None \<Rightarrow> not_found ''Forensic event not found''))
      | None \<Rightarrow> (if path = ''/forensics'' then Some (ok_html (render_forensics_list E (pe_styles W) files)) else None))"

definition node_route :: "web_env \<Rightarrow> u64 \<Rightarrow> SystemState \<Rightarrow> baselines \<Rightarrow> string \<Rightarrow> response option" where
  "node_route W now st baselines path =
     (case strip_prefix ''/node/'' path of
        Some node_id \<Rightarrow>
          Some (case sy_node_status st node_id of
             Some node \<Rightarrow> ok_html (render_node_detail (pe_styles W) (pe_bar W) now node (Option.bind baselines (baselines_get node_id)))
           | None \<Rightarrow> not_found ''Node not found'')
      | None \<Rightarrow>
          map_option (\<lambda>node_id.
             case sy_node_status st node_id of
               Some node \<Rightarrow> ok_html (Inr (render_diff (pe_styles W) node (Option.bind baselines (baselines_get node_id))))
             | None \<Rightarrow> not_found ''Node not found'')
            (strip_prefix ''/diff/'' path))"

definition route ::
  "mon_env \<Rightarrow> web_env \<Rightarrow> u64 \<Rightarrow> SystemState \<Rightarrow> baselines \<Rightarrow> (string \<rightharpoonup> string) \<Rightarrow> string \<Rightarrow> response" where
  "route E W now st baselines files path =
     unwrap_or
       (if path = ''/sessions'' then ok_html (render_sessions (pe_styles W) (load_index (me_tracker E) files))
        else ok_html (render_dashboard (me_tracker E) (pages W) now files st))
       (first_of (api_route E W st files path)
         (first_of (event_route E W st files path) (node_route W now st baselines path)))"

text \<open>One read of at most 8192 bytes; the path is the second word of the first line.\<close>

definition request_path :: "string \<Rightarrow> string" where
  "request_path request =
     unwrap_or ''/'' (nth_of 1 (split_whitespace (case str_lines request of [] \<Rightarrow> [] | l # _ \<Rightarrow> l)))"

definition crlf :: string where "crlf = [CHR 0x0D, CHR 0x0A]"

definition http_response :: "string \<Rightarrow> string \<Rightarrow> string \<Rightarrow> string" where
  "http_response status content_type body =
     ''HTTP/1.1 '' @ status @ crlf @ ''Content-Type: '' @ content_type @ crlf @ ''Content-Length: '' @ show_nat (length body) @ crlf @
     ''Connection: close'' @ crlf @ crlf @ body"

definition handle_http ::
  "mon_env \<Rightarrow> web_env \<Rightarrow> u64 \<Rightarrow> SystemState \<Rightarrow> baselines \<Rightarrow> (string \<rightharpoonup> string) \<Rightarrow> string res \<Rightarrow> string res" where
  "handle_http E W now st baselines files incoming =
     res_bind incoming (\<lambda>arrived.
       (let buf = take 8192 arrived in
        if buf = [] then Inr []
        else (case route E W now st baselines files (request_path (from_utf8_lossy buf)) of (status, content_type, body) \<Rightarrow>
          res_bind body (\<lambda>body. Inr (http_response status content_type body)))))"

section \<open>What the routes read\<close>

definition served :: "mon_env \<Rightarrow> (string \<rightharpoonup> string) \<Rightarrow> string set" where
  "served E files = {forensic_index, in_dir ''index.json''} \<union>
     (case load_index (me_tracker E) files of None \<Rightarrow> {} | Some idx \<Rightarrow> (\<lambda>s. in_dir (sx_filename s)) ` set (si_sessions idx))"

lemma load_index_cong: "files (in_dir ''index.json'') = files' (in_dir ''index.json'') \<Longrightarrow> load_index T files = load_index T files'"
  by (simp add: load_index_def)

lemma api_session_cong:
  assumes "\<And>p. p \<in> served E files \<Longrightarrow> files p = files' p"
  shows "api_session E W files ident = api_session E W files' ident"
proof -
  have index: "load_index (me_tracker E) files' = load_index (me_tracker E) files"
    using assms [of "in_dir ''index.json''"] by (simp add: load_index_def served_def)
  have "load_session (me_tracker E) (sx_filename s) files' = load_session (me_tracker E) (sx_filename s) files"
    if "load_index (me_tracker E) files = Some idx" "s \<in> set (si_sessions idx)" for idx s
    using assms [of "in_dir (sx_filename s)"] that by (auto simp: load_session_def served_def)
  then have "Option.bind (find (\<lambda>s. sx_session_id s = ident) (si_sessions idx)) (\<lambda>e. load_session (me_tracker E) (sx_filename e) files') =
      Option.bind (find (\<lambda>s. sx_session_id s = ident) (si_sessions idx)) (\<lambda>e. load_session (me_tracker E) (sx_filename e) files)"
    if "load_index (me_tracker E) files = Some idx" for idx
    using that by (intro Option.bind_cong) (auto simp: find_Some_iff)
  then show ?thesis by (cases "load_index (me_tracker E) files") (simp_all add: api_session_def index)
qed

section \<open>The index files\<close>

text \<open>A text the library printed reads back, and nothing that breaks off before its end reads at all.\<close>

definition prints_whole :: "('a \<Rightarrow> string res) \<Rightarrow> (string \<Rightarrow> 'a res) \<Rightarrow> bool" where
  "prints_whole to_text from_text \<longleftrightarrow> \<not> is_inr (from_text []) \<and>
     (\<forall>x t. to_text x = Inr t \<longrightarrow> from_text t = Inr x \<and> (\<forall>n < length t. \<not> is_inr (from_text (take n t))))"

lemma prints_whole_take:
  assumes "prints_whole to_text from_text" and "to_text x = Inr t"
  shows "from_text (take n t) = Inr y \<Longrightarrow> y = x"
proof (cases "n < length t")
  case True
  then have "\<not> is_inr (from_text (take n t))" using assms by (simp add: prints_whole_def)
  then show "from_text (take n t) = Inr y \<Longrightarrow> y = x" by simp
qed (use assms in \<open>simp add: prints_whole_def\<close>)

definition sha_ok :: "crypto_ext \<Rightarrow> bool" where
  "sha_ok X \<longleftrightarrow> (\<forall>bs. length (sha256 X bs) = 32)"

lemma length_hex [simp]: "length (hex_encode bs) = 2 * length bs"
  by (induction bs) (simp_all add: hex_encode_def)

lemma hash_boundary: "sha_ok X \<Longrightarrow> char_boundary (sha256_hex X s) 16" "sha_ok X \<Longrightarrow> char_boundary (index_hash_of X es) 16"
  by (simp_all add: sha256_hex_def index_hash_of_def sha_ok_def plain_boundary)

lemma session_id_boundary: "sha_ok (tr_x T) \<Longrightarrow> char_boundary (cs_session_id (complete_session T a)) 8"
  by (simp add: complete_session_def Let_def sha_ok_def plain_boundary)

text \<open>What the pages need of the disk.\<close>

definition fine :: "mon_env \<Rightarrow> disk \<Rightarrow> bool" where
  "fine E d \<longleftrightarrow> (\<forall>i. load_index (me_tracker E) (dk_files d) = Some i \<longrightarrow> index_shown i) \<and>
     list_all (\<lambda>j. short_ok 16 (stored_hash j)) (stored_events E (dk_files d))"

definition mon_env_ok :: "mon_env \<Rightarrow> bool" where
  "mon_env_ok E \<longleftrightarrow> prints_whole (tr_print_index (me_tracker E)) (tr_parse_index (me_tracker E)) \<and>
     prints_whole (me_print_list E) (me_parse_list E) \<and> sha_ok (tr_x (me_tracker E)) \<and> sha_ok (me_x E)"

abbreviation session_index :: string where "session_index \<equiv> in_dir ''index.json''"

lemma index_paths_differ [simp]: "in_dir f \<noteq> forensic_index" "forensic_index \<noteq> in_dir f"
  by (simp_all add: in_dir_def SESSIONS_DIR_def forensic_index_def)

lemma fine_cong:
  assumes "dk_files d' session_index = dk_files d session_index" and "dk_files d' forensic_index = dk_files d forensic_index"
  shows "fine E d' \<longleftrightarrow> fine E d"
  using assms by (simp add: fine_def load_index_def stored_events_def)

lemma fine_write_other: "p \<noteq> session_index \<Longrightarrow> p \<noteq> forensic_index \<Longrightarrow> fine E (snd (write_file p c d)) \<longleftrightarrow> fine E d"
  by (rule fine_cong) (simp_all add: write_file_other)

lemma fine_append_other: "p \<noteq> session_index \<Longrightarrow> p \<noteq> forensic_index \<Longrightarrow> fine E (append_line p line d) \<longleftrightarrow> fine E d"
  by (rule fine_cong) (auto simp: append_line_def Let_def split: write_outcome.splits)

lemma write_file_cases:
  "dk_files (snd (write_file p c d)) p = dk_files d p \<or> (\<exists>n. dk_files (snd (write_file p c d)) p = Some (take n c))"
  by (auto simp: write_file_def Let_def split: write_outcome.splits intro: exI [of _ "length c"])

lemma fine_write_index:
  assumes "mon_env_ok E" and "fine E d" and print: "tr_print_index (me_tracker E) i = Inr c" and "index_shown i"
  shows "fine E (snd (write_file session_index c d))"
proof -
  let ?d = "snd (write_file session_index c d)"
  have "index_shown x" if x: "load_index (me_tracker E) (dk_files ?d) = Some x" for x
    using write_file_cases [of session_index c d]
  proof
    assume "dk_files ?d session_index = dk_files d session_index"
    then show ?thesis using x assms(2) by (simp add: fine_def load_index_def)
  next
    assume "\<exists>n. dk_files ?d session_index = Some (take n c)"
    then obtain n where "tr_parse_index (me_tracker E) (take n c) = Inr x"
      using x by (auto simp: load_index_def split: sum.splits)
    then have "x = i" using assms(1) print by (auto simp: mon_env_ok_def dest: prints_whole_take)
    then show ?thesis using assms(4) by simp
  qed
  then show ?thesis
    using assms(2) by (simp add: fine_def stored_events_def write_file_other)
qed

lemma fine_write_events:
  assumes "mon_env_ok E" and "fine E d" and "list_all (\<lambda>j. short_ok 16 (stored_hash j)) xs"
  shows "fine E (snd (write_file forensic_index (case me_print_list E xs of Inr text \<Rightarrow> text | Inl _ \<Rightarrow> []) d))"
proof -
  let ?c = "case me_print_list E xs of Inr text \<Rightarrow> text | Inl _ \<Rightarrow> []"
  let ?d = "snd (write_file forensic_index ?c d)"
  have parse: "ys = xs" if "me_parse_list E (take n ?c) = Inr ys" for n ys
  proof (cases "me_print_list E xs")
    case (Inl e)
    then show ?thesis using that assms(1) by (simp add: mon_env_ok_def prints_whole_def)
  next
    case (Inr t)
    then show ?thesis using that assms(1) by (auto simp: mon_env_ok_def dest: prints_whole_take)
  qed
  have "list_all (\<lambda>j. short_ok 16 (stored_hash j)) (stored_events E (dk_files ?d))"
    using write_file_cases [of forensic_index ?c d] assms(2,3) parse
    by (auto simp: fine_def stored_events_def split: option.splits sum.splits)
  then show ?thesis using assms(2) by (simp add: fine_def load_index_def write_file_other)
qed

lemma current_index_shown:
  "fine E d \<Longrightarrow> list_all session_shown (si_sessions (current_index (me_tracker E) (dk_files d)))"
  by (auto simp: fine_def load_index_def current_index_def index_shown_def split: option.splits sum.splits)

lemma fine_write_session:
  assumes "mon_env_ok E" and "fine E d" and "char_boundary (cs_session_id s) 8"
  shows "fine E (snd (write_session (me_tracker E) s d))"
proof (cases "tr_print_session (me_tracker E) s")
  case (Inl e)
  then show ?thesis using assms(2) by (simp add: write_session_def io_bind_def io_res_def)
next
  case (Inr body)
  let ?T = "me_tracker E"
  obtain r d1 where w: "write_file (in_dir (session_filename s)) body d = (r, d1)" by fastforce
  have d1: "fine E d1"
    using fine_write_other [of "in_dir (session_filename s)" E body d] index_name_differs [of s] assms(2) w by simp
  let ?i = "indexed (tr_x ?T) (si_sessions (current_index ?T (dk_files d1)) @ [index_entry (tr_x ?T) s body])"
  have "index_shown ?i"
    using current_index_shown [OF d1] assms(1,3) hash_boundary [of "tr_x ?T"]
    by (simp add: index_shown_def indexed_def session_shown_def index_entry_def mon_env_ok_def)
  then have "fine E (snd (write_file session_index c d1))" if "tr_print_index ?T ?i = Inr c" for c
    using fine_write_index [OF assms(1) d1 that] by simp
  then show ?thesis
    using d1 by (cases r; cases "tr_print_index ?T ?i") (simp_all add: write_session_def io_bind_def io_res_def Inr w)
qed

lemma fine_finish:
  assumes "mon_env_ok E" and "fine E d"
  shows "fine E (snd (snd (finish_open (me_tracker E) source (active, d))))"
proof (cases "active source")
  case (Some old)
  have "sha_ok (tr_x (me_tracker E))" using assms(1) by (simp add: mon_env_ok_def)
  then show ?thesis
    using fine_write_session [OF assms session_id_boundary] Some by (simp add: finish_open_def finalize_session_def Let_def)
qed (use assms(2) in \<open>simp add: finish_open_def\<close>)

lemma fine_track:
  assumes "mon_env_ok E" and "fine E d"
  shows "fine E (snd (track_line (me_tracker E) (now, source, line) (active, d)))"
proof -
  have f: "fine E d2" if "finish_open (me_tracker E) source (a, d1) = (r, a2, d2)" "fine E d1" for a d1 r a2 d2
    using fine_finish [OF assms(1) that(2), of source a] that(1) by simp
  show ?thesis
    using assms(2) by (auto simp: track_line_def process_entry_def Let_def split: prod.splits if_splits dest: f
        intro: fine_finish [OF assms(1)])
qed

lemma fine_forensic:
  assumes "mon_env_ok E" and "fine E d"
  shows "fine E (store_forensic E source entry d)"
proof (cases "me_pretty E entry")
  case (Inl e)
  then show ?thesis using assms(2) by (simp add: store_forensic_def)
next
  case (Inr pretty)
  let ?p = "''/opt/mfa-monitor/forensics/'' @ forensic_file source entry"
  define d1 where "d1 = snd (write_file ?p pretty d)"
  have "?p \<noteq> forensic_index" "?p \<noteq> session_index"
    by (simp_all add: forensic_index_def forensic_file_def in_dir_def SESSIONS_DIR_def)
  then have d1: "fine E d1" using assms(2) by (simp add: d1_def fine_write_other)
  define item where "item = JObj [(''authorized'', JBool (ae2_authorized entry)), (''file_hash'', JStr (sha256_hex (me_x E) pretty)),
                  (''filename'', JStr (forensic_file source entry)), (''heartbeat'', JU64 (ae2_heartbeat entry)),
                  (''seq'', JU64 (ae2_seq entry)), (''source'', JStr source), (''tier'', JStr (tier_debug (ae2_tier entry))),
                  (''timestamp'', JU64 (ae2_timestamp entry))]"
  have "stored_hash item = sha256_hex (me_x E) pretty"
    by (simp add: stored_hash_def item_def json_field_def unwrap_or_def)
  moreover have "list_all (\<lambda>j. short_ok 16 (stored_hash j)) (stored_events E (dk_files d1))" using d1 by (simp add: fine_def)
  ultimately have "list_all (\<lambda>j. short_ok 16 (stored_hash j)) (stored_events E (dk_files d1) @ [item])" by simp
  from fine_write_events [OF assms(1) d1 this] show ?thesis
    by (simp add: store_forensic_def Inr Let_def stored_events_def forensic_index_def d1_def item_def)
qed

section \<open>The state\<close>

text \<open>What the pages need of an entry: hashes and identifiers in ASCII, a character after a reported spike.\<close>

definition meta_plain :: "AttestationMeta \<Rightarrow> bool" where
  "meta_plain m \<longleftrightarrow> plain (am_ima_aggregate_hash m) \<and> meta_shown m"

definition entry_shown :: "AuditEntryV2 \<Rightarrow> bool" where
  "entry_shown e \<longleftrightarrow> plain (ae2_chain_id e) \<and> plain (ae2_prev_hash e) \<and>
     list_all (\<lambda>n. na_ima_valid n \<or> ima_shown (na_raw_details n)) (unwrap_or [] (ae2_nodes e)) \<and>
     list_all meta_plain (unwrap_or [] (ae2_attestation_meta e))"

text \<open>What the agent logs: its identifiers and hashes are hexadecimal, the rest comes from the verified nodes.\<close>

lemma logged_entry_shown:
  assumes "plain (al_prev_hash L)" and "list_all meta_plain (unwrap_or [] (rq_attestation_metas r))"
    and "list_all (\<lambda>nr. let n = node_to_audit_record nr (rq_chain_number r) in na_ima_valid n \<or> ima_shown (na_raw_details n)) (rq_node_results r)"
  shows "entry_shown (entry_for U L r)"
  using assms by (simp add: entry_shown_def entry_for_def Let_def unwrap_or_def list_all_iff)

definition status_shown :: "NodeStatus \<Rightarrow> bool" where
  "status_shown n \<longleftrightarrow> (ns_ima_valid n \<or> ima_shown (ns_raw_details n)) \<and>
     (\<forall>h. ns_ima_aggregate_hash n = Some h \<longrightarrow> plain h) \<and> (\<forall>m. ns_full_meta n = Some m \<longrightarrow> meta_shown m)"

definition nodes_shown :: "(string \<rightharpoonup> NodeStatus) \<Rightarrow> bool" where
  "nodes_shown status \<longleftrightarrow> finite (dom status) \<and> (\<forall>n \<in> ran status. status_shown n)"

definition state_shown :: "SystemState \<Rightarrow> bool" where
  "state_shown st \<longleftrightarrow> nodes_shown (sy_node_status st) \<and> list_all entry_shown (sy_full_entries st) \<and>
     finite (dom (sy_sources st)) \<and> (\<forall>src \<in> ran (sy_sources st). plain (ss_prev_hash src))"

lemma status_shown_new:
  assumes "entry_shown entry" and "n \<in> set (unwrap_or [] (ae2_nodes entry))" and "\<And>x. existing = Some x \<Longrightarrow> status_shown x"
  shows "status_shown (node_status entry existing n)"
proof -
  have raw: "na_ima_valid n \<or> ima_shown (na_raw_details n)" using assms(1,2) by (simp add: entry_shown_def list_all_iff)
  have "meta_plain m" if "Option.bind (ae2_attestation_meta entry) (find (\<lambda>m. am_node_id m = na_node n)) = Some m" for m
    using assms(1) that by (auto simp: entry_shown_def list_all_iff unwrap_or_def Option.bind_eq_Some_conv find_Some_iff)
  with raw assms(3) show ?thesis
    by (auto simp: status_shown_def node_status_def meta_plain_def Let_def Option.bind_eq_Some_conv split: option.splits)
qed

lemma nodes_shown_update:
  assumes "nodes_shown status" and "entry_shown entry"
  shows "nodes_shown (update_nodes entry status)"
proof -
  have "nodes_shown (foldl (\<lambda>status n. status(na_node n \<mapsto> node_status entry (status (na_node n)) n)) status ns)"
    if "set ns \<subseteq> set (unwrap_or [] (ae2_nodes entry))" for ns
    using assms(1) that
  proof (induction ns arbitrary: status)
    case (Cons n ns)
    have "status_shown (node_status entry (status (na_node n)) n)"
      using status_shown_new [OF assms(2), of n "status (na_node n)"] Cons.prems by (auto simp: nodes_shown_def ranI)
    then have "nodes_shown (status(na_node n \<mapsto> node_status entry (status (na_node n)) n))"
      using Cons.prems(1) by (auto simp: nodes_shown_def ran_def split: if_splits)
    then show ?case using Cons.IH Cons.prems(2) by (simp del: fun_upd_apply)
  qed simp
  then show ?thesis by (simp add: update_nodes_def)
qed

lemma sources_finite: "finite (dom (sy_sources st)) \<Longrightarrow> finite (dom (sy_sources (update_source s f st)))"
  by (auto simp: update_source_def split: option.splits)

lemma sources_plain:
  assumes "\<And>src. plain (ss_prev_hash src) \<Longrightarrow> plain (ss_prev_hash (f src))" and "\<forall>src \<in> ran (sy_sources st). plain (ss_prev_hash src)"
  shows "\<forall>src \<in> ran (sy_sources (update_source s f st)). plain (ss_prev_hash src)"
proof (cases "sy_sources st s")
  case (Some src)
  then have "plain (ss_prev_hash (f src))" using assms by (auto intro: ranI)
  then show ?thesis using assms(2) Some by (auto simp: update_source_def ran_def split: if_splits)
qed (use assms(2) in \<open>simp add: update_source_def\<close>)

lemma cross_keeps [simp]: "sy_node_status (cross_verify_sources st) = sy_node_status st"
  by (simp add: cross_verify_sources_def Let_def split: option.splits)

lemma update_source_nodes [simp]: "sy_node_status (update_source s f st) = sy_node_status st"
  by (simp add: update_source_def split: option.splits)

lemma state_shown_cong:
  "sy_node_status st' = sy_node_status st \<Longrightarrow> sy_full_entries st' = sy_full_entries st \<Longrightarrow> sy_sources st' = sy_sources st \<Longrightarrow>
   state_shown st' \<longleftrightarrow> state_shown st"
  by (simp add: state_shown_def)

lemma state_shown_update_source:
  assumes "state_shown st" and "\<And>src. plain (ss_prev_hash src) \<Longrightarrow> plain (ss_prev_hash (f src))"
  shows "state_shown (update_source s f st)"
proof -
  have "\<forall>src \<in> ran (sy_sources st). plain (ss_prev_hash src)" using assms(1) by (simp add: state_shown_def)
  with assms(2) have "\<forall>src \<in> ran (sy_sources (update_source s f st)). plain (ss_prev_hash src)" by (rule sources_plain)
  then show ?thesis using assms(1) by (simp add: state_shown_def sources_finite)
qed

lemma state_shown_notes:
  assumes "state_shown st"
  shows "state_shown (note_break now s e st)" "state_shown (note_tier now s e st)"
proof -
  let ?st = "update_source s (\<lambda>src. src\<lparr>ss_chain_intact := False\<rparr>) (st\<lparr>sy_total_chain_breaks := sy_total_chain_breaks st + 1\<rparr>)"
  have "state_shown (st\<lparr>sy_total_chain_breaks := sy_total_chain_breaks st + 1\<rparr>)"
    using assms by (subst state_shown_cong [of _ st]) simp_all
  then have "state_shown ?st" by (rule state_shown_update_source) simp
  then show "state_shown (note_break now s e st)"
    unfolding note_break_def Let_def by (subst state_shown_cong [of _ ?st]) simp_all
  show "state_shown (note_tier now s e st)"
    using assms unfolding note_tier_def Let_def by (subst state_shown_cong [of _ st]) simp_all
qed

lemma push_capped_all: "list_all P xs \<Longrightarrow> P x \<Longrightarrow> list_all P (push_capped n x xs)"
  by (cases xs) (simp_all add: push_capped_def Let_def)

lemma state_shown_record:
  assumes "state_shown st" and "entry_shown entry"
  shows "state_shown (record_entry E config now source json entry st)"
proof -
  let ?f = "\<lambda>src. src\<lparr>ss_last_seq := ae2_seq entry, ss_last_heartbeat := ae2_heartbeat entry,
            ss_last_timestamp := ae2_timestamp entry, ss_prev_hash := sha256_hex (me_x E) json,
            ss_entries_received := ss_entries_received src + 1\<rparr>"
  let ?r = "record_entry E config now source json entry st"
  have src: "sy_sources ?r = sy_sources (update_source source ?f st)"
    by (simp add: record_entry_def update_source_def Let_def split: option.splits)
  have nodes: "sy_node_status ?r = update_nodes entry (sy_node_status st)"
    by (simp add: record_entry_def Let_def)
  have "state_shown (update_source source ?f st)" by (rule state_shown_update_source [OF assms(1)]) simp
  moreover have "nodes_shown (update_nodes entry (sy_node_status st))"
    using assms by (intro nodes_shown_update) (simp_all add: state_shown_def)
  moreover have "list_all entry_shown (sy_full_entries ?r)"
    using assms by (simp add: state_shown_def push_capped_all)
  ultimately show ?thesis by (simp add: state_shown_def src nodes)
qed

lemma state_shown_connect:
  assumes "state_shown st"
  shows "state_shown (source_connected s st)" "state_shown (source_gone s st)"
proof -
  show "state_shown (source_connected s st)"
    using assms by (auto simp: state_shown_def source_connected_def source_new_def plain_def ran_def split: if_splits)
  show "state_shown (source_gone s st)"
    unfolding source_gone_def using assms by (rule state_shown_update_source) simp
qed

definition monitor_shown :: "mon_env \<Rightarrow> monitor \<Rightarrow> bool" where
  "monitor_shown E m \<longleftrightarrow> state_shown (mo_state m) \<and> fine E (mo_disk m)"

text \<open>The verified log is neither of the two index files.\<close>

definition log_apart :: "MonitorConfig \<Rightarrow> bool" where
  "log_apart config \<longleftrightarrow> mc_verified_log_path config \<noteq> session_index \<and> mc_verified_log_path config \<noteq> forensic_index"

lemma monitor_shown_entry:
  assumes "mon_env_ok E" and "log_apart config" and "monitor_shown E m" and "entry_shown entry"
  shows "monitor_shown E (take_entry E config clock source json entry m)"
proof -
  have st: "state_shown (mo_state (take_entry E config clock source json entry m))"
    using assms(3,4) by (auto simp: mo_state_take_entry Let_def monitor_shown_def intro!: state_shown_record state_shown_notes)
  let ?d1 = "if ae2_forensic entry \<noteq> None then store_forensic E source entry (mo_disk m) else mo_disk m"
  let ?d3 = "append_line (mc_verified_log_path config) json (append_line (source @ ''-stream.jsonl'') json ?d1)"
  have stream: "source @ ''-stream.jsonl'' \<noteq> session_index" "source @ ''-stream.jsonl'' \<noteq> forensic_index"
    by (auto simp: in_dir_def SESSIONS_DIR_def forensic_index_def dest!: arg_cong [of _ _ last])
  have "fine E ?d1" using assms(1,3) fine_forensic by (auto simp: monitor_shown_def)
  then have "fine E ?d3" using assms(2) stream by (simp add: log_apart_def fine_append_other)
  moreover have "mo_disk (take_entry E config clock source json entry m) =
      snd (track_line (me_tracker E) (clock 3, source, json) (mo_tracker m, ?d3))"
    by (simp add: take_entry_def Let_def split: prod.splits)
  ultimately have "fine E (mo_disk (take_entry E config clock source json entry m))"
    using fine_track [OF assms(1)] by metis
  with st show ?thesis by (simp add: monitor_shown_def)
qed

lemma monitor_shown_run:
  assumes "mon_env_ok E" and "log_apart config" and "monitor_shown E m" and "list_all (\<lambda>(s, e). entry_shown e) (entries E evs)"
  shows "monitor_shown E (mon_run E config evs m)"
  using assms(4)
proof (induction evs rule: rev_induct)
  case (snoc ev evs)
  then have IH: "monitor_shown E (mon_run E config evs m)" by (simp add: entries_snoc)
  show ?case
  proof (cases ev)
    case (MeEntry source json clock)
    then show ?thesis
      using IH snoc.prems monitor_shown_entry [OF assms(1,2) IH]
      by (auto simp: mon_step_def take_json_def entries_snoc split: sum.splits)
  qed (use IH state_shown_connect in \<open>auto simp: mon_step_def on_state_def monitor_shown_def\<close>)
qed (use assms(3) in simp)

section \<open>The pages over the state\<close>

lemma merge_metas_set: "set (merge_metas xs ys) \<subseteq> set xs \<union> set ys"
proof (induction ys arbitrary: xs)
  case (Cons y ys)
  then show ?case
    using Cons [of "xs @ [y]"] Cons [of xs] by (auto simp: merge_metas_def)
qed (simp add: merge_metas_def)

lemma newest_of_shown: "list_all entry_shown (sy_full_entries st) \<Longrightarrow> newest_of v st = Some e \<Longrightarrow> entry_shown e"
  by (auto simp: newest_of_def find_Some_iff list_all_iff) (metis diff_less length_rev nth_mem set_rev)

lemma metas_of_shown:
  "list_all entry_shown (sy_full_entries st) \<Longrightarrow> m \<in> set (metas_of (newest_of v st)) \<Longrightarrow> meta_plain m"
  using newest_of_shown [of st v]
  by (cases "newest_of v st") (auto simp: metas_of_def unwrap_or_def entry_shown_def list_all_iff split: option.splits)

lemma circuit_proof_shown:
  assumes "list_all entry_shown (sy_full_entries st)"
  shows "is_inr (render_circuit_proof st)"
proof -
  let ?m = "merge_metas (metas_of (newest_of ''vm2'' st)) (metas_of (newest_of ''vm3'' st))"
  have "meta_plain m" if "m \<in> set ?m" for m
    using that merge_metas_set metas_of_shown [OF assms] by blast
  then have "metas_shown ?m v" for v
    by (auto simp: metas_shown_def meta_plain_def find_Some_iff split: option.split)
  then have "list_all (metas_shown ?m) vs" for vs by (simp add: list_all_iff)
  moreover have "plain (ae2_chain_id e)" if "first_of (newest_of ''vm3'' st) (newest_of ''vm2'' st) = Some e" for e
    using that newest_of_shown [OF assms] by (auto simp: first_of_def entry_shown_def split: option.splits)
  ultimately show ?thesis by (simp add: circuit_proof_inr split: option.split)
qed

lemma last_six_shown: "list_all entry_shown (sy_full_entries st) \<Longrightarrow> list_all (\<lambda>e. short_ok 12 (ae2_prev_hash e)) (last_six v st)"
  by (auto simp: last_six_def list_all_iff entry_shown_def dest!: in_set_takeD)

lemma overview_returns:
  assumes "walks P" and "state_shown st"
  shows "is_inr (render_dashboard T P now files st)"
proof -
  have fin: "finite (dom (sy_node_status st))" "finite (dom (sy_sources st))" "list_all entry_shown (sy_full_entries st)"
    using assms(2) by (simp_all add: state_shown_def nodes_shown_def)
  have "node_shown n" if "n \<in> ran (sy_node_status st)" for n
    using assms(2) that by (auto simp: state_shown_def nodes_shown_def status_shown_def node_shown_def split: option.split)
  then have "list_all node_shown (node_list P st)" by (simp add: list_all_iff node_list_set [OF assms(1) fin(1)])
  moreover have "short_ok 16 (ss_prev_hash (snd x))" if "x \<in> set (source_list P st)" for x
  proof -
    have "snd x \<in> ran (sy_sources st)" using that source_list_set [OF assms(1) fin(2)] by blast
    then show ?thesis using assms(2) by (simp add: state_shown_def)
  qed
  ultimately show ?thesis
    using circuit_proof_shown [OF fin(3)] last_six_shown [OF fin(3)]
    by (auto simp: render_dashboard_inr fill_overview_inr chain_detail_inr list_all_iff)
qed

lemma response_body [simp]:
  "snd (snd (ok_json b)) = b" "snd (snd (ok_html b)) = b" "snd (snd (not_found msg)) = Inr msg" "is_inr (json_or preset r)"
  by (simp_all add: ok_json_def ok_html_def not_found_def json_or_def)

lemma route_returns:
  assumes "walks (pages W)" and "state_shown st" and "fine E d"
  shows "is_inr (snd (snd (route E W now st baselines (dk_files d) path)))"
proof -
  have "is_inr (snd (snd r))" if "api_route E W st (dk_files d) path = Some r" for r
    using that by (auto simp: api_route_def api_session_def split: if_splits option.splits)
  moreover have "is_inr (snd (snd r))" if "event_route E W st (dk_files d) path = Some r" for r
    using that assms(3) by (auto simp: event_route_def fine_def forensics_list_inr split: if_splits option.splits)
  moreover have "is_inr (snd (snd r))" if "node_route W now st baselines path = Some r" for r
    using that assms(2) by (auto simp: node_route_def state_shown_def nodes_shown_def status_shown_def node_detail_inr
        split: option.splits intro!: ranI)
  moreover have "is_inr (render_sessions styles (load_index (me_tracker E) (dk_files d)))" for styles
    using assms(3) by (auto simp: render_sessions_inr fine_def split: option.splits)
  moreover have "is_inr (render_dashboard (me_tracker E) (pages W) now (dk_files d) st)" using overview_returns assms by blast
  ultimately show ?thesis
    by (cases "api_route E W st (dk_files d) path"; cases "event_route E W st (dk_files d) path"; cases "node_route W now st baselines path")
       (simp_all add: route_def unwrap_or_def first_of_def)
qed

section \<open>The newest record of a node\<close>

definition records :: "mon_env \<Rightarrow> mon_event list \<Rightarrow> NodeAuditRecord list" where
  "records E evs = concat (map (\<lambda>(s, e). unwrap_or [] (ae2_nodes e)) (entries E evs))"

definition newest_record :: "mon_env \<Rightarrow> mon_event list \<Rightarrow> string \<Rightarrow> NodeAuditRecord option" where
  "newest_record E evs v = find (\<lambda>n. na_node n = v) (rev (records E evs))"

text \<open>A status that was made from a record.\<close>

definition made_from :: "NodeAuditRecord option \<Rightarrow> NodeStatus option \<Rightarrow> bool" where
  "made_from r s \<longleftrightarrow> (case r of None \<Rightarrow> s = None | Some n \<Rightarrow> \<exists>e x. s = Some (node_status e x n))"

lemma records_snoc: "records E (evs @ [ev]) = records E evs @ (case event_entry E ev of None \<Rightarrow> [] | Some (s, e) \<Rightarrow> unwrap_or [] (ae2_nodes e))"
  by (simp add: records_def entries_snoc split: option.split prod.split)

lemma made_from_update:
  assumes "made_from r (status v)"
  shows "made_from (first_of (find (\<lambda>n. na_node n = v) (rev (unwrap_or [] (ae2_nodes entry)))) r) (update_nodes entry status v)"
proof -
  have "made_from (first_of (find (\<lambda>n. na_node n = v) (rev ns)) r)
      (foldl (\<lambda>status n. status(na_node n \<mapsto> node_status entry (status (na_node n)) n)) status ns v)" for ns
  proof (induction ns rule: rev_induct)
    case (snoc n ns)
    then show ?case by (auto simp: made_from_def first_of_def)
  qed (simp add: assms first_of_def)
  then show ?thesis by (simp add: update_nodes_def)
qed

lemma node_status_take_entry:
  "sy_node_status (mo_state (take_entry E config clock source json entry m)) = update_nodes entry (sy_node_status (mo_state m))"
  by (simp add: mo_state_take_entry Let_def record_entry_def note_break_def note_tier_def)

lemma find_append: "find P (xs @ ys) = first_of (find P xs) (find P ys)"
  by (induction xs) (auto simp: first_of_def)

lemma node_status_newest:
  assumes "sy_node_status (mo_state m) = Map.empty"
  shows "made_from (newest_record E evs v) (sy_node_status (mo_state (mon_run E config evs m)) v)"
proof (induction evs rule: rev_induct)
  case Nil
  then show ?case by (simp add: newest_record_def records_def entries_def List.map_filter_simps made_from_def assms)
next
  case (snoc ev evs)
  show ?case
  proof (cases "event_entry E ev")
    case None
    then have "sy_node_status (mo_state (mon_run E config (evs @ [ev]) m)) = sy_node_status (mo_state (mon_run E config evs m))"
      by (cases ev) (auto simp: mon_step_def take_json_def on_state_def source_connected_def source_gone_def split: sum.splits)
    then show ?thesis using snoc None by (simp add: newest_record_def records_snoc)
  next
    case (Some x)
    then obtain s json clock entry where ev: "ev = MeEntry s json clock" "me_entry E json = Inr entry" "x = (s, entry)"
      by (cases ev) (auto split: sum.splits)
    then show ?thesis
      using made_from_update [of "newest_record E evs v" "sy_node_status (mo_state (mon_run E config evs m))" v entry] snoc Some
      by (simp add: newest_record_def records_snoc find_append mon_step_def take_json_def node_status_take_entry)
  qed
qed

lemma newest_known:
  assumes "sy_node_status (mo_state m) = Map.empty"
  shows "finite (dom (sy_node_status (mo_state (mon_run E config evs m))))"
proof -
  have "dom (sy_node_status (mo_state (mon_run E config evs m))) \<subseteq> na_node ` set (records E evs)"
  proof
    fix v
    assume "v \<in> dom (sy_node_status (mo_state (mon_run E config evs m)))"
    then have "newest_record E evs v \<noteq> None"
      using node_status_newest [OF assms, of E evs v config] by (auto simp: made_from_def split: option.splits)
    then show "v \<in> na_node ` set (records E evs)" by (auto simp: newest_record_def find_None_iff)
  qed
  then show ?thesis by (rule finite_subset) simp
qed

lemma status_ok_record: "status_ok (node_status e x n) \<longleftrightarrow> fully_ok n"
  by (simp add: status_ok_def fully_ok_def node_status_def Let_def)

lemma newest_status:
  assumes "sy_node_status (mo_state m) = Map.empty" and "st = mo_state (mon_run E config evs m)"
  shows "(\<exists>n. sy_node_status st v = Some n) \<longleftrightarrow> (\<exists>r. newest_record E evs v = Some r)"
    "(\<exists>n. sy_node_status st v = Some n \<and> status_ok n) \<longleftrightarrow> (\<exists>r. newest_record E evs v = Some r \<and> fully_ok r)"
    "(\<forall>n. sy_node_status st v = Some n \<longrightarrow> status_ok n) \<longleftrightarrow> (\<forall>r. newest_record E evs v = Some r \<longrightarrow> fully_ok r)"
  using node_status_newest [OF assms(1), of E evs v config] status_ok_record
  by (auto simp: made_from_def assms(2) split: option.splits)

lemma overview_request: "request_path (from_utf8_lossy ''GET / HTTP/1.1'') = ''/''"
  by code_simp

lemma overview_route: "route E W now st baselines files ''/'' = ok_html (render_dashboard (me_tracker E) (pages W) now files st)"
  by (simp add: route_def api_route_def event_route_def node_route_def strip_prefix_def first_of_def unwrap_or_def)

lemma ran_Ball: "(\<forall>x \<in> ran m. P x) \<longleftrightarrow> (\<forall>v x. m v = Some x \<longrightarrow> P x)" "ran m \<noteq> {} \<longleftrightarrow> (\<exists>v x. m v = Some x)"
  by (auto simp: ran_def)

section \<open>Concrete inputs\<close>

text \<open>A record of a passing node, and one whose spike report ends with its colon.\<close>

definition spike_record :: NodeAuditRecord where
  "spike_record = ok_record\<lparr>na_pass := False, na_ima_valid := False, na_raw_details := ''FAIL IMA SPIKE:''\<rparr>"

definition web_mon :: mon_env where
  "web_mon = demo_mon
     \<lparr>me_entry := (\<lambda>j. if j = ''{1}'' then Inr (demo_entry1\<lparr>ae2_nodes := Some [ok_record]\<rparr>)
          else if j = ''{2}'' then Inr (demo_entry1\<lparr>ae2_nodes := Some [spike_record]\<rparr>) else Inl (Err ''syntax'')),
      me_parse_list := (\<lambda>t. if t = ''[]'' then Inr [] else Inl (Err ''syntax'')),
      me_print_list := (\<lambda>x. if x = [] then Inr ''[]'' else Inl (Err ''unsupported'')), me_tracker := store_tracker\<rparr>"

definition demo_web :: web_env where
  "demo_web = \<lparr>pe_styles = [], pe_layout = ov_banner, pe_bar = (\<lambda>_ _. 0), pe_keys = sorted_list_of_set,
     we_state_json = (\<lambda>_. Inr ''state''), we_nodes_json = (\<lambda>_. Inr ''nodes''), we_entries_json = (\<lambda>_. Inr ''entries''),
     we_index_json = (\<lambda>_. Inr ''index''), we_session_json = (\<lambda>_. Inr ''session'')\<rparr>"

lemma demo_walks: "walks (pages demo_web)"
  by (simp add: walks_def demo_web_def page_env.truncate_def)

lemma web_mon_ok: "mon_env_ok web_mon"
proof -
  have "take n ''index'' = ''index'' \<longleftrightarrow> 5 \<le> n" "take n ''[]'' = ''[]'' \<longleftrightarrow> 2 \<le> n" for n
    by (simp_all only: take_all_iff) auto
  then show ?thesis
    by (simp add: mon_env_ok_def prints_whole_def sha_ok_def web_mon_def store_tracker_def demo_mon_def demo_fwd_def del: take_Suc_Cons)
qed

lemma demo_fine: "fine web_mon (mo_disk demo_monitor)"
  by (simp add: fine_def load_index_def stored_events_def demo_monitor_def)

lemma demo_apart: "log_apart demo_mon_config"
  by (simp add: log_apart_def demo_mon_config_def in_dir_def SESSIONS_DIR_def forensic_index_def)

abbreviation one_entry :: "string \<Rightarrow> mon_event list" where
  "one_entry json \<equiv> [MeConnected ''vm2'', MeEntry ''vm2'' json (\<lambda>_. 1000)]"

lemma demo_shown: "list_all (\<lambda>(s, e). entry_shown e) (entries web_mon (one_entry ''{1}''))"
  using logged_entry_shown [of "demo_logger 1 (sha256_hex demo_ext GENESIS_HASH)" demo_request demo_audit0]
  by (simp add: entries_def List.map_filter_simps web_mon_def entry_shown_def demo_entry1_def demo_request_def demo_logger_def
      ok_record_def unwrap_or_def)

lemma demo_records: "records web_mon (one_entry ''{1}'') = [ok_record]" "records web_mon (one_entry ''{2}'') = [spike_record]"
  by (simp_all add: records_def entries_def List.map_filter_simps web_mon_def unwrap_or_def)

section \<open>Properties\<close>

text \<open>
  C20.  The web server reads only what the monitor has stored: whatever path a request names, the answer depends on
  the disk through the two index files and the session files that the session index names, and through no other file.
\<close>

theorem served_files:
  assumes "\<And>p. p \<in> served E files \<Longrightarrow> files p = files' p"
  shows "route E W now st baselines files path = route E W now st baselines files' path"
proof -
  have i: "load_index (me_tracker E) files = load_index (me_tracker E) files'"
    using assms [of "in_dir ''index.json''"] by (intro load_index_cong) (simp add: served_def)
  have f: "files forensic_index = files' forensic_index" using assms by (simp add: served_def)
  have "api_session E W files = api_session E W files'" using api_session_cong [OF assms] by (rule ext)
  with i f have "api_route E W st files path = api_route E W st files' path" by (simp add: api_route_def)
  moreover have "event_route E W st files path = event_route E W st files' path"
    by (simp add: event_route_def render_forensics_list_def stored_events_def f split: option.split)
  ultimately show ?thesis by (simp add: route_def render_dashboard_def i)
qed

theorem served_files_witness:
  "route demo_mon demo_web 0 (system_new 0) None (Map.empty(''/etc/shadow'' \<mapsto> ''secret'')) ''/api/session/../../../../etc/shadow'' =
   route demo_mon demo_web 0 (system_new 0) None Map.empty ''/api/session/../../../../etc/shadow''"
  by (rule served_files) (auto simp: served_def forensic_index_def in_dir_def SESSIONS_DIR_def load_index_def)

text \<open>
  C18.  The dashboard always answers: after any messages of any sources, with any write failures, when no entry carries
  a hash that is not ASCII, a program line that cannot be cut or a spike report without text, every request that
  arrives, in any form, gets one response with the length of its body.
\<close>

theorem dashboard_answers:
  assumes "mon_env_ok E" and "walks (pages W)" and "log_apart config" and "fine E d"
    and "list_all (\<lambda>(s, e). entry_shown e) (entries E evs)"
    and "m = mon_run E config evs \<lparr>mo_state = system_new t, mo_tracker = Map.empty, mo_disk = d\<rparr>" and "request \<noteq> []"
  shows "\<exists>status content_type body. handle_http E W now (mo_state m) baselines (dk_files (mo_disk m)) (Inr request) =
     Inr (http_response status content_type body)"
proof -
  let ?m0 = "\<lparr>mo_state = system_new t, mo_tracker = Map.empty, mo_disk = d\<rparr>"
  have "monitor_shown E ?m0"
    using assms(4) by (simp add: monitor_shown_def state_shown_def nodes_shown_def system_new_def)
  then have "monitor_shown E m" using monitor_shown_run [OF assms(1,3) _ assms(5)] assms(6) by blast
  then have "is_inr (snd (snd (route E W now (mo_state m) baselines (dk_files (mo_disk m)) path)))" for path
    using route_returns [OF assms(2)] by (simp add: monitor_shown_def)
  then have "\<exists>body. route E W now (mo_state m) baselines (dk_files (mo_disk m)) path = (status, ct, Inr body)"
    if "route E W now (mo_state m) baselines (dk_files (mo_disk m)) path = (status, ct, b)" for path status ct b
    using that by (metis is_inr_def old.sum.simps(5) snd_conv sum.exhaust_sel)
  then show ?thesis
    using assms(7) by (auto simp: handle_http_def Let_def split: prod.split) fastforce
qed

theorem dashboard_answers_witness:
  "\<exists>status content_type body. handle_http web_mon demo_web 2000
       (mo_state (mon_run web_mon demo_mon_config (one_entry ''{1}'') \<lparr>mo_state = system_new 0, mo_tracker = Map.empty, mo_disk = mo_disk demo_monitor\<rparr>))
       None
       (dk_files (mo_disk (mon_run web_mon demo_mon_config (one_entry ''{1}'') \<lparr>mo_state = system_new 0, mo_tracker = Map.empty, mo_disk = mo_disk demo_monitor\<rparr>)))
       (Inr ''GET /node/vm1 HTTP/1.1'') = Inr (http_response status content_type body)"
proof (rule dashboard_answers [OF web_mon_ok demo_walks demo_apart demo_fine _ refl])
  show "list_all (\<lambda>(s, e). entry_shown e) (entries web_mon (one_entry ''{1}''))"
    by (rule demo_shown)
qed simp

text \<open>
  C19.  The banner follows the newest records: after any messages of any sources the overview, when it returns, announces
  nominal systems exactly when a node has been reported and the newest record of every node passes all checks that also
  decide the forensic tier, and it lists no anomalies exactly when these records pass.
\<close>

theorem banner_follows_records:
  assumes "walks P" and "sy_node_status (mo_state m) = Map.empty"
    and "fill_overview P now k (mo_state (mon_run E config evs m)) = Inr ov"
  shows "(prefix ''ALL SYSTEMS NOMINAL'' (ov_banner ov) \<longleftrightarrow>
        (\<exists>v. newest_record E evs v \<noteq> None) \<and> (\<forall>v r. newest_record E evs v = Some r \<longrightarrow> fully_ok r)) \<and>
     (ov_anomaly_panel ov = [] \<longleftrightarrow> (\<forall>v r. newest_record E evs v = Some r \<longrightarrow> fully_ok r)) \<and>
     ov_total ov = card {v. newest_record E evs v \<noteq> None} \<and>
     ov_passing ov = card {v. \<exists>r. newest_record E evs v = Some r \<and> fully_ok r}"
proof -
  let ?st = "mo_state (mon_run E config evs m)"
  note truth = overview_tells_truth [OF assms(1) newest_known [OF assms(2)] assms(3)]
  show ?thesis
    using truth unfolding ran_Ball by (simp add: newest_status [OF assms(2) refl] dom_def)
qed

theorem banner_follows_records_witness:
  "\<exists>ov. fill_overview (pages demo_web) 2000 0 (mo_state (mon_run web_mon demo_mon_config (one_entry ''{1}'') demo_monitor)) = Inr ov \<and>
     prefix ''ALL SYSTEMS NOMINAL'' (ov_banner ov) \<and> ov_total ov = 1"
proof -
  let ?st = "mo_state (mon_run web_mon demo_mon_config (one_entry ''{1}'') demo_monitor)"
  have empty: "sy_node_status (mo_state demo_monitor) = Map.empty" by (simp add: demo_monitor_def system_new_def)
  have "list_all (\<lambda>(s, e). entry_shown e) (entries web_mon (one_entry ''{1}''))"
    by (rule demo_shown)
  moreover have "monitor_shown web_mon demo_monitor"
    using demo_fine by (simp add: monitor_shown_def state_shown_def nodes_shown_def demo_monitor_def system_new_def)
  ultimately have "state_shown ?st"
    using monitor_shown_run [OF web_mon_ok demo_apart] unfolding monitor_shown_def by blast
  then have "is_inr (render_dashboard undefined (pages demo_web) 2000 Map.empty ?st)" by (rule overview_returns [OF demo_walks])
  then obtain ov where ov: "fill_overview (pages demo_web) 2000 0 ?st = Inr ov"
    unfolding render_dashboard_inr by (cases "fill_overview (pages demo_web) 2000 0 ?st") auto
  have newest: "newest_record web_mon (one_entry ''{1}'') v = (if v = ''vm1'' then Some ok_record else None)" for v
    by (simp add: newest_record_def demo_records ok_record_def)
  from banner_follows_records [OF demo_walks empty ov] show ?thesis
    using ov fully_ok_record by (simp add: newest)
qed

text \<open>
  C21.  One record hides the overview: while the newest record of a node failed its IMA check and carries a spike report
  without a character after it that can start a column, the request for the overview panics, whatever the other
  nodes report.
\<close>

theorem record_hides_overview:
  assumes "walks (pages W)" and "sy_node_status (mo_state m) = Map.empty"
    and "newest_record E evs v = Some r" and "\<not> na_ima_valid r" and "\<not> ima_shown (na_raw_details r)"
  shows "\<exists>e. handle_http E W now (mo_state (mon_run E config evs m)) baselines files (Inr ''GET / HTTP/1.1'') = Inl e"
proof -
  let ?st = "mo_state (mon_run E config evs m)"
  obtain e x where s: "sy_node_status ?st v = Some (node_status e x r)"
    using node_status_newest [OF assms(2), of E evs v config] assms(3) by (auto simp: made_from_def)
  have "\<not> node_shown (node_status e x r)"
    using assms(4,5) by (simp add: node_shown_def node_status_def Let_def)
  then have "\<not> is_inr (fill_overview (pages W) now k ?st)" for k
    using s by (auto simp: fill_overview_inr list_all_iff node_list_set [OF assms(1) newest_known [OF assms(2)]] intro: ranI)
  then have "\<not> is_inr (render_dashboard (me_tracker E) (pages W) now files ?st)" by (simp add: render_dashboard_inr)
  then obtain err where "render_dashboard (me_tracker E) (pages W) now files ?st = Inl err"
    by (auto simp: is_inr_def split: sum.splits)
  then show ?thesis by (simp add: handle_http_def overview_request overview_route ok_html_def del: from_utf8_lossy.simps)
qed

theorem record_hides_overview_witness:
  "\<exists>e. handle_http web_mon demo_web 2000 (mo_state (mon_run web_mon demo_mon_config (one_entry ''{2}'') demo_monitor)) None
     (dk_files (mo_disk demo_monitor)) (Inr ''GET / HTTP/1.1'') = Inl e"
proof (rule record_hides_overview [OF demo_walks])
  show "sy_node_status (mo_state demo_monitor) = Map.empty" by (simp add: demo_monitor_def system_new_def)
  show "newest_record web_mon (one_entry ''{2}'') ''vm1'' = Some spike_record"
    by (simp add: newest_record_def demo_records spike_record_def ok_record_def)
  show "\<not> na_ima_valid spike_record" "\<not> ima_shown (na_raw_details spike_record)"
    by (simp_all add: spike_record_def ima_shown_def char_boundary_def)
qed

end
