(* ===== verification/Forensics.thy ===== *)
theory Forensics
  imports Processes
begin

text \<open>
  The forensic snapshot of a node (\<open>mfa-agent/src/ebpf/mod.rs\<close>): the process tree with maps, descriptors and environment of
  every user process, the sockets, and the ends of two logs.  The conversion of a floating point number to an integer is an
  argument.  Lemmas: what the snapshot reads of a line the kernel prints, and when it panics.
\<close>

section \<open>Processes\<close>

text \<open>\<open>&s[n..]\<close>, which panics past the end and inside a character.\<close>

definition slice_from :: "string \<Rightarrow> nat \<Rightarrow> string res" where
  "slice_from s n =
     (if n \<le> length s \<and> (n = length s \<or> \<not> byte_in 0x80 0xBF (s ! n)) then Inr (drop n s) else Inl (Panic ''byte index out of bounds''))"

definition start_time_of :: "string \<Rightarrow> string option res" where
  "start_time_of stat =
     (case str_find '')'' stat of
        None \<Rightarrow> Inr None
      | Some i \<Rightarrow> res_bind (slice_from stat (i + 2)) (\<lambda>after_comm. Inr (nth_of 19 (split_whitespace after_comm))))"

definition process_detail :: "machine \<Rightarrow> u32 \<Rightarrow> ProcessDetail res" where
  "process_detail M pid =
     (let proc_dir = pid_path pid;
          read = (\<lambda>name. read_to_string M (proc_dir @ name))
      in res_bind (case read ''/stat'' of None \<Rightarrow> Inr None | Some stat \<Rightarrow> start_time_of stat) (\<lambda>start.
        Inr \<lparr>pd_pid = pid,
          pd_ppid = unwrap_or 0 (Option.bind (read ''/status'') (status_field ''PPid:'')),
          pd_comm = str_trim (unwrap_or [] (read ''/comm'')),
          pd_exe_path = unwrap_or ''[kernel]'' (read_link M (proc_dir @ ''/exe'')),
          pd_cmdline = str_trim (map (\<lambda>c. if c = CHR 0x00 then CHR '' '' else c) (unwrap_or [] (read ''/cmdline''))),
          pd_uid = unwrap_or 0 (Option.bind (read ''/status'') (status_field ''Uid:'')),
          pd_start_time = unwrap_or ''0'' start\<rparr>))"

definition numbered :: "machine \<Rightarrow> u32 list" where
  "numbered M =
     (case read_dir M ''/proc'' of
        None \<Rightarrow> []
      | Some entries \<Rightarrow> List.map_filter (\<lambda>e. map_option word_of_nat (parse_unsigned 32 (lossy_name e))) entries)"

definition collect_process_tree :: "machine \<Rightarrow> ProcessDetail list res" where
  "collect_process_tree M = res_bind (res_map (process_detail M) (numbered M)) (\<lambda>ps. Inr (sort_key pd_pid ps))"

definition collect_process_maps :: "machine \<Rightarrow> u32 \<Rightarrow> string list" where
  "collect_process_maps M pid = str_lines (unwrap_or [] (read_to_string M (pid_path pid @ ''/maps'')))"

definition collect_process_fds :: "machine \<Rightarrow> u32 \<Rightarrow> string list" where
  "collect_process_fds M pid =
     (case read_dir M (pid_path pid @ ''/fd'') of
        None \<Rightarrow> []
      | Some entries \<Rightarrow> sort (map (\<lambda>e. ''fd '' @ lossy_name e @ '' -> '' @
            unwrap_or ''???'' (read_link M (pid_path pid @ ''/fd/'' @ de_name e))) entries))"

definition collect_process_environ :: "machine \<Rightarrow> u32 \<Rightarrow> string list" where
  "collect_process_environ M pid =
     filter (\<lambda>s. s \<noteq> []) (str_split (CHR 0x00) (unwrap_or [] (read_to_string M (pid_path pid @ ''/environ''))))"

section \<open>Network and logs\<close>

definition trimmed_lines :: "machine \<Rightarrow> string \<Rightarrow> string list" where
  "trimmed_lines M path =
     (case read_to_string M path of None \<Rightarrow> [] | Some content \<Rightarrow> filter (\<lambda>l. l \<noteq> []) (map str_trim (str_lines content)))"

definition collect_full_connections :: "machine \<Rightarrow> string list" where
  "collect_full_connections M = trimmed_lines M ''/proc/net/tcp''"

definition collect_arp_table :: "machine \<Rightarrow> string list" where
  "collect_arp_table M = trimmed_lines M ''/proc/net/arp''"

definition last_lines :: "machine \<Rightarrow> string \<Rightarrow> nat \<Rightarrow> string list" where
  "last_lines M path n =
     (case read_to_string M path of
        None \<Rightarrow> []
      | Some content \<Rightarrow>
          (let all_lines = str_lines content; start = (if n < length all_lines then length all_lines - n else 0) in drop start all_lines))"

definition collect_dmesg_tail :: "machine \<Rightarrow> nat \<Rightarrow> string list" where
  "collect_dmesg_tail M n = last_lines M ''/var/log/dmesg'' n"

definition collect_ima_tail :: "machine \<Rightarrow> nat \<Rightarrow> string list" where
  "collect_ima_tail M n = last_lines M ''/sys/kernel/security/ima/ascii_runtime_measurements'' n"

definition collect_uptime :: "(string \<Rightarrow> u64 option) \<Rightarrow> machine \<Rightarrow> u64" where
  "collect_uptime f64_as_u64 M =
     unwrap_or 0 (Option.bind (read_to_string M ''/proc/uptime'') (\<lambda>s. Option.bind (nth_of 0 (split_whitespace s)) f64_as_u64))"

definition collect_load_average :: "machine \<Rightarrow> string" where
  "collect_load_average M = str_trim (unwrap_or ''unknown'' (read_to_string M ''/proc/loadavg''))"

section \<open>The snapshot\<close>

definition volatile_evidence :: "machine \<Rightarrow> ProcessDetail \<Rightarrow> ProcessVolatileEvidence" where
  "volatile_evidence M p =
     \<lparr>pv_pid = pd_pid p, pv_comm = pd_comm p, pv_memory_maps = collect_process_maps M (pd_pid p),
      pv_open_fds = collect_process_fds M (pd_pid p), pv_environment = collect_process_environ M (pd_pid p)\<rparr>"

definition collect_forensic_snapshot :: "(string \<Rightarrow> u64 option) \<Rightarrow> machine \<Rightarrow> NodeForensicData res" where
  "collect_forensic_snapshot f64_as_u64 M =
     res_bind (collect_process_tree M) (\<lambda>process_tree.
       Inr \<lparr>nf_timestamp = mc_now M, nf_process_tree = process_tree,
         nf_process_volatile = map (volatile_evidence M) (filter (\<lambda>p. pd_exe_path p \<noteq> ''[kernel]'' \<and> pd_ppid p \<noteq> 0) process_tree),
         nf_tcp_connections = collect_full_connections M, nf_arp_table = collect_arp_table M,
         nf_dmesg_tail = collect_dmesg_tail M 50, nf_ima_tail = collect_ima_tail M 20,
         nf_uptime_seconds = collect_uptime f64_as_u64 M, nf_load_average = collect_load_average M\<rparr>)"

section \<open>Lemmas\<close>

text \<open>The first closing parenthesis of a line, and a character boundary two bytes behind it.\<close>

definition cut_ok :: "string \<Rightarrow> bool" where
  "cut_ok stat \<longleftrightarrow>
     (\<forall>a b. stat = a @ '')'' @ b \<and> CHR '')'' \<notin> set a \<longrightarrow> b \<noteq> [] \<and> (length b = 1 \<or> \<not> byte_in 0x80 0xBF (b ! 1)))"

lemma str_find_char: "str_find [c] s = (if c \<in> set s then Some (length (takeWhile (\<lambda>x. x \<noteq> c) s)) else None)"
  by (induction s) auto

lemma start_time_returns: "is_inr (start_time_of stat) \<longleftrightarrow> cut_ok stat"
proof (cases "CHR '')'' \<in> set stat")
  case False
  then show ?thesis by (auto simp: start_time_of_def str_find_char cut_ok_def)
next
  case True
  define a where "a = takeWhile (\<lambda>x. x \<noteq> CHR '')'') stat"
  obtain b where b: "stat = a @ '')'' @ b" "CHR '')'' \<notin> set a"
    using True split_list_first [OF True] unfolding a_def by (auto simp: takeWhile_append)
  have "a' = a \<and> b' = b" if "stat = a' @ '')'' @ b'" "CHR '')'' \<notin> set a'" for a' b'
    using that b by (metis append_Cons append_Nil terminated_split)
  then have cut: "cut_ok stat \<longleftrightarrow> b \<noteq> [] \<and> (length b = 1 \<or> \<not> byte_in 0x80 0xBF (b ! 1))"
    using b unfolding cut_ok_def by blast
  have find: "str_find '')'' stat = Some (length a)" using True by (simp add: str_find_char a_def)
  have "slice_from stat (length a + 2) = (if b \<noteq> [] \<and> (length b = 1 \<or> \<not> byte_in 0x80 0xBF (b ! 1))
      then Inr (drop 1 b) else Inl (Panic ''byte index out of bounds''))"
    by (cases b) (auto simp: slice_from_def b(1) nth_append)
  then show ?thesis using cut find by (simp add: start_time_of_def)
qed

lemma start_time_of_line:
  assumes "CHR '')'' \<notin> set before" and "length flds = Suc n" and "list_all word_like flds" and "19 \<le> n" and "byte_in 0 0x7F (hd (hd flds))"
  shows "start_time_of (before @ '')'' @ '' '' @ str_join '' '' flds @ [CHR 0x0A]) = Inr (Some (flds ! 19))"
proof -
  let ?line = "before @ '')'' @ '' '' @ str_join '' '' flds @ [CHR 0x0A]"
  have words: "list_all word_like fs \<Longrightarrow> fs \<noteq> [] \<Longrightarrow> split_whitespace (str_join '' '' fs @ [CHR 0x0A]) = fs" for fs
  proof (induction "'' ''" fs rule: str_join.induct)
    case (2 x)
    then show ?case using split_whitespace_word [of x "[CHR 0x0A]"] split_whitespace_spaces [of "[CHR 0x0A]" "[]"]
      by (simp add: word_like_def is_space_def)
  next
    case (3 x y ys)
    then show ?case using split_word_space [of x "str_join '' '' (y # ys) @ [CHR 0x0A]"] by simp
  qed simp
  have "str_find '')'' ?line = Some (length before)" using assms(1) by (simp add: str_find_char takeWhile_append)
  moreover have "slice_from ?line (length before + 2) = Inr (str_join '' '' flds @ [CHR 0x0A])"
  proof -
    obtain c f fs where f: "flds = (c # f) # fs" using assms(2,3) by (cases flds; cases "hd flds") (auto simp: word_like_def)
    then have "(str_join '' '' flds @ [CHR 0x0A]) ! 0 = c" by (cases fs) simp_all
    then have "\<not> byte_in 0x80 0xBF ((str_join '' '' flds @ [CHR 0x0A]) ! 0)" using assms(5) f by (simp add: byte_in_def)
    then show ?thesis by (auto simp: slice_from_def nth_append)
  qed
  moreover have "flds \<noteq> []" using assms(2) by auto
  ultimately show ?thesis using words [OF assms(3)] assms(2,4) by (simp add: start_time_of_def nth_of_def)
qed

section \<open>Concrete inputs\<close>

text \<open>A process whose name is a closing parenthesis and a letter of two bytes.\<close>

definition demo_stat :: string where
  "demo_stat = ''7 ()'' @ [CHR 0xC3, CHR 0xA9] @ '') S 1''"

definition demo_named :: machine where
  "demo_named = \<lparr>mc_file = [''/proc/7/stat'' \<mapsto> demo_stat],
     mc_dir = (\<lambda>path. if path = ''/proc'' then Some [Some (proc_entry ''7'')] else None), mc_link = (\<lambda>_. None),
     mc_pid = 1, mc_role = None, mc_now = 0, mc_os_error = ''io''\<rparr>"

section \<open>Properties\<close>

text \<open>
  C37.  When the snapshot fails: it returns exactly when in every \<open>stat\<close> file a character starts two bytes behind the first
  closing parenthesis.  That is so for the line the kernel prints when the name of the process has no such parenthesis,
  and then the start time is its 22nd field; a process can choose a name that makes the snapshot panic.
\<close>

theorem snapshot_returns_iff:
  "(is_inr (collect_forensic_snapshot f64 M) \<longleftrightarrow>
     (\<forall>pid stat. pid \<in> set (numbered M) \<longrightarrow> read_to_string M (pid_path pid @ ''/stat'') = Some stat \<longrightarrow> cut_ok stat)) \<and>
   (CHR '')'' \<notin> set before \<longrightarrow> list_all word_like flds \<longrightarrow> 20 \<le> length flds \<longrightarrow> byte_in 0 0x7F (hd (hd flds)) \<longrightarrow>
     start_time_of (before @ '')'' @ '' '' @ str_join '' '' flds @ [CHR 0x0A]) = Inr (Some (flds ! 19)))"
proof -
  have "is_inr (process_detail M pid) \<longleftrightarrow> (\<forall>stat. read_to_string M (pid_path pid @ ''/stat'') = Some stat \<longrightarrow> cut_ok stat)" for pid
  proof (cases "read_to_string M (pid_path pid @ ''/stat'')")
    case (Some stat)
    then show ?thesis using start_time_returns [of stat] by (cases "start_time_of stat") (simp_all add: process_detail_def Let_def)
  qed (simp add: process_detail_def Let_def)
  moreover have "is_inr (collect_forensic_snapshot f64 M) \<longleftrightarrow> is_inr (res_map (process_detail M) (numbered M))"
    by (cases "res_map (process_detail M) (numbered M)") (simp_all add: collect_forensic_snapshot_def collect_process_tree_def)
  ultimately have "is_inr (collect_forensic_snapshot f64 M) \<longleftrightarrow>
     (\<forall>pid stat. pid \<in> set (numbered M) \<longrightarrow> read_to_string M (pid_path pid @ ''/stat'') = Some stat \<longrightarrow> cut_ok stat)"
    by (auto simp: res_map_is_inr list_all_iff)
  then show ?thesis using start_time_of_line [of before flds "length flds - 1"] by simp
qed

theorem snapshot_returns_iff_witness: "\<not> is_inr (collect_forensic_snapshot (\<lambda>_. None) demo_named)"
proof -
  have seven: "show_nat 7 = ''7''" using char_of_char [of "CHR ''7''", where 'a = nat] by (simp add: show_nat.simps digit_char_def)
  have "from_utf8_lossy ''7'' = ''7''" by (rule from_utf8_lossy_valid, rule utf8_ascii) (simp add: byte_in_def)
  then have "numbered demo_named = [7]"
    using parse_unsigned_show [of 32 7] seven
    by (simp add: numbered_def demo_named_def read_dir_def proc_entry_def lossy_name_def List.map_filter_simps)
  moreover have "read_to_string demo_named (pid_path 7 @ ''/stat'') = Some demo_stat"
    using seven by (simp add: read_to_string_def demo_named_def pid_path_def show_word_def demo_stat_def utf8_tail_def byte_in_def)
  moreover have "\<not> cut_ok demo_stat"
  proof
    let ?b = "[CHR 0xC3, CHR 0xA9] @ '') S 1''"
    assume "cut_ok demo_stat"
    moreover have "demo_stat = ''7 ('' @ '')'' @ ?b \<and> CHR '')'' \<notin> set ''7 (''" by (simp add: demo_stat_def)
    ultimately have "length ?b = 1 \<or> \<not> byte_in 0x80 0xBF (?b ! 1)" unfolding cut_ok_def by blast
    then show False by (simp add: byte_in_def)
  qed
  ultimately show ?thesis
    using snapshot_returns_iff [of "\<lambda>_. None" demo_named] by auto
qed

end
