(* ===== verification/Spec2Isabelle.thy ===== *)
theory Spec2Isabelle
  imports Vm0_Cli Init_Credentials Baseline_Tool Dashboard Forensics
begin

text \<open>
  AbertayMFA is a zero-trust attestation agent (\<open>src/mfa-agent\<close>) and a monitor for its logs
  (\<open>src/mfa-monitor\<close>).  This development models the agent with its collectors and tools, and the
  monitor with its web pages.

  \<^bold>\<open>The program.\<close>  One binary runs in five roles.  An operator authenticates on vm0 (the orchestrator)
  with two passphrases.  vm0 and vm4 (a second orchestrator with its own operator) attest to each other;
  then vm0 sends vm1 (the client) a signed INITIATE.  vm1 builds a telescoping onion circuit through
  proxies to vm2 (the zero trust server), collects a TPM quote with IMA log and measured state from every
  hop and submits this chain 1 to vm2.  vm2 verifies it against a baseline database, builds chain 2 to vm3
  (the distributed authority) in the same way and forwards the results; vm3 verifies chain 2, asks vm4 for
  its quorum and answers with an authorization and a token.  The same submission is repeated as a
  heartbeat.  vm2 and vm3 track what every node reported last and keep a hash-chained audit log.

  \<^bold>\<open>Theories and sources\<close> (paths under \<open>src/mfa-agent/src\<close>):

  \<^item> \<open>Prelude\<close>: Rust's integers as words, \<open>Result\<close> as \<open>error + 'a\<close> (an \<open>anyhow\<close> error or a panic), fallible steps
    over a state (\<open>io\<close>), byte orders, and the string operations the code uses (\<open>find\<close>, \<open>split\<close>, \<open>lines\<close>, \<open>parse\<close>,
    \<open>format!\<close> of numbers), with their lemmas.
  \<^item> \<open>Config\<close>: \<open>config/mod.rs\<close> and the role dispatch of \<open>main\<close>.
  \<^item> \<open>Crypto\<close>: \<open>crypto/mod.rs\<close>.  Kyber, X25519, ChaCha20-Poly1305 and SHA-256 are the record \<open>crypto_ext\<close>; what is
    relied on of them are \<open>kem_correct\<close>, \<open>dh_correct\<close> and \<open>aead_correct\<close>.  HMAC and the key derivation are the
    code's own and are modelled.
  \<^item> \<open>Network\<close>: \<open>network/mod.rs\<close>: length-prefixed frames and the retry loop.  \<open>bincode\<close> is a \<open>codec\<close>.
  \<^item> \<open>Attest_Types\<close>, \<open>Tpm\<close>: the records of \<open>ebpf\<close>, \<open>sysmon\<close> and \<open>tpm/mod.rs\<close> and the quote and signature logic of
    \<open>tpm/mod.rs\<close> over the outcomes of the TPM stack.
  \<^item> \<open>Protocol\<close>, \<open>Attest_Verify\<close>: \<open>protocol/mod.rs\<close>: messages, the baseline database and every check of
    \<open>verify_attestation\<close> with the text it reports.
  \<^item> \<open>Orchestrator\<close>: \<open>orchestrator/mod.rs\<close>: INITIATE, its verification, the replay cache, operators.
  \<^item> \<open>Node\<close>: what a running agent sees of its machine: sockets, entropy, clock, TPM.
  \<^item> \<open>Circuit\<close>: \<open>main.rs\<close>, the onion layers, circuit building and the proxy.
  \<^item> \<open>Audit_Record\<close>, \<open>Audit_Log\<close>: \<open>audit/mod.rs\<close>: metadata, records recovered from the verifier's texts, tiers,
    and the logger with its hash chain and recovery.
  \<^item> \<open>Dual_Authority\<close>: \<open>dual_authority/mod.rs\<close>: the encrypted wire format, mutual attestation, the quorum, and vm4's
    shared cell as a step relation \<open>vm4_step\<close>.
  \<^item> \<open>Chain\<close>: \<open>main.rs\<close>, the client's submission and heartbeat and the handlers of vm2 and vm3, with trackers,
    audit log and quorum.
  \<^item> \<open>Orch_Channel\<close>, \<open>Vm1_Session\<close>, \<open>Vm0_Session\<close>: \<open>main.rs\<close>, the channel between vm0 and vm1, the INITIATE connection of
    vm1 (\<open>handle_initiate_connection\<close>), and vm0 (\<open>run_orchestrator\<close>, \<open>handle_authenticate\<close>, \<open>run_heartbeat_driver\<close>), whose
    commands and drivers interleave as the step relation \<open>vm0_step\<close>.
  \<^item> \<open>Session_Tracker\<close>: \<open>src/mfa-monitor/src/session_tracker.rs\<close>: entries grouped into sessions and stored with an index,
    against a specification that keeps only the entries.
  \<^item> \<open>Utf8\<close>, \<open>Machine\<close>: text decoding, and what the collectors use of a machine and of the standard library: files,
    directories and links by path, sorted sets and maps, white space and hexadecimal numbers.
  \<^item> \<open>Netfilter\<close>: \<open>netfilter/mod.rs\<close>: the filter table of the kernel, its hash and its printed form, and the search for an
    XDP program in an answer of the kernel.
  \<^item> \<open>Processes\<close>, \<open>Measured_Files\<close>, \<open>Fd_Audit\<close>, \<open>Forensics\<close>: \<open>ebpf/mod.rs\<close>: processes and sockets, measured files and
    settings, open descriptors, and the forensic snapshot.
  \<^item> \<open>Bpf\<close>: the BPF programs and XDP statistics of \<open>ebpf/mod.rs\<close> and \<open>sysmon/mod.rs\<close>, over the answers of the \<open>bpf\<close> system
    call and the table of open descriptors.
  \<^item> \<open>Collectors\<close>: \<open>collect_state\<close> of \<open>ebpf/mod.rs\<close>, which calls all of them.
  \<^item> \<open>Terminal\<close>, \<open>Vm0_Cli\<close>, \<open>Init_Credentials\<close>, \<open>Baseline_Tool\<close>: reading lines, and the command line tools \<open>bin/vm0-cli.rs\<close> (also run
    against vm0), \<open>bin/init-credentials.rs\<close> and \<open>bin/baseline-tool.rs\<close>.
  \<^item> \<open>Secure_Channel\<close>, \<open>Log_Forwarder\<close>: \<open>src/mfa-monitor/src/lib.rs\<close> and \<open>bin/logfwd.rs\<close>: the wire protocol of the monitor, and
    the forwarder that tails the audit log.
  \<^item> \<open>Monitor\<close>, \<open>Monitor_Chain\<close>: \<open>src/mfa-monitor/src/bin/monitor.rs\<close>: configuration, shared state and the connection of a
    source, and what its chain flag, lists and files say of the log of the source.
  \<^item> \<open>Pages\<close>, \<open>Node_Page\<close>, \<open>Overview\<close>, \<open>Dashboard\<close>: \<open>src/mfa-monitor/src/bin/monitor.rs\<close>: the pages (sessions, differences and
    events; an event and a node; the overview with its panels), and the request and the routes that lead to them.  A
    slice that leaves a text or cuts a character is a panic, and the rules in \<open>renders\<close> say when a page returns.
  \<^item> \<open>Samples\<close>: concrete values.

  \<^bold>\<open>What is shown.\<close>  Attestation: an honest node passes, what each flag means, and a node that passes has only
  appended to its IMA log, also over all the heartbeats of a session.  Audit log: it is a hash chain in every
  reachable state, over restarts and over whole served connections, and determined by its last hash.
  Authorization: which INITIATE is accepted and that one is admitted once but for two characterised cases;
  when vm3 and vm4 approve; that vm4 approves nothing its operator did not authenticate for, under every
  interleaving; that vm0 calls a session authorized or active only after all of its checks, under every
  interleaving of commands and heartbeats; that vm1 acts on nothing but an admitted INITIATE; and how soon a
  session ends after its time or a revocation.  Channels: both ends of a handshake hold the same key, onion cells reach their hop intact,
  frames and sealed messages round trip.  Every server loop returns.  The monitor's tracker refines the plain
  lists of entries per source, and what it stores verifies; an intact flag of the monitor vouches for everything behind
  a genuine newest entry, the lines of the audit log reach it each once and in order, and its lists hold the newest
  entries.  Collectors: what is collected is well formed, the manifest and the ports are those of the kernel's tables, the
  hashes of processes and filter rules identify them, a changed program is named by the verifier, the kernel and
  descriptor checks report exactly what they should, and a collection ends with every descriptor closed.  Tools: a node
  whose baseline was captured, copied and merged is accepted later, the operator is shown what vm0 answered, and
  credentials change only after both passphrases were confirmed.  Dashboard: every request is answered after any
  messages and write failures, when what was sent can be cut into columns; one record that cannot hides the overview;
  the banner follows the newest record of every node; and no request reaches a file the monitor did not store.  Some properties state where the code
  falls short: verdicts that are constants, evidence that is not bound to the signature, a token in a denial,
  a replay window, a lost request, a log that does not survive a failed append.

  \<^bold>\<open>Interfaces.\<close>  \<open>length_prefix\<close> (byte orders; big endian for \<open>network\<close>, little endian for vm4), \<open>baseline_store\<close> (the
  database), \<open>message_channel\<close> (sealed messages; vm0 with vm1, vm4, and both directions between forwarder and monitor), \<open>replay_guard\<close> (the cache alone and the whole admission), \<open>message_server\<close> and \<open>session_server\<close> (the
  handlers of vm2 and vm3).

  \<^bold>\<open>Bounds.\<close>  Server loops take a number of rounds and have the value \<open>None\<close> when it runs out; the handlers give
  them one more than the bytes waiting on the connection, which is enough because every frame takes at least
  four.  A heartbeat driver gets one round per minute of its session and two more, which is enough because ticks
  are a minute apart.  The two loops over the BPF programs are partial functions with the value \<open>None\<close> when they do not
  end; they end because the kernel answers with increasing numbers.  The loop over the
  passphrases is one too, and does not end when the input does.  \<open>connect\<close> retries over a list of outcomes.  A connection is the finite sequence of bytes the peer will
  send, and may stop accepting bytes at any point.

  \<^bold>\<open>What is not modelled.\<close>  The fixed markup of the overview and the style sheet, the eBPF programs in C and their loader, the
  module \<open>xdp\<close> (which no crate declares), the calls into the TPM stack (also the export of the signing key), accept loops (also those of
  the monitor's two listeners),
  and console output but for what the command line tools show.  The module \<open>yubikey\<close> is named by the sources and not part of them: it is an
  argument of \<open>validate_operator\<close>.  Reading a decimal fraction (the uptime) is an argument of the snapshot, the
  width of a histogram bar one of the pages, and so are the JSON texts of the interface and the order of a hash map.
\<close>

end
